(* ===== verification/Prelude.thy ===== *)
theory Prelude
  imports Main "HOL-Library.List_Lexorder" "HOL-Library.Char_ord"
    "HOL-Library.Product_Lexorder" "HOL-Library.Option_ord"
begin

text \<open>
  Shared vocabulary of the development: the result type of fallible code (\<open>'e + 'a\<close>, with \<open>Inl\<close> the error) with its
  sequencing combinators and loops, and generic lemmas on lists.  Strings are lists of UTF-8 bytes.
\<close>

named_theorems res_simps
  \<open>unfolding and splitting rules for results\<close>

section \<open>Results\<close>

fun bindr :: "'e + 'a \<Rightarrow> ('a \<Rightarrow> 'e + 'b) \<Rightarrow> 'e + 'b" where
  "bindr (Inl e) f = Inl e"
| "bindr (Inr a) f = f a"

definition ok_or :: "'a option \<Rightarrow> 'e \<Rightarrow> 'e + 'a" where
  "ok_or x e = (case x of None \<Rightarrow> Inl e | Some a \<Rightarrow> Inr a)"

definition guardr :: "bool \<Rightarrow> 'e \<Rightarrow> 'e + unit" where
  "guardr b e = (if b then Inr () else Inl e)"

text \<open>\<open>collect::<Result<Vec<_>, _>>()\<close>: the first error stops the traversal.\<close>

fun mapM :: "('a \<Rightarrow> 'e + 'b) \<Rightarrow> 'a list \<Rightarrow> 'e + 'b list" where
  "mapM f [] = Inr []"
| "mapM f (x # xs) = bindr (f x) (\<lambda>y. bindr (mapM f xs) (\<lambda>ys. Inr (y # ys)))"

text \<open>A \<open>for\<close> loop whose body may return early with an error.\<close>

fun foldM :: "('s \<Rightarrow> 'a \<Rightarrow> 'e + 's) \<Rightarrow> 's \<Rightarrow> 'a list \<Rightarrow> 'e + 's" where
  "foldM f s [] = Inr s"
| "foldM f s (x # xs) = bindr (f s x) (\<lambda>s'. foldM f s' xs)"

lemma bindr_eq_Inr [res_simps]:
  "bindr m f = Inr b \<longleftrightarrow> (\<exists>a. m = Inr a \<and> f a = Inr b)"
  by (cases m) auto

lemma bindr_eq_Inl [res_simps]:
  "bindr m f = Inl e \<longleftrightarrow> m = Inl e \<or> (\<exists>a. m = Inr a \<and> f a = Inl e)"
  by (cases m) auto

lemma ok_or_eq_Inr [simp]: "ok_or x e = Inr a \<longleftrightarrow> x = Some a"
  by (cases x) (auto simp: ok_or_def)

lemma ok_or_simps [simp]: "ok_or None e = Inl e" "ok_or (Some a) e = Inr a"
  by (simp_all add: ok_or_def)

lemma guardr_eq_Inr [simp]: "guardr b e = Inr u \<longleftrightarrow> b"
  by (simp add: guardr_def)

lemma guardr_eq_Inl [simp]: "guardr b e = Inl e' \<longleftrightarrow> \<not> b \<and> e' = e"
  by (auto simp: guardr_def)

lemma bindr_guardr [simp]: "bindr (guardr b e) f = (if b then f () else Inl e)"
  by (simp add: guardr_def)

lemma bindr_InrE:
  assumes "bindr m f = Inr b" obtains a where "m = Inr a" and "f a = Inr b"
  using assms by (auto simp: bindr_eq_Inr)

lemma if_Inl_InrE:
  assumes "(if c then Inl e else x) = Inr b" obtains "\<not> c" and "x = Inr b"
  using assms by (auto split: if_splits)

lemma bindr_cong [fundef_cong]:
  "m = n \<Longrightarrow> (\<And>a. n = Inr a \<Longrightarrow> f a = g a) \<Longrightarrow> bindr m f = bindr n g"
  by (cases n) auto

lemma foldM_invariant:
  assumes "foldM f s xs = Inr s'" and "P s"
    and "\<And>s x s'. P s \<Longrightarrow> x \<in> set xs \<Longrightarrow> f s x = Inr s' \<Longrightarrow> P s'"
  shows "P s'"
  using assms(1,2,3)
proof (induction xs arbitrary: s)
  case (Cons x xs)
  from Cons.prems(1) obtain t where t: "f s x = Inr t" "foldM f t xs = Inr s'"
    by (auto simp: bindr_eq_Inr)
  have "P t" by (rule Cons.prems(3)[OF Cons.prems(2) _ t(1)]) simp
  with t(2) show ?case by (rule Cons.IH) (rule Cons.prems(3), simp_all)
qed simp

lemma foldM_append:
  "foldM f s (xs @ ys) = bindr (foldM f s xs) (\<lambda>s'. foldM f s' ys)"
proof (induction xs arbitrary: s)
  case (Cons x xs)
  then show ?case by (cases "f s x") simp_all
qed simp

lemma foldM_total:
  assumes "\<And>s x. x \<in> set xs \<Longrightarrow> f s x = Inr (g s x)"
  shows "foldM f s xs = Inr (foldl g s xs)"
  using assms by (induction xs arbitrary: s) simp_all

lemma mapM_length: "mapM f xs = Inr ys \<Longrightarrow> length ys = length xs"
  by (induction xs arbitrary: ys) (auto simp: bindr_eq_Inr)

lemma mapM_set: "mapM f xs = Inr ys \<Longrightarrow> y \<in> set ys \<Longrightarrow> \<exists>x \<in> set xs. f x = Inr y"
  by (induction xs arbitrary: ys) (auto simp: bindr_eq_Inr)

lemma mapM_list_all2: "mapM f xs = Inr ys \<Longrightarrow> list_all2 (\<lambda>x y. f x = Inr y) xs ys"
  by (induction xs arbitrary: ys) (auto simp: bindr_eq_Inr)

lemma mapM_total:
  "(\<And>x. x \<in> set xs \<Longrightarrow> f x = Inr (g x)) \<Longrightarrow> mapM f xs = Inr (map g xs)"
  by (induction xs) simp_all

lemma foldl_invariant:
  assumes "P s" and "\<And>s x. P s \<Longrightarrow> x \<in> set xs \<Longrightarrow> P (f s x)"
  shows "P (foldl f s xs)"
  using assms by (induction xs arbitrary: s) simp_all

text \<open>Splitting a text at a separator that its first, or its last, part does not contain.\<close>

lemma append_sep_eq: "c \<notin> set a \<Longrightarrow> c \<notin> set b \<Longrightarrow> a @ c # x = b @ c # y \<Longrightarrow> a = b \<and> x = y"
proof (induction a arbitrary: b)
  case Nil then show ?case by (cases b) auto
next
  case (Cons p a) then show ?case by (cases b) auto
qed

lemma append_last_sep_eq:
  assumes "c \<notin> set x" and "c \<notin> set y" and "a @ c # x = b @ c # y"
  shows "a = b \<and> x = y"
proof -
  have "rev x @ c # rev a = rev y @ c # rev b" using arg_cong[OF assms(3), of rev] by simp
  then show ?thesis using append_sep_eq[of c "rev x" "rev y" "rev a" "rev b"] assms(1,2) by simp
qed

lemma distinct_map_finer:
  assumes "distinct (map g xs)" and "\<And>x y. f x = f y \<Longrightarrow> g x = g y"
  shows "distinct (map f xs)"
  using assms(1)
proof (induction xs)
  case (Cons x xs)
  have "f x \<notin> f ` set xs"
  proof
    assume "f x \<in> f ` set xs"
    then obtain y where y: "y \<in> set xs" "f x = f y" by blast
    with assms(2)[OF y(2)] Cons.prems show False by simp
  qed
  with Cons show ?case by simp
qed simp

lemma strict_sorted_dedup: "sorted (xs :: 'a::linorder list) \<Longrightarrow> sorted_wrt (<) (remdups_adj xs)"
  by (induction xs rule: remdups_adj.induct) (auto simp: order_le_less)

end
