(* ===== verification/BTree.thy ===== *)
theory BTree
  imports Prelude
begin

text \<open>
  \<open>std::collections::BTreeMap\<close> and \<open>BTreeSet\<close>.  A map is the list of its entries in
  strictly increasing key order, so that iteration order is part of the value, as the code
  relies on.  The locale \<open>ordered_map\<close> is the interface the other theories use: lookup after
  insertion, the order of the entries, and the meaning of a loop that updates one entry per
  element (the \<open>entry(..).and_modify(..).or_insert(..)\<close> idiom of the code).
\<close>

section \<open>The interface\<close>

locale ordered_map =
  fixes empty :: "'m"
    and get :: "'m \<Rightarrow> 'k::linorder \<Rightarrow> 'v option"
    and insert :: "'k \<Rightarrow> 'v \<Rightarrow> 'm \<Rightarrow> 'm"
    and remove :: "'k \<Rightarrow> 'm \<Rightarrow> 'm"
    and entries :: "'m \<Rightarrow> ('k \<times> 'v) list"
    and inv :: "'m \<Rightarrow> bool"
  assumes get_empty: "get empty k = None"
    and inv_empty: "inv empty"
    and get_insert: "inv m \<Longrightarrow> get (insert k v m) j = (if j = k then Some v else get m j)"
    and inv_insert: "inv m \<Longrightarrow> inv (insert k v m)"
    and get_remove: "inv m \<Longrightarrow> get (remove k m) j = (if j = k then None else get m j)"
    and inv_remove: "inv m \<Longrightarrow> inv (remove k m)"
    and entries_get: "inv m \<Longrightarrow> (k, v) \<in> set (entries m) \<longleftrightarrow> get m k = Some v"
    and entries_sorted: "inv m \<Longrightarrow> sorted_wrt (<) (map fst (entries m))"
begin

lemma entries_distinct: "inv m \<Longrightarrow> distinct (map fst (entries m))"
  using entries_sorted strict_sorted_iff by blast

lemma keys_get: "inv m \<Longrightarrow> set (map fst (entries m)) = {k. get m k \<noteq> None}"
  using entries_get by (force simp: image_iff)

lemma inv_fold_update:
  "inv m \<Longrightarrow> inv (foldl (\<lambda>m x. insert (key x) (upd (get m (key x)) x) m) m xs)"
  by (induction xs arbitrary: m) (auto intro: inv_insert)

text \<open>A loop that updates one entry per element acts on each key by the elements of that
  key alone, in their order.\<close>

lemma get_fold_update:
  "inv m \<Longrightarrow>
   get (foldl (\<lambda>m x. insert (key x) (upd (get m (key x)) x) m) m xs) k =
   foldl (\<lambda>r x. Some (upd r x)) (get m k) (filter (\<lambda>x. key x = k) xs)"
proof (induction xs arbitrary: m)
  case (Cons x xs)
  let ?m = "insert (key x) (upd (get m (key x)) x) m"
  have "inv ?m" using Cons.prems by (rule inv_insert)
  then show ?case using Cons.IH[of ?m] Cons.prems by (simp add: get_insert)
qed simp

lemma keys_fold_update:
  assumes "inv m"
  shows "get (foldl (\<lambda>m x. insert (key x) (upd (get m (key x)) x) m) m xs) k \<noteq> None
    \<longleftrightarrow> get m k \<noteq> None \<or> (\<exists>x \<in> set xs. key x = k)"
proof -
  have some: "foldl (\<lambda>r x. Some (upd r x)) r ys \<noteq> None \<longleftrightarrow> r \<noteq> None \<or> ys \<noteq> []" for r ys
    by (induction ys arbitrary: r) auto
  show ?thesis by (simp only: get_fold_update[OF assms] some) (auto simp: filter_empty_conv)
qed

end

section \<open>Sorted entry lists\<close>

type_synonym ('k, 'v) btree = "('k \<times> 'v) list"

definition bt_get :: "('k, 'v) btree \<Rightarrow> 'k \<Rightarrow> 'v option" where
  "bt_get m k = map_of m k"

fun bt_insert :: "'k::linorder \<Rightarrow> 'v \<Rightarrow> ('k, 'v) btree \<Rightarrow> ('k, 'v) btree" where
  "bt_insert k v [] = [(k, v)]"
| "bt_insert k v ((j, w) # m) =
     (if k < j then (k, v) # (j, w) # m
      else if k = j then (k, v) # m
      else (j, w) # bt_insert k v m)"

definition bt_remove :: "'k \<Rightarrow> ('k, 'v) btree \<Rightarrow> ('k, 'v) btree" where
  "bt_remove k m = filter (\<lambda>e. fst e \<noteq> k) m"

definition bt_inv :: "('k::linorder, 'v) btree \<Rightarrow> bool" where
  "bt_inv m \<longleftrightarrow> sorted_wrt (<) (map fst m)"

text \<open>\<open>m.entry(k)\<close> with an update of the previous value, if any.\<close>

definition bt_update :: "'k::linorder \<Rightarrow> ('v option \<Rightarrow> 'v) \<Rightarrow> ('k, 'v) btree \<Rightarrow> ('k, 'v) btree" where
  "bt_update k f m = bt_insert k (f (bt_get m k)) m"

definition bt_values :: "('k, 'v) btree \<Rightarrow> 'v list" where
  "bt_values m = map snd m"

definition bt_keys :: "('k, 'v) btree \<Rightarrow> 'k list" where
  "bt_keys m = map fst m"

definition bt_contains :: "('k, 'v) btree \<Rightarrow> 'k \<Rightarrow> bool" where
  "bt_contains m k \<longleftrightarrow> bt_get m k \<noteq> None"

definition bt_of_list :: "('k::linorder \<times> 'v) list \<Rightarrow> ('k, 'v) btree" where
  "bt_of_list xs = foldl (\<lambda>m (k, v). bt_insert k v m) [] xs"

lemma bt_get_Nil [simp]: "bt_get [] k = None"
  by (simp add: bt_get_def)

lemma set_keys_bt_insert [simp]: "fst ` set (bt_insert k v m) = insert k (fst ` set m)"
  by (induction k v m rule: bt_insert.induct) auto

lemma bt_get_bt_insert_raw: "map_of (bt_insert k v m) = (map_of m)(k \<mapsto> v)"
  by (induction k v m rule: bt_insert.induct) (auto simp: fun_eq_iff)

lemma bt_inv_bt_insert: "bt_inv m \<Longrightarrow> bt_inv (bt_insert k v m)"
proof (induction k v m rule: bt_insert.induct)
  case (2 k v j w m)
  have "\<forall>x \<in> fst ` set (bt_insert k v m). j < x" if "\<not> k < j" "k \<noteq> j"
    using that 2(2) by (simp only: set_keys_bt_insert) (auto simp: bt_inv_def)
  with 2 show ?case by (auto simp: bt_inv_def)
qed (simp add: bt_inv_def)

lemma bt_inv_distinct: "bt_inv m \<Longrightarrow> distinct (map fst m)"
  using strict_sorted_iff by (auto simp: bt_inv_def)

interpretation bt: ordered_map "[]" bt_get bt_insert bt_remove "\<lambda>m. m" bt_inv
proof unfold_locales
  fix m :: "('a::linorder, 'b) btree" and k j :: 'a and v :: 'b
  show "bt_get [] k = None" by simp
  show "bt_inv ([] :: ('a, 'b) btree)" by (simp add: bt_inv_def)
  show "bt_get (bt_insert k v m) j = (if j = k then Some v else bt_get m j)"
    by (simp add: bt_get_def bt_get_bt_insert_raw)
  show "bt_inv m \<Longrightarrow> bt_inv (bt_insert k v m)" by (rule bt_inv_bt_insert)
  show "bt_get (bt_remove k m) j = (if j = k then None else bt_get m j)"
    by (induction m) (auto simp: bt_get_def bt_remove_def)
  show "bt_inv m \<Longrightarrow> bt_inv (bt_remove k m)"
    unfolding bt_inv_def bt_remove_def by (induction m) auto
  show "bt_inv m \<Longrightarrow> (k, v) \<in> set m \<longleftrightarrow> bt_get m k = Some v"
    using bt_inv_distinct by (fastforce simp: bt_get_def)
  show "bt_inv m \<Longrightarrow> sorted_wrt (<) (map fst m)" by (simp add: bt_inv_def)
qed

lemmas bt_inv_simps [simp] = bt.inv_empty bt.inv_insert bt.inv_remove

lemma bt_get_insert [simp]: "bt_get (bt_insert k v m) j = (if j = k then Some v else bt_get m j)"
  by (simp add: bt_get_def bt_get_bt_insert_raw)

lemma bt_get_update [simp]:
  "bt_get (bt_update k f m) j = (if j = k then Some (f (bt_get m k)) else bt_get m j)"
  by (simp add: bt_update_def)

lemma bt_inv_update [simp]: "bt_inv m \<Longrightarrow> bt_inv (bt_update k f m)"
  by (simp add: bt_update_def)

lemma bt_keys_insert: "set (bt_keys (bt_insert k v m)) = insert k (set (bt_keys m))"
  by (simp add: bt_keys_def)

lemma bt_get_in: "bt_get m k = Some v \<Longrightarrow> (k, v) \<in> set m"
  unfolding bt_get_def by (rule map_of_SomeD)

lemma bt_get_mem_keys: "bt_get m k = None \<longleftrightarrow> k \<notin> set (bt_keys m)"
  by (simp add: bt_get_def bt_keys_def map_of_eq_None_iff)

lemma bt_values_entries: "v \<in> set (bt_values m) \<longleftrightarrow> (\<exists>k. (k, v) \<in> set m)"
  by (force simp: bt_values_def)

text \<open>Every entry of the result of an insertion is the new one or an old one.\<close>

lemma set_bt_insert: "set (bt_insert k v m) \<subseteq> insert (k, v) (set m)"
  by (induction k v m rule: bt_insert.induct) auto

lemma bt_insert_all:
  "(\<And>j w. (j, w) \<in> set m \<Longrightarrow> P j w) \<Longrightarrow> P k v \<Longrightarrow> (j, w) \<in> set (bt_insert k v m) \<Longrightarrow> P j w"
  using set_bt_insert[of k v m] by auto

text \<open>Inserting at a key that is present changes no key, so no length.\<close>

lemma bt_keys_insert_present:
  "bt_inv m \<Longrightarrow> bt_get m k \<noteq> None \<Longrightarrow> bt_keys (bt_insert k v m) = bt_keys m"
proof (induction k v m rule: bt_insert.induct)
  case (2 k v j w m)
  have "\<not> k < j" using 2(2,3) by (auto simp: bt_get_mem_keys bt_keys_def bt_inv_def)
  with 2 show ?case by (auto simp: bt_inv_def bt_keys_def bt_get_def)
qed simp

text \<open>A sum over the values changes by the new value less the one it replaces.\<close>

lemma bt_sum_insert:
  fixes f :: "'v \<Rightarrow> int"
  shows "bt_inv m \<Longrightarrow> sum_list (map f (bt_values (bt_insert k v m)))
    = sum_list (map f (bt_values m)) + f v - (case bt_get m k of None \<Rightarrow> 0 | Some w \<Rightarrow> f w)"
proof (induction k v m rule: bt_insert.induct)
  case (2 k v j w m)
  have "bt_inv m" and "k < j \<Longrightarrow> bt_get m k = None"
    using 2(2) by (force simp: bt_inv_def bt_get_def map_of_eq_None_iff)+
  with 2(1) show ?case by (auto simp: bt_values_def bt_get_def)
qed (simp add: bt_values_def)

lemma length_bt_keys [simp]: "length (bt_keys m) = length m"
  by (simp add: bt_keys_def)

section \<open>Ordered sets\<close>

text \<open>\<open>BTreeSet\<close>, as the strictly increasing list of its elements.\<close>

type_synonym 'k bset = "'k list"

fun bs_insert :: "'k::linorder \<Rightarrow> 'k bset \<Rightarrow> 'k bset" where
  "bs_insert k [] = [k]"
| "bs_insert k (j # s) = (if k < j then k # j # s else if k = j then j # s else j # bs_insert k s)"

definition bs_of_list :: "'k::linorder list \<Rightarrow> 'k bset" where
  "bs_of_list xs = foldl (\<lambda>s k. bs_insert k s) [] xs"

lemma set_bs_insert [simp]: "set (bs_insert k s) = insert k (set s)"
  by (induction k s rule: bs_insert.induct) auto

lemma bs_insert_not_Nil [simp]: "bs_insert k s \<noteq> []"
  by (cases s) auto

lemma sorted_bs_insert [simp]: "sorted_wrt (<) s \<Longrightarrow> sorted_wrt (<) (bs_insert k s)"
  by (induction k s rule: bs_insert.induct) auto

lemma set_foldl_bs_insert: "set (foldl (\<lambda>s k. bs_insert k s) s xs) = set s \<union> set xs"
  by (induction xs arbitrary: s) auto

lemma sorted_foldl_bs_insert:
  "sorted_wrt (<) s \<Longrightarrow> sorted_wrt (<) (foldl (\<lambda>s k. bs_insert k s) s xs)"
  by (induction xs arbitrary: s) auto

lemma set_bs_of_list [simp]: "set (bs_of_list xs) = set xs"
  by (simp add: bs_of_list_def set_foldl_bs_insert)

lemma sorted_bs_of_list [simp]: "sorted_wrt (<) (bs_of_list xs)"
  by (simp add: bs_of_list_def sorted_foldl_bs_insert)

lemma distinct_bs_of_list [simp]: "distinct (bs_of_list xs)"
  using sorted_bs_of_list strict_sorted_iff by blast

text \<open>Two ordered sets with the same elements are equal: the iteration order does not depend
  on the order of insertion.\<close>

lemma strict_sorted_eqI:
  assumes "sorted_wrt (<) (xs :: 'k::linorder list)" and "sorted_wrt (<) ys" and "set xs = set ys"
  shows "xs = ys"
  using assms by (simp add: strict_sorted_equal)

end
