(* ===== verification/Rust_Std.thy ===== *)
theory Rust_Std
  imports Prelude
begin

text \<open>
  The part of Rust's standard library the modelled sources call: 64-bit signed integers
  with the wrap-around of a release build, the operations of \<open>str\<close>, decimal printing
  and parsing of integers, and IEEE double-precision numbers with their decimal reader
  (\<open>str::parse::<f64>\<close>).
\<close>

section \<open>Signed 64-bit integers\<close>

text \<open>
  Values of type \<open>i64\<close> are integers in the range below.  The release profile does not
  enable overflow checks, so arithmetic wraps.
\<close>

definition in_i64 :: "int \<Rightarrow> bool" where
  "in_i64 x \<longleftrightarrow> - (2 ^ 63) \<le> x \<and> x < 2 ^ 63"

definition wrap_i64 :: "int \<Rightarrow> int" where
  "wrap_i64 x = (x + 2 ^ 63) mod 2 ^ 64 - 2 ^ 63"

definition i64_add :: "int \<Rightarrow> int \<Rightarrow> int" where
  "i64_add a b = wrap_i64 (a + b)"

definition i64_sub :: "int \<Rightarrow> int \<Rightarrow> int" where
  "i64_sub a b = wrap_i64 (a - b)"

definition i64_sum :: "int list \<Rightarrow> int" where
  "i64_sum xs = foldl i64_add 0 xs"

definition i64_of_bool :: "bool \<Rightarrow> int" where
  "i64_of_bool b = (if b then 1 else 0)"

lemma in_i64_wrap: "in_i64 (wrap_i64 x)"
proof -
  have "0 \<le> (x + 2 ^ 63) mod 2 ^ 64" and "(x + 2 ^ 63) mod 2 ^ 64 < 2 ^ 64"
    by simp_all
  then show ?thesis unfolding in_i64_def wrap_i64_def by simp
qed

lemma wrap_i64_id [simp]: "in_i64 x \<Longrightarrow> wrap_i64 x = x"
  by (simp add: in_i64_def wrap_i64_def)

lemma i64_add_exact: "in_i64 (a + b) \<Longrightarrow> i64_add a b = a + b"
  by (simp add: i64_add_def)

lemma i64_sub_exact: "in_i64 (a - b) \<Longrightarrow> i64_sub a b = a - b"
  by (simp add: i64_sub_def)

lemma wrap_i64_add_left: "wrap_i64 (wrap_i64 a + b) = wrap_i64 (a + b)"
proof -
  have "(wrap_i64 a + b + 2 ^ 63) mod 2 ^ 64 = ((a + 2 ^ 63) mod 2 ^ 64 + b) mod 2 ^ 64"
    by (simp add: wrap_i64_def algebra_simps)
  also have "\<dots> = (a + 2 ^ 63 + b) mod 2 ^ 64" by (rule mod_add_left_eq)
  finally show ?thesis by (simp add: wrap_i64_def algebra_simps)
qed

lemma foldl_i64_add: "foldl i64_add a xs = (if xs = [] then a else wrap_i64 (a + sum_list xs))"
proof (induction xs arbitrary: a)
  case (Cons x xs)
  then show ?case by (simp add: i64_add_def wrap_i64_add_left add.assoc)
qed simp

text \<open>Summation wraps only once: the result is the exact sum reduced into the range.\<close>

lemma i64_sum_wrap: "i64_sum xs = wrap_i64 (sum_list xs)"
  by (auto simp: i64_sum_def foldl_i64_add in_i64_def)

lemma i64_sum_exact: "in_i64 (sum_list xs) \<Longrightarrow> i64_sum xs = sum_list xs"
  by (simp add: i64_sum_wrap)

lemma i64_of_bool_range [simp]: "0 \<le> i64_of_bool b" "i64_of_bool b \<le> 1"
  by (simp_all add: i64_of_bool_def)

lemma i64_of_bool_pos [simp]: "0 < i64_of_bool b \<longleftrightarrow> b"
  by (simp add: i64_of_bool_def)

section \<open>Text\<close>

text \<open>\<open>char::is_whitespace\<close> on the bytes of a text: the number of bytes of the white-space
  character at its start, zero when there is none.  Beyond the six ASCII ones these are U+0085,
  U+00A0, U+1680, U+2000 to U+200A, U+2028, U+2029, U+202F, U+205F and U+3000.\<close>

definition is_ws :: "char \<Rightarrow> bool" where
  "is_ws c \<longleftrightarrow> c = CHR '' '' \<or> c = CHR 0x09 \<or> c = CHR 0x0A \<or> c = CHR 0x0B
     \<or> c = CHR 0x0C \<or> c = CHR 0x0D"

definition is_ws2 :: "char \<Rightarrow> char \<Rightarrow> bool" where
  "is_ws2 a b \<longleftrightarrow> a = CHR 0xC2 \<and> (b = CHR 0x85 \<or> b = CHR 0xA0)"

definition is_ws3 :: "char \<Rightarrow> char \<Rightarrow> char \<Rightarrow> bool" where
  "is_ws3 a b c \<longleftrightarrow> a = CHR 0xE1 \<and> b = CHR 0x9A \<and> c = CHR 0x80
     \<or> a = CHR 0xE2 \<and> b = CHR 0x80 \<and> (128 \<le> (of_char c :: int) \<and> (of_char c :: int) \<le> 138
         \<or> c = CHR 0xA8 \<or> c = CHR 0xA9 \<or> c = CHR 0xAF)
     \<or> a = CHR 0xE2 \<and> b = CHR 0x81 \<and> c = CHR 0x9F
     \<or> a = CHR 0xE3 \<and> b = CHR 0x80 \<and> c = CHR 0x80"

fun ws_prefix :: "string \<Rightarrow> nat" where
  "ws_prefix [] = 0"
| "ws_prefix [a] = (if is_ws a then 1 else 0)"
| "ws_prefix [a, b] = (if is_ws a then 1 else if is_ws2 a b then 2 else 0)"
| "ws_prefix (a # b # c # r) = (if is_ws a then 1 else if is_ws2 a b then 2 else if is_ws3 a b c then 3 else 0)"

text \<open>The same at the end, read from the reversed bytes.\<close>

fun ws_suffix_rev :: "string \<Rightarrow> nat" where
  "ws_suffix_rev [] = 0"
| "ws_suffix_rev [a] = (if is_ws a then 1 else 0)"
| "ws_suffix_rev [b, a] = (if is_ws b then 1 else if is_ws2 a b then 2 else 0)"
| "ws_suffix_rev (c # b # a # r) = (if is_ws c then 1 else if is_ws2 b c then 2 else if is_ws3 a b c then 3 else 0)"

lemma ws_prefix_pos: "0 < ws_prefix s \<Longrightarrow> 0 < length s" "0 < ws_suffix_rev s \<Longrightarrow> 0 < length s"
  by auto

function trim_start :: "string \<Rightarrow> string" where
  "trim_start s = (if ws_prefix s = 0 then s else trim_start (drop (ws_prefix s) s))"
  by pat_completeness auto
termination
  by (relation "measure length") (use ws_prefix_pos in \<open>auto intro!: diff_less\<close>)

function trim_end_rev :: "string \<Rightarrow> string" where
  "trim_end_rev s = (if ws_suffix_rev s = 0 then s else trim_end_rev (drop (ws_suffix_rev s) s))"
  by pat_completeness auto
termination
  by (relation "measure length") (use ws_prefix_pos in \<open>auto intro!: diff_less\<close>)

declare trim_start.simps [simp del] and trim_end_rev.simps [simp del]

definition trim_end :: "string \<Rightarrow> string" where
  "trim_end s = rev (trim_end_rev (rev s))"

definition trim :: "string \<Rightarrow> string" where
  "trim s = trim_end (trim_start s)"

lemma ws_prefix_append: "ws_prefix p \<noteq> 0 \<Longrightarrow> ws_prefix (p @ q) \<noteq> 0"
  by (cases p rule: ws_prefix.cases; cases q rule: ws_prefix.cases) (auto split: if_splits)

lemma ws_prefix_trim_start [simp]: "ws_prefix (trim_start s) = 0"
  by (induction s rule: trim_start.induct) (subst trim_start.simps, simp)

lemma trim_start_id: "ws_prefix s = 0 \<Longrightarrow> trim_start s = s"
  by (simp add: trim_start.simps)

lemma ws_suffix_trim_end_rev [simp]: "ws_suffix_rev (trim_end_rev s) = 0"
  by (induction s rule: trim_end_rev.induct) (subst trim_end_rev.simps, simp)

lemma trim_end_rev_id: "ws_suffix_rev s = 0 \<Longrightarrow> trim_end_rev s = s"
  by (simp add: trim_end_rev.simps)

lemma trim_end_rev_suffix: "\<exists>p. s = p @ trim_end_rev s"
proof (induction s rule: trim_end_rev.induct)
  case (1 s)
  show ?case
  proof (cases "ws_suffix_rev s = 0")
    case False
    then obtain p where "drop (ws_suffix_rev s) s = p @ trim_end_rev (drop (ws_suffix_rev s) s)" using 1 by blast
    then show ?thesis using False trim_end_rev.simps[of s]
      by (intro exI[of _ "take (ws_suffix_rev s) s @ p"]) (metis append.assoc append_take_drop_id)
  qed (simp add: trim_end_rev.simps)
qed

lemma trim_end_prefix: "\<exists>q. s = trim_end s @ q"
  using trim_end_rev_suffix[of "rev s"] unfolding trim_end_def by (metis rev_append rev_rev_ident)

text \<open>Trimming twice is trimming once.\<close>

lemma trim_trim [simp]: "trim (trim s) = trim s"
proof -
  obtain q where q: "trim_start s = trim s @ q" using trim_end_prefix[of "trim_start s"] by (auto simp: trim_def)
  have "ws_prefix (trim s) = 0" using ws_prefix_append[of "trim s" q] ws_prefix_trim_start[of s] unfolding q by auto
  then have "trim_start (trim s) = trim s" by (rule trim_start_id)
  then show ?thesis by (simp add: trim_def trim_end_def trim_end_rev_id)
qed

fun strip_prefix :: "string \<Rightarrow> string \<Rightarrow> string option" where
  "strip_prefix [] s = Some s"
| "strip_prefix (p # ps) [] = None"
| "strip_prefix (p # ps) (c # cs) = (if p = c then strip_prefix ps cs else None)"

definition starts_with :: "string \<Rightarrow> string \<Rightarrow> bool" where
  "starts_with p s \<longleftrightarrow> strip_prefix p s \<noteq> None"

lemma strip_prefix_Some: "strip_prefix p s = Some r \<longleftrightarrow> s = p @ r"
  by (induction p s rule: strip_prefix.induct) auto

lemma starts_with_append: "starts_with p s \<longleftrightarrow> (\<exists>r. s = p @ r)"
  by (auto simp: starts_with_def strip_prefix_Some)

fun contains_str :: "string \<Rightarrow> string \<Rightarrow> bool" where
  "contains_str p [] = (p = [])"
| "contains_str p (c # cs) = (starts_with p (c # cs) \<or> contains_str p cs)"

text \<open>\<open>s.split(c)\<close>: every separator ends a field; the last field may be empty.\<close>

fun split_on :: "char \<Rightarrow> string \<Rightarrow> string list" where
  "split_on c [] = [[]]"
| "split_on c (x # xs) =
     (if x = c then [] # split_on c xs
      else case split_on c xs of [] \<Rightarrow> [[x]] | f # fs \<Rightarrow> (x # f) # fs)"

fun split_once :: "char \<Rightarrow> string \<Rightarrow> (string \<times> string) option" where
  "split_once c [] = None"
| "split_once c (x # xs) =
     (if x = c then Some ([], xs)
      else map_option (\<lambda>(a, b). (x # a, b)) (split_once c xs))"

definition rsplit_once :: "char \<Rightarrow> string \<Rightarrow> (string \<times> string) option" where
  "rsplit_once c s = map_option (\<lambda>(a, b). (rev b, rev a)) (split_once c (rev s))"

text \<open>\<open>s.lines()\<close>: split after each line feed, without a final empty line, and with one
  trailing carriage return removed from each line.\<close>

definition strip_cr :: "string \<Rightarrow> string" where
  "strip_cr s = (if s \<noteq> [] \<and> last s = CHR 0x0D then butlast s else s)"

text \<open>The last line is not terminated by a line feed: it keeps its carriage return.\<close>

definition lines_of :: "string \<Rightarrow> string list" where
  "lines_of s = (let fs = split_on (CHR 0x0A) s
     in map strip_cr (butlast fs) @ (if last fs = [] then [] else [last fs]))"

text \<open>A text of terminated lines, none of which has a line break inside, is read back line by line.\<close>

definition one_line :: "string \<Rightarrow> bool" where
  "one_line l \<longleftrightarrow> CHR 0x0A \<notin> set l \<and> CHR 0x0D \<notin> set l"

definition unlines :: "string list \<Rightarrow> string" where
  "unlines ls = concat (map (\<lambda>l. l @ [CHR 0x0A]) ls)"

lemma split_on_append_sep: "c \<notin> set a \<Longrightarrow> split_on c (a @ c # b) = a # split_on c b"
  by (induction a) auto

lemma lines_of_unlines:
  assumes "list_all one_line ls"
  shows "lines_of (unlines ls) = ls"
proof -
  have "split_on (CHR 0x0A) (unlines ls) = ls @ [[]]"
    using assms by (induction ls) (simp_all add: unlines_def one_line_def split_on_append_sep)
  moreover have "strip_cr l = l" if "one_line l" for l
    using that by (cases l rule: rev_cases) (auto simp: strip_cr_def one_line_def)
  then have "map strip_cr ls = ls" using assms by (simp add: list_all_iff map_idI)
  ultimately show ?thesis by (simp add: lines_of_def)
qed

text \<open>\<open>s.split_whitespace()\<close>: each white-space character becomes a separator.\<close>

function blank_ws :: "string \<Rightarrow> string" where
  "blank_ws s = (case s of
      [] \<Rightarrow> []
    | c # cs \<Rightarrow> (if ws_prefix s = 0 then c # blank_ws cs else CHR '' '' # blank_ws (drop (ws_prefix s) s)))"
  by pat_completeness auto
termination
  by (relation "measure length") (use ws_prefix_pos in \<open>auto intro!: diff_less\<close>)

declare blank_ws.simps [simp del]

definition split_whitespace :: "string \<Rightarrow> string list" where
  "split_whitespace s = filter (\<lambda>f. f \<noteq> []) (split_on (CHR '' '') (blank_ws s))"

text \<open>Tokens of visible ASCII characters are read back between blanks, whatever bytes follow.\<close>

definition plain_char :: "char \<Rightarrow> bool" where
  "plain_char c \<longleftrightarrow> 33 \<le> (of_char c :: int) \<and> (of_char c :: int) \<le> 126"

definition plain_token :: "string \<Rightarrow> bool" where
  "plain_token t \<longleftrightarrow> list_all plain_char t"

lemma blank_ws_plain:
  "plain_char c \<Longrightarrow> blank_ws (c # cs) = c # blank_ws cs"
  "blank_ws (CHR '' '' # cs) = CHR '' '' # blank_ws cs"
proof -
  have "ws_prefix (c # cs) = 0" if "plain_char c"
  proof -
    have "\<not> is_ws c \<and> c \<noteq> CHR 0xC2 \<and> c \<noteq> CHR 0xE1 \<and> c \<noteq> CHR 0xE2 \<and> c \<noteq> CHR 0xE3"
      using that by (auto simp: is_ws_def plain_char_def)
    then show ?thesis by (cases "c # cs" rule: ws_prefix.cases) (auto simp: is_ws2_def is_ws3_def)
  qed
  then show "plain_char c \<Longrightarrow> blank_ws (c # cs) = c # blank_ws cs" by (subst blank_ws.simps) simp
  have "ws_prefix (CHR '' '' # cs) = 1" by (cases "CHR '' '' # cs" rule: ws_prefix.cases) (auto simp: is_ws_def)
  then show "blank_ws (CHR '' '' # cs) = CHR '' '' # blank_ws cs" by (subst blank_ws.simps) simp
qed

lemma blank_ws_token: "plain_token t \<Longrightarrow> blank_ws (t @ r) = t @ blank_ws r"
  by (induction t) (auto simp: plain_token_def blank_ws_plain)

lemma split_whitespace_token:
  assumes "plain_token t" and "t \<noteq> []"
  shows "split_whitespace (t @ CHR '' '' # r) = t # split_whitespace r" and "split_whitespace (CHR '' '' # r) = split_whitespace r"
proof -
  have "CHR '' '' \<notin> set t" using assms(1) by (auto simp: plain_token_def list_all_iff plain_char_def)
  then show "split_whitespace (t @ CHR '' '' # r) = t # split_whitespace r"
    using assms by (simp add: split_whitespace_def blank_ws_token blank_ws_plain(2) split_on_append_sep)
  show "split_whitespace (CHR '' '' # r) = split_whitespace r" by (simp add: split_whitespace_def blank_ws_plain(2))
qed

definition replace_char :: "char \<Rightarrow> char \<Rightarrow> string \<Rightarrow> string" where
  "replace_char a b s = map (\<lambda>c. if c = a then b else c) s"

definition lower_char :: "char \<Rightarrow> char" where
  "lower_char c = (if 65 \<le> (of_char c :: int) \<and> (of_char c :: int) \<le> 90
     then char_of ((of_char c :: int) + 32) else c)"

definition to_lower :: "string \<Rightarrow> string" where
  "to_lower s = map lower_char s"

definition trim_matches :: "(char \<Rightarrow> bool) \<Rightarrow> string \<Rightarrow> string" where
  "trim_matches p s = rev (dropWhile p (rev (dropWhile p s)))"

fun join_with :: "string \<Rightarrow> string list \<Rightarrow> string" where
  "join_with sep [] = []"
| "join_with sep [s] = s"
| "join_with sep (s # t # ss) = s @ sep @ join_with sep (t # ss)"

text \<open>\<open>s.chars()\<close> on a well-formed text: a character is a byte that is not a continuation
  byte, with the continuation bytes that follow it.\<close>

definition is_continuation :: "char \<Rightarrow> bool" where
  "is_continuation c \<longleftrightarrow> 128 \<le> (of_char c :: int) \<and> (of_char c :: int) < 192"

definition chars_count :: "string \<Rightarrow> nat" where
  "chars_count s = length (filter (\<lambda>c. \<not> is_continuation c) s)"

fun chars_take :: "nat \<Rightarrow> string \<Rightarrow> string" where
  "chars_take n [] = []"
| "chars_take n (c # cs) =
     (if is_continuation c then c # chars_take n cs
      else case n of 0 \<Rightarrow> [] | Suc m \<Rightarrow> c # chars_take m cs)"

text \<open>\<open>std::str::from_utf8\<close>: the well-formed byte sequences of UTF-8.\<close>

definition byte_in :: "int \<Rightarrow> int \<Rightarrow> char \<Rightarrow> bool" where
  "byte_in lo hi c \<longleftrightarrow> lo \<le> (of_char c :: int) \<and> (of_char c :: int) \<le> hi"

fun utf8_valid :: "string \<Rightarrow> bool" where
  "utf8_valid [] = True"
| "utf8_valid (a # r) =
     (if byte_in 0 127 a then utf8_valid r
      else case r of [] \<Rightarrow> False | b # r2 \<Rightarrow>
        if byte_in 194 223 a then byte_in 128 191 b \<and> utf8_valid r2
        else case r2 of [] \<Rightarrow> False | c # r3 \<Rightarrow>
          if byte_in 224 239 a then
            byte_in (if byte_in 224 224 a then 160 else 128) (if byte_in 237 237 a then 159 else 191) b
            \<and> byte_in 128 191 c \<and> utf8_valid r3
          else case r3 of [] \<Rightarrow> False | d # r4 \<Rightarrow>
            byte_in 240 244 a
            \<and> byte_in (if byte_in 240 240 a then 144 else 128) (if byte_in 244 244 a then 143 else 191) b
            \<and> byte_in 128 191 c \<and> byte_in 128 191 d \<and> utf8_valid r4)"

section \<open>Decimal integers\<close>

definition is_digit :: "char \<Rightarrow> bool" where
  "is_digit c \<longleftrightarrow> 48 \<le> (of_char c :: int) \<and> (of_char c :: int) \<le> 57"

definition digit_val :: "char \<Rightarrow> int" where
  "digit_val c = of_char c - 48"

definition digit_char :: "int \<Rightarrow> char" where
  "digit_char d = char_of (48 + d)"

definition digits_val :: "string \<Rightarrow> int" where
  "digits_val s = foldl (\<lambda>n c. 10 * n + digit_val c) 0 s"

function show_nat :: "int \<Rightarrow> string" where
  "show_nat n = (if n < 10 then [digit_char n] else show_nat (n div 10) @ [digit_char (n mod 10)])"
  by pat_completeness auto
termination
  by (relation "measure nat") auto

declare show_nat.simps [simp del]

definition show_int :: "int \<Rightarrow> string" where
  "show_int i = (if i < 0 then CHR ''-'' # show_nat (- i) else show_nat i)"

definition parse_digits :: "string \<Rightarrow> int option" where
  "parse_digits s = (if s \<noteq> [] \<and> list_all is_digit s then Some (digits_val s) else None)"

text \<open>\<open>str::parse::<i64>\<close>: an optional sign, digits, and the range of the type.\<close>

definition parse_i64 :: "string \<Rightarrow> int option" where
  "parse_i64 s =
     (let (neg, ds) = (case s of
          c # cs \<Rightarrow> if c = CHR ''-'' then (True, cs) else if c = CHR ''+'' then (False, cs) else (False, s)
        | [] \<Rightarrow> (False, s))
      in case parse_digits ds of
          None \<Rightarrow> None
        | Some n \<Rightarrow> (let v = (if neg then - n else n) in if in_i64 v then Some v else None))"

text \<open>\<open>str::parse\<close> at an unsigned type whose largest value is \<open>hi\<close>.\<close>

definition parse_uint :: "int \<Rightarrow> string \<Rightarrow> int option" where
  "parse_uint hi s =
     (let ds = (case s of c # cs \<Rightarrow> if c = CHR ''+'' then cs else s | [] \<Rightarrow> s)
      in case parse_digits ds of
          None \<Rightarrow> None
        | Some n \<Rightarrow> (if n \<le> hi then Some n else None))"

lemma is_digit_digit_char: "0 \<le> d \<Longrightarrow> d < 10 \<Longrightarrow> is_digit (digit_char d)"
  by (simp add: is_digit_def digit_char_def)

lemma digit_val_digit_char [simp]: "0 \<le> d \<Longrightarrow> d < 10 \<Longrightarrow> digit_val (digit_char d) = d"
  by (simp add: digit_val_def digit_char_def)

lemma digits_val_append_one [simp]: "digits_val (s @ [c]) = 10 * digits_val s + digit_val c"
  by (simp add: digits_val_def)

lemma show_nat_digits: "0 \<le> n \<Longrightarrow> list_all is_digit (show_nat n)"
proof (induction n rule: show_nat.induct)
  case (1 n)
  then show ?case by (subst show_nat.simps) (simp add: is_digit_digit_char)
qed

lemma show_nat_not_Nil [simp]: "show_nat n \<noteq> []"
  by (subst show_nat.simps) simp

lemma digits_val_show_nat [simp]: "0 \<le> n \<Longrightarrow> digits_val (show_nat n) = n"
proof (induction n rule: show_nat.induct)
  case (1 n)
  show ?case
  proof (cases "n < 10")
    case True
    then have "show_nat n = [digit_char n]" by (subst show_nat.simps) simp
    with True 1 show ?thesis by (simp add: digits_val_def)
  next
    case False
    then have "show_nat n = show_nat (n div 10) @ [digit_char (n mod 10)]"
      by (subst show_nat.simps) simp
    with False 1 show ?thesis by simp
  qed
qed

lemma parse_digits_show_nat [simp]: "0 \<le> n \<Longrightarrow> parse_digits (show_nat n) = Some n"
  by (simp add: parse_digits_def show_nat_digits)

lemma show_nat_inj: "0 \<le> m \<Longrightarrow> 0 \<le> n \<Longrightarrow> show_nat m = show_nat n \<Longrightarrow> m = n"
  by (metis digits_val_show_nat)

lemma show_nat_hd_digit: "show_nat n = c # cs \<Longrightarrow> 0 \<le> n \<Longrightarrow> is_digit c"
  using show_nat_digits[of n] by simp

lemma not_digit_sign [simp]:
  "\<not> is_digit (CHR ''-'')" "\<not> is_digit (CHR ''+'')" "\<not> is_digit (CHR '','')"
  "\<not> is_digit (CHR '':'')" "\<not> is_digit (CHR ''.'')" "\<not> is_digit (CHR '' '')"
  "\<not> is_digit (CHR ''e'')" "\<not> is_digit (CHR ''E'')" "\<not> is_digit (CHR '']'')"
  "\<not> is_digit (CHR ''['')"
  by (simp_all add: is_digit_def)

lemma show_nat_not_minus: "0 \<le> n \<Longrightarrow> show_nat n \<noteq> CHR ''-'' # cs"
  using show_nat_hd_digit[of n "CHR ''-''" cs] by auto

lemma show_int_inj: "show_int a = show_int b \<Longrightarrow> a = b"
  using show_nat_inj[of a b] show_nat_inj[of "- a" "- b"]
    show_nat_not_minus[of a "show_nat (- b)"] show_nat_not_minus[of b "show_nat (- a)"]
  by (auto simp: show_int_def split: if_splits)

text \<open>Printing and reading an integer of the type agree.\<close>

lemma set_show_int: "c \<in> set (show_int n) \<Longrightarrow> is_digit c \<or> c = CHR ''-''"
  using show_nat_digits[of n] show_nat_digits[of "- n"]
  by (auto simp: show_int_def list_all_iff split: if_splits)

lemma show_int_sep [simp]:
  "CHR '','' \<notin> set (show_int n)" "CHR ''['' \<notin> set (show_int n)" "CHR '']'' \<notin> set (show_int n)"
  "CHR '':'' \<notin> set (show_int n)"
  by (auto dest: set_show_int simp: is_digit_def)

lemma plain_token_show_int [simp]: "plain_token (show_int n)"
  by (auto dest!: set_show_int simp: plain_token_def plain_char_def is_digit_def list_all_iff)

lemma plain_token_append [simp]: "plain_token (a @ b) \<longleftrightarrow> plain_token a \<and> plain_token b"
  by (simp add: plain_token_def)

lemma plain_token_Cons [simp]: "plain_token (c # t) \<longleftrightarrow> plain_char c \<and> plain_token t" "plain_token []"
  by (simp_all add: plain_token_def)

lemma show_int_one_line [simp]: "one_line (show_int n)"
  by (auto dest: set_show_int simp: is_digit_def one_line_def)

lemma parse_uint_show_int:
  assumes "0 \<le> v" and "v \<le> hi"
  shows "parse_uint hi (show_int v) = Some v"
proof -
  obtain c cs where s: "show_nat v = c # cs" by (cases "show_nat v") auto
  then have "c \<noteq> CHR ''+''" using show_nat_hd_digit[OF s assms(1)] by auto
  with assms s show ?thesis using parse_digits_show_nat[OF assms(1)] by (simp add: parse_uint_def show_int_def)
qed

lemma parse_i64_show_int: "in_i64 v \<Longrightarrow> parse_i64 (show_int v) = Some v"
proof -
  assume v: "in_i64 v"
  show ?thesis
  proof (cases "v < 0")
    case True
    with v show ?thesis by (simp add: parse_i64_def show_int_def)
  next
    case False
    obtain c cs where s: "show_nat v = c # cs" by (cases "show_nat v") auto
    with False have "is_digit c" by (auto intro: show_nat_hd_digit)
    then have "c \<noteq> CHR ''-''" "c \<noteq> CHR ''+''" by auto
    with v s False show ?thesis
      using parse_digits_show_nat[of v] by (auto simp: parse_i64_def show_int_def)
  qed
qed

section \<open>Double-precision numbers\<close>

text \<open>
  A finite \<open>f64\<close> is \<open>Fin m e\<close>, of value \<open>m * 2 ^ e\<close>; the two infinities carry their
  sign.  The sign of zero is not kept: the modelled code never observes it.
\<close>

datatype f64 = Fin int int | Inf bool | NaN

function bit_length :: "int \<Rightarrow> int" where
  "bit_length n = (if n \<le> 0 then 0 else 1 + bit_length (n div 2))"
  by pat_completeness auto
termination
  by (relation "measure nat") auto

declare bit_length.simps [simp del]

text \<open>\<open>floor_log2 a d\<close> is the largest \<open>k\<close> with \<open>d * 2 ^ k \<le> a\<close>, for positive arguments.\<close>

definition scaled_le :: "int \<Rightarrow> int \<Rightarrow> int \<Rightarrow> bool" where
  "scaled_le d k a \<longleftrightarrow> (if 0 \<le> k then d * 2 ^ nat k \<le> a else d \<le> a * 2 ^ nat (- k))"

definition floor_log2 :: "int \<Rightarrow> int \<Rightarrow> int" where
  "floor_log2 a d = (let k = bit_length a - bit_length d
     in if scaled_le d k a then k else k - 1)"

definition div_half_even :: "int \<Rightarrow> int \<Rightarrow> int" where
  "div_half_even n d = (let q = n div d; r = n mod d
     in if 2 * r < d then q else if d < 2 * r then q + 1 else if even q then q else q + 1)"

text \<open>Rounding of the ratio \<open>n / d\<close> (\<open>d\<close> positive) to the nearest double, ties to even,
  with gradual underflow and overflow to infinity.\<close>

definition f64_of_ratio :: "int \<Rightarrow> int \<Rightarrow> f64" where
  "f64_of_ratio n d =
     (if n = 0 then Fin 0 0
      else let a = \<bar>n\<bar>;
               e = max (floor_log2 a d - 52) (- 1074);
               q = (if 0 \<le> e then div_half_even a (d * 2 ^ nat e)
                    else div_half_even (a * 2 ^ nat (- e)) d)
           in if 971 < e \<or> (e = 971 \<and> q = 2 ^ 53) then Inf (n < 0)
              else Fin (sgn n * q) e)"

definition f64_of_int :: "int \<Rightarrow> f64" where
  "f64_of_int n = f64_of_ratio n 1"

fun f64_ratio :: "int \<Rightarrow> int \<Rightarrow> int \<times> int" where
  "f64_ratio m e = (if 0 \<le> e then (m * 2 ^ nat e, 1) else (m, 2 ^ nat (- e)))"

text \<open>Multiplication and division, on the operands the code has (finite numbers).\<close>

fun f64_mul :: "f64 \<Rightarrow> f64 \<Rightarrow> f64" where
  "f64_mul (Fin m e) (Fin m' e') =
     (let (n, d) = f64_ratio m e; (n', d') = f64_ratio m' e' in f64_of_ratio (n * n') (d * d'))"
| "f64_mul _ _ = NaN"

fun f64_div :: "f64 \<Rightarrow> f64 \<Rightarrow> f64" where
  "f64_div (Fin m e) (Fin m' e') =
     (let (n, d) = f64_ratio m e; (n', d') = f64_ratio m' e'
      in if n' = 0 then (if n = 0 then NaN else Inf (n < 0))
         else f64_of_ratio (sgn n' * n * d') (d * \<bar>n'\<bar>))"
| "f64_div _ _ = NaN"

text \<open>The reader of \<open>str::parse::<f64>\<close>: an optional sign, then \<open>inf\<close>, \<open>infinity\<close> or
  \<open>nan\<close> in any case, or a decimal number with an optional exponent.\<close>

definition parse_exponent :: "string \<Rightarrow> int option" where
  "parse_exponent s = (case s of
       [] \<Rightarrow> Some 0
     | c # cs \<Rightarrow>
         (if c = CHR ''e'' \<or> c = CHR ''E'' then
            (case cs of
               x # xs \<Rightarrow>
                 (if x = CHR ''-'' then map_option uminus (parse_digits xs)
                  else if x = CHR ''+'' then parse_digits xs
                  else parse_digits cs)
             | [] \<Rightarrow> None)
          else None))"

definition parse_decimal :: "string \<Rightarrow> (int \<times> int) option" where
  "parse_decimal s =
     (let ip = takeWhile is_digit s; r = dropWhile is_digit s;
          (fp, r') = (case r of
              c # cs \<Rightarrow> if c = CHR ''.'' then (takeWhile is_digit cs, dropWhile is_digit cs) else ([], r)
            | [] \<Rightarrow> ([], r))
      in if ip = [] \<and> fp = [] then None
         else map_option (\<lambda>x. (digits_val (ip @ fp), x - int (length fp))) (parse_exponent r'))"

definition f64_of_decimal :: "bool \<Rightarrow> int \<Rightarrow> int \<Rightarrow> f64" where
  "f64_of_decimal neg m x =
     (let i = (if neg then - m else m)
      in if 0 \<le> x then f64_of_ratio (i * 10 ^ nat x) 1 else f64_of_ratio i (10 ^ nat (- x)))"

definition parse_f64_str :: "string \<Rightarrow> f64 option" where
  "parse_f64_str s =
     (let (neg, body) = (case s of
          c # cs \<Rightarrow> if c = CHR ''-'' then (True, cs) else if c = CHR ''+'' then (False, cs) else (False, s)
        | [] \<Rightarrow> (False, s));
          low = to_lower body
      in if low = ''inf'' \<or> low = ''infinity'' then Some (Inf neg)
         else if low = ''nan'' then Some NaN
         else map_option (\<lambda>(m, x). f64_of_decimal neg m x) (parse_decimal body))"

end
