(* ===== verification/Errors.thy ===== *)
theory Errors
  imports Rust_Std
begin

text \<open>
  The application error of \<open>src/src/error.rs\<close>: one constructor per variant, its HTTP status
  and its text.  Errors of other crates are carried by their text.  \<open>ValidationF\<close> is a
  \<open>Validation\<close> whose message ends with the text of a double; the printer of doubles is an
  argument of \<open>display_error\<close> only.
\<close>

datatype io_error = IoNotFound string | IoWouldBlock string | IoInvalidData string | IoConnectionRefused string | IoOther string

datatype app_error =
    Storage string
  | Pool string
  | Io io_error
  | Json string
  | Xml string
  | HttpBody string
  | Validation string
  | ValidationF string f64
  | NotFound string
  | Runtime string
  | Busy string string
  | Timeout string int

type_synonym 'a res = "app_error + 'a"

text \<open>Sequencing of operations on a state; an error ends them and keeps the state reached.\<close>

definition bind_st :: "'a res \<times> 'st \<Rightarrow> ('a \<Rightarrow> 'st \<Rightarrow> 'b res \<times> 'st) \<Rightarrow> 'b res \<times> 'st" where
  "bind_st m f = (case m of (Inl e, st) \<Rightarrow> (Inl e, st) | (Inr x, st) \<Rightarrow> f x st)"

definition lift_st :: "'a res \<Rightarrow> 'st \<Rightarrow> 'a res \<times> 'st" where
  "lift_st r st = (r, st)"

lemma bind_st_simps [simp]:
  "bind_st (Inl e, st) f = (Inl e, st)" "bind_st (Inr x, st) f = f x st" "bind_st (lift_st r st) f = (case r of Inl e \<Rightarrow> (Inl e, st) | Inr x \<Rightarrow> f x st)"
  by (simp_all add: bind_st_def lift_st_def split: sum.splits)

fun io_text :: "io_error \<Rightarrow> string" where
  "io_text (IoNotFound s) = s"
| "io_text (IoWouldBlock s) = s"
| "io_text (IoInvalidData s) = s"
| "io_text (IoConnectionRefused s) = s"
| "io_text (IoOther s) = s"

fun status_code :: "app_error \<Rightarrow> int" where
  "status_code (NotFound _) = 404"
| "status_code (Validation _) = 400"
| "status_code (ValidationF _ _) = 400"
| "status_code (Storage _) = 500"
| "status_code (Pool _) = 500"
| "status_code (Io _) = 500"
| "status_code (Json _) = 500"
| "status_code (Xml _) = 500"
| "status_code (HttpBody _) = 500"
| "status_code (Runtime _) = 500"
| "status_code (Busy _ _) = 503"
| "status_code (Timeout _ _) = 504"

fun display_error :: "(f64 \<Rightarrow> string) \<Rightarrow> app_error \<Rightarrow> string" where
  "display_error p (Storage e) = ''storage error: '' @ e"
| "display_error p (Pool e) = ''connection pool error: '' @ e"
| "display_error p (Io e) = ''I/O error: '' @ io_text e"
| "display_error p (Json e) = ''JSON error: '' @ e"
| "display_error p (Xml e) = ''XML error: '' @ e"
| "display_error p (HttpBody e) = ''request body could not be read: '' @ e"
| "display_error p (Validation m) = m"
| "display_error p (ValidationF m x) = m @ p x"
| "display_error p (NotFound m) = m"
| "display_error p (Runtime m) = m"
| "display_error p (Busy r h) = ''resource busy: '' @ r @ h"
| "display_error p (Timeout oper ms) = oper @ '' timed out after '' @ show_int ms @ '' ms''"

text \<open>\<open>Error::source\<close>: the variants that wrap an error of another crate expose it.\<close>

fun error_source :: "app_error \<Rightarrow> string option" where
  "error_source (Storage e) = Some e"
| "error_source (Pool e) = Some e"
| "error_source (Io e) = Some (io_text e)"
| "error_source (Json e) = Some e"
| "error_source (Xml e) = Some e"
| "error_source (HttpBody e) = Some e"
| "error_source _ = None"

definition invalid :: "string \<Rightarrow> app_error" where
  "invalid m = Validation m"

text \<open>\<open>status_code\<close> only answers the five codes of the REST contract, and a client error
  (below 500) is never an error of a wrapped crate.\<close>

lemma status_code_range: "status_code e \<in> {400, 404, 500, 503, 504}"
  by (cases e) simp_all

lemma client_error_no_source: "status_code e < 500 \<Longrightarrow> error_source e = None"
  by (cases e) simp_all

lemma wrapped_error_text:
  "error_source e = Some s \<Longrightarrow> \<exists>pre. display_error p e = pre @ s \<and> pre \<noteq> []"
  by (cases e) auto


section \<open>Properties\<close>

text \<open>An error the REST layer reports as the client's fault (a status below 500) never carries the
  text of a wrapped storage, pool, I/O, JSON, XML or transport error, and every status is one of the
  five of the contract.\<close>

theorem client_errors_are_own:
  "status_code e \<in> {400, 404, 500, 503, 504} \<and> (status_code e < 500 \<longrightarrow> error_source e = None)"
  using status_code_range client_error_no_source by blast

theorem client_errors_are_own_witness:
  "error_source (NotFound ''no measurement'') = None"
  using client_errors_are_own[of "NotFound ''no measurement''"] by simp

end
