(* ===== verification/Json.thy ===== *)
theory Json
  imports BTree Errors
begin

text \<open>
  JSON values as the code handles them (\<open>serde_json::Value\<close>).  Numbers are integers or
  doubles; objects are ordered maps, as \<open>serde_json\<close> keeps them without its
  \<open>preserve_order\<close> feature.  Reading JSON text and writing it are arguments of the
  definitions that use them.
\<close>

datatype json =
    JNull
  | JBool bool
  | JInt int
  | JFloat f64
  | JStr string
  | JArr "json list"
  | JObj "(string \<times> json) list"

fun as_str :: "json \<Rightarrow> string option" where
  "as_str (JStr s) = Some s" | "as_str _ = None"

fun as_bool :: "json \<Rightarrow> bool option" where
  "as_bool (JBool b) = Some b" | "as_bool _ = None"

fun as_i64 :: "json \<Rightarrow> int option" where
  "as_i64 (JInt n) = (if in_i64 n then Some n else None)" | "as_i64 _ = None"

fun as_u64 :: "json \<Rightarrow> int option" where
  "as_u64 (JInt n) = (if 0 \<le> n then Some n else None)" | "as_u64 _ = None"

fun as_array :: "json \<Rightarrow> json list option" where
  "as_array (JArr vs) = Some vs" | "as_array _ = None"

fun as_object :: "json \<Rightarrow> (string, json) btree option" where
  "as_object (JObj m) = Some m" | "as_object _ = None"

definition is_string :: "json \<Rightarrow> bool" where
  "is_string v \<longleftrightarrow> as_str v \<noteq> None"

definition is_object :: "json \<Rightarrow> bool" where
  "is_object v \<longleftrightarrow> as_object v \<noteq> None"

text \<open>\<open>value.get(key)\<close> and the indexing \<open>value[key]\<close>, which reads absent keys as null.\<close>

definition jget :: "json \<Rightarrow> string \<Rightarrow> json option" where
  "jget v k = (case v of JObj m \<Rightarrow> bt_get m k | _ \<Rightarrow> None)"

definition jidx :: "json \<Rightarrow> string \<Rightarrow> json" where
  "jidx v k = (case jget v k of None \<Rightarrow> JNull | Some x \<Rightarrow> x)"

definition jat :: "json \<Rightarrow> nat \<Rightarrow> json" where
  "jat v i = (case v of JArr vs \<Rightarrow> if i < length vs then vs ! i else JNull | _ \<Rightarrow> JNull)"

definition nth_opt :: "'a list \<Rightarrow> nat \<Rightarrow> 'a option" where
  "nth_opt xs i = (if i < length xs then Some (xs ! i) else None)"

text \<open>The object literal of \<open>json!\<close> and the assignment \<open>value[key] = x\<close>.\<close>

definition jobj :: "(string \<times> json) list \<Rightarrow> json" where
  "jobj kvs = JObj (bt_of_list kvs)"

definition jset :: "json \<Rightarrow> string \<Rightarrow> json \<Rightarrow> json" where
  "jset v k x = (case v of JObj m \<Rightarrow> JObj (bt_insert k x m) | JNull \<Rightarrow> JObj [(k, x)] | _ \<Rightarrow> v)"

definition jopt :: "('a \<Rightarrow> json) \<Rightarrow> 'a option \<Rightarrow> json" where
  "jopt f x = (case x of None \<Rightarrow> JNull | Some a \<Rightarrow> f a)"

definition jnat :: "nat \<Rightarrow> json" where
  "jnat n = JInt (int n)"

lemma bt_get_foldl_insert:
  "bt_get (foldl (\<lambda>m (k, v). bt_insert k v m) m kvs) j =
   (case map_of (rev kvs) j of None \<Rightarrow> bt_get m j | Some v \<Rightarrow> Some v)"
proof (induction kvs arbitrary: m)
  case (Cons kv kvs)
  then show ?case by (cases kv) (auto simp: map_add_def split: option.splits)
qed simp

lemma bt_get_of_list: "bt_get (bt_of_list kvs) j = map_of (rev kvs) j"
  by (simp add: bt_of_list_def bt_get_foldl_insert split: option.splits)

lemma bt_inv_foldl_insert: "bt_inv m \<Longrightarrow> bt_inv (foldl (\<lambda>m (k, v). bt_insert k v m) m kvs)"
  by (induction kvs arbitrary: m) (auto split: prod.splits)

lemma bt_inv_of_list [simp]: "bt_inv (bt_of_list kvs)"
  by (simp add: bt_of_list_def bt_inv_foldl_insert)

lemma jget_jobj [simp]: "jget (jobj kvs) k = map_of (rev kvs) k"
  by (simp add: jget_def jobj_def bt_get_of_list)

lemma jidx_jobj [simp]:
  "jidx (jobj kvs) k = (case map_of (rev kvs) k of None \<Rightarrow> JNull | Some x \<Rightarrow> x)"
  by (simp add: jidx_def)

lemma jget_JObj [simp]: "jget (JObj m) k = bt_get m k"
  by (simp add: jget_def)

lemma jidx_JNull [simp]: "jidx JNull k = JNull"
  by (simp add: jidx_def jget_def)

lemma jset_jobj [simp]: "jset (jobj kvs) k x = jobj (kvs @ [(k, x)])"
  by (simp add: jset_def jobj_def bt_of_list_def)

lemma jget_jset_object: "is_object v \<Longrightarrow> jget (jset v k x) j = (if j = k then Some x else jget v j)"
  by (cases v) (auto simp: is_object_def jget_def jset_def)

lemma is_object_jobj [simp]: "is_object (jobj kvs)"
  by (simp add: is_object_def jobj_def)

lemma is_string_iff: "is_string v \<longleftrightarrow> (\<exists>s. v = JStr s)"
  by (cases v) (auto simp: is_string_def)

lemma as_str_eq_Some [simp]: "as_str v = Some s \<longleftrightarrow> v = JStr s"
  by (cases v) auto

lemma as_array_eq_Some [simp]: "as_array v = Some vs \<longleftrightarrow> v = JArr vs"
  by (cases v) auto

lemma as_object_eq_Some [simp]: "as_object v = Some m \<longleftrightarrow> v = JObj m"
  by (cases v) auto

lemma as_i64_eq_Some [simp]: "as_i64 v = Some n \<longleftrightarrow> v = JInt n \<and> in_i64 n"
  by (cases v) auto

lemma nth_opt_Some: "nth_opt xs i = Some x \<Longrightarrow> x \<in> set xs"
  by (auto simp: nth_opt_def split: if_splits)

end
