(* ===== verification/Paths.thy ===== *)
theory Paths
  imports Rust_Std
begin

text \<open>
  \<open>std::path::Path\<close> on Unix, with a path represented by its text: components, joining,
  prefixes, extensions.  Resolving a path against the file system is an argument
  (\<open>canonicalize\<close>) of the definitions that do it.
\<close>

definition is_absolute :: "string \<Rightarrow> bool" where
  "is_absolute p \<longleftrightarrow> starts_with ''/'' p"

datatype component = RootDir | CurDir | ParentDir | Normal string

definition raw_component :: "string \<Rightarrow> component" where
  "raw_component s = (if s = ''..'' then ParentDir else Normal s)"

text \<open>Empty pieces and \<open>.\<close> are dropped, but for a leading \<open>.\<close>.\<close>

definition components :: "string \<Rightarrow> component list" where
  "components p =
     (let ps = split_on (CHR ''/'') p;
          body = map raw_component (filter (\<lambda>s. s \<noteq> '''' \<and> s \<noteq> ''.'') ps)
      in if is_absolute p then RootDir # body
         else if hd ps = ''.'' then CurDir # body
         else body)"

definition component_text :: "component \<Rightarrow> string" where
  "component_text c = (case c of RootDir \<Rightarrow> '''' | CurDir \<Rightarrow> ''.'' | ParentDir \<Rightarrow> ''..'' | Normal s \<Rightarrow> s)"

fun list_strip_prefix :: "'a list \<Rightarrow> 'a list \<Rightarrow> 'a list option" where
  "list_strip_prefix [] ys = Some ys"
| "list_strip_prefix (x # xs) [] = None"
| "list_strip_prefix (x # xs) (y # ys) = (if x = y then list_strip_prefix xs ys else None)"

text \<open>\<open>file.strip_prefix(base)\<close>: the relative text of the remaining components.\<close>

definition path_strip_prefix :: "string \<Rightarrow> string \<Rightarrow> string option" where
  "path_strip_prefix base p =
     map_option (\<lambda>cs. join_with ''/'' (map component_text cs))
       (list_strip_prefix (components base) (components p))"

definition path_starts_with :: "string \<Rightarrow> string \<Rightarrow> bool" where
  "path_starts_with p base \<longleftrightarrow> list_strip_prefix (components base) (components p) \<noteq> None"

definition path_join :: "string \<Rightarrow> string \<Rightarrow> string" where
  "path_join root p =
     (if is_absolute p then p
      else if root = '''' then p
      else if last root = CHR ''/'' then root @ p
      else root @ ''/'' @ p)"

definition file_name :: "string \<Rightarrow> string option" where
  "file_name p = (case rev (components p) of Normal s # _ \<Rightarrow> Some s | _ \<Rightarrow> None)"

text \<open>\<open>path.extension()\<close>: what follows the last dot of the file name, unless the name has no
  dot or only a leading one.\<close>

definition extension :: "string \<Rightarrow> string option" where
  "extension p = (case file_name p of
      None \<Rightarrow> None
    | Some n \<Rightarrow> (case rsplit_once (CHR ''.'') n of
          None \<Rightarrow> None
        | Some (stem, ext) \<Rightarrow> if stem = '''' then None else Some ext))"

lemma list_strip_prefix_Some: "list_strip_prefix xs ys = Some zs \<longleftrightarrow> ys = xs @ zs"
  by (induction xs ys rule: list_strip_prefix.induct) auto

lemma path_starts_with_prefix:
  "path_starts_with p base \<longleftrightarrow> (\<exists>rest. components p = components base @ rest)"
  by (auto simp: path_starts_with_def list_strip_prefix_Some)

end
