(* ===== verification/Models.thy ===== *)
theory Models
  imports Json Paths
begin

text \<open>
  The coverage data model of \<open>src/src/models.rs\<close>: line and file rows, the normalized report,
  and the builder every report parser feeds.  The report the builder returns is well formed
  (\<open>report_wf\<close>) after any sequence of builder operations.
\<close>

section \<open>Rows and reports\<close>

definition rate :: "int \<Rightarrow> int \<Rightarrow> f64 option" where
  "rate covered tot = (if 0 < tot then Some (f64_div (f64_of_int covered) (f64_of_int tot)) else None)"

text \<open>The file system's \<open>canonicalize().ok()\<close> is the argument \<open>canon\<close>.\<close>

type_synonym canon = "string \<Rightarrow> string option"

definition normalize_report_path :: "canon \<Rightarrow> string \<Rightarrow> string option \<Rightarrow> string" where
  "normalize_report_path canon path repo_path =
     (let relative = (case repo_path of
          None \<Rightarrow> None
        | Some repo_path \<Rightarrow>
            (if is_absolute path then
               (case (canon path, canon repo_path) of
                  (Some file, Some repo) \<Rightarrow> path_strip_prefix repo file
                | _ \<Rightarrow> None)
             else None))
      in case relative of
           Some relative \<Rightarrow> replace_char (CHR 0x5C) (CHR ''/'') relative
         | None \<Rightarrow> replace_char (CHR 0x5C) (CHR ''/'') path)"

record line_coverage =
  lc_file_path :: string
  lc_line_number :: int
  lc_hits :: int
  lc_covered :: bool
  lc_count_line :: bool
  lc_total_branches :: int
  lc_covered_branches :: int
  lc_total_functions :: int
  lc_covered_functions :: int
  lc_details :: json

definition merge_details :: "json \<Rightarrow> json \<Rightarrow> json" where
  "merge_details current extra = (case (current, extra) of
      (JObj m, JObj x) \<Rightarrow> JObj (foldl (\<lambda>m (k, v). bt_insert k v m) m x)
    | _ \<Rightarrow> current)"

definition merge :: "line_coverage \<Rightarrow> line_coverage \<Rightarrow> line_coverage" where
  "merge self other =
     (let self = (if lc_count_line other
            then self\<lparr>lc_hits := max (lc_hits self) (lc_hits other),
                      lc_covered := lc_covered self \<or> lc_covered other\<rparr>
            else self)
      in self\<lparr>lc_count_line := lc_count_line self \<or> lc_count_line other,
              lc_total_branches := i64_add (lc_total_branches self) (lc_total_branches other),
              lc_covered_branches := i64_add (lc_covered_branches self) (lc_covered_branches other),
              lc_total_functions := i64_add (lc_total_functions self) (lc_total_functions other),
              lc_covered_functions := i64_add (lc_covered_functions self) (lc_covered_functions other),
              lc_details := merge_details (lc_details self) (lc_details other)\<rparr>)"

record file_coverage =
  fc_file_path :: string
  fc_total_lines :: int
  fc_covered_lines :: int
  fc_total_branches :: int
  fc_covered_branches :: int
  fc_total_functions :: int
  fc_covered_functions :: int
  fc_total_regions :: int
  fc_covered_regions :: int
  fc_raw_metrics :: json

record test_coverage_observation =
  tco_test_name :: string
  tco_kind :: string
  tco_file_path :: string
  tco_line_number :: int
  tco_region_key :: string

definition file_line_rate :: "file_coverage \<Rightarrow> f64 option" where
  "file_line_rate f = rate (fc_covered_lines f) (fc_total_lines f)"

definition file_branch_rate :: "file_coverage \<Rightarrow> f64 option" where
  "file_branch_rate f = rate (fc_covered_branches f) (fc_total_branches f)"

definition file_function_rate :: "file_coverage \<Rightarrow> f64 option" where
  "file_function_rate f = rate (fc_covered_functions f) (fc_total_functions f)"

definition file_region_rate :: "file_coverage \<Rightarrow> f64 option" where
  "file_region_rate f = rate (fc_covered_regions f) (fc_total_regions f)"

record coverage_report =
  cr_format :: string
  cr_report_path :: string
  cr_files :: "file_coverage list"
  cr_lines :: "line_coverage list"
  cr_test_names :: "string list"
  cr_test_coverage :: "test_coverage_observation list"
  cr_warnings :: "string list"
  cr_metadata :: json

definition total_lines :: "coverage_report \<Rightarrow> int" where
  "total_lines r = i64_sum (map fc_total_lines (cr_files r))"

definition covered_lines :: "coverage_report \<Rightarrow> int" where
  "covered_lines r = i64_sum (map fc_covered_lines (cr_files r))"

definition total_branches :: "coverage_report \<Rightarrow> int" where
  "total_branches r = i64_sum (map fc_total_branches (cr_files r))"

definition covered_branches :: "coverage_report \<Rightarrow> int" where
  "covered_branches r = i64_sum (map fc_covered_branches (cr_files r))"

definition total_functions :: "coverage_report \<Rightarrow> int" where
  "total_functions r = i64_sum (map fc_total_functions (cr_files r))"

definition covered_functions :: "coverage_report \<Rightarrow> int" where
  "covered_functions r = i64_sum (map fc_covered_functions (cr_files r))"

definition total_regions :: "coverage_report \<Rightarrow> int" where
  "total_regions r = i64_sum (map fc_total_regions (cr_files r))"

definition covered_regions :: "coverage_report \<Rightarrow> int" where
  "covered_regions r = i64_sum (map fc_covered_regions (cr_files r))"

definition line_rate :: "coverage_report \<Rightarrow> f64 option" where
  "line_rate r = rate (covered_lines r) (total_lines r)"

definition branch_rate :: "coverage_report \<Rightarrow> f64 option" where
  "branch_rate r = rate (covered_branches r) (total_branches r)"

definition function_rate :: "coverage_report \<Rightarrow> f64 option" where
  "function_rate r = rate (covered_functions r) (total_functions r)"

definition region_rate :: "coverage_report \<Rightarrow> f64 option" where
  "region_rate r = rate (covered_regions r) (total_regions r)"

section \<open>The builder\<close>

type_synonym observation_key = "string \<times> string \<times> string \<times> int \<times> string"

record coverage_builder =
  cb_repo_path :: "string option"
  cb_lines :: "(string \<times> int, line_coverage) btree"
  cb_test_names :: "string bset"
  cb_test_coverage :: "observation_key bset"
  cb_file_metrics :: "(string, (string, json) btree) btree"
  cb_normalized_paths :: "(string, string) btree"

definition new_builder :: "string option \<Rightarrow> coverage_builder" where
  "new_builder repo_path =
     \<lparr>cb_repo_path = repo_path, cb_lines = [], cb_test_names = [], cb_test_coverage = [],
      cb_file_metrics = [], cb_normalized_paths = []\<rparr>"

text \<open>\<open>normalized_paths.entry(..).or_insert_with(..).clone()\<close>: the memoized path and the
  builder with the memo table extended.\<close>

definition normalized_path :: "canon \<Rightarrow> string \<Rightarrow> coverage_builder \<Rightarrow> string \<times> coverage_builder" where
  "normalized_path canon file_path b =
     (case bt_get (cb_normalized_paths b) file_path of
        Some n \<Rightarrow> (n, b)
      | None \<Rightarrow>
          (let n = normalize_report_path canon file_path (cb_repo_path b)
           in (n, b\<lparr>cb_normalized_paths := bt_insert file_path n (cb_normalized_paths b)\<rparr>)))"

text \<open>The counts of one observation: total and covered branches, total and covered functions.\<close>

type_synonym counts4 = "int \<times> int \<times> int \<times> int"

definition line_row :: "string \<Rightarrow> int \<Rightarrow> int \<Rightarrow> bool option \<Rightarrow> bool \<Rightarrow> counts4 \<Rightarrow> json \<Rightarrow> line_coverage" where
  "line_row normalized line_number hits covered count_line counts details =
     (let (tb, cb, tf, cf) = counts;
          line_hits = (if count_line then max hits 0 else 0)
      in \<lparr>lc_file_path = normalized, lc_line_number = line_number, lc_hits = line_hits,
          lc_covered = (if count_line
             then (case covered of Some c \<Rightarrow> c | None \<Rightarrow> 0 < line_hits) else False),
          lc_count_line = count_line,
          lc_total_branches = max tb 0, lc_covered_branches = max cb 0,
          lc_total_functions = max tf 0, lc_covered_functions = max cf 0,
          lc_details = details\<rparr>)"

definition add_line :: "canon \<Rightarrow> string \<Rightarrow> int \<Rightarrow> int \<Rightarrow> bool option \<Rightarrow> bool \<Rightarrow> counts4 \<Rightarrow> json
    \<Rightarrow> coverage_builder \<Rightarrow> coverage_builder" where
  "add_line canon file_path line_number hits covered count_line counts details b =
     (if line_number \<le> 0 then b
      else let (normalized, b) = normalized_path canon file_path b;
               row = line_row normalized line_number hits covered count_line counts details
           in b\<lparr>cb_lines := (case bt_get (cb_lines b) (normalized, line_number) of
                  Some existing \<Rightarrow> bt_insert (normalized, line_number) (merge existing row) (cb_lines b)
                | None \<Rightarrow> bt_insert (lc_file_path row, line_number) row (cb_lines b))\<rparr>)"

definition add_file_metrics :: "canon \<Rightarrow> string \<Rightarrow> (string, json) btree \<Rightarrow> coverage_builder \<Rightarrow> coverage_builder" where
  "add_file_metrics canon file_path metrics b =
     (let (normalized, b) = normalized_path canon file_path b
      in b\<lparr>cb_file_metrics := bt_update normalized
             (\<lambda>old. foldl (\<lambda>m (k, v). bt_insert k v m) (case old of None \<Rightarrow> [] | Some m \<Rightarrow> m) metrics)
             (cb_file_metrics b)\<rparr>)"

definition add_test_name :: "string \<Rightarrow> coverage_builder \<Rightarrow> coverage_builder" where
  "add_test_name test_name b =
     (let test_name = trim test_name
      in if test_name = [] then b
         else b\<lparr>cb_test_names := bs_insert test_name (cb_test_names b)\<rparr>)"

definition add_test_observation :: "canon \<Rightarrow> string \<Rightarrow> string \<Rightarrow> string \<Rightarrow> int \<Rightarrow> string
    \<Rightarrow> coverage_builder \<Rightarrow> coverage_builder" where
  "add_test_observation canon test_name kind file_path line_number region_key b =
     (let test_name = trim test_name; kind = trim kind
      in if test_name = [] \<or> kind = [] \<or> line_number \<le> 0 then b
         else let b = add_test_name test_name b;
                  (normalized, b) = normalized_path canon file_path b
              in b\<lparr>cb_test_coverage :=
                     bs_insert (test_name, kind, normalized, line_number, region_key) (cb_test_coverage b)\<rparr>)"

text \<open>\<open>metric_i64\<close> removes the override from the metrics; a negative or missing number is
  clamped to zero or replaced by the fallback.\<close>

definition metric_i64 :: "(string, json) btree \<Rightarrow> string \<Rightarrow> int \<Rightarrow> int \<times> (string, json) btree" where
  "metric_i64 metrics key fallback =
     (max (case bt_get metrics key of
            None \<Rightarrow> fallback
          | Some v \<Rightarrow> (case as_i64 v of None \<Rightarrow> fallback | Some n \<Rightarrow> n)) 0,
      bt_remove key metrics)"

definition count_where :: "('a \<Rightarrow> bool) \<Rightarrow> 'a list \<Rightarrow> int" where
  "count_where p xs = int (length (filter p xs))"

definition build_file :: "string \<Rightarrow> line_coverage list \<Rightarrow> (string, json) btree \<Rightarrow> file_coverage" where
  "build_file file_path file_lines metrics =
     (let (tl, metrics) = metric_i64 metrics ''total_lines'' (count_where lc_count_line file_lines);
          (cl, metrics) = metric_i64 metrics ''covered_lines''
             (count_where (\<lambda>l. lc_count_line l \<and> lc_covered l) file_lines);
          (tb, metrics) = metric_i64 metrics ''total_branches'' (i64_sum (map lc_total_branches file_lines));
          (cb, metrics) = metric_i64 metrics ''covered_branches'' (i64_sum (map lc_covered_branches file_lines));
          (tf, metrics) = metric_i64 metrics ''total_functions'' (i64_sum (map lc_total_functions file_lines));
          (cf, metrics) = metric_i64 metrics ''covered_functions'' (i64_sum (map lc_covered_functions file_lines));
          (tr, metrics) = metric_i64 metrics ''total_regions'' 0;
          (cr, metrics) = metric_i64 metrics ''covered_regions'' 0
      in \<lparr>fc_file_path = file_path, fc_total_lines = tl, fc_covered_lines = cl,
          fc_total_branches = tb, fc_covered_branches = cb,
          fc_total_functions = tf, fc_covered_functions = cf,
          fc_total_regions = tr, fc_covered_regions = cr, fc_raw_metrics = JObj metrics\<rparr>)"

definition group_by_file :: "line_coverage list \<Rightarrow> (string, line_coverage list) btree" where
  "group_by_file lines =
     foldl (\<lambda>m l. bt_update (lc_file_path l) (\<lambda>old. (case old of None \<Rightarrow> [] | Some ls \<Rightarrow> ls) @ [l]) m) [] lines"

definition observation_of_key :: "observation_key \<Rightarrow> test_coverage_observation" where
  "observation_of_key k = (case k of (t, kind, f, n, r) \<Rightarrow>
     \<lparr>tco_test_name = t, tco_kind = kind, tco_file_path = f, tco_line_number = n, tco_region_key = r\<rparr>)"

definition build :: "coverage_builder \<Rightarrow> string \<Rightarrow> string \<Rightarrow> string list \<Rightarrow> json \<Rightarrow> coverage_report" where
  "build b format report_path warnings metadata =
     (let lines = bt_values (cb_lines b);
          by_file = group_by_file lines;
          paths = foldl (\<lambda>s p. bs_insert p s) (bt_keys by_file) (bt_keys (cb_file_metrics b));
          files = map (\<lambda>p. build_file p
              (case bt_get by_file p of None \<Rightarrow> [] | Some ls \<Rightarrow> ls)
              (case bt_get (cb_file_metrics b) p of None \<Rightarrow> [] | Some m \<Rightarrow> m)) paths
      in \<lparr>cr_format = format, cr_report_path = report_path, cr_files = files, cr_lines = lines,
          cr_test_names = cb_test_names b,
          cr_test_coverage = map observation_of_key (cb_test_coverage b),
          cr_warnings = warnings, cr_metadata = metadata\<rparr>)"

section \<open>Well-formed builders and reports\<close>

definition line_ok :: "line_coverage \<Rightarrow> bool" where
  "line_ok l \<longleftrightarrow> 0 < lc_line_number l \<and> 0 \<le> lc_hits l \<and> (lc_covered l \<longrightarrow> lc_count_line l)
     \<and> (\<not> lc_count_line l \<longrightarrow> lc_hits l = 0)"

definition line_key :: "line_coverage \<Rightarrow> string \<times> int" where
  "line_key l = (lc_file_path l, lc_line_number l)"

definition observation_ok :: "string list \<Rightarrow> observation_key \<Rightarrow> bool" where
  "observation_ok names k \<longleftrightarrow> (case k of (t, kind, f, n, r) \<Rightarrow> t \<in> set names \<and> kind \<noteq> [] \<and> 0 < n)"

definition builder_inv :: "coverage_builder \<Rightarrow> bool" where
  "builder_inv b \<longleftrightarrow> bt_inv (cb_lines b)
     \<and> (\<forall>(k, l) \<in> set (cb_lines b). k = line_key l \<and> line_ok l)
     \<and> bt_inv (cb_file_metrics b) \<and> bt_inv (cb_normalized_paths b)
     \<and> sorted_wrt (<) (cb_test_names b) \<and> sorted_wrt (<) (cb_test_coverage b)
     \<and> (\<forall>t \<in> set (cb_test_names b). t \<noteq> [] \<and> trim t = t)
     \<and> (\<forall>k \<in> set (cb_test_coverage b). observation_ok (cb_test_names b) k)"

definition file_ok :: "file_coverage \<Rightarrow> bool" where
  "file_ok f \<longleftrightarrow> 0 \<le> fc_total_lines f \<and> 0 \<le> fc_covered_lines f
     \<and> 0 \<le> fc_total_branches f \<and> 0 \<le> fc_covered_branches f
     \<and> 0 \<le> fc_total_functions f \<and> 0 \<le> fc_covered_functions f
     \<and> 0 \<le> fc_total_regions f \<and> 0 \<le> fc_covered_regions f"

definition report_wf :: "coverage_report \<Rightarrow> bool" where
  "report_wf r \<longleftrightarrow> sorted_wrt (<) (map line_key (cr_lines r))
     \<and> (\<forall>l \<in> set (cr_lines r). line_ok l)
     \<and> sorted_wrt (<) (map fc_file_path (cr_files r))
     \<and> (\<forall>f \<in> set (cr_files r). file_ok f)
     \<and> lc_file_path ` set (cr_lines r) \<subseteq> fc_file_path ` set (cr_files r)
     \<and> sorted_wrt (<) (cr_test_names r)
     \<and> (\<forall>t \<in> set (cr_test_coverage r). tco_test_name t \<in> set (cr_test_names r) \<and> 0 < tco_line_number t)"

subsection \<open>Every builder operation keeps the invariant\<close>

lemma builder_inv_new [simp]: "builder_inv (new_builder repo)"
  by (simp add: builder_inv_def new_builder_def)

lemma normalized_path_frame:
  assumes "normalized_path canon f b = (n, b')"
  shows "cb_lines b' = cb_lines b" "cb_test_names b' = cb_test_names b"
    "cb_test_coverage b' = cb_test_coverage b" "cb_file_metrics b' = cb_file_metrics b"
    "cb_repo_path b' = cb_repo_path b"
    "bt_inv (cb_normalized_paths b) \<Longrightarrow> bt_inv (cb_normalized_paths b')"
  using assms by (auto simp: normalized_path_def Let_def split: option.splits)

lemma builder_inv_normalized_path:
  "builder_inv b \<Longrightarrow> normalized_path canon f b = (n, b') \<Longrightarrow> builder_inv b'"
  by (simp add: builder_inv_def normalized_path_frame)

lemma line_ok_row:
  "0 < n \<Longrightarrow> line_ok (line_row f n hits covered count counts details)
     \<and> line_key (line_row f n hits covered count counts details) = (f, n)"
  by (cases counts) (simp add: line_ok_def line_key_def line_row_def Let_def)

lemma line_ok_merge: "line_ok a \<Longrightarrow> line_ok b \<Longrightarrow> line_ok (merge a b)"
  by (auto simp: line_ok_def merge_def Let_def)

lemma line_key_merge [simp]: "line_key (merge a b) = line_key a"
  by (simp add: line_key_def merge_def Let_def)

lemma builder_inv_insert_line:
  "builder_inv b \<Longrightarrow> line_ok l \<Longrightarrow> k = line_key l
   \<Longrightarrow> builder_inv (b\<lparr>cb_lines := bt_insert k l (cb_lines b)\<rparr>)"
  using set_bt_insert[of k l "cb_lines b"] by (fastforce simp: builder_inv_def)

lemma builder_inv_line_get:
  "builder_inv b \<Longrightarrow> bt_get (cb_lines b) k = Some l \<Longrightarrow> line_ok l \<and> line_key l = k"
  by (auto simp: builder_inv_def dest!: bt_get_in)

lemma builder_inv_add_line [simp]:
  assumes "builder_inv b"
  shows "builder_inv (add_line canon f n hits covered count counts details b)"
proof (cases "n \<le> 0")
  case False
  obtain m b' where nb: "normalized_path canon f b = (m, b')" by fastforce
  have b': "builder_inv b'" using assms nb by (rule builder_inv_normalized_path)
  let ?row = "line_row m n hits covered count counts details"
  have row: "line_ok ?row" "line_key ?row = (m, n)" using False line_ok_row by auto
  have path: "lc_file_path ?row = m" using row(2) by (simp add: line_key_def)
  show ?thesis
  proof (cases "bt_get (cb_lines b') (m, n)")
    case None
    with False nb row path show ?thesis
      by (simp add: add_line_def builder_inv_insert_line[OF b'])
  next
    case (Some l)
    with builder_inv_line_get[OF b'] have "line_ok (merge l ?row)" "(m, n) = line_key (merge l ?row)"
      using row(1) by (auto intro: line_ok_merge)
    with False nb Some show ?thesis by (simp add: add_line_def builder_inv_insert_line[OF b'])
  qed
qed (use assms in \<open>simp add: add_line_def\<close>)

lemma builder_inv_add_file_metrics [simp]:
  "builder_inv b \<Longrightarrow> builder_inv (add_file_metrics canon f metrics b)"
  using builder_inv_normalized_path[of b canon f]
  by (auto simp: add_file_metrics_def builder_inv_def split: prod.splits)

lemma builder_inv_add_test_name [simp]: "builder_inv b \<Longrightarrow> builder_inv (add_test_name t b)"
  by (auto simp: add_test_name_def builder_inv_def observation_ok_def Let_def split: prod.splits)

lemma add_test_name_mem: "trim t \<noteq> [] \<Longrightarrow> trim t \<in> set (cb_test_names (add_test_name t b))"
  by (simp add: add_test_name_def Let_def)

lemma builder_inv_add_test_observation [simp]:
  assumes "builder_inv b"
  shows "builder_inv (add_test_observation canon t kind f n r b)"
proof (cases "trim t = [] \<or> trim kind = [] \<or> n \<le> 0")
  case False
  let ?b = "add_test_name (trim t) b"
  obtain m b' where nb: "normalized_path canon f ?b = (m, b')" by fastforce
  have "builder_inv ?b" using assms by simp
  then have b': "builder_inv b'" using nb by (rule builder_inv_normalized_path)
  moreover have "trim t \<in> set (cb_test_names b')"
    using add_test_name_mem[of "trim t" b] False normalized_path_frame(2)[OF nb] by simp
  ultimately show ?thesis
    using False nb by (auto simp: add_test_observation_def builder_inv_def observation_ok_def Let_def)
qed (use assms in \<open>auto simp: add_test_observation_def Let_def\<close>)

subsection \<open>The report of a well-formed builder\<close>

lemma foldl_collect:
  "foldl (\<lambda>r x. Some ((case r of None \<Rightarrow> [] | Some ls \<Rightarrow> ls) @ [x])) r xs =
   (if xs = [] then r else Some ((case r of None \<Rightarrow> [] | Some ls \<Rightarrow> ls) @ xs))"
  by (induction xs arbitrary: r) auto

lemma bt_get_group_by_file:
  "bt_get (group_by_file ls) p =
   (if filter (\<lambda>l. lc_file_path l = p) ls = [] then None else Some (filter (\<lambda>l. lc_file_path l = p) ls))"
  unfolding group_by_file_def bt_update_def
  by (subst bt.get_fold_update[where key = lc_file_path, OF bt.inv_empty]) (simp add: foldl_collect)

lemma bt_inv_group_by_file [simp]: "bt_inv (group_by_file ls)"
  unfolding group_by_file_def bt_update_def
  by (rule bt.inv_fold_update[where key = lc_file_path, OF bt.inv_empty])

lemma keys_group_by_file: "set (bt_keys (group_by_file ls)) = lc_file_path ` set ls"
proof -
  have "p \<in> set (bt_keys (group_by_file ls)) \<longleftrightarrow> p \<in> lc_file_path ` set ls" for p
    using bt_get_mem_keys[of "group_by_file ls" p]
    by (auto simp: bt_get_group_by_file filter_empty_conv split: if_splits)
  then show ?thesis by blast
qed

lemma build_file_path [simp]: "fc_file_path (build_file p ls m) = p"
  by (simp add: build_file_def metric_i64_def)

lemma build_file_ok: "file_ok (build_file p ls m)"
  by (simp add: build_file_def metric_i64_def file_ok_def)

lemma build_files:
  "cr_files (build b fmt path ws md) =
   map (\<lambda>p. build_file p (filter (\<lambda>l. lc_file_path l = p) (bt_values (cb_lines b)))
          (case bt_get (cb_file_metrics b) p of None \<Rightarrow> [] | Some m \<Rightarrow> m))
     (foldl (\<lambda>s p. bs_insert p s) (bt_keys (group_by_file (bt_values (cb_lines b))))
        (bt_keys (cb_file_metrics b)))"
  by (auto simp: build_def Let_def bt_get_group_by_file)

lemma build_file_paths:
  assumes "builder_inv b"
  shows "set (map fc_file_path (cr_files (build b fmt path ws md)))
      = lc_file_path ` set (bt_values (cb_lines b)) \<union> set (bt_keys (cb_file_metrics b))"
    and "sorted_wrt (<) (map fc_file_path (cr_files (build b fmt path ws md)))"
proof -
  have sorted: "sorted_wrt (<) (bt_keys (group_by_file (bt_values (cb_lines b))))"
    using bt_inv_group_by_file by (simp add: bt_inv_def bt_keys_def)
  show "set (map fc_file_path (cr_files (build b fmt path ws md)))
      = lc_file_path ` set (bt_values (cb_lines b)) \<union> set (bt_keys (cb_file_metrics b))"
    by (simp add: build_files o_def set_foldl_bs_insert keys_group_by_file image_image)
  show "sorted_wrt (<) (map fc_file_path (cr_files (build b fmt path ws md)))"
    by (simp add: build_files o_def sorted_foldl_bs_insert[OF sorted])
qed

lemma build_lines [simp]:
  "cr_lines (build b fmt path ws md) = bt_values (cb_lines b)"
  "cr_test_names (build b fmt path ws md) = cb_test_names b"
  "cr_test_coverage (build b fmt path ws md) = map observation_of_key (cb_test_coverage b)"
  "cr_warnings (build b fmt path ws md) = ws"
  "cr_format (build b fmt path ws md) = fmt"
  by (simp_all add: build_def Let_def)

lemma builder_inv_values:
  assumes "builder_inv b"
  shows "map line_key (bt_values (cb_lines b)) = bt_keys (cb_lines b)"
    and "l \<in> set (bt_values (cb_lines b)) \<Longrightarrow> line_ok l"
  using assms by (auto simp: builder_inv_def bt_values_def bt_keys_def)

lemma report_wf_build:
  assumes "builder_inv b"
  shows "report_wf (build b fmt path ws md)"
proof -
  have "sorted_wrt (<) (map line_key (cr_lines (build b fmt path ws md)))"
    using assms builder_inv_values(1)[OF assms] by (simp add: builder_inv_def bt_inv_def bt_keys_def)
  moreover have "\<forall>f \<in> set (cr_files (build b fmt path ws md)). file_ok f"
    by (auto simp: build_files build_file_ok)
  moreover have "lc_file_path ` set (cr_lines (build b fmt path ws md))
      \<subseteq> fc_file_path ` set (cr_files (build b fmt path ws md))"
    using build_file_paths(1)[OF assms, of fmt path ws md] by auto
  moreover have "\<forall>t \<in> set (cr_test_coverage (build b fmt path ws md)).
      tco_test_name t \<in> set (cb_test_names b) \<and> 0 < tco_line_number t"
    using assms by (auto simp: builder_inv_def observation_ok_def observation_of_key_def)
  ultimately show ?thesis
    using assms builder_inv_values(2)[OF assms] build_file_paths(2)[OF assms]
    by (simp add: report_wf_def builder_inv_def)
qed

text \<open>Warnings may be added to a finished report.\<close>

lemma report_wf_warnings [simp]: "report_wf (r\<lparr>cr_warnings := ws\<rparr>) = report_wf r"
  by (simp add: report_wf_def)

subsection \<open>The memo table and merging\<close>

text \<open>With a file system that answers the same path the same way, the memo table holds what
  normalization would compute, so it is invisible.\<close>

definition cache_ok :: "canon \<Rightarrow> coverage_builder \<Rightarrow> bool" where
  "cache_ok canon b \<longleftrightarrow> (\<forall>f n. bt_get (cb_normalized_paths b) f = Some n
     \<longrightarrow> n = normalize_report_path canon f (cb_repo_path b))"

lemma cache_ok_new [simp]: "cache_ok canon (new_builder repo)"
  by (simp add: cache_ok_def new_builder_def)

lemma normalized_path_value:
  assumes "cache_ok canon b"
  shows "\<exists>b'. normalized_path canon f b = (normalize_report_path canon f (cb_repo_path b), b')
    \<and> cache_ok canon b'"
  using assms by (auto simp: cache_ok_def normalized_path_def Let_def split: option.splits)

definition merge_row :: "line_coverage option \<Rightarrow> line_coverage \<Rightarrow> line_coverage" where
  "merge_row old row = (case old of None \<Rightarrow> row | Some l \<Rightarrow> merge l row)"

lemma line_row_key [simp]:
  "lc_file_path (line_row f n hits covered count counts details) = f"
  "lc_line_number (line_row f n hits covered count counts details) = n"
  by (cases counts; simp add: line_row_def Let_def)+

text \<open>What \<open>add_line\<close> does to the line table: one entry updated, merged with a previous row.\<close>

lemma add_line_lines:
  assumes "cache_ok canon b" and "0 < n" and k_def: "k = (normalize_report_path canon f (cb_repo_path b), n)"
  shows "cb_lines (add_line canon f n hits covered count counts details b) =
      bt_insert k (merge_row (bt_get (cb_lines b) k)
        (line_row (fst k) n hits covered count counts details)) (cb_lines b)"
    and "cache_ok canon (add_line canon f n hits covered count counts details b)"
    and "cb_repo_path (add_line canon f n hits covered count counts details b) = cb_repo_path b"
proof -
  obtain b' where b': "normalized_path canon f b = (fst k, b')" "cache_ok canon b'"
    using normalized_path_value[OF assms(1), of f] by (auto simp: k_def)
  note frame = normalized_path_frame[OF b'(1)]
  show "cb_lines (add_line canon f n hits covered count counts details b) =
      bt_insert k (merge_row (bt_get (cb_lines b) k)
        (line_row (fst k) n hits covered count counts details)) (cb_lines b)"
    using assms(2) b'(1) frame(1)
    by (simp add: add_line_def k_def merge_row_def split: option.splits)
  show "cache_ok canon (add_line canon f n hits covered count counts details b)"
    using assms(2) b'(2) by (simp add: add_line_def b'(1) cache_ok_def Let_def)
  show "cb_repo_path (add_line canon f n hits covered count counts details b) = cb_repo_path b"
    using assms(2) frame(5) by (simp add: add_line_def b'(1) Let_def)
qed

text \<open>A sequence of plain hit records, as the DA records of one report give them.\<close>

definition add_hits :: "canon \<Rightarrow> coverage_builder \<Rightarrow> (string \<times> int \<times> int) list \<Rightarrow> coverage_builder" where
  "add_hits canon b xs =
     foldl (\<lambda>b (f, n, h). add_line canon f n h None True (0, 0, 0, 0) (JObj []) b) b xs"

definition hit_row :: "canon \<Rightarrow> string option \<Rightarrow> string \<times> int \<times> int \<Rightarrow> line_coverage" where
  "hit_row canon repo x = (case x of (f, n, h) \<Rightarrow>
     line_row (normalize_report_path canon f repo) n h None True (0, 0, 0, 0) (JObj []))"

lemma line_key_hit_row:
  "line_key (hit_row canon repo (f, n, h)) = (normalize_report_path canon f repo, n)"
  by (simp add: hit_row_def line_key_def line_row_def Let_def)

lemma hit_row_sel [simp]:
  "lc_hits (hit_row canon repo (f, n, h)) = max h 0"
  "lc_covered (hit_row canon repo (f, n, h)) \<longleftrightarrow> 0 < h"
  "lc_count_line (hit_row canon repo (f, n, h))"
  by (auto simp: hit_row_def line_row_def Let_def)

lemma add_hits_lines:
  assumes "cache_ok canon b" and "\<forall>(f, n, h) \<in> set xs. 0 < n"
  shows "cb_lines (add_hits canon b xs) =
    foldl (\<lambda>m x. bt_insert (line_key (hit_row canon (cb_repo_path b) x))
        (merge_row (bt_get m (line_key (hit_row canon (cb_repo_path b) x))) (hit_row canon (cb_repo_path b) x)) m)
      (cb_lines b) xs"
  using assms
proof (induction xs arbitrary: b)
  case (Cons x xs)
  obtain f n h where x: "x = (f, n, h)" by (cases x)
  let ?b = "add_line canon f n h None True (0, 0, 0, 0) (JObj []) b"
  have "0 < n" using Cons.prems(2) x by simp
  note line = add_line_lines[OF Cons.prems(1) this refl, of f h None True "(0, 0, 0, 0)" "JObj []"]
  have "cb_lines ?b = bt_insert (line_key (hit_row canon (cb_repo_path b) x))
      (merge_row (bt_get (cb_lines b) (line_key (hit_row canon (cb_repo_path b) x)))
        (hit_row canon (cb_repo_path b) x)) (cb_lines b)"
    by (simp only: line(1) x line_key_hit_row fst_conv) (simp add: hit_row_def)
  moreover have "add_hits canon b (x # xs) = add_hits canon ?b xs"
    by (simp add: add_hits_def x)
  ultimately show ?case using Cons.IH[OF line(2)] Cons.prems(2) line(3) by simp
qed (simp add: add_hits_def)

lemma foldl_merge_rows:
  assumes "\<forall>x \<in> set xs. lc_count_line x"
  shows "foldl (\<lambda>r x. Some (merge_row r x)) (Some l) xs = Some l' \<Longrightarrow>
    lc_hits l' = Max (insert (lc_hits l) (lc_hits ` set xs))
    \<and> (lc_covered l' \<longleftrightarrow> lc_covered l \<or> (\<exists>x \<in> set xs. lc_covered x))"
  using assms
proof (induction xs arbitrary: l)
  case (Cons x xs)
  have m: "lc_hits (merge l x) = max (lc_hits l) (lc_hits x)"
    "lc_covered (merge l x) \<longleftrightarrow> lc_covered l \<or> lc_covered x"
    using Cons.prems(2) by (auto simp: merge_def)
  have "foldl (\<lambda>r x. Some (merge_row r x)) (Some (merge l x)) xs = Some l'"
    using Cons.prems(1) by (simp add: merge_row_def)
  from Cons.IH[OF this] Cons.prems(2) m show ?case
    by (cases "xs = []") (auto simp: max.assoc max.left_commute)
qed simp

lemma foldl_map_step: "foldl (\<lambda>r x. f r (g x)) r xs = foldl f r (map g xs)"
  by (induction xs arbitrary: r) auto

lemma add_hits_get:
  assumes "\<forall>(f, n, h) \<in> set xs. 0 < n"
    and rows_def: "rows = filter (\<lambda>l. line_key l = k) (map (hit_row canon repo) xs)"
  shows "bt_get (cb_lines (add_hits canon (new_builder repo) xs)) k =
     foldl (\<lambda>r x. Some (merge_row r x)) None rows"
proof -
  have repo: "cb_repo_path (new_builder repo) = repo" "cb_lines (new_builder repo) = []"
    by (simp_all add: new_builder_def)
  have filt: "map (hit_row canon repo) (filter (\<lambda>x. line_key (hit_row canon repo x) = k) xs) = rows"
    by (simp add: rows_def filter_map o_def)
  have "bt_get (cb_lines (add_hits canon (new_builder repo) xs)) k =
     foldl (\<lambda>r x. Some (merge_row r (hit_row canon repo x))) (bt_get [] k)
       (filter (\<lambda>x. line_key (hit_row canon repo x) = k) xs)"
    unfolding add_hits_lines[OF cache_ok_new assms(1)] repo
    by (rule bt.get_fold_update[where key = "\<lambda>x. line_key (hit_row canon repo x)"
          and upd = "\<lambda>r x. merge_row r (hit_row canon repo x)", OF bt.inv_empty])
  also have "\<dots> = foldl (\<lambda>r x. Some (merge_row r x)) (bt_get [] k) rows"
    unfolding filt[symmetric] by (rule foldl_map_step)
  finally show ?thesis by simp
qed

lemma add_hits_row:
  assumes pos: "\<forall>(f, n, h) \<in> set xs. 0 < n"
    and get: "bt_get (cb_lines (add_hits canon (new_builder repo) xs)) k = Some l"
    and hits_def: "hits = {max h 0 | f n h. (f, n, h) \<in> set xs \<and> (normalize_report_path canon f repo, n) = k}"
  shows "lc_hits l = Max hits \<and> (lc_covered l \<longleftrightarrow> 0 < lc_hits l)"
proof -
  let ?rows = "filter (\<lambda>l. line_key l = k) (map (hit_row canon repo) xs)"
  have fold: "foldl (\<lambda>r x. Some (merge_row r x)) None ?rows = Some l"
    using get add_hits_get[OF pos refl] by simp
  then obtain r rs where rows: "?rows = r # rs" by (cases ?rows) auto
  have counted: "\<forall>x \<in> set (r # rs). lc_count_line x \<and> (lc_covered x \<longleftrightarrow> 0 < lc_hits x)"
    unfolding rows[symmetric] by auto
  have hits: "lc_hits ` set (r # rs) = hits"
    unfolding rows[symmetric] hits_def by (force simp: line_key_hit_row)
  have "foldl (\<lambda>r x. Some (merge_row r x)) (Some r) rs = Some l"
    using fold by (simp only: rows foldl_Cons) (simp add: merge_row_def)
  from foldl_merge_rows[OF _ this] counted
  have res: "lc_hits l = Max (lc_hits ` set (r # rs))" "lc_covered l \<longleftrightarrow> (\<exists>x \<in> set (r # rs). lc_covered x)"
    by auto
  have "(\<exists>x \<in> set (r # rs). 0 < lc_hits x) \<longleftrightarrow> 0 < Max (lc_hits ` set (r # rs))"
    by (subst Max_gr_iff) auto
  with res counted hits show ?thesis by auto
qed


subsection \<open>Totals of a report\<close>

lemma count_partition:
  assumes "distinct ks" and "key ` set xs \<subseteq> set ks"
  shows "sum_list (map (\<lambda>k. count_where P (filter (\<lambda>x. key x = k) xs)) ks) = count_where P xs"
  using assms(2)
proof (induction xs)
  case (Cons x xs)
  have "distinct ls \<Longrightarrow> sum_list (map (\<lambda>k. if key x = k then (1::int) else 0) ls) = (if key x \<in> set ls then 1 else 0)" for ls
    by (induction ls) auto
  then have one: "sum_list (map (\<lambda>k. if key x = k then (1::int) else 0) ks) = 1"
    using assms(1) Cons.prems by simp
  have "count_where P (filter (\<lambda>y. key y = k) (x # xs))
      = count_where P (filter (\<lambda>y. key y = k) xs) + (if P x \<and> key x = k then 1 else 0)" for k
    by (simp add: count_where_def)
  then have "sum_list (map (\<lambda>k. count_where P (filter (\<lambda>y. key y = k) (x # xs))) ks)
      = sum_list (map (\<lambda>k. count_where P (filter (\<lambda>y. key y = k) xs)) ks)
        + sum_list (map (\<lambda>k. if P x \<and> key x = k then 1 else 0) ks)"
    by (simp only: sum_list_addf)
  with Cons one show ?case by (cases "P x") (simp_all add: count_where_def)
qed (simp add: count_where_def)

lemma build_file_lines [simp]:
  "fc_total_lines (build_file p ls []) = count_where lc_count_line ls"
  "fc_covered_lines (build_file p ls []) = count_where (\<lambda>l. lc_count_line l \<and> lc_covered l) ls"
  by (simp_all add: build_file_def metric_i64_def bt_remove_def count_where_def)

text \<open>Without overrides from the producer, the totals of a report count its lines.\<close>

lemma build_line_totals:
  assumes "cb_file_metrics b = []" and small: "int (length (cb_lines b)) < 2 ^ 63"
  shows "total_lines (build b fmt path ws md) = count_where lc_count_line (bt_values (cb_lines b))"
    and "covered_lines (build b fmt path ws md) = count_where (\<lambda>l. lc_count_line l \<and> lc_covered l) (bt_values (cb_lines b))"
proof -
  let ?ls = "bt_values (cb_lines b)" and ?ks = "bt_keys (group_by_file (bt_values (cb_lines b)))"
  have files: "cr_files (build b fmt path ws md) = map (\<lambda>p. build_file p (filter (\<lambda>l. lc_file_path l = p) ?ls) []) ?ks"
    using assms(1) by (simp add: build_files bt_keys_def)
  have part: "sum_list (map (\<lambda>k. count_where P (filter (\<lambda>x. lc_file_path x = k) ?ls)) ?ks) = count_where P ?ls" for P
  proof (rule count_partition)
    show "distinct ?ks" by (simp add: bt_keys_def bt_inv_distinct)
    show "lc_file_path ` set ?ls \<subseteq> set ?ks" by (simp only: keys_group_by_file subset_refl)
  qed
  have fit: "in_i64 (count_where P ?ls)" for P
  proof -
    have "count_where P ?ls \<le> int (length (cb_lines b))"
      using length_filter_le[of P ?ls] by (simp add: count_where_def bt_values_def)
    with small have "count_where P ?ls < 2 ^ 63" by linarith
    moreover have "0 \<le> count_where P ?ls" by (simp add: count_where_def)
    ultimately show ?thesis by (simp add: in_i64_def)
  qed
  show "total_lines (build b fmt path ws md) = count_where lc_count_line ?ls"
    using part[of lc_count_line] fit[of lc_count_line] by (simp add: total_lines_def files comp_def i64_sum_exact)
  show "covered_lines (build b fmt path ws md) = count_where (\<lambda>l. lc_count_line l \<and> lc_covered l) ?ls"
    using part[of "\<lambda>l. lc_count_line l \<and> lc_covered l"] fit[of "\<lambda>l. lc_count_line l \<and> lc_covered l"]
    by (simp add: covered_lines_def files comp_def i64_sum_exact)
qed

lemma covered_lines_le: "count_where (\<lambda>l. lc_count_line l \<and> lc_covered l) ls \<le> count_where lc_count_line ls"
  by (induction ls) (auto simp: count_where_def)

lemma add_line_metrics [simp]:
  "cb_file_metrics (add_line canon f n h c cl k d b) = cb_file_metrics b"
  using normalized_path_frame by (auto simp: add_line_def Let_def split: prod.splits)

lemma add_hits_metrics [simp]: "cb_file_metrics (add_hits canon b xs) = cb_file_metrics b"
  by (induction xs arbitrary: b) (auto simp: add_hits_def)

section \<open>Reachable builders\<close>

text \<open>The builder as a state machine: the readers reach a builder from a new one by its operations.\<close>

inductive builder_reach :: "canon \<Rightarrow> string option \<Rightarrow> coverage_builder \<Rightarrow> bool" for canon repo where
  start: "builder_reach canon repo (new_builder repo)"
| line: "builder_reach canon repo b \<Longrightarrow>
    builder_reach canon repo (add_line canon f n hits covered count_line counts details b)"
| metrics: "builder_reach canon repo b \<Longrightarrow> builder_reach canon repo (add_file_metrics canon f ms b)"
| test_name: "builder_reach canon repo b \<Longrightarrow> builder_reach canon repo (add_test_name t b)"
| test_observation: "builder_reach canon repo b \<Longrightarrow>
    builder_reach canon repo (add_test_observation canon t kind f n key b)"

lemma builder_reach_inv: "builder_reach canon repo b \<Longrightarrow> builder_inv b"
  by (induction rule: builder_reach.induct) simp_all


section \<open>Properties\<close>

text \<open>Whatever operations a reader applies to a new builder, in whatever order and with whatever
  arguments, the report it builds is well formed: lines and files in strictly increasing order
  without duplicates, line numbers positive, counts non-negative, every line's file listed, and
  every test observation attributed to a listed test.\<close>

theorem reachable_builder_report_wf:
  assumes "builder_reach canon repo b"
  shows "report_wf (build b fmt path ws md)"
  by (rule report_wf_build) (rule builder_reach_inv[OF assms])

theorem reachable_builder_report_wf_witness:
  "report_wf (build (add_line (\<lambda>_. None) ''a.rs'' 3 2 None True (0, 0, 0, 0) (JObj []) (new_builder None))
     ''lcov'' ''r.info'' [] (JObj []))"
  by (rule reachable_builder_report_wf[OF builder_reach.line[OF builder_reach.start]])

text \<open>Repeated records of one line merge to their maximum: after any list of hit records for positive
  lines, the row of a line has the greatest (non-negative) count recorded for it, and is covered
  exactly when that count is positive.\<close>

theorem repeated_records_keep_maximum:
  assumes "\<forall>(f, n, h) \<in> set xs. 0 < n"
    and "bt_get (cb_lines (add_hits canon (new_builder repo) xs)) k = Some l"
  shows "lc_hits l = Max {max h 0 | f n h. (f, n, h) \<in> set xs \<and> (normalize_report_path canon f repo, n) = k}
    \<and> (lc_covered l \<longleftrightarrow> 0 < lc_hits l)"
  using add_hits_row[OF assms refl] by blast

theorem repeated_records_keep_maximum_witness:
  "bt_get (cb_lines (add_hits (\<lambda>_. None) (new_builder None) [(''a.rs'', 3, 2), (''a.rs'', 3, 5)])) (''a.rs'', 3)
     = Some (line_row ''a.rs'' 3 5 None True (0, 0, 0, 0) (JObj []))
   \<and> lc_covered (line_row ''a.rs'' 3 5 None True (0, 0, 0, 0) (JObj []))"
proof -
  have get: "bt_get (cb_lines (add_hits (\<lambda>_. None) (new_builder None) [(''a.rs'', 3, 2), (''a.rs'', 3, 5)])) (''a.rs'', 3)
      = Some (line_row ''a.rs'' 3 5 None True (0, 0, 0, 0) (JObj []))" by code_simp
  have pos: "\<forall>(f, n, h) \<in> set [(''a.rs'', 3::int, 2::int), (''a.rs'', 3, 5)]. 0 < n" by simp
  from repeated_records_keep_maximum[OF pos get] get show ?thesis by (simp add: line_row_def)
qed

text \<open>When the producer overrides no metric, a report's line total is the number of its counted
  lines, its covered total the number of those that are covered, so it never exceeds the total.\<close>

theorem line_totals_count_lines:
  assumes "cb_file_metrics b = []" and "int (length (cb_lines b)) < 2 ^ 63"
  shows "total_lines (build b fmt path ws md) = count_where lc_count_line (cr_lines (build b fmt path ws md))
    \<and> covered_lines (build b fmt path ws md)
        = count_where (\<lambda>l. lc_count_line l \<and> lc_covered l) (cr_lines (build b fmt path ws md))
    \<and> covered_lines (build b fmt path ws md) \<le> total_lines (build b fmt path ws md)"
  using build_line_totals[OF assms] covered_lines_le by simp

theorem line_totals_count_lines_witness:
  "total_lines (build (add_hits (\<lambda>_. None) (new_builder None) [(''a.rs'', 1, 1), (''a.rs'', 2, 0)]) ''lcov'' [] [] (JObj [])) = 2
   \<and> covered_lines (build (add_hits (\<lambda>_. None) (new_builder None) [(''a.rs'', 1, 1), (''a.rs'', 2, 0)]) ''lcov'' [] [] (JObj [])) = 1"
proof -
  let ?b = "add_hits (\<lambda>_. None) (new_builder None) [(''a.rs'', 1, 1), (''a.rs'', 2, 0)]"
  have "length (cb_lines ?b) = 2" by code_simp
  then have small: "int (length (cb_lines ?b)) < 2 ^ 63" by simp
  have none: "cb_file_metrics ?b = []" by code_simp
  have "count_where lc_count_line (bt_values (cb_lines ?b)) = 2"
    "count_where (\<lambda>l. lc_count_line l \<and> lc_covered l) (bt_values (cb_lines ?b)) = 1" by code_simp+
  with line_totals_count_lines[OF none small, of "''lcov''" "[]" "[]" "JObj []"] show ?thesis by simp
qed

end
