(* ===== verification/Parser_Num.thy ===== *)
theory Parser_Num
  imports Json
begin

text \<open>
  The numbers of coverage reports (\<open>value_i64\<close>, \<open>safe_i64\<close>, \<open>parse_f64\<close> and
  \<open>numeric_i64\<close> of \<open>src/src/parser.rs\<close>).  Every number that is not already a JSON integer is
  read as a double and then converted, so a count above \<open>2 ^ 53\<close> is rounded.
\<close>

definition parse_error :: "string \<Rightarrow> app_error" where
  "parse_error message = Validation (''coverage parse error: '' @ message)"

definition parse_error_f64 :: "string \<Rightarrow> f64 \<Rightarrow> app_error" where
  "parse_error_f64 message x = ValidationF (''coverage parse error: '' @ message) x"

definition parse_f64 :: "string \<Rightarrow> f64 res" where
  "parse_f64 value = (case parse_f64_str value of
      None \<Rightarrow> Inl (parse_error (''invalid coverage number: '' @ value))
    | Some (Fin m e) \<Rightarrow> Inr (Fin m e)
    | Some x \<Rightarrow> Inl (parse_error_f64 ''coverage number must be finite: '' x))"

fun numeric_i64 :: "f64 \<Rightarrow> int res" where
  "numeric_i64 (Fin m e) =
     (let (n, d) = f64_ratio m e
      in if \<not> (- (2 ^ 63) * d \<le> n \<and> n < 2 ^ 63 * d)
         then Inl (parse_error_f64 ''coverage number is outside the supported range: '' (Fin m e))
         else if n mod d \<noteq> 0
         then Inl (parse_error_f64 ''coverage number is not an integer: '' (Fin m e))
         else Inr (n div d))"
| "numeric_i64 x = Inl (parse_error_f64 ''coverage number is outside the supported range: '' x)"

fun value_i64 :: "json \<Rightarrow> int res" where
  "value_i64 JNull = Inl (parse_error ''coverage number must not be null'')"
| "value_i64 (JInt n) = (if in_i64 n then Inr n else numeric_i64 (f64_of_int n))"
| "value_i64 (JFloat x) = numeric_i64 x"
| "value_i64 (JStr s) = bindr (parse_f64 s) numeric_i64"
| "value_i64 _ = Inl (parse_error ''coverage number must be numeric'')"

definition safe_i64 :: "string option \<Rightarrow> int res" where
  "safe_i64 value = bindr (ok_or value (parse_error ''coverage number is missing''))
     (\<lambda>value. bindr (parse_f64 value) numeric_i64)"

section \<open>Range and exactness\<close>

text \<open>The exact value of a finite double, as a relation to an integer.\<close>

definition f64_is_int :: "f64 \<Rightarrow> int \<Rightarrow> bool" where
  "f64_is_int x v = (case x of
      Fin m e \<Rightarrow> (if 0 \<le> e then v = m * 2 ^ nat e else v * 2 ^ nat (- e) = m)
    | _ \<Rightarrow> False)"

lemma f64_ratio_pos: "f64_ratio m e = (n, d) \<Longrightarrow> 0 < d"
  by (auto split: if_splits)

text \<open>\<open>numeric_i64\<close> accepts exactly the doubles that are integers of the range.\<close>

lemma numeric_i64_iff: "numeric_i64 x = Inr v \<longleftrightarrow> f64_is_int x v \<and> in_i64 v"
proof (cases x)
  case (Fin m e)
  show ?thesis
  proof (cases "0 \<le> e")
    case True
    with Fin show ?thesis by (auto simp: f64_is_int_def in_i64_def)
  next
    case False
    define d :: int where "d = 2 ^ nat (- e)"
    have d: "0 < d" by (simp add: d_def)
    have range: "- (2 ^ 63) * d \<le> v * d \<and> v * d < 2 ^ 63 * d \<longleftrightarrow> in_i64 v" for v
      unfolding in_i64_def using mult_le_cancel_right_pos[OF d] mult_less_cancel_right_pos[OF d] by blast
    have num: "numeric_i64 x = Inr v \<longleftrightarrow> - (2 ^ 63) * d \<le> m \<and> m < 2 ^ 63 * d \<and> m mod d = 0 \<and> m div d = v"
      using Fin False by (auto simp: d_def[symmetric])
    have "m mod d = 0 \<and> m div d = v \<longleftrightarrow> v * d = m" using d by (auto simp: mod_eq_0_iff_dvd dvd_div_mult_self)
    then have "numeric_i64 x = Inr v \<longleftrightarrow> v * d = m \<and> in_i64 v"
      unfolding num using range[of v] by auto
    then show ?thesis using Fin False by (simp add: f64_is_int_def d_def)
  qed
qed (auto simp: f64_is_int_def)

lemma numeric_i64_range: "numeric_i64 x = Inr v \<Longrightarrow> in_i64 v"
  by (simp add: numeric_i64_iff)

lemma value_i64_range: "value_i64 v = Inr n \<Longrightarrow> in_i64 n"
  by (cases v) (auto simp: bindr_eq_Inr numeric_i64_range split: if_splits simp del: numeric_i64.simps)

lemma safe_i64_range: "safe_i64 s = Inr n \<Longrightarrow> in_i64 n"
  by (auto simp: safe_i64_def bindr_eq_Inr numeric_i64_range)

lemma bit_length_bounds: "0 < n \<Longrightarrow> 0 < bit_length n \<and> 2 ^ nat (bit_length n - 1) \<le> n \<and> n < 2 ^ nat (bit_length n)"
proof (induction n rule: bit_length.induct)
  case (1 n)
  have step: "bit_length n = 1 + bit_length (n div 2)" using 1(2) by (subst bit_length.simps) simp
  show ?case
  proof (cases "n = 1")
    case True
    have "bit_length 0 = 0" by (subst bit_length.simps) simp
    with step True show ?thesis by simp
  next
    case False
    with 1 have IH: "0 < bit_length (n div 2)" "2 ^ nat (bit_length (n div 2) - 1) \<le> n div 2"
        "n div 2 < 2 ^ nat (bit_length (n div 2))" by auto
    have "(2::int) ^ nat (bit_length (n div 2)) = 2 * 2 ^ nat (bit_length (n div 2) - 1)"
      using IH(1) by (metis nat_diff_distrib Suc_nat_eq_nat_zadd1 diff_ge_0_iff_ge int_one_le_iff_zero_less
          power_Suc diff_add_cancel add.commute)
    moreover have "(2::int) ^ nat (1 + bit_length (n div 2)) = 2 * 2 ^ nat (bit_length (n div 2))"
      using IH(1) by (metis Suc_nat_eq_nat_zadd1 add.commute less_imp_le power_Suc)
    moreover define p :: int where "p = 2 ^ nat (bit_length (n div 2) - 1)"
    ultimately have "p \<le> n div 2" "n div 2 < 2 * p" "(2::int) ^ nat (bit_length n) = 4 * p"
      "(2::int) ^ nat (bit_length n - 1) = 2 * p"
      using IH step by simp_all
    moreover from this(1,2) have "2 * p \<le> n" "n < 4 * p" by linarith+
    ultimately show ?thesis using step IH(1) by simp
  qed
qed

lemma bit_length_1 [simp]: "bit_length 1 = 1"
  by (simp add: bit_length.simps)

lemma floor_log2_one: "0 < a \<Longrightarrow> floor_log2 a 1 = bit_length a - 1"
  using bit_length_bounds[of a] by (auto simp: floor_log2_def scaled_le_def Let_def)

text \<open>Integers below \<open>2 ^ 53\<close> in magnitude are doubles.\<close>

lemma f64_of_int_exact:
  assumes "\<bar>n\<bar> < 2 ^ 53"
  shows "f64_is_int (f64_of_int n) n"
proof (cases "n = 0")
  case True
  then show ?thesis by (simp add: f64_of_int_def f64_of_ratio_def f64_is_int_def)
next
  case False
  let ?a = "\<bar>n\<bar>"
  define e where "e = max (floor_log2 ?a 1 - 52) (- 1074)"
  have bl: "0 < bit_length ?a" "2 ^ nat (bit_length ?a - 1) \<le> ?a"
    using bit_length_bounds[of ?a] False by auto
  have "(2::int) ^ nat (bit_length ?a - 1) < 2 ^ 53" using bl(2) assms by linarith
  then have "nat (bit_length ?a - 1) < 53" by (rule power_less_imp_less_exp[rotated]) simp
  then have "bit_length ?a \<le> 53" using bl(1) by linarith
  then have e: "e \<le> 0" "- 1074 \<le> e" using False by (auto simp: e_def floor_log2_one)
  define q where "q = (if 0 \<le> e then div_half_even ?a (1 * 2 ^ nat e) else div_half_even (?a * 2 ^ nat (- e)) 1)"
  have q: "q = ?a * 2 ^ nat (- e)" using e by (auto simp: q_def div_half_even_def Let_def)
  have "f64_of_int n = Fin (sgn n * q) e"
    using False e unfolding f64_of_int_def f64_of_ratio_def e_def[symmetric] Let_def q_def[symmetric] by auto
  moreover have "sgn n * q = n * 2 ^ nat (- e)" by (simp add: q sgn_mult_abs mult.assoc[symmetric] abs_sgn)
  ultimately show ?thesis using e by (auto simp: f64_is_int_def)
qed

text \<open>The decimal text of an integer reads back as the double nearest to it.\<close>

lemma takeWhile_digits:
  assumes "list_all is_digit s"
  shows "takeWhile is_digit s = s" "dropWhile is_digit s = []"
  using assms by (simp_all add: list_all_iff)

lemma parse_decimal_show_nat: "0 \<le> n \<Longrightarrow> parse_decimal (show_nat n) = Some (n, 0)"
  unfolding parse_decimal_def takeWhile_digits[OF show_nat_digits] Let_def
  by (simp add: parse_exponent_def)

lemma lower_digit: "is_digit c \<Longrightarrow> lower_char c = c"
  by (simp add: is_digit_def lower_char_def)

lemma is_digit_not_letter [simp]: "\<not> is_digit (CHR ''i'')" "\<not> is_digit (CHR ''n'')"
  by (simp_all add: is_digit_def)

lemma parse_f64_str_digits:
  assumes "body = show_nat a" and "0 \<le> a"
  shows "to_lower body \<noteq> ''inf'' \<and> to_lower body \<noteq> ''infinity'' \<and> to_lower body \<noteq> ''nan''"
proof -
  obtain c cs where "body = c # cs" using assms(1) by (cases "show_nat a") auto
  moreover from this have "is_digit c" using assms show_nat_hd_digit by metis
  ultimately show ?thesis by (auto simp: to_lower_def lower_digit)
qed

lemma parse_f64_str_show_int: "parse_f64_str (show_int n) = Some (f64_of_int n)"
proof (cases "n < 0")
  case True
  then show ?thesis
    using parse_f64_str_digits[OF refl, of "- n"] parse_decimal_show_nat[of "- n"]
    by (simp add: parse_f64_str_def show_int_def f64_of_decimal_def f64_of_int_def)
next
  case False
  obtain c cs where s: "show_nat n = c # cs" by (cases "show_nat n") auto
  with False have "is_digit c" by (auto intro: show_nat_hd_digit)
  then have "c \<noteq> CHR ''-''" "c \<noteq> CHR ''+''" by auto
  with False s show ?thesis
    using parse_f64_str_digits[OF refl, of n] parse_decimal_show_nat[of n]
    by (simp add: parse_f64_str_def show_int_def f64_of_decimal_def f64_of_int_def)
qed

lemma f64_is_int_Fin: "f64_is_int x v \<Longrightarrow> \<exists>m e. x = Fin m e"
  by (cases x) (auto simp: f64_is_int_def)

lemma safe_i64_show_int:
  assumes "\<bar>n\<bar> < 2 ^ 53"
  shows "safe_i64 (Some (show_int n)) = Inr n"
proof -
  note exact = f64_of_int_exact[OF assms]
  from f64_is_int_Fin[OF exact] obtain m e where f: "f64_of_int n = Fin m e" by blast
  have "in_i64 n" using assms by (simp add: in_i64_def abs_less_iff)
  with exact have "numeric_i64 (f64_of_int n) = Inr n" by (simp add: numeric_i64_iff)
  then show ?thesis
    by (simp only: safe_i64_def ok_or_simps bindr.simps parse_f64_def parse_f64_str_show_int f option.case f64.case)
qed


section \<open>Properties\<close>

text \<open>Counts written as decimal text are read back exactly as long as they are below \<open>2 ^ 53\<close> in
  magnitude, although they pass through a double.\<close>

theorem counts_below_2_53_exact:
  assumes "\<bar>n\<bar> < 2 ^ 53"
  shows "safe_i64 (Some (show_int n)) = Inr n"
  by (rule safe_i64_show_int[OF assms])

theorem counts_below_2_53_exact_witness:
  "safe_i64 (Some (show_int 9007199254740991)) = Inr 9007199254740991"
  by (rule counts_below_2_53_exact) simp

text \<open>A double is accepted as a count exactly when it is an integer in the range of \<open>i64\<close>, and then
  its value is kept.\<close>

theorem numeric_count_exactly_integers:
  "numeric_i64 x = Inr v \<longleftrightarrow> f64_is_int x v \<and> in_i64 v"
  by (rule numeric_i64_iff)

text \<open>Above that bound a count can be silently changed: the text \<open>9007199254740993\<close> is read as
  \<open>9007199254740992\<close>, and the greatest \<open>i64\<close> is refused.\<close>

theorem large_counts_lose_precision:
  "safe_i64 (Some ''9007199254740993'') = Inr 9007199254740992
   \<and> (\<exists>e. safe_i64 (Some ''9223372036854775807'') = Inl e)"
proof
  show "safe_i64 (Some ''9007199254740993'') = Inr 9007199254740992" by code_simp
  have "(case safe_i64 (Some ''9223372036854775807'') of Inl _ \<Rightarrow> True | Inr _ \<Rightarrow> False)" by code_simp
  then show "\<exists>e. safe_i64 (Some ''9223372036854775807'') = Inl e" by (auto split: sum.splits)
qed

end
