(* ===== verification/Parser_Text.thy ===== *)
theory Parser_Text
  imports Models Parser_Num
begin

text \<open>
  The two line-oriented formats of \<open>src/src/parser.rs\<close>: LCOV tracefiles (\<open>parse_lcov\<close>,
  \<open>add_lcov_branch\<close>) and Go coverprofiles (\<open>parse_go\<close>, \<open>go_position_line\<close>).  The LCOV loop is
  a fold of a record step over the trimmed lines, with the loop's local variables as its state.
\<close>

definition from_utf8 :: "string \<Rightarrow> string res" where
  "from_utf8 bytes = (if utf8_valid bytes then Inr bytes else Inl (Io (IoInvalidData ''invalid utf-8'')))"

definition empty_details :: json where
  "empty_details = JObj []"

section \<open>LCOV\<close>

record lcov_state =
  ls_builder :: coverage_builder
  ls_current_test :: "string option"
  ls_current_file :: "string option"
  ls_function_lines :: "(string, int) btree"

definition add_observation_opt :: "canon \<Rightarrow> string option \<Rightarrow> string \<Rightarrow> string \<Rightarrow> int \<Rightarrow> string
    \<Rightarrow> coverage_builder \<Rightarrow> coverage_builder" where
  "add_observation_opt canon test kind file line_number key b = (case test of
      None \<Rightarrow> b
    | Some t \<Rightarrow> add_test_observation canon t kind file line_number key b)"

definition nonempty :: "string option \<Rightarrow> string option" where
  "nonempty x = (case x of Some s \<Rightarrow> if s = [] then None else Some s | None \<Rightarrow> None)"

definition lcov_da :: "canon \<Rightarrow> string \<Rightarrow> string \<Rightarrow> lcov_state \<Rightarrow> lcov_state res" where
  "lcov_da canon file payload s =
     (let parts = split_on (CHR '','') payload in
      bindr (ok_or (nonempty (nth_opt parts 0)) (parse_error ''LCOV DA record is missing a line number'')) (\<lambda>ln.
      bindr (ok_or (nonempty (nth_opt parts 1)) (parse_error ''LCOV DA record is missing hit data'')) (\<lambda>ht.
      bindr (safe_i64 (Some ln)) (\<lambda>line_number.
      bindr (safe_i64 (Some ht)) (\<lambda>hits.
        let b = add_line canon file line_number hits None True (0, 0, 0, 0) empty_details (ls_builder s);
            b = (if 0 < hits then add_observation_opt canon (ls_current_test s) ''line'' file line_number ''line'' b else b)
        in Inr (s\<lparr>ls_builder := b\<rparr>))))))"

definition lcov_fn :: "string \<Rightarrow> lcov_state \<Rightarrow> lcov_state res" where
  "lcov_fn payload s =
     bindr (ok_or (split_once (CHR '','') payload) (parse_error ''LCOV FN record is malformed'')) (\<lambda>(ln, name).
     bindr (safe_i64 (Some ln)) (\<lambda>line_number.
       Inr (s\<lparr>ls_function_lines := bt_insert name line_number (ls_function_lines s)\<rparr>)))"

definition lcov_fnda :: "canon \<Rightarrow> string \<Rightarrow> string \<Rightarrow> lcov_state \<Rightarrow> lcov_state res" where
  "lcov_fnda canon file payload s =
     bindr (ok_or (split_once (CHR '','') payload) (parse_error ''LCOV FNDA record is malformed'')) (\<lambda>(ht, name).
       case bt_get (ls_function_lines s) name of
         None \<Rightarrow> Inr s
       | Some line_number \<Rightarrow>
           bindr (safe_i64 (Some ht)) (\<lambda>hits.
             let b = add_line canon file line_number 0 (Some False) False
                   (0, 0, 1, i64_of_bool (0 < hits)) empty_details (ls_builder s);
                 b = (if 0 < hits then add_observation_opt canon (ls_current_test s) ''function'' file line_number name b else b)
             in Inr (s\<lparr>ls_builder := b\<rparr>)))"

definition add_lcov_branch :: "canon \<Rightarrow> coverage_builder \<Rightarrow> string \<Rightarrow> string \<Rightarrow> string option
    \<Rightarrow> coverage_builder res" where
  "add_lcov_branch canon b file payload test_name =
     (let parts = split_on (CHR '','') payload in
      if length parts < 4 then Inl (parse_error ''LCOV BRDA record is malformed'')
      else
        (let taken = parts ! 3 in
         bindr (if taken = ''-'' then Inr 0 else bindr (safe_i64 (Some taken)) (\<lambda>n. Inr (i64_of_bool (0 < n)))) (\<lambda>covered.
         bindr (safe_i64 (nth_opt parts 0)) (\<lambda>line_number.
           let b = add_line canon file line_number 0 (Some False) False (1, covered, 0, 0) empty_details b
           in Inr (if 0 < covered
                   then add_observation_opt canon test_name ''branch'' file line_number
                          (''block='' @ parts ! 1 @ '';branch='' @ parts ! 2) b
                   else b)))))"

text \<open>One line of the file, after trimming: the branches of the loop body in their order.\<close>

definition lcov_record :: "canon \<Rightarrow> string \<Rightarrow> string \<Rightarrow> lcov_state \<Rightarrow> lcov_state res" where
  "lcov_record canon file line s =
     (case strip_prefix ''DA:'' line of Some payload \<Rightarrow> lcov_da canon file payload s
      | None \<Rightarrow>
     (case strip_prefix ''FN:'' line of Some payload \<Rightarrow> lcov_fn payload s
      | None \<Rightarrow>
     (case strip_prefix ''FNDA:'' line of Some payload \<Rightarrow> lcov_fnda canon file payload s
      | None \<Rightarrow>
     (case strip_prefix ''BRDA:'' line of
        Some payload \<Rightarrow>
          bindr (add_lcov_branch canon (ls_builder s) file payload (ls_current_test s)) (\<lambda>b.
            Inr (s\<lparr>ls_builder := b\<rparr>))
      | None \<Rightarrow> Inr s))))"

definition lcov_step :: "canon \<Rightarrow> lcov_state \<Rightarrow> string \<Rightarrow> lcov_state res" where
  "lcov_step canon s raw =
     (let line = trim raw in
      if line = [] then Inr s
      else case strip_prefix ''TN:'' line of
        Some test_name \<Rightarrow>
          (let t = trim test_name in
           Inr (if t = [] then s\<lparr>ls_current_test := None\<rparr>
                else s\<lparr>ls_current_test := Some t, ls_builder := add_test_name t (ls_builder s)\<rparr>))
      | None \<Rightarrow>
      (case strip_prefix ''SF:'' line of
        Some file \<Rightarrow> Inr (s\<lparr>ls_current_file := Some file, ls_function_lines := []\<rparr>)
      | None \<Rightarrow>
      (if line = ''end_of_record''
       then Inr (s\<lparr>ls_current_test := None, ls_current_file := None, ls_function_lines := []\<rparr>)
       else case ls_current_file s of
         None \<Rightarrow> Inr s
       | Some file \<Rightarrow> lcov_record canon file line s)))"

definition lcov_init :: "string option \<Rightarrow> lcov_state" where
  "lcov_init repo_path = \<lparr>ls_builder = new_builder repo_path, ls_current_test = None,
     ls_current_file = None, ls_function_lines = []\<rparr>"

definition parse_lcov :: "canon \<Rightarrow> string \<Rightarrow> string \<Rightarrow> string option \<Rightarrow> coverage_report res" where
  "parse_lcov canon path bytes repo_path =
     bindr (from_utf8 bytes) (\<lambda>text.
     bindr (foldM (lcov_step canon) (lcov_init repo_path) (lines_of text)) (\<lambda>s.
       let report = build (ls_builder s) ''lcov'' path [] (JObj [])
       in Inr (if cr_lines report = []
               then report\<lparr>cr_warnings := cr_warnings report @ [''LCOV report contained no DA/BRDA/FNDA records.'']\<rparr>
               else report)))"

section \<open>Go coverprofiles\<close>

definition go_position_line :: "string \<Rightarrow> int res" where
  "go_position_line position =
     bindr (ok_or (split_once (CHR ''.'') position)
       (parse_error (''Go coverprofile position is malformed: '' @ position))) (\<lambda>(ln, col).
     bindr (safe_i64 (Some ln)) (\<lambda>line.
     bindr (safe_i64 (Some col)) (\<lambda>column.
       if line < 1 then Inl (parse_error (''Go coverprofile line must be positive: '' @ show_int line))
       else Inr line)))"

definition go_mode_message :: string where
  "go_mode_message = ''Go coverprofile must start with '' @ [CHR 0x27] @ ''mode:'' @ [CHR 0x27]"

definition go_record :: "canon \<Rightarrow> coverage_builder \<Rightarrow> string \<Rightarrow> coverage_builder res" where
  "go_record canon b raw =
     (if trim raw = [] then Inr b
      else let parts = split_whitespace raw in
      if length parts \<noteq> 3
      then Inl (parse_error (''Go coverprofile record must contain exactly three fields: '' @ raw))
      else
      bindr (ok_or (rsplit_once (CHR '':'') (parts ! 0))
        (parse_error (''Go coverprofile range is malformed: '' @ parts ! 0))) (\<lambda>(file, range).
      bindr (ok_or (split_once (CHR '','') range)
        (parse_error (''Go coverprofile range is malformed: '' @ range))) (\<lambda>(start, end).
      bindr (go_position_line start) (\<lambda>start_line.
      bindr (go_position_line end) (\<lambda>end_line.
      bindr (safe_i64 (Some (parts ! 1))) (\<lambda>statements.
      bindr (safe_i64 (Some (parts ! 2))) (\<lambda>hits.
        if statements < 0 \<or> hits < 0 \<or> end_line < start_line
        then Inl (parse_error (''Go coverprofile record has invalid counts or range: '' @ raw))
        else if 1000000 < i64_add (i64_sub end_line start_line) 1
        then Inl (parse_error ''Go coverprofile range exceeds one million lines'')
        else Inr (foldl (\<lambda>b line. add_line canon file line hits (Some (0 < hits)) True (0, 0, 0, 0) empty_details b)
                   b [start_line..end_line]))))))))"

definition parse_go :: "canon \<Rightarrow> string \<Rightarrow> string \<Rightarrow> string option \<Rightarrow> coverage_report res" where
  "parse_go canon path bytes repo_path =
     bindr (from_utf8 bytes) (\<lambda>text.
       case lines_of text of
         [] \<Rightarrow> Inl (parse_error go_mode_message)
       | first # rest \<Rightarrow>
           (if \<not> starts_with ''mode:'' first
            then Inl (parse_error go_mode_message)
            else bindr (foldM (go_record canon) (new_builder repo_path) rest) (\<lambda>b.
              Inr (build b ''go'' path
                [''Go coverprofiles report statement blocks; this expands each block to all touched lines.'']
                (JObj [])))))"

section \<open>Every accepted report is well formed\<close>

lemma builder_inv_add_observation_opt [simp]:
  "builder_inv b \<Longrightarrow> builder_inv (add_observation_opt canon t kind f n k b)"
  by (simp add: add_observation_opt_def split: option.splits)

lemma builder_inv_lcov_branch:
  "builder_inv b \<Longrightarrow> add_lcov_branch canon b f payload t = Inr b' \<Longrightarrow> builder_inv b'"
  by (auto simp: add_lcov_branch_def Let_def bindr_eq_Inr split: if_splits)

lemma builder_inv_lcov_record:
  "builder_inv (ls_builder s) \<Longrightarrow> lcov_record canon f line s = Inr s' \<Longrightarrow> builder_inv (ls_builder s')"
  by (auto simp: lcov_record_def lcov_da_def lcov_fn_def lcov_fnda_def Let_def bindr_eq_Inr
      split: option.splits if_splits dest: builder_inv_lcov_branch)

lemma builder_inv_lcov_step:
  "builder_inv (ls_builder s) \<Longrightarrow> lcov_step canon s raw = Inr s' \<Longrightarrow> builder_inv (ls_builder s')"
  by (auto simp: lcov_step_def Let_def split: option.splits if_splits dest: builder_inv_lcov_record)

lemma report_wf_parse_lcov: "parse_lcov canon path bytes repo = Inr r \<Longrightarrow> report_wf r"
proof -
  assume "parse_lcov canon path bytes repo = Inr r"
  then obtain s where s: "foldM (lcov_step canon) (lcov_init repo) (lines_of bytes) = Inr s"
    and r: "r = (let report = build (ls_builder s) ''lcov'' path [] (JObj [])
       in if cr_lines report = []
          then report\<lparr>cr_warnings := cr_warnings report @ [''LCOV report contained no DA/BRDA/FNDA records.'']\<rparr>
          else report)"
    by (auto simp: parse_lcov_def from_utf8_def bindr_eq_Inr Let_def split: if_splits)
  have "builder_inv (ls_builder s)"
    by (rule foldM_invariant[OF s]) (auto simp: lcov_init_def intro: builder_inv_lcov_step)
  then have "report_wf (build (ls_builder s) ''lcov'' path [] (JObj []))" by (rule report_wf_build)
  then show ?thesis by (simp add: r Let_def)
qed

lemma builder_inv_foldl_add_line:
  "builder_inv b \<Longrightarrow>
   builder_inv (foldl (\<lambda>b x. add_line canon (f x) (n x) (h x) (c x) (cl x) (k x) (d x) b) b xs)"
  by (rule foldl_invariant) auto

lemma builder_inv_go_record: "builder_inv b \<Longrightarrow> go_record canon b raw = Inr b' \<Longrightarrow> builder_inv b'"
  by (auto simp: go_record_def Let_def bindr_eq_Inr builder_inv_foldl_add_line split: if_splits)

lemma report_wf_parse_go: "parse_go canon path bytes repo = Inr r \<Longrightarrow> report_wf r"
proof -
  assume p: "parse_go canon path bytes repo = Inr r"
  have "\<exists>rest b ws. foldM (go_record canon) (new_builder repo) rest = Inr b
      \<and> r = build b ''go'' path ws (JObj [])"
    using p by (cases "lines_of bytes")
      (auto simp: parse_go_def from_utf8_def bindr_eq_Inr split: if_splits)
  then obtain rest b ws where b: "foldM (go_record canon) (new_builder repo) rest = Inr b"
    and r: "r = build b ''go'' path ws (JObj [])" by blast
  have "builder_inv b" by (rule foldM_invariant[OF b]) (auto intro: builder_inv_go_record)
  then show ?thesis unfolding r by (rule report_wf_build)
qed


section \<open>The expansion of a Go block is bounded\<close>

lemma length_bt_insert: "length (bt_insert k v m) \<le> Suc (length m)"
  by (induction k v m rule: bt_insert.induct) auto

lemma length_add_line: "length (cb_lines (add_line canon f n h c cl k d b)) \<le> Suc (length (cb_lines b))"
proof -
  obtain p b' where np: "normalized_path canon f b = (p, b')" by (cases "normalized_path canon f b")
  show ?thesis
    using normalized_path_frame(1)[OF np] by (auto simp: add_line_def np Let_def length_bt_insert split: option.split)
qed

lemma length_add_lines:
  "length (cb_lines (foldl (\<lambda>b line. add_line canon f line h c cl k d b) b ls)) \<le> length (cb_lines b) + length ls"
proof (induction ls arbitrary: b)
  case (Cons l ls)
  show ?case using Cons.IH[of "add_line canon f l h c cl k d b"] length_add_line[of canon f l h c cl k d b] by simp
qed simp

lemma go_position_line_range: "go_position_line p = Inr n \<Longrightarrow> 1 \<le> n \<and> n < 2 ^ 63"
  by (auto simp: go_position_line_def bindr_eq_Inr in_i64_def dest!: safe_i64_range split: if_splits)

lemma go_span_exact: "1 \<le> s \<Longrightarrow> s \<le> e \<Longrightarrow> e < 2 ^ 63 \<Longrightarrow> i64_add (i64_sub e s) 1 = e - s + 1"
  by (simp add: i64_sub_exact i64_add_exact in_i64_def)

section \<open>Properties\<close>

text \<open>One record of a Go coverprofile adds at most a million lines to the report, however large the
  positions it names: the size check cannot be bypassed by overflow.\<close>

theorem go_record_bounded:
  assumes "go_record canon b raw = Inr b'"
  shows "length (cb_lines b') \<le> length (cb_lines b) + 1000000"
proof (cases "trim raw = []")
  case False
  obtain fl start fin s e h where s: "go_position_line start = Inr s" and e: "go_position_line fin = Inr e"
      and ok: "s \<le> e" and small: "\<not> 1000000 < i64_add (i64_sub e s) 1"
      and b': "b' = foldl (\<lambda>b line. add_line canon fl line h (Some (0 < h)) True (0, 0, 0, 0) empty_details b) b [s..e]"
    using assms False by (fastforce simp: go_record_def Let_def bindr_eq_Inr split: if_splits)
  have "length [s..e] \<le> 1000000"
    using go_position_line_range[OF s] go_position_line_range[OF e] ok small by (simp add: go_span_exact)
  with length_add_lines[of canon fl h "Some (0 < h)" True "(0, 0, 0, 0)" empty_details b "[s..e]"] show ?thesis
    unfolding b' by linarith
qed (use assms in \<open>simp add: go_record_def\<close>)

theorem go_record_bounded_witness:
  "length (cb_lines (foldl (\<lambda>b line. add_line (\<lambda>_. None) ''a.go'' line 1 (Some True) True (0, 0, 0, 0) empty_details b)
      (new_builder None) [2..3])) \<le> 1000000"
proof -
  have "go_record (\<lambda>_. None) (new_builder None) ''a.go:2.1,3.4 1 1''
      = Inr (foldl (\<lambda>b line. add_line (\<lambda>_. None) ''a.go'' line 1 (Some True) True (0, 0, 0, 0) empty_details b)
          (new_builder None) [2..3])" by code_simp
  from go_record_bounded[OF this] show ?thesis by (simp add: new_builder_def)
qed

end
