(* ===== verification/Parser_Json.thy ===== *)
theory Parser_Json
  imports Parser_Text
begin

text \<open>
  The JSON formats of \<open>src/src/parser.rs\<close>: coverage.py (\<open>parse_coveragepy_json\<close>), Istanbul
  (\<open>parse_istanbul\<close>) and LLVM exports (\<open>parse_llvm\<close>).  Reading the JSON text
  (\<open>serde_json::from_slice\<close>) is the argument \<open>from_slice\<close>; each loop over the decoded value is
  a fold of its body over the builder, stopping at the first error.
\<close>

type_synonym json_reader = "string \<Rightarrow> string + json"

definition read_json :: "json_reader \<Rightarrow> string \<Rightarrow> json res" where
  "read_json from_slice bytes = (case from_slice bytes of Inl e \<Rightarrow> Inl (Json e) | Inr v \<Rightarrow> Inr v)"

section \<open>coverage.py\<close>

definition coverage_array :: "(string, json) btree \<Rightarrow> string \<Rightarrow> json list option res" where
  "coverage_array object key = (case bt_get object key of
      None \<Rightarrow> Inr None
    | Some JNull \<Rightarrow> Inr None
    | Some v \<Rightarrow> (case as_array v of
        Some vs \<Rightarrow> Inr (Some vs)
      | None \<Rightarrow> Inl (parse_error (''coverage.py '' @ key @ '' must be an array or null''))))"

definition numeric_line_numbers :: "json list \<Rightarrow> int bset res" where
  "numeric_line_numbers values = bindr (mapM value_i64 values) (\<lambda>ns. Inr (bs_of_list ns))"

definition opt_line_numbers :: "json list option \<Rightarrow> int bset res" where
  "opt_line_numbers values = (case values of None \<Rightarrow> Inr [] | Some vs \<Rightarrow> numeric_line_numbers vs)"

text \<open>\<open>entry.0\<close> counts the missing and \<open>entry.1\<close> the executed branches of a line.\<close>

definition branch_entry :: "string \<Rightarrow> bool \<Rightarrow> (int, int \<times> int) btree \<Rightarrow> json \<Rightarrow> (int, int \<times> int) btree res" where
  "branch_entry key covered branches value =
     bindr (ok_or (as_array value) (parse_error (''coverage.py '' @ key @ '' entry must be an array''))) (\<lambda>items.
     bindr (ok_or (nth_opt items 0) (parse_error (''coverage.py '' @ key @ '' entry is missing a line number''))) (\<lambda>line.
     bindr (value_i64 line) (\<lambda>line.
       Inr (bt_update line (\<lambda>old. let (m, c) = (case old of None \<Rightarrow> (0, 0) | Some e \<Rightarrow> e)
              in if covered then (m, i64_add c 1) else (i64_add m 1, c)) branches))))"

definition branch_entries :: "string \<Rightarrow> bool \<Rightarrow> json list option \<Rightarrow> (int, int \<times> int) btree
    \<Rightarrow> (int, int \<times> int) btree res" where
  "branch_entries key covered values branches = (case values of
      None \<Rightarrow> Inr branches
    | Some vs \<Rightarrow> foldM (branch_entry key covered) branches vs)"

definition coveragepy_file :: "canon \<Rightarrow> coverage_builder \<Rightarrow> string \<times> json \<Rightarrow> coverage_builder res" where
  "coveragepy_file canon b entry = (case entry of (file_path, payload) \<Rightarrow>
     bindr (ok_or (as_object payload)
       (parse_error (''coverage.py file entry must be an object: '' @ file_path))) (\<lambda>payload.
     bindr (coverage_array payload ''executed_lines'') (\<lambda>executed_lines.
     bindr (coverage_array payload ''missing_lines'') (\<lambda>missing_lines.
     bindr (opt_line_numbers executed_lines) (\<lambda>executed.
     bindr (opt_line_numbers missing_lines) (\<lambda>missing.
     let line_numbers = remdups_adj (sort (executed @ missing));
         b = foldl (\<lambda>b line. add_line canon file_path line (i64_of_bool (line \<in> set executed))
               (Some (line \<in> set executed)) True (0, 0, 0, 0) empty_details b) b line_numbers
     in
     bindr (coverage_array payload ''executed_branches'') (\<lambda>executed_branches.
     bindr (coverage_array payload ''missing_branches'') (\<lambda>missing_branches.
     bindr (branch_entries ''executed_branches'' True executed_branches []) (\<lambda>branches.
     bindr (branch_entries ''missing_branches'' False missing_branches branches) (\<lambda>branches.
     let b = foldl (\<lambda>b (line, m, c). add_line canon file_path line 0 (Some False) False
               (i64_add m c, c, 0, 0) empty_details b) b branches
     in Inr (case bt_get payload ''summary'' of
          None \<Rightarrow> b
        | Some summary \<Rightarrow> add_file_metrics canon file_path [(''coveragepy_summary'', summary)] b)))))))))))"

definition parse_coveragepy_json :: "canon \<Rightarrow> json_reader \<Rightarrow> string \<Rightarrow> string \<Rightarrow> string option
    \<Rightarrow> coverage_report res" where
  "parse_coveragepy_json canon from_slice path bytes repo_path =
     bindr (read_json from_slice bytes) (\<lambda>data.
     bindr (ok_or (Option.bind (jget data ''files'') as_object)
       (parse_error (''coverage.py JSON report must contain a '' @ [CHR 0x27] @ ''files'' @ [CHR 0x27] @ '' object''))) (\<lambda>files.
     bindr (foldM (coveragepy_file canon) (new_builder repo_path) files) (\<lambda>b.
       Inr (build b ''coveragepy'' path
         [''coverage.py JSON reports line coverage as covered/missing, not execution counts.'']
         (jobj [(''meta'', jidx data ''meta'')])))))"

section \<open>Istanbul\<close>

definition looks_like_istanbul :: "(string, json) btree \<Rightarrow> bool" where
  "looks_like_istanbul object =
     list_ex (\<lambda>v. jget v ''statementMap'' \<noteq> None \<and> jget v ''s'' \<noteq> None) (bt_values object)"

definition location_line :: "json \<Rightarrow> int res" where
  "location_line value =
     bindr (ok_or (as_object value) (parse_error ''Istanbul location must be an object'')) (\<lambda>object.
     bindr (case bt_get object ''start'' of
         Some start \<Rightarrow> ok_or (Option.bind (as_object start) (\<lambda>s. bt_get s ''line''))
           (parse_error ''Istanbul location is missing start.line'')
       | None \<Rightarrow> ok_or (bt_get object ''line'') (parse_error ''Istanbul location is missing line'')) (\<lambda>line_value.
     bindr (value_i64 line_value) (\<lambda>line.
       if line < 1 then Inl (parse_error (''Istanbul line must be positive: '' @ show_int line))
       else Inr line)))"

definition istanbul_statement :: "canon \<Rightarrow> string \<Rightarrow> string \<Rightarrow> (string, json) btree
    \<Rightarrow> coverage_builder \<Rightarrow> string \<times> json \<Rightarrow> coverage_builder res" where
  "istanbul_statement canon key file_path statement_hits b entry = (case entry of (statement_id, location) \<Rightarrow>
     bindr (location_line location) (\<lambda>line.
     bindr (bindr (ok_or (bt_get statement_hits statement_id)
       (parse_error (''Istanbul statement is missing hit data: '' @ key @ '':'' @ statement_id))) value_i64) (\<lambda>hits.
       Inr (add_line canon file_path line hits None True (0, 0, 0, 0) empty_details b))))"

definition istanbul_function :: "canon \<Rightarrow> string \<Rightarrow> string \<Rightarrow> (string, json) btree
    \<Rightarrow> coverage_builder \<Rightarrow> string \<times> json \<Rightarrow> coverage_builder res" where
  "istanbul_function canon key file_path function_hits b entry = (case entry of (function_id, function) \<Rightarrow>
     bindr (case jget function ''loc'' of
         Some location \<Rightarrow> location_line location
       | None \<Rightarrow> (case jget function ''decl'' of
           Some declaration \<Rightarrow> location_line declaration
         | None \<Rightarrow> location_line function)) (\<lambda>line.
     bindr (bindr (ok_or (bt_get function_hits function_id)
       (parse_error (''Istanbul function is missing hit data: '' @ key @ '':'' @ function_id))) value_i64) (\<lambda>hits.
       Inr (add_line canon file_path line 0 (Some False) False (0, 0, 1, i64_of_bool (0 < hits)) empty_details b))))"

definition istanbul_branch :: "canon \<Rightarrow> string \<Rightarrow> string \<Rightarrow> (string, json) btree
    \<Rightarrow> coverage_builder \<Rightarrow> string \<times> json \<Rightarrow> coverage_builder res" where
  "istanbul_branch canon key file_path branch_hits b entry = (case entry of (branch_id, branch) \<Rightarrow>
     bindr (case jget branch ''loc'' of
         Some location \<Rightarrow> location_line location
       | None \<Rightarrow> location_line branch) (\<lambda>line.
     bindr (ok_or (bt_get branch_hits branch_id)
       (parse_error (''Istanbul branch is missing hit data: '' @ key @ '':'' @ branch_id))) (\<lambda>counts.
     bindr (ok_or (as_array counts)
       (parse_error (''Istanbul branch hit data must be an array: '' @ key @ '':'' @ branch_id))) (\<lambda>counts.
     bindr (mapM value_i64 counts) (\<lambda>ns.
       Inr (add_line canon file_path line 0 (Some False) False
         (int (length counts), count_where (\<lambda>n. 0 < n) ns, 0, 0) empty_details b))))))"

text \<open>The optional pair of a map and its hits: both or neither.\<close>

definition istanbul_pair :: "(string, json) btree \<Rightarrow> string \<Rightarrow> string \<Rightarrow> app_error \<Rightarrow> app_error \<Rightarrow> app_error
    \<Rightarrow> ((string, json) btree \<Rightarrow> coverage_builder \<Rightarrow> string \<times> json \<Rightarrow> coverage_builder res)
    \<Rightarrow> coverage_builder \<Rightarrow> coverage_builder res" where
  "istanbul_pair payload map_key hit_key map_err hit_err pair_err body b =
     (case (bt_get payload map_key, bt_get payload hit_key) of
        (None, None) \<Rightarrow> Inr b
      | (Some m, Some h) \<Rightarrow>
          bindr (ok_or (as_object m) map_err) (\<lambda>m.
          bindr (ok_or (as_object h) hit_err) (\<lambda>h.
            foldM (body h) b m))
      | _ \<Rightarrow> Inl pair_err)"

definition istanbul_file :: "canon \<Rightarrow> coverage_builder \<Rightarrow> string \<times> json \<Rightarrow> coverage_builder res" where
  "istanbul_file canon b entry = (case entry of (key, payload) \<Rightarrow>
     bindr (ok_or (as_object payload) (parse_error (''Istanbul file entry must be an object: '' @ key))) (\<lambda>payload.
     bindr (ok_or (Option.bind (bt_get payload ''statementMap'') as_object)
       (parse_error (''Istanbul entry is missing statementMap: '' @ key))) (\<lambda>statement_map.
     bindr (ok_or (Option.bind (bt_get payload ''s'') as_object)
       (parse_error (''Istanbul entry is missing statement hits: '' @ key))) (\<lambda>statement_hits.
     bindr (case bt_get payload ''path'' of
         None \<Rightarrow> Inr key
       | Some v \<Rightarrow> ok_or (as_str v) (parse_error (''Istanbul path must be a string: '' @ key))) (\<lambda>file_path.
     bindr (foldM (istanbul_statement canon key file_path statement_hits) b statement_map) (\<lambda>b.
     bindr (istanbul_pair payload ''fnMap'' ''f''
         (parse_error (''Istanbul fnMap must be an object: '' @ key))
         (parse_error (''Istanbul function hits must be an object: '' @ key))
         (parse_error (''Istanbul fnMap and function hits must be provided together: '' @ key))
         (istanbul_function canon key file_path) b) (\<lambda>b.
     istanbul_pair payload ''branchMap'' ''b''
         (parse_error (''Istanbul branchMap must be an object: '' @ key))
         (parse_error (''Istanbul branch hits must be an object: '' @ key))
         (parse_error (''Istanbul branchMap and branch hits must be provided together: '' @ key))
         (istanbul_branch canon key file_path) b)))))))"

definition parse_istanbul :: "canon \<Rightarrow> json_reader \<Rightarrow> string \<Rightarrow> string \<Rightarrow> string option
    \<Rightarrow> coverage_report res" where
  "parse_istanbul canon from_slice path bytes repo_path =
     bindr (read_json from_slice bytes) (\<lambda>data.
     bindr (ok_or (as_object data) (parse_error ''Istanbul JSON must be an object'')) (\<lambda>object.
     if \<not> looks_like_istanbul object
     then Inl (parse_error ''Istanbul JSON must contain coverage objects with statementMap/s/f/branchMap/b'')
     else bindr (foldM (istanbul_file canon) (new_builder repo_path) object) (\<lambda>b.
       Inr (build b ''istanbul'' path
         [''Istanbul statement coverage is normalized to the starting line of each statement.'']
         (JObj [])))))"

section \<open>LLVM\<close>

definition validate_llvm_function_region :: "string \<Rightarrow> json \<Rightarrow> unit res" where
  "validate_llvm_function_region kind value =
     bindr (ok_or (as_array value) (parse_error (''LLVM function '' @ kind @ '' must be an array''))) (\<lambda>values.
     if length values < 8
     then Inl (parse_error (''LLVM function '' @ kind @ '' must contain source range and coverage fields''))
     else bindr (mapM value_i64 (take 8 values)) (\<lambda>_. Inr ()))"

definition validate_regions :: "string \<Rightarrow> json list \<Rightarrow> unit res" where
  "validate_regions kind vs = bindr (mapM (validate_llvm_function_region kind) vs) (\<lambda>_. Inr ())"

definition push_function :: "json \<Rightarrow> (string, json list) btree \<Rightarrow> json \<Rightarrow> (string, json list) btree res" where
  "push_function function records filename =
     bindr (ok_or (nonempty (as_str filename)) (parse_error ''LLVM function filename must be a non-empty string'')) (\<lambda>filename.
       Inr (bt_update filename (\<lambda>old. (case old of None \<Rightarrow> [] | Some fs \<Rightarrow> fs) @ [function]) records))"

definition llvm_function :: "(string, json list) btree \<Rightarrow> json \<Rightarrow> (string, json list) btree res" where
  "llvm_function records function =
     bindr (ok_or (as_object function) (parse_error ''LLVM function entry must be an object'')) (\<lambda>object.
     bindr (ok_or (nonempty (Option.bind (bt_get object ''name'') as_str))
       (parse_error ''LLVM function entry is missing name'')) (\<lambda>_.
     bindr (bindr (ok_or (bt_get object ''count'') (parse_error ''LLVM function entry is missing count'')) value_i64) (\<lambda>_.
     bindr (ok_or (Option.bind (bt_get object ''filenames'') as_array)
       (parse_error ''LLVM function entry must contain filenames'')) (\<lambda>filenames.
     bindr (ok_or (Option.bind (bt_get object ''regions'') as_array)
       (parse_error ''LLVM function entry must contain regions'')) (\<lambda>regions.
     bindr (validate_regions ''region'' regions) (\<lambda>_.
     bindr (case bt_get object ''branches'' of
         None \<Rightarrow> Inr ()
       | Some branches \<Rightarrow>
           bindr (ok_or (as_array branches) (parse_error ''LLVM function branches must be an array''))
             (validate_regions ''branch'')) (\<lambda>_.
     foldM (push_function function) records filenames)))))))"

definition llvm_segment :: "canon \<Rightarrow> string \<Rightarrow> coverage_builder \<Rightarrow> json \<Rightarrow> coverage_builder res" where
  "llvm_segment canon file_path b segment =
     bindr (ok_or (as_array segment) (parse_error ''LLVM segment must be an array'')) (\<lambda>values.
     if length values < 4
     then Inl (parse_error ''LLVM segment must contain line, column, count, and flag'')
     else
     bindr (value_i64 (values ! 0)) (\<lambda>line.
     bindr (value_i64 (values ! 2)) (\<lambda>hits.
     bindr (ok_or (as_bool (values ! 3)) (parse_error ''LLVM segment count flag must be a boolean'')) (\<lambda>has_count.
       Inr (if has_count
            then add_line canon file_path line hits (Some (0 < hits)) True (0, 0, 0, 0) empty_details b
            else b)))))"

definition first_of :: "(string, json) btree \<Rightarrow> string list \<Rightarrow> json option" where
  "first_of object keys = (case List.find (\<lambda>k. bt_get object k \<noteq> None) keys of
     None \<Rightarrow> None | Some k \<Rightarrow> bt_get object k)"

definition positive_branch_line :: "int \<Rightarrow> unit res" where
  "positive_branch_line line =
     guardr (1 \<le> line) (parse_error (''LLVM branch line must be positive: '' @ show_int line))"

definition llvm_branch_counts :: "json \<Rightarrow> (int \<times> int \<times> int) res" where
  "llvm_branch_counts value = (case value of
      JArr values \<Rightarrow>
        (if length values < 6
         then Inl (parse_error ''LLVM branch array must contain at least six values'')
         else bindr (value_i64 (values ! 0)) (\<lambda>line.
              bindr (positive_branch_line line) (\<lambda>_.
              bindr (value_i64 (values ! 4)) (\<lambda>t.
              bindr (value_i64 (values ! 5)) (\<lambda>f. Inr (line, t, f))))))
    | JObj object \<Rightarrow>
        bindr (bindr (ok_or (first_of object [''line'', ''line_start''])
          (parse_error ''LLVM branch object is missing line'')) value_i64) (\<lambda>line.
        bindr (positive_branch_line line) (\<lambda>_.
        bindr (bindr (ok_or (first_of object [''true_count'', ''trueCount''])
          (parse_error ''LLVM branch object is missing true count'')) value_i64) (\<lambda>t.
        bindr (bindr (ok_or (first_of object [''false_count'', ''falseCount''])
          (parse_error ''LLVM branch object is missing false count'')) value_i64) (\<lambda>f.
          Inr (line, t, f)))))
    | _ \<Rightarrow> Inl (parse_error ''LLVM branch entry must be an array or object''))"

definition llvm_branch :: "canon \<Rightarrow> string \<Rightarrow> coverage_builder \<times> json list \<Rightarrow> json
    \<Rightarrow> (coverage_builder \<times> json list) res" where
  "llvm_branch canon file_path s branch = (case s of (b, normalized) \<Rightarrow>
     bindr (llvm_branch_counts branch) (\<lambda>(line, t, f).
       Inr (add_line canon file_path line 0 (Some False) False
              (2, i64_of_bool (0 < t) + i64_of_bool (0 < f), 0, 0) empty_details b,
            normalized @ [jobj [(''index'', jnat (length normalized)), (''line'', JInt line),
              (''true_hits'', JInt t), (''false_hits'', JInt f)]])))"

definition llvm_metric :: "(string, json) btree \<Rightarrow> (string, json) btree \<Rightarrow> string \<Rightarrow> (string, json) btree res" where
  "llvm_metric summary metrics name = (case Option.bind (bt_get summary name) as_object of
      None \<Rightarrow> Inr metrics
    | Some payload \<Rightarrow>
        bindr (case bt_get payload ''count'' of
            None \<Rightarrow> Inr metrics
          | Some count \<Rightarrow> bindr (value_i64 count) (\<lambda>n. Inr (bt_insert (''total_'' @ name) (JInt n) metrics))) (\<lambda>metrics.
        case bt_get payload ''covered'' of
            None \<Rightarrow> Inr metrics
          | Some covered \<Rightarrow> bindr (value_i64 covered) (\<lambda>n. Inr (bt_insert (''covered_'' @ name) (JInt n) metrics))))"

definition llvm_summary_metrics :: "(string, json) btree \<Rightarrow> (string, json) btree res" where
  "llvm_summary_metrics summary =
     bindr (foldM (llvm_metric summary) [] [''lines'', ''branches'', ''functions'', ''regions'']) (\<lambda>metrics.
       Inr (bt_insert ''llvm_summary'' (JObj summary) metrics))"

definition llvm_detail :: "json list option \<Rightarrow> json list option \<Rightarrow> (string, json) btree \<Rightarrow> (string, json) btree" where
  "llvm_detail functions branches metrics =
     (let metrics = (case functions of None \<Rightarrow> metrics
            | Some fs \<Rightarrow> bt_insert ''llvm_functions'' (JArr fs) metrics)
      in case branches of None \<Rightarrow> metrics
         | Some bs \<Rightarrow> bt_insert ''llvm_branches'' (JArr bs) metrics)"

definition llvm_file :: "canon \<Rightarrow> (string, json list) btree \<Rightarrow> coverage_builder \<Rightarrow> json \<Rightarrow> coverage_builder res" where
  "llvm_file canon records b file_payload =
     bindr (ok_or (as_object file_payload) (parse_error ''LLVM file entry must be an object'')) (\<lambda>object.
     bindr (ok_or (nonempty (Option.bind (bt_get object ''filename'') as_str))
       (parse_error ''LLVM file entry is missing filename'')) (\<lambda>file_path.
     bindr (case bt_get object ''segments'' of
         None \<Rightarrow> Inr b
       | Some segments \<Rightarrow>
           bindr (ok_or (as_array segments) (parse_error ''LLVM segments must be an array''))
             (foldM (llvm_segment canon file_path) b)) (\<lambda>b.
     bindr (case bt_get object ''branches'' of
         None \<Rightarrow> Inr (b, None)
       | Some branches \<Rightarrow>
           bindr (ok_or (as_array branches) (parse_error ''LLVM branches must be an array'')) (\<lambda>bs.
           bindr (foldM (llvm_branch canon file_path) (b, []) bs) (\<lambda>(b, normalized).
             Inr (b, Some normalized)))) (\<lambda>(b, normalized_branches).
     case bt_get object ''summary'' of
       Some summary \<Rightarrow>
         bindr (ok_or (as_object summary) (parse_error ''LLVM summary must be an object'')) (\<lambda>summary.
         bindr (llvm_summary_metrics summary) (\<lambda>metrics.
           Inr (add_file_metrics canon file_path
             (llvm_detail (bt_get records file_path) normalized_branches metrics) b)))
     | None \<Rightarrow>
         (if bt_contains records file_path \<or> normalized_branches \<noteq> None
          then Inr (add_file_metrics canon file_path
             (llvm_detail (bt_get records file_path) normalized_branches []) b)
          else Inr b)))))"

definition llvm_unit :: "canon \<Rightarrow> coverage_builder \<Rightarrow> json \<Rightarrow> coverage_builder res" where
  "llvm_unit canon b u =
     bindr (ok_or (as_object u) (parse_error ''LLVM data entry must be an object'')) (\<lambda>object.
     bindr (case bt_get object ''functions'' of
         None \<Rightarrow> Inr []
       | Some functions \<Rightarrow>
           bindr (ok_or (as_array functions) (parse_error ''LLVM functions must be an array''))
             (foldM llvm_function [])) (\<lambda>records.
     bindr (ok_or (Option.bind (bt_get object ''files'') as_array)
       (parse_error ''LLVM data entry must contain a files array'')) (\<lambda>files.
     foldM (llvm_file canon records) b files)))"

definition parse_llvm :: "canon \<Rightarrow> json_reader \<Rightarrow> string \<Rightarrow> string \<Rightarrow> string option
    \<Rightarrow> coverage_report res" where
  "parse_llvm canon from_slice path bytes repo_path =
     bindr (read_json from_slice bytes) (\<lambda>data.
     bindr (ok_or (Option.bind (jget data ''data'') as_array)
       (parse_error ''LLVM JSON must contain a data array'')) (\<lambda>units.
     bindr (foldM (llvm_unit canon) (new_builder repo_path) units) (\<lambda>b.
       Inr (build b ''llvm'' path
         [''LLVM JSON segments are normalized to segment start lines; aggregate region coverage is preserved from summaries.'']
         (JObj [])))))"

section \<open>Every accepted report is well formed\<close>

lemma builder_inv_coveragepy_file:
  "builder_inv b \<Longrightarrow> coveragepy_file canon b entry = Inr b' \<Longrightarrow> builder_inv b'"
  by (auto simp: coveragepy_file_def Let_def bindr_eq_Inr split_beta
      intro!: builder_inv_add_file_metrics foldl_invariant[where P = builder_inv] split: prod.splits option.splits)

lemma report_wf_parse_coveragepy: "parse_coveragepy_json canon rd path bytes repo = Inr r \<Longrightarrow> report_wf r"
  by (auto simp: parse_coveragepy_json_def bindr_eq_Inr intro!: report_wf_build
      dest!: foldM_invariant[where P = builder_inv] intro: builder_inv_coveragepy_file)

lemma builder_inv_istanbul_pair:
  assumes "istanbul_pair payload mk hk e1 e2 e3 body b = Inr b'" and "builder_inv b"
    and "\<And>h b x b'. builder_inv b \<Longrightarrow> body h b x = Inr b' \<Longrightarrow> builder_inv b'"
  shows "builder_inv b'"
proof -
  have "builder_inv b'" if "foldM (body h) b m = Inr b'" for h m
    by (rule foldM_invariant[where P = builder_inv, OF that assms(2)]) (rule assms(3))
  with assms(1,2) show ?thesis by (auto simp: istanbul_pair_def bindr_eq_Inr split: option.splits)
qed

lemma builder_inv_istanbul_bodies:
  "builder_inv b \<Longrightarrow> istanbul_statement canon k f h b e = Inr b' \<Longrightarrow> builder_inv b'"
  "builder_inv b \<Longrightarrow> istanbul_function canon k f h b e = Inr b' \<Longrightarrow> builder_inv b'"
  "builder_inv b \<Longrightarrow> istanbul_branch canon k f h b e = Inr b' \<Longrightarrow> builder_inv b'"
  by (auto simp: istanbul_statement_def istanbul_function_def istanbul_branch_def bindr_eq_Inr
      split: prod.splits)

lemma builder_inv_istanbul_file:
  assumes "builder_inv b" and "istanbul_file canon b entry = Inr b'"
  shows "builder_inv b'"
proof -
  obtain key payload where entry: "entry = (key, payload)" by (cases entry)
  obtain fp m h p b1 b2 e1 e2 e3 e4 e5 e6 where
    1: "foldM (istanbul_statement canon key fp h) b m = Inr b1"
    and 2: "istanbul_pair p ''fnMap'' ''f'' e1 e2 e3 (istanbul_function canon key fp) b1 = Inr b2"
    and 3: "istanbul_pair p ''branchMap'' ''b'' e4 e5 e6 (istanbul_branch canon key fp) b2 = Inr b'"
    using assms(2) by (fastforce simp: istanbul_file_def entry bindr_eq_Inr)
  have "builder_inv b1" using 1 assms(1) builder_inv_istanbul_bodies(1) by (rule foldM_invariant)
  then have "builder_inv b2" using 2 builder_inv_istanbul_pair builder_inv_istanbul_bodies(2) by metis
  then show ?thesis using 3 builder_inv_istanbul_pair builder_inv_istanbul_bodies(3) by metis
qed

lemma report_wf_parse_istanbul: "parse_istanbul canon rd path bytes repo = Inr r \<Longrightarrow> report_wf r"
  by (auto simp: parse_istanbul_def bindr_eq_Inr intro!: report_wf_build split: if_splits
      dest!: foldM_invariant[where P = builder_inv] intro: builder_inv_istanbul_file)

lemma builder_inv_llvm_segment: "builder_inv b \<Longrightarrow> llvm_segment canon f b x = Inr b' \<Longrightarrow> builder_inv b'"
  by (auto simp: llvm_segment_def bindr_eq_Inr split: if_splits)

lemma builder_inv_llvm_branch:
  "builder_inv (fst s) \<Longrightarrow> llvm_branch canon f s x = Inr s' \<Longrightarrow> builder_inv (fst s')"
  by (auto simp: llvm_branch_def bindr_eq_Inr split: prod.splits)

lemma builder_inv_llvm_branches:
  assumes "foldM (llvm_branch canon f) (b, []) bs = Inr (b', ns)" and "builder_inv b"
  shows "builder_inv b'"
proof -
  have "builder_inv (fst (b', ns))"
    by (rule foldM_invariant[where P = "\<lambda>s. builder_inv (fst s)", OF assms(1)])
      (use assms(2) in \<open>auto intro: builder_inv_llvm_branch\<close>)
  then show ?thesis by simp
qed

lemma builder_inv_llvm_segments:
  "foldM (llvm_segment canon f) b xs = Inr b' \<Longrightarrow> builder_inv b \<Longrightarrow> builder_inv b'"
  by (erule foldM_invariant) (auto intro: builder_inv_llvm_segment)

lemma builder_inv_llvm_file: "builder_inv b \<Longrightarrow> llvm_file canon records b x = Inr b' \<Longrightarrow> builder_inv b'"
  by (auto simp: llvm_file_def bindr_eq_Inr split: option.splits if_splits prod.splits
      dest!: builder_inv_llvm_branches builder_inv_llvm_segments)

lemma builder_inv_llvm_unit: "builder_inv b \<Longrightarrow> llvm_unit canon b x = Inr b' \<Longrightarrow> builder_inv b'"
  by (auto simp: llvm_unit_def bindr_eq_Inr intro: builder_inv_llvm_file
      dest!: foldM_invariant[where P = builder_inv])

lemma report_wf_parse_llvm: "parse_llvm canon rd path bytes repo = Inr r \<Longrightarrow> report_wf r"
  by (auto simp: parse_llvm_def bindr_eq_Inr intro!: report_wf_build
      dest!: foldM_invariant[where P = builder_inv] intro: builder_inv_llvm_unit)

end
