(* ===== verification/Parser_Xml.thy ===== *)
theory Parser_Xml
  imports Parser_Text
begin

text \<open>
  The XML formats of \<open>src/src/parser.rs\<close>.  Tokenizing (the \<open>quick_xml\<close> reader) is the argument
  \<open>read_events\<close>, which gives the events of a document in order; the stack machine that builds the
  element tree (\<open>parse_xml\<close>, \<open>attach_xml_node\<close>, \<open>append_xml_end\<close>), the tree searches and the
  Cobertura and JaCoCo readers are the code's.
\<close>

section \<open>Element trees\<close>

datatype xml_node = XmlNode (xn_name: string) (xn_attrs: "(string, string) btree") (xn_children: "xml_node list")

text \<open>An attribute is a decoded key and value, or the reader's error.\<close>

type_synonym xml_attr = "string + (string \<times> string)"

datatype xml_event =
    XStart string "xml_attr list"
  | XEmpty string "xml_attr list"
  | XEnd
  | XEof
  | XErr string
  | XOther

type_synonym xml_reader = "string \<Rightarrow> xml_event list"

definition xml_name :: "string \<Rightarrow> string" where
  "xml_name value = last (split_on (CHR ''}'') value)"

fun xml_attr_step :: "(string, string) btree \<Rightarrow> xml_attr \<Rightarrow> (string, string) btree res" where
  "xml_attr_step attrs (Inl e) = Inl (parse_error e)"
| "xml_attr_step attrs (Inr (k, v)) = Inr (bt_insert (xml_name k) v attrs)"

definition xml_attrs :: "xml_attr list \<Rightarrow> (string, string) btree res" where
  "xml_attrs attrs = foldM xml_attr_step [] attrs"

text \<open>The open elements are kept innermost first; \<open>attach\<close> appends a finished element to the
  innermost open one, or makes it the root.\<close>

definition push_child :: "xml_node \<Rightarrow> xml_node \<Rightarrow> xml_node" where
  "push_child parent node = XmlNode (xn_name parent) (xn_attrs parent) (xn_children parent @ [node])"

fun attach_xml_node :: "xml_node list \<Rightarrow> xml_node option \<Rightarrow> xml_node \<Rightarrow> xml_node list \<times> xml_node option" where
  "attach_xml_node (parent # stack) root node = (push_child parent node # stack, root)"
| "attach_xml_node [] root node = ([], Some node)"

fun append_xml_end :: "xml_node list \<Rightarrow> xml_node option \<Rightarrow> xml_node list \<times> xml_node option" where
  "append_xml_end (node # stack) root = attach_xml_node stack root node"
| "append_xml_end [] root = ([], None)"

fun xml_loop :: "xml_event list \<Rightarrow> xml_node list \<times> xml_node option \<Rightarrow> xml_node option res" where
  "xml_loop [] s = Inr (snd s)"
| "xml_loop (XStart n attrs # es) (stack, root) =
     bindr (xml_attrs attrs) (\<lambda>attrs. xml_loop es (XmlNode (xml_name n) attrs [] # stack, root))"
| "xml_loop (XEmpty n attrs # es) (stack, root) =
     bindr (xml_attrs attrs) (\<lambda>attrs. xml_loop es (attach_xml_node stack root (XmlNode (xml_name n) attrs [])))"
| "xml_loop (XEnd # es) (stack, root) = xml_loop es (append_xml_end stack root)"
| "xml_loop (XEof # es) s = Inr (snd s)"
| "xml_loop (XErr e # es) s = Inl (parse_error e)"
| "xml_loop (XOther # es) s = xml_loop es s"

definition parse_xml :: "xml_reader \<Rightarrow> string \<Rightarrow> string \<Rightarrow> xml_node res" where
  "parse_xml read_events path bytes =
     bindr (xml_loop (read_events bytes) ([], None)) (\<lambda>root.
       ok_or root (parse_error (''XML report is empty: '' @ path)))"

fun descendants :: "string \<Rightarrow> xml_node \<Rightarrow> xml_node list" where
  "descendants name (XmlNode n a cs) =
     concat (map (\<lambda>c. (if xn_name c = name then [c] else []) @ descendants name c) cs)"

fun collect_nodes :: "string \<Rightarrow> xml_node \<Rightarrow> xml_node list" where
  "collect_nodes name (XmlNode n a cs) =
     (if n = name then [XmlNode n a cs] else []) @ concat (map (collect_nodes name) cs)"

definition find_nodes :: "xml_node \<Rightarrow> string \<Rightarrow> xml_node list" where
  "find_nodes node name = collect_nodes name node"

section \<open>Cobertura\<close>

definition eq_ignore_ascii_case :: "string \<Rightarrow> string \<Rightarrow> bool" where
  "eq_ignore_ascii_case a b \<longleftrightarrow> to_lower a = to_lower b"

definition is_paren :: "char \<Rightarrow> bool" where
  "is_paren c \<longleftrightarrow> c = CHR ''('' \<or> c = CHR '')''"

definition cobertura_branch_counts :: "xml_node \<Rightarrow> (int \<times> int) res" where
  "cobertura_branch_counts node =
     (let attrs = xn_attrs node in
      if \<not> (case bt_get attrs ''branch'' of Some v \<Rightarrow> eq_ignore_ascii_case v ''true'' | None \<Rightarrow> False)
      then Inr (0, 0)
      else case (bt_get attrs ''branches-valid'', bt_get attrs ''branches-covered'') of
        (Some tot, Some covered) \<Rightarrow>
          bindr (safe_i64 (Some tot)) (\<lambda>t. bindr (safe_i64 (Some covered)) (\<lambda>c. Inr (t, c)))
      | (None, None) \<Rightarrow>
          (case bt_get attrs ''condition-coverage'' of
             None \<Rightarrow> Inr (0, 0)
           | Some value \<Rightarrow>
               (let value = trim_matches is_paren (trim_matches (\<lambda>c. \<not> is_paren c) value)
                in case split_once (CHR ''/'') value of
                     Some (covered, tot) \<Rightarrow>
                       bindr (safe_i64 (Some tot)) (\<lambda>t. bindr (safe_i64 (Some covered)) (\<lambda>c. Inr (t, c)))
                   | None \<Rightarrow> Inl (parse_error (''invalid Cobertura condition-coverage value: '' @ value))))
      | _ \<Rightarrow> Inl (parse_error ''Cobertura branch counts must include both total and covered values''))"

definition nonblank :: "string option \<Rightarrow> string option" where
  "nonblank x = (case x of Some s \<Rightarrow> if trim s = [] then None else Some s | None \<Rightarrow> None)"

definition or_else :: "'a option \<Rightarrow> 'a option \<Rightarrow> 'a option" where
  "or_else x y = (case x of None \<Rightarrow> y | Some a \<Rightarrow> Some a)"

definition cobertura_line :: "canon \<Rightarrow> string \<Rightarrow> coverage_builder \<Rightarrow> xml_node \<Rightarrow> coverage_builder res" where
  "cobertura_line canon file_path b line_node =
     bindr (safe_i64 (bt_get (xn_attrs line_node) ''number'')) (\<lambda>line_number.
     bindr (safe_i64 (bt_get (xn_attrs line_node) ''hits'')) (\<lambda>hits.
     bindr (cobertura_branch_counts line_node) (\<lambda>(t, c).
       Inr (add_line canon file_path line_number hits None True (t, c, 0, 0) empty_details b))))"

definition rate_metric :: "string \<Rightarrow> string option \<Rightarrow> (string, json) btree \<Rightarrow> (string, json) btree res" where
  "rate_metric key value metrics = (case value of
      None \<Rightarrow> Inr metrics
    | Some v \<Rightarrow> bindr (parse_f64 v) (\<lambda>x. Inr (bt_insert key (JFloat x) metrics)))"

definition cobertura_class :: "canon \<Rightarrow> coverage_builder \<Rightarrow> xml_node \<Rightarrow> coverage_builder res" where
  "cobertura_class canon b class_node =
     (let attrs = xn_attrs class_node in
      bindr (ok_or (nonblank (or_else (bt_get attrs ''filename'') (bt_get attrs ''name'')))
        (parse_error ''Cobertura class is missing a filename'')) (\<lambda>file_path.
      bindr (foldM (cobertura_line canon file_path) b (descendants ''line'' class_node)) (\<lambda>b.
      bindr (rate_metric ''line_rate'' (bt_get attrs ''line-rate'') []) (\<lambda>metrics.
      bindr (rate_metric ''branch_rate'' (bt_get attrs ''branch-rate'') metrics) (\<lambda>metrics.
        Inr (add_file_metrics canon file_path metrics b))))))"

definition parse_cobertura :: "canon \<Rightarrow> xml_reader \<Rightarrow> string \<Rightarrow> string \<Rightarrow> string option
    \<Rightarrow> coverage_report res" where
  "parse_cobertura canon read_events path bytes repo_path =
     bindr (parse_xml read_events path bytes) (\<lambda>root.
     bindr (foldM (cobertura_class canon) (new_builder repo_path) (find_nodes root ''class'')) (\<lambda>b.
       Inr (build b ''cobertura'' path [] (JObj []))))"

section \<open>JaCoCo\<close>

definition jacoco_line :: "canon \<Rightarrow> string \<Rightarrow> coverage_builder \<Rightarrow> xml_node \<Rightarrow> coverage_builder res" where
  "jacoco_line canon file_path b line_node =
     (let attrs = xn_attrs line_node in
      bindr (safe_i64 (bt_get attrs ''mi'')) (\<lambda>missed_instructions.
      bindr (safe_i64 (bt_get attrs ''ci'')) (\<lambda>covered_instructions.
      bindr (safe_i64 (bt_get attrs ''mb'')) (\<lambda>missed_branches.
      bindr (safe_i64 (bt_get attrs ''cb'')) (\<lambda>covered_branches.
      bindr (safe_i64 (bt_get attrs ''nr'')) (\<lambda>line_number.
        Inr (add_line canon file_path line_number covered_instructions (Some (0 < covered_instructions)) True
          (i64_add missed_branches covered_branches, covered_branches, 0, 0)
          (jobj [(''missed_instructions'', JInt missed_instructions)]) b)))))))"

definition jacoco_source :: "canon \<Rightarrow> string \<Rightarrow> coverage_builder \<Rightarrow> xml_node \<Rightarrow> coverage_builder res" where
  "jacoco_source canon pfx b source =
     bindr (ok_or (nonblank (bt_get (xn_attrs source) ''name''))
       (parse_error ''JaCoCo sourcefile is missing a name'')) (\<lambda>name.
       foldM (jacoco_line canon (if pfx = [] then name else pfx @ ''/'' @ name)) b (descendants ''line'' source))"

definition jacoco_package :: "canon \<Rightarrow> coverage_builder \<Rightarrow> xml_node \<Rightarrow> coverage_builder res" where
  "jacoco_package canon b package =
     (let pfx = (case bt_get (xn_attrs package) ''name'' of
          None \<Rightarrow> [] | Some v \<Rightarrow> trim_matches (\<lambda>c. c = CHR ''/'') v)
      in foldM (jacoco_source canon pfx) b (descendants ''sourcefile'' package))"

definition parse_jacoco :: "canon \<Rightarrow> xml_reader \<Rightarrow> string \<Rightarrow> string \<Rightarrow> string option
    \<Rightarrow> coverage_report res" where
  "parse_jacoco canon read_events path bytes repo_path =
     bindr (parse_xml read_events path bytes) (\<lambda>root.
     bindr (foldM (jacoco_package canon) (new_builder repo_path) (find_nodes root ''package'')) (\<lambda>b.
       Inr (build b ''jacoco'' path [] (JObj []))))"

section \<open>The element tree of a document\<close>

text \<open>A search from a node is the node itself, if it has the name, and then its descendants.\<close>

lemma collect_nodes_descendants:
  "collect_nodes name t = (if xn_name t = name then [t] else []) @ descendants name t"
proof (induction t)
  case (XmlNode n a cs)
  then have eq: "map (collect_nodes name) cs
      = map (\<lambda>c. (if xn_name c = name then [c] else []) @ descendants name c) cs"
    by (intro map_cong refl) auto
  show ?case by (simp only: collect_nodes.simps descendants.simps xml_node.sel eq)
qed

text \<open>The events a reader gives for a tree, and the trees whose names the code keeps as they are.\<close>

fun tree_events :: "xml_node \<Rightarrow> xml_event list" where
  "tree_events (XmlNode n a cs) = XStart n (map Inr a) # concat (map tree_events cs) @ [XEnd]"

fun tree_ok :: "xml_node \<Rightarrow> bool" where
  "tree_ok (XmlNode n a cs) = (CHR ''}'' \<notin> set n \<and> bt_inv a \<and> list_all (\<lambda>e. CHR ''}'' \<notin> set (fst e)) a
     \<and> list_all tree_ok cs)"

lemma split_on_none: "c \<notin> set s \<Longrightarrow> split_on c s = [s]"
  by (induction s) auto

lemma xml_name_plain [simp]: "CHR ''}'' \<notin> set s \<Longrightarrow> xml_name s = s"
  by (simp add: xml_name_def split_on_none)

lemma bt_insert_snoc: "bt_inv (m @ [(k, v)]) \<Longrightarrow> bt_insert k v m = m @ [(k, v)]"
  by (induction m) (auto simp: bt_inv_def)

lemma bt_inv_prefix: "bt_inv (m @ n) \<Longrightarrow> bt_inv m"
  by (simp add: bt_inv_def sorted_wrt_append)

lemma xml_attrs_sorted:
  "bt_inv (m @ a) \<Longrightarrow> list_all (\<lambda>e. CHR ''}'' \<notin> set (fst e)) a \<Longrightarrow>
   foldM xml_attr_step m (map Inr a) = Inr (m @ a)"
proof (induction a arbitrary: m)
  case (Cons e a)
  obtain k v where e: "e = (k, v)" by (cases e)
  have inv: "bt_inv ((m @ [(k, v)]) @ a)" using Cons.prems(1) e by simp
  then have "bt_insert k v m = m @ [(k, v)]" by (rule bt_insert_snoc[OF bt_inv_prefix])
  with Cons.prems(2) e Cons.IH[OF inv] show ?case by simp
qed simp

lemma xml_loop_tree:
  "tree_ok t \<Longrightarrow> xml_loop (tree_events t @ es) (stack, root) = xml_loop es (attach_xml_node stack root t)"
proof (induction t arbitrary: es stack root)
  case (XmlNode n a cs)
  have children: "list_all tree_ok ds \<Longrightarrow> set ds \<subseteq> set cs \<Longrightarrow>
      xml_loop (concat (map tree_events ds) @ fs) (XmlNode n a acc # stack, root)
      = xml_loop fs (XmlNode n a (acc @ ds) # stack, root)" for ds acc fs
  proof (induction ds arbitrary: acc)
    case (Cons d ds)
    have "xml_loop (tree_events d @ (concat (map tree_events ds) @ fs)) (XmlNode n a acc # stack, root)
        = xml_loop (concat (map tree_events ds) @ fs) (attach_xml_node (XmlNode n a acc # stack) root d)"
      using Cons.prems by (intro XmlNode.IH) auto
    also have "\<dots> = xml_loop fs (XmlNode n a ((acc @ [d]) @ ds) # stack, root)"
      using Cons.IH[of "acc @ [d]"] Cons.prems by (simp add: push_child_def)
    finally show ?case by simp
  qed simp
  have "xml_attrs (map Inr a) = Inr a"
    using XmlNode.prems xml_attrs_sorted[of "[]" a] by (simp add: xml_attrs_def)
  with XmlNode.prems children[of cs "[XEnd] @ es" "[]"] show ?case by simp
qed

section \<open>Every accepted report is well formed\<close>

lemma builder_inv_cobertura_line:
  "builder_inv b \<Longrightarrow> cobertura_line canon f b x = Inr b' \<Longrightarrow> builder_inv b'"
  by (auto simp: cobertura_line_def bindr_eq_Inr)

lemma builder_inv_cobertura_class:
  "builder_inv b \<Longrightarrow> cobertura_class canon b x = Inr b' \<Longrightarrow> builder_inv b'"
  by (auto simp: cobertura_class_def Let_def bindr_eq_Inr intro!: builder_inv_add_file_metrics
      dest!: foldM_invariant[where P = builder_inv] intro: builder_inv_cobertura_line)

lemma report_wf_parse_cobertura: "parse_cobertura canon rd path bytes repo = Inr r \<Longrightarrow> report_wf r"
  by (auto simp: parse_cobertura_def bindr_eq_Inr intro!: report_wf_build
      dest!: foldM_invariant[where P = builder_inv] intro: builder_inv_cobertura_class)

lemma builder_inv_jacoco_line: "builder_inv b \<Longrightarrow> jacoco_line canon f b x = Inr b' \<Longrightarrow> builder_inv b'"
  by (auto simp: jacoco_line_def Let_def bindr_eq_Inr)

lemma builder_inv_jacoco_source: "builder_inv b \<Longrightarrow> jacoco_source canon p b x = Inr b' \<Longrightarrow> builder_inv b'"
  by (auto simp: jacoco_source_def bindr_eq_Inr
      dest!: foldM_invariant[where P = builder_inv] intro: builder_inv_jacoco_line)

lemma builder_inv_jacoco_package: "builder_inv b \<Longrightarrow> jacoco_package canon b x = Inr b' \<Longrightarrow> builder_inv b'"
  by (auto simp: jacoco_package_def Let_def
      dest!: foldM_invariant[where P = builder_inv] intro: builder_inv_jacoco_source)

lemma report_wf_parse_jacoco: "parse_jacoco canon rd path bytes repo = Inr r \<Longrightarrow> report_wf r"
  by (auto simp: parse_jacoco_def bindr_eq_Inr intro!: report_wf_build
      dest!: foldM_invariant[where P = builder_inv] intro: builder_inv_jacoco_package)


section \<open>Properties\<close>

text \<open>The stack machine rebuilds the element tree: the events of a tree, followed by the end of the
  document, are read as exactly that tree, for any tree whose names carry no namespace brace and whose
  attributes are in order.\<close>

theorem xml_tree_roundtrip:
  assumes "tree_ok t" and "read_events bytes = tree_events t @ [XEof]"
  shows "parse_xml read_events path bytes = Inr t"
  using xml_loop_tree[OF assms(1), of "[XEof]" "[]" None] by (simp add: parse_xml_def assms(2))

definition sample_tree :: xml_node where
  "sample_tree = XmlNode ''coverage'' [] [XmlNode ''class'' [(''filename'', ''a.py'')] [XmlNode ''line'' [(''hits'', ''1''), (''number'', ''2'')] []]]"

theorem xml_tree_roundtrip_witness:
  "parse_xml (\<lambda>_. tree_events sample_tree @ [XEof]) ''r.xml'' [] = Inr sample_tree"
  by (rule xml_tree_roundtrip) (simp_all add: sample_tree_def bt_inv_def)

definition cobertura_class_with_method :: xml_node where
  "cobertura_class_with_method =
     (let ln = XmlNode ''line'' [(''branch'', ''true''), (''condition-coverage'', ''50% (1/2)''), (''hits'', ''1''), (''number'', ''2'')] []
      in XmlNode ''coverage'' [] [XmlNode ''class'' [(''filename'', ''a.py'')]
           [XmlNode ''methods'' [] [XmlNode ''method'' [] [XmlNode ''lines'' [] [ln]]], XmlNode ''lines'' [] [ln]]])"

text \<open>A Cobertura class lists its lines twice, under its methods and under the class; the reader
  visits both, and since branch counts of one line add up when merged, a line with one of two branches
  taken is reported with two of four.\<close>

theorem cobertura_branches_counted_twice:
  "case parse_cobertura (\<lambda>_. None) (\<lambda>_. tree_events cobertura_class_with_method @ [XEof]) ''r.xml'' [] None of
     Inr r \<Rightarrow> total_lines r = 1 \<and> total_branches r = 4 \<and> covered_branches r = 2
   | Inl _ \<Rightarrow> False"
  by code_simp

end
