(* ===== verification/Parser.thy ===== *)
theory Parser
  imports Parser_Json Parser_Xml
begin

text \<open>
  The entry points of \<open>src/src/parser.rs\<close>: format names, detection from the path and the first
  bytes, dispatch to the format's reader, and the size limit.  The environment \<open>parser_env\<close>
  collects what other crates and the file system provide.
\<close>

record parser_env =
  pe_canon :: canon
  pe_from_slice :: json_reader
  pe_read_events :: xml_reader

definition supported_formats :: "string list" where
  "supported_formats = [''auto'', ''lcov'', ''coverage.py'', ''coveragepy'', ''cobertura'', ''jacoco'',
     ''istanbul'', ''nyc'', ''go'', ''go-cover'', ''go-coverprofile'', ''llvm'', ''llvm-json'']"

definition max_coverage_report_bytes :: int where
  "max_coverage_report_bytes = 64 * 1024 * 1024"

definition normalize_format :: "string \<Rightarrow> string res" where
  "normalize_format format =
     (let lowered = to_lower (trim format);
          normalized =
            (if lowered \<in> {''coverage.py'', ''coverage-json'', ''coveragepy-json''} then ''coveragepy''
             else if lowered = ''nyc'' then ''istanbul''
             else if lowered \<in> {''go-cover'', ''go-coverprofile'', ''coverprofile''} then ''go''
             else if lowered = ''llvm-json'' then ''llvm''
             else lowered)
      in if normalized \<in> set supported_formats \<and> normalized \<noteq> ''auto''
         then Inr normalized
         else Inl (parse_error (''unsupported coverage format: '' @ format)))"

definition path_extension_lower :: "string \<Rightarrow> string" where
  "path_extension_lower path = to_lower (case extension path of None \<Rightarrow> [] | Some e \<Rightarrow> e)"

definition detect_json :: "string \<Rightarrow> json \<Rightarrow> string res" where
  "detect_json path data =
     (let fail = Inl (parse_error (''could not detect JSON coverage format for '' @ path)) in
      case data of
        JObj object \<Rightarrow>
          (if bt_contains object ''data'' then Inr ''llvm''
           else if (case Option.bind (bt_get object ''files'') as_object of
                 None \<Rightarrow> False
               | Some files \<Rightarrow> list_ex (\<lambda>v. jget v ''executed_lines'' \<noteq> None) (bt_values files))
           then Inr ''coveragepy''
           else if looks_like_istanbul object then Inr ''istanbul''
           else fail)
      | _ \<Rightarrow> fail)"

definition detect_xml :: "string \<Rightarrow> xml_node \<Rightarrow> string res" where
  "detect_xml path root =
     (if xn_name root = ''coverage'' then Inr ''cobertura''
      else if xn_name root = ''report''
        \<and> (find_nodes root ''sourcefile'' \<noteq> [] \<or> find_nodes root ''counter'' \<noteq> [])
      then Inr ''jacoco''
      else Inl (parse_error (''could not detect XML coverage format for '' @ path)))"

definition detect_format :: "parser_env \<Rightarrow> string \<Rightarrow> string \<Rightarrow> string res" where
  "detect_format env path bytes =
     (let head = take 4096 bytes; trimmed = trim_start head; ext = path_extension_lower path in
      if ext = ''lcov'' \<or> ext = ''info'' \<or> starts_with ''TN:'' trimmed \<or> contains_str (CHR 0x0A # ''SF:'') head
      then Inr ''lcov''
      else if starts_with ''mode:'' trimmed then Inr ''go''
      else if ext = ''xml'' \<or> starts_with ''<'' trimmed
      then bindr (parse_xml (pe_read_events env) path bytes) (detect_xml path)
      else if ext = ''json'' \<or> starts_with ''{'' trimmed
      then bindr (read_json (pe_from_slice env) bytes) (detect_json path)
      else Inl (parse_error (''could not detect coverage format for '' @ path)))"

definition parse_selected :: "parser_env \<Rightarrow> string \<Rightarrow> string \<Rightarrow> string \<Rightarrow> string option \<Rightarrow> coverage_report res" where
  "parse_selected env selected path bytes repo_path =
     (if selected = ''lcov'' then parse_lcov (pe_canon env) path bytes repo_path
      else if selected = ''coveragepy'' then parse_coveragepy_json (pe_canon env) (pe_from_slice env) path bytes repo_path
      else if selected = ''cobertura'' then parse_cobertura (pe_canon env) (pe_read_events env) path bytes repo_path
      else if selected = ''jacoco'' then parse_jacoco (pe_canon env) (pe_read_events env) path bytes repo_path
      else if selected = ''istanbul'' then parse_istanbul (pe_canon env) (pe_from_slice env) path bytes repo_path
      else if selected = ''go'' then parse_go (pe_canon env) path bytes repo_path
      else if selected = ''llvm'' then parse_llvm (pe_canon env) (pe_from_slice env) path bytes repo_path
      else Inl (parse_error (''unsupported coverage format: '' @ selected)))"

definition parse_coverage_bytes :: "parser_env \<Rightarrow> string \<Rightarrow> string \<Rightarrow> string \<Rightarrow> string option \<Rightarrow> coverage_report res" where
  "parse_coverage_bytes env path bytes format repo_path =
     (if max_coverage_report_bytes < int (length bytes)
      then Inl (parse_error ''coverage report exceeds the 64 MiB limit'')
      else bindr (if eq_ignore_ascii_case (trim format) ''auto''
                  then detect_format env path bytes
                  else normalize_format format) (\<lambda>selected.
           parse_selected env selected path bytes repo_path))"

text \<open>\<open>read_report_bytes\<close> opens the report file and reads at most one byte more than the limit
  (\<open>file.take(limit + 1)\<close>, with a 64-bit count).\<close>

fun take_bytes :: "int \<Rightarrow> string \<Rightarrow> string" where
  "take_bytes n [] = []"
| "take_bytes n (c # cs) = (if n \<le> 0 then [] else c # take_bytes (n - 1) cs)"

definition read_report_bytes :: "(string \<Rightarrow> io_error + string) \<Rightarrow> string \<Rightarrow> string res" where
  "read_report_bytes read_file path = (case read_file path of
      Inl e \<Rightarrow> Inl (Io e)
    | Inr content \<Rightarrow>
        (let bytes = take_bytes (max_coverage_report_bytes + 1) content
         in if max_coverage_report_bytes < int (length bytes)
            then Inl (parse_error ''coverage report exceeds the 64 MiB limit'')
            else Inr bytes))"

definition parse_coverage_report :: "parser_env \<Rightarrow> (string \<Rightarrow> bool) \<Rightarrow> (string \<Rightarrow> io_error + int)
    \<Rightarrow> (string \<Rightarrow> io_error + string) \<Rightarrow> string \<Rightarrow> string \<Rightarrow> string option \<Rightarrow> coverage_report res" where
  "parse_coverage_report env exists file_len read_file path format repo_path =
     (if \<not> exists path
      then Inl (parse_error (''coverage report does not exist: '' @ path))
      else case file_len path of
        Inl e \<Rightarrow> Inl (Io e)
      | Inr report_size \<Rightarrow>
          (if max_coverage_report_bytes < report_size
           then Inl (parse_error (''coverage report exceeds the '' @ show_int max_coverage_report_bytes @ '' byte limit''))
           else bindr (read_report_bytes read_file path) (\<lambda>bytes.
                  parse_coverage_bytes env path bytes format repo_path)))"

section \<open>Dispatch\<close>

definition canonical_formats :: "string list" where
  "canonical_formats = [''lcov'', ''coveragepy'', ''cobertura'', ''jacoco'', ''istanbul'', ''go'', ''llvm'']"

lemma normalize_format_canonical:
  "normalize_format format = Inr f \<Longrightarrow> f \<in> set canonical_formats"
  by (auto simp: normalize_format_def Let_def supported_formats_def canonical_formats_def split: if_splits)

lemma detect_xml_canonical: "detect_xml path root = Inr f \<Longrightarrow> f \<in> set canonical_formats"
  by (simp add: detect_xml_def canonical_formats_def split: if_splits)

lemma detect_json_canonical: "detect_json path data = Inr f \<Longrightarrow> f \<in> set canonical_formats"
  by (cases data) (auto simp: detect_json_def canonical_formats_def Let_def split: if_splits)

lemma detect_format_canonical: "detect_format env path bytes = Inr f \<Longrightarrow> f \<in> set canonical_formats"
  by (auto simp: detect_format_def Let_def bindr_eq_Inr split: if_splits
      dest: detect_xml_canonical detect_json_canonical) (simp_all add: canonical_formats_def)

lemma report_wf_parse_selected: "parse_selected env f path bytes repo = Inr r \<Longrightarrow> report_wf r"
  by (auto simp: parse_selected_def split: if_splits
      intro: report_wf_parse_lcov report_wf_parse_coveragepy report_wf_parse_cobertura
        report_wf_parse_jacoco report_wf_parse_istanbul report_wf_parse_go report_wf_parse_llvm)

lemma report_wf_parse_coverage_bytes: "parse_coverage_bytes env path bytes format repo = Inr r \<Longrightarrow> report_wf r"
  by (auto simp: parse_coverage_bytes_def bindr_eq_Inr split: if_splits intro: report_wf_parse_selected)


section \<open>Properties\<close>

text \<open>C7. Every report any reader accepts is well formed, whichever format is named or detected and
  whatever the file's bytes are.\<close>

theorem accepted_reports_wf:
  assumes "parse_coverage_bytes env path bytes format repo = Inr r"
  shows "report_wf r"
  by (rule report_wf_parse_coverage_bytes[OF assms])

definition plain_env :: parser_env where
  "plain_env = \<lparr>pe_canon = \<lambda>_. None, pe_from_slice = \<lambda>_. Inl ''no JSON'', pe_read_events = \<lambda>_. [XEof]\<rparr>"

definition sample_lcov :: string where
  "sample_lcov = ''SF:a.rs'' @ [CHR 0x0A] @ ''DA:1,1'' @ [CHR 0x0A] @ ''DA:2,0'' @ [CHR 0x0A] @ ''end_of_record'' @ [CHR 0x0A]"

definition sample_report :: coverage_report where
  "sample_report = build (add_hits (\<lambda>_. None) (new_builder None) [(''a.rs'', 1, 1), (''a.rs'', 2, 0)])
     ''lcov'' ''r.info'' [] (JObj [])"

theorem accepted_reports_wf_witness: "report_wf sample_report"
proof -
  have "parse_coverage_bytes plain_env ''r.info'' sample_lcov ''auto'' None = Inr sample_report" by code_simp
  then show ?thesis by (rule accepted_reports_wf)
qed

text \<open>Detection and the alias table only ever answer one of the seven formats that have a reader, and
  the table leaves these as they are; so the dispatch never meets a format without a reader.\<close>

theorem selected_format_has_reader:
  assumes "(if eq_ignore_ascii_case (trim format) ''auto'' then detect_format env path bytes else normalize_format format) = Inr f"
  shows "f \<in> set canonical_formats \<and> normalize_format f = Inr f"
proof -
  have "f \<in> set canonical_formats"
    using assms normalize_format_canonical detect_format_canonical by (auto split: if_splits)
  moreover have "list_all (\<lambda>f. normalize_format f = Inr f) canonical_formats" by code_simp
  ultimately show ?thesis by (simp add: list_all_iff)
qed

theorem selected_format_has_reader_witness:
  "normalize_format ''Coverage.py '' = Inr ''coveragepy'' \<and> ''coveragepy'' \<in> set canonical_formats"
proof -
  have n: "normalize_format ''Coverage.py '' = Inr ''coveragepy''" by code_simp
  have "\<not> eq_ignore_ascii_case (trim ''Coverage.py '') ''auto''" by code_simp
  with n selected_format_has_reader[of "''Coverage.py ''" plain_env "[]" "[]" "''coveragepy''"] show ?thesis by simp
qed

end
