(* ===== verification/Lib.thy ===== *)
theory Lib
  imports Rust_Std
begin

text \<open>What \<open>src/src/lib.rs\<close> gives every component: the schema revision and \<open>hex_prefix\<close>, two lowercase digits
  per byte.\<close>

definition schema_revision :: int where
  "schema_revision = 18"

definition hex_digit :: "int \<Rightarrow> char" where
  "hex_digit n = (if n < 10 then char_of (48 + n) else char_of (87 + n))"

definition hex_byte :: "char \<Rightarrow> string" where
  "hex_byte c = [hex_digit ((of_char c :: int) div 16), hex_digit ((of_char c :: int) mod 16)]"

definition hex_prefix :: "string \<Rightarrow> nat \<Rightarrow> string" where
  "hex_prefix bytes max_bytes = concat (map hex_byte (take max_bytes bytes))"

definition is_ascii_hexdigit :: "char \<Rightarrow> bool" where
  "is_ascii_hexdigit c \<longleftrightarrow> is_digit c \<or> byte_in 65 70 c \<or> byte_in 97 102 c"

lemma of_char_char_of_small: "0 \<le> n \<Longrightarrow> n < 256 \<Longrightarrow> (of_char (char_of n) :: int) = n"
  by (simp add: of_char_of)

lemma hex_digit_ok: "0 \<le> d \<Longrightarrow> d < 16 \<Longrightarrow> is_ascii_hexdigit (hex_digit d)"
  by (auto simp: is_ascii_hexdigit_def hex_digit_def is_digit_def byte_in_def of_char_char_of_small)

lemma of_char_range: "0 \<le> (of_char c :: int)" "(of_char c :: int) < 256"
  by (simp_all add: of_char_def horner_sum_simps split: char.splits)

lemma hex_prefix_hex: "list_all is_ascii_hexdigit (hex_prefix bytes n)"
proof -
  have "0 \<le> x div 16 \<and> x div 16 < 16 \<and> 0 \<le> x mod 16 \<and> x mod 16 < 16" if "0 \<le> x" "x < 256" for x :: int
    using that by presburger
  then show ?thesis using of_char_range by (auto simp: hex_prefix_def hex_byte_def list_all_iff intro!: hex_digit_ok)
qed

lemma length_hex_prefix: "length (hex_prefix bytes n) = 2 * min n (length bytes)"
  by (simp add: hex_prefix_def hex_byte_def length_concat o_def sum_list_triv)

end
