(* ===== verification/Composite.thy ===== *)
theory Composite
  imports Parser Lib
begin

text \<open>
  The composite contracts of \<open>src/src/composite.rs\<close>: artifact descriptors, the authoritative
  inventory, canonical region artifacts, and the regions derived from standard reports.  The
  lemmas show what an accepted inventory guarantees (\<open>inventory_wf\<close>), which the assembly of
  \<open>Assemble\<close> relies on.
\<close>

section \<open>Formats and records\<close>

definition inventory_schema :: string where
  "inventory_schema = ''coverage-mcp-inventory-v1''"

definition regions_schema :: string where
  "regions_schema = ''coverage-mcp-regions-v1''"

definition mapping_version :: string where
  "mapping_version = ''coverage-mcp-regions-v1''"

definition normalize_composite_format :: "string \<Rightarrow> string" where
  "normalize_composite_format value =
     (let lowered = to_lower (trim value) in
      if lowered \<in> {''coverage.py'', ''coveragepy'', ''python''} then ''coveragepy''
      else if lowered \<in> {''istanbul'', ''javascript'', ''js''} then ''istanbul''
      else if lowered \<in> {''llvm'', ''llvm-json''} then ''llvm''
      else if lowered = ''coverage-mcp-regions-v1'' then regions_schema
      else if lowered = ''coverage-mcp-inventory-v1'' then inventory_schema
      else lowered)"

record logical_source_alias =
  la_path :: string
  la_logical_source_id :: string

record artifact_descriptor =
  ad_component_id :: string
  ad_package_variant :: string
  ad_language :: string
  ad_format :: string
  ad_inventory_artifact :: string
  ad_logical_source_aliases :: "logical_source_alias list"
  ad_role :: string
  ad_toolchain_versions :: json

record inventory_region =
  ir_start_line :: int
  ir_end_line :: int
  ir_discriminator :: string

record inventory_entry =
  ie_logical_source_id :: string
  ie_path :: string
  ie_package :: string
  ie_component_id :: string
  ie_language :: string
  ie_role :: string
  ie_source_hash :: string
  ie_variants :: "string list"
  ie_expected_formats :: "string list"
  ie_regions :: "inventory_region list"

record inventory_doc =
  id_schema :: string
  id_mapping_version :: string
  id_source_revision :: string
  id_entries :: "inventory_entry list"

record canonical_region =
  cn_path :: string
  cn_logical_source_id :: "string option"
  cn_start_line :: int
  cn_end_line :: int
  cn_discriminator :: string
  cn_hits :: int
  cn_covered :: bool
  cn_source_hash :: "string option"

record composite_env =
  ce_parser :: parser_env
  ce_exists :: "string \<Rightarrow> bool"
  ce_file_len :: "string \<Rightarrow> io_error + int"
  ce_read :: "string \<Rightarrow> io_error + string"
  ce_sha256 :: "string \<Rightarrow> string"

section \<open>Field readers\<close>

definition non_blank :: "json option \<Rightarrow> string option" where
  "non_blank v = Option.bind (Option.bind v as_str) (\<lambda>s. if trim s \<noteq> [] then Some (trim s) else None)"

definition required_object_string :: "(string, json) btree \<Rightarrow> string \<Rightarrow> string \<Rightarrow> string res" where
  "required_object_string object key ctx =
     ok_or (non_blank (bt_get object key)) (Validation (ctx @ ''.'' @ key @ '' must be a non-blank string''))"

definition string_array :: "json option \<Rightarrow> string \<Rightarrow> string list res" where
  "string_array v ctx = (case v of
      None \<Rightarrow> Inr []
    | Some v \<Rightarrow>
        bindr (ok_or (as_array v) (Validation (ctx @ '' must be an array''))) (\<lambda>vs.
          mapM (\<lambda>x. ok_or (non_blank (Some x)) (Validation (ctx @ '' must contain strings''))) vs))"

definition positive_integer :: "json option \<Rightarrow> string \<Rightarrow> int res" where
  "positive_integer v ctx = (case Option.bind v as_i64 of
      None \<Rightarrow> Inl (Validation (ctx @ '' must be a positive integer''))
    | Some n \<Rightarrow> if n < 1 then Inl (Validation (ctx @ '' must be a positive integer'')) else Inr n)"

definition positive_or_zero :: "json \<Rightarrow> string \<Rightarrow> int res" where
  "positive_or_zero v ctx = (case as_i64 v of
      None \<Rightarrow> Inl (Validation (ctx @ '' must be an integer''))
    | Some n \<Rightarrow> if n < 0 then Inl (Validation (ctx @ '' must be non-negative'')) else Inr n)"

definition integer_array :: "json option \<Rightarrow> string \<Rightarrow> int list res" where
  "integer_array v ctx =
     bindr (ok_or (Option.bind v as_array) (Validation (ctx @ '' must be an array''))) (\<lambda>vs.
       mapM (\<lambda>x. positive_integer (Some x) ctx) vs)"

definition location_line :: "json option \<Rightarrow> string \<Rightarrow> int res" where
  "location_line v ctx =
     bindr (ok_or (Option.bind v as_object) (Validation (ctx @ '' must be an object''))) (\<lambda>object.
       positive_integer (bt_get object ''line'') ctx)"

definition region_i64 :: "json option \<Rightarrow> int res" where
  "region_i64 v = ok_or (Option.bind v as_i64) (Validation ''canonical region number must be an integer'')"

definition region_key :: "string \<Rightarrow> int \<Rightarrow> int \<Rightarrow> string \<Rightarrow> string" where
  "region_key logical_source_id start_at end_at disc =
     logical_source_id @ '':'' @ show_int start_at @ '':'' @ show_int end_at @ '':'' @ disc"

definition inventory_region_key :: "inventory_region \<Rightarrow> string \<Rightarrow> string" where
  "inventory_region_key r logical_source_id =
     region_key logical_source_id (ir_start_line r) (ir_end_line r) (ir_discriminator r)"

definition canonical_region_key :: "canonical_region \<Rightarrow> string \<Rightarrow> string" where
  "canonical_region_key r logical_source_id =
     region_key logical_source_id (cn_start_line r) (cn_end_line r) (cn_discriminator r)"

definition validate_inventory_path :: "string \<Rightarrow> unit res" where
  "validate_inventory_path path =
     (if is_absolute path \<or> list_ex (\<lambda>c. c = ParentDir \<or> c = RootDir) (components path)
      then Inl (Validation ''inventory entry path must be repository-relative'')
      else Inr ())"

definition validate_sha256 :: "string \<Rightarrow> string \<Rightarrow> unit res" where
  "validate_sha256 value ctx =
     (if length value \<noteq> 64 \<or> \<not> list_all is_ascii_hexdigit value
      then Inl (Validation (ctx @ ''.source_hash must be a 64-character SHA-256 hex string''))
      else Inr ())"

text \<open>A JSON artifact: an I/O error is passed on, bad JSON becomes a validation error.\<close>

definition read_json_as :: "composite_env \<Rightarrow> string \<Rightarrow> string \<Rightarrow> json res" where
  "read_json_as env what path = (case ce_read env path of
      Inl e \<Rightarrow> Inl (Io e)
    | Inr bytes \<Rightarrow> (case pe_from_slice (ce_parser env) bytes of
        Inl error \<Rightarrow> Inl (Validation (''invalid '' @ what @ '' JSON: '' @ error))
      | Inr v \<Rightarrow> Inr v))"

section \<open>Descriptors\<close>

definition alias_step :: "logical_source_alias list \<Rightarrow> json \<Rightarrow> logical_source_alias list res" where
  "alias_step aliases value =
     bindr (ok_or (as_object value) (Validation ''composite.logical_source_aliases entries must be objects'')) (\<lambda>object.
     bindr (required_object_string object ''path'' ''logical source alias'') (\<lambda>path.
     bindr (required_object_string object ''logical_source_id'' ''logical source alias'') (\<lambda>lsid.
     let entry = \<lparr>la_path = path, la_logical_source_id = lsid\<rparr> in
     if entry \<in> set aliases
     then Inl (Validation ''composite.logical_source_aliases must not contain duplicates'')
     else Inr (aliases @ [entry]))))"

definition parse_aliases :: "json option \<Rightarrow> logical_source_alias list res" where
  "parse_aliases v = (case v of
      None \<Rightarrow> Inr []
    | Some v \<Rightarrow>
        bindr (ok_or (as_array v) (Validation ''composite.logical_source_aliases must be an array of {path,logical_source_id} objects'')) (\<lambda>vs.
          foldM alias_step [] vs))"

definition required_field :: "(string, json) btree \<Rightarrow> string \<Rightarrow> string res" where
  "required_field object name = ok_or (non_blank (bt_get object name))
     (Validation (''composite.'' @ name @ '' is required and must be a non-blank string''))"

definition declared_format :: "(string, json) btree \<Rightarrow> string \<Rightarrow> string" where
  "declared_format object role =
     (let field = (case bt_get object ''format'' of Some v \<Rightarrow> Some v | None \<Rightarrow> bt_get object ''coverage_format'')
      in normalize_composite_format (case non_blank field of
           Some s \<Rightarrow> s
         | None \<Rightarrow> if role = ''inventory'' then inventory_schema else ''auto''))"

definition composite_descriptor :: "json \<Rightarrow> artifact_descriptor option res" where
  "composite_descriptor spec = (case jget spec ''composite'' of
      None \<Rightarrow> Inr None
    | Some raw \<Rightarrow>
        bindr (ok_or (as_object raw) (Validation ''artifact composite metadata must be an object'')) (\<lambda>object.
        let role = trim (case Option.bind (bt_get object ''role'') as_str of None \<Rightarrow> ''coverage'' | Some s \<Rightarrow> s) in
        if role \<notin> {''coverage'', ''inventory''} then Inl (Validation ''composite.role must be coverage or inventory'')
        else
        bindr (parse_aliases (bt_get object ''logical_source_aliases'')) (\<lambda>aliases.
        if role = ''coverage'' \<and> aliases = []
        then Inl (Validation ''composite.logical_source_aliases is required for coverage artifacts'')
        else
        let toolchain = (case bt_get object ''toolchain_versions'' of None \<Rightarrow> jobj [] | Some v \<Rightarrow> v) in
        if \<not> is_object toolchain then Inl (Validation ''composite.toolchain_versions must be an object'')
        else
        bindr (required_field object ''component_id'') (\<lambda>component_id.
        bindr (required_field object ''package_variant'') (\<lambda>package_variant.
        bindr (required_field object ''language'') (\<lambda>language.
        bindr (required_field object ''inventory_artifact'') (\<lambda>inventory_artifact.
          Inr (Some \<lparr>ad_component_id = component_id, ad_package_variant = package_variant, ad_language = language,
            ad_format = declared_format object role, ad_inventory_artifact = inventory_artifact,
            ad_logical_source_aliases = aliases, ad_role = role, ad_toolchain_versions = toolchain\<rparr>))))))))"

section \<open>Inventories\<close>

definition parse_inventory_region :: "json \<Rightarrow> inventory_region res" where
  "parse_inventory_region value =
     bindr (ok_or (as_object value) (Validation ''inventory regions must be objects'')) (\<lambda>object.
     bindr (positive_integer (bt_get object ''start_line'') ''inventory region start_line'') (\<lambda>start_at.
     bindr (positive_integer (bt_get object ''end_line'') ''inventory region end_line'') (\<lambda>end_at.
     if end_at < start_at then Inl (Validation ''inventory region end_line must be >= start_line'')
     else bindr (required_object_string object ''discriminator'' ''inventory region'') (\<lambda>disc.
       Inr \<lparr>ir_start_line = start_at, ir_end_line = end_at, ir_discriminator = disc\<rparr>))))"

definition entry_component :: "(string, json) btree \<Rightarrow> string \<Rightarrow> string" where
  "entry_component object package =
     trim (case Option.bind (bt_get object ''component_id'') as_str of
        Some s \<Rightarrow> if trim s \<noteq> [] then s else package
      | None \<Rightarrow> package)"

definition check_entry_regions :: "string \<Rightarrow> string \<Rightarrow> string list \<Rightarrow> string list \<Rightarrow> inventory_region list \<Rightarrow> unit res" where
  "check_entry_regions lsid role variants formats regions =
     (if \<not> distinct regions
      then Inl (Validation (''inventory entry '' @ lsid @ '' regions must not contain duplicates''))
      else if role = ''production'' \<and> regions = []
      then Inl (Validation (''production inventory entry '' @ lsid @ '' must contain regions''))
      else if variants = [] \<and> role = ''production''
      then Inl (Validation (''production inventory entry '' @ lsid @ '' must declare variants''))
      else if formats = [] \<and> role = ''production''
      then Inl (Validation (''production inventory entry '' @ lsid @ '' must declare expected_formats''))
      else Inr ())"

definition parse_inventory_entry :: "json \<Rightarrow> inventory_entry res" where
  "parse_inventory_entry value =
     bindr (ok_or (as_object value) (Validation ''composite inventory entries must be objects'')) (\<lambda>object.
     bindr (required_object_string object ''logical_source_id'' ''inventory entry'') (\<lambda>lsid.
     bindr (required_object_string object ''path'' ''inventory entry'') (\<lambda>path.
     bindr (validate_inventory_path path) (\<lambda>_.
     bindr (required_object_string object ''package'' ''inventory entry'') (\<lambda>package.
     bindr (required_object_string object ''language'' ''inventory entry'') (\<lambda>language.
     bindr (required_object_string object ''role'' ''inventory entry'') (\<lambda>role.
     if role \<notin> {''production'', ''catalogue''}
     then Inl (Validation (''inventory entry '' @ lsid @ '' role must be production or catalogue''))
     else
     bindr (required_object_string object ''source_hash'' ''inventory entry'') (\<lambda>hash.
     bindr (validate_sha256 (to_lower hash) (''inventory entry '' @ lsid)) (\<lambda>_.
     bindr (string_array (bt_get object ''variants'') ''inventory entry variants'') (\<lambda>variants.
     bindr (string_array (bt_get object ''expected_formats'') ''inventory entry expected_formats'') (\<lambda>formats.
     if \<not> distinct variants
     then Inl (Validation (''inventory entry '' @ lsid @ '' variants must not contain duplicates''))
     else
     let formats = remdups_adj (sort (map normalize_composite_format formats));
         raw = (case bt_get object ''regions'' of Some v \<Rightarrow> Some v | None \<Rightarrow> bt_get object ''expected_regions'') in
     bindr (ok_or (Option.bind raw as_array) (Validation (''inventory entry '' @ lsid @ '' must contain regions''))) (\<lambda>raw_regions.
     bindr (mapM parse_inventory_region raw_regions) (\<lambda>regions.
     bindr (check_entry_regions lsid role variants formats regions) (\<lambda>_.
       Inr \<lparr>ie_logical_source_id = lsid, ie_path = path, ie_package = package,
            ie_component_id = entry_component object package, ie_language = to_lower language, ie_role = role,
            ie_source_hash = to_lower hash, ie_variants = variants, ie_expected_formats = formats,
            ie_regions = regions\<rparr>))))))))))))))"

definition unique_id_step :: "string list \<Rightarrow> inventory_entry \<Rightarrow> string list res" where
  "unique_id_step ids entry =
     (if ie_logical_source_id entry \<in> set ids
      then Inl (Validation (''composite inventory logical_source_id is duplicated: '' @ ie_logical_source_id entry))
      else Inr (bs_insert (ie_logical_source_id entry) ids))"

definition inventory_of_json :: "json \<Rightarrow> inventory_doc res" where
  "inventory_of_json value =
     bindr (ok_or (as_object value) (Validation ''composite inventory must be a JSON object'')) (\<lambda>object.
     bindr (required_object_string object ''schema'' ''composite inventory'') (\<lambda>schema.
     if schema \<noteq> inventory_schema then Inl (Validation (''unsupported composite inventory schema: '' @ schema))
     else
     bindr (required_object_string object ''mapping_version'' ''composite inventory'') (\<lambda>version.
     if version \<noteq> mapping_version then Inl (Validation (''unsupported composite mapping version: '' @ version))
     else
     bindr (required_object_string object ''source_revision'' ''composite inventory'') (\<lambda>revision.
     bindr (ok_or (Option.bind (bt_get object ''entries'') as_array)
        (Validation ''composite inventory.entries must be an array'')) (\<lambda>raw.
     bindr (mapM parse_inventory_entry raw) (\<lambda>entries.
     if entries = [] then Inl (Validation ''composite inventory.entries must not be empty'')
     else bindr (foldM unique_id_step [] entries) (\<lambda>_.
       Inr \<lparr>id_schema = schema, id_mapping_version = version, id_source_revision = revision,
            id_entries = entries\<rparr>)))))))"

definition parse_inventory :: "composite_env \<Rightarrow> string \<Rightarrow> inventory_doc res" where
  "parse_inventory env path = bindr (read_json_as env ''composite inventory'' path) inventory_of_json"

section \<open>Canonical region artifacts\<close>

definition parse_canonical_region :: "json \<Rightarrow> canonical_region res" where
  "parse_canonical_region value =
     bindr (ok_or (as_object value) (Validation ''canonical region entries must be objects'')) (\<lambda>object.
     bindr (required_object_string object ''path'' ''canonical region'') (\<lambda>path.
     bindr (positive_integer (bt_get object ''start_line'') ''canonical region start_line'') (\<lambda>start_at.
     bindr (positive_integer (bt_get object ''end_line'') ''canonical region end_line'') (\<lambda>end_at.
     if end_at < start_at then Inl (Validation ''canonical region end_line must be >= start_line'')
     else
     bindr (required_object_string object ''discriminator'' ''canonical region'') (\<lambda>disc.
     bindr (case bt_get object ''hits'' of None \<Rightarrow> Inr 0 | Some v \<Rightarrow> positive_or_zero v ''canonical region hits'') (\<lambda>hits.
     bindr (required_object_string object ''source_hash'' ''canonical region'') (\<lambda>hash.
       Inr \<lparr>cn_path = path,
            cn_logical_source_id = Option.bind (bt_get object ''logical_source_id'') as_str,
            cn_start_line = start_at, cn_end_line = end_at, cn_discriminator = disc, cn_hits = hits,
            cn_covered = (case Option.bind (bt_get object ''covered'') as_bool of None \<Rightarrow> 0 < hits | Some b \<Rightarrow> b),
            cn_source_hash = Some (to_lower hash)\<rparr>)))))))"

definition parse_region_artifact_with_revision :: "composite_env \<Rightarrow> string \<Rightarrow> (string \<times> canonical_region list) res" where
  "parse_region_artifact_with_revision env path =
     bindr (read_json_as env ''canonical region'' path) (\<lambda>value.
     bindr (ok_or (as_object value) (Validation ''canonical region artifact must be a JSON object'')) (\<lambda>object.
     bindr (required_object_string object ''schema'' ''canonical region artifact'') (\<lambda>schema.
     if schema \<noteq> regions_schema then Inl (Validation (''unsupported canonical region schema: '' @ schema))
     else
     bindr (required_object_string object ''mapping_version'' ''canonical region artifact'') (\<lambda>version.
     if version \<noteq> mapping_version then Inl (Validation (''unsupported canonical region mapping version: '' @ version))
     else
     bindr (required_object_string object ''source_revision'' ''canonical region artifact'') (\<lambda>revision.
     bindr (ok_or (Option.bind (bt_get object ''regions'') as_array)
        (Validation ''canonical region artifact.regions must be an array'')) (\<lambda>raw.
     bindr (mapM parse_canonical_region raw) (\<lambda>regions. Inr (revision, regions))))))))"

definition parse_region_artifact :: "composite_env \<Rightarrow> string \<Rightarrow> canonical_region list res" where
  "parse_region_artifact env path =
     bindr (parse_region_artifact_with_revision env path) (\<lambda>(_, regions). Inr regions)"

section \<open>Regions of standard reports\<close>

definition line_region :: "string \<Rightarrow> string \<Rightarrow> int \<Rightarrow> int \<Rightarrow> bool \<Rightarrow> canonical_region" where
  "line_region path disc line hits covered =
     \<lparr>cn_path = path, cn_logical_source_id = None, cn_start_line = line, cn_end_line = line,
      cn_discriminator = disc, cn_hits = hits, cn_covered = covered, cn_source_hash = None\<rparr>"

definition coveragepy_field :: "string \<Rightarrow> (string, json) btree \<Rightarrow> canonical_region list \<Rightarrow> bool \<times> string
    \<Rightarrow> canonical_region list res" where
  "coveragepy_field normalized payload regions f = (case f of (covered, field) \<Rightarrow>
     bindr (integer_array (bt_get payload field) (''coverage.py '' @ field)) (\<lambda>ls.
       Inr (regions @ map (\<lambda>line. line_region normalized (''python:line:'' @ show_int line) line
              (i64_of_bool covered) covered) ls)))"

definition coveragepy_file :: "composite_env \<Rightarrow> string option \<Rightarrow> canonical_region list \<Rightarrow> string \<times> json
    \<Rightarrow> canonical_region list res" where
  "coveragepy_file env repo regions e = (case e of (file_path, payload) \<Rightarrow>
     bindr (ok_or (as_object payload) (Validation ''coverage.py file payload must be an object'')) (\<lambda>payload.
       foldM (coveragepy_field (normalize_report_path (pe_canon (ce_parser env)) file_path repo) payload) regions
         [(True, ''executed_lines''), (False, ''missing_lines'')]))"

definition derive_coveragepy_regions :: "composite_env \<Rightarrow> string \<Rightarrow> string option \<Rightarrow> canonical_region list res" where
  "derive_coveragepy_regions env path repo =
     bindr (read_json_as env ''coverage.py'' path) (\<lambda>value.
     bindr (ok_or (Option.bind (jget value ''files'') as_object) (Validation ''coverage.py JSON must contain files'')) (\<lambda>files.
       foldM (coveragepy_file env repo) [] files))"

definition istanbul_statement :: "string \<Rightarrow> (string, json) btree \<Rightarrow> canonical_region list \<Rightarrow> string \<times> json
    \<Rightarrow> canonical_region list res" where
  "istanbul_statement normalized cnts regions e = (case e of (disc, location) \<Rightarrow>
     bindr (ok_or (as_object location) (Validation ''Istanbul statement location must be an object'')) (\<lambda>location.
     bindr (location_line (bt_get location ''start'') ''Istanbul statement start'') (\<lambda>start_at.
     bindr (location_line (bt_get location ''end'') ''Istanbul statement end'') (\<lambda>end_at.
     bindr (ok_or (Option.bind (bt_get cnts disc) as_i64)
        (Validation (''Istanbul statement count is missing: '' @ disc))) (\<lambda>hits.
     if hits < 0 then Inl (Validation ''Istanbul statement count must be non-negative'')
     else Inr (regions @ [\<lparr>cn_path = normalized, cn_logical_source_id = None, cn_start_line = start_at,
        cn_end_line = end_at, cn_discriminator = ''istanbul:statement:'' @ disc, cn_hits = hits,
        cn_covered = (0 < hits), cn_source_hash = None\<rparr>]))))))"

definition istanbul_file :: "composite_env \<Rightarrow> string option \<Rightarrow> canonical_region list \<Rightarrow> string \<times> json
    \<Rightarrow> canonical_region list res" where
  "istanbul_file env repo regions e = (case e of (file_path, payload) \<Rightarrow>
     bindr (ok_or (as_object payload) (Validation ''Istanbul file payload must be an object'')) (\<lambda>payload.
     bindr (ok_or (Option.bind (bt_get payload ''statementMap'') as_object)
        (Validation ''Istanbul file is missing statementMap'')) (\<lambda>statement_map.
     bindr (ok_or (Option.bind (bt_get payload ''s'') as_object)
        (Validation ''Istanbul file is missing statement counts'')) (\<lambda>cnts.
       foldM (istanbul_statement (normalize_report_path (pe_canon (ce_parser env)) file_path repo) cnts) regions
         statement_map))))"

definition derive_istanbul_regions :: "composite_env \<Rightarrow> string \<Rightarrow> string option \<Rightarrow> canonical_region list res" where
  "derive_istanbul_regions env path repo =
     bindr (read_json_as env ''Istanbul'' path) (\<lambda>value.
     bindr (ok_or (as_object value) (Validation ''Istanbul coverage must be an object keyed by file'')) (\<lambda>files.
       foldM (istanbul_file env repo) [] files))"

text \<open>The segments with a count that start a region.\<close>

definition llvm_entry :: "json \<Rightarrow> json list option" where
  "llvm_entry segment = (case as_array segment of
      None \<Rightarrow> None
    | Some vs \<Rightarrow>
        (if 5 \<le> length vs \<and> Option.bind (nth_opt vs 3) as_bool = Some True
            \<and> Option.bind (nth_opt vs 4) as_bool = Some True
         then Some vs else None))"

definition llvm_region :: "string \<Rightarrow> canonical_region list \<Rightarrow> json list \<times> json list option \<Rightarrow> canonical_region list res" where
  "llvm_region normalized regions e = (case e of (vs, following) \<Rightarrow>
     bindr (region_i64 (nth_opt vs 0)) (\<lambda>start_at.
     bindr (region_i64 (nth_opt vs 1)) (\<lambda>start_column.
     bindr (region_i64 (nth_opt vs 2)) (\<lambda>hits.
     bindr (case following of None \<Rightarrow> Inr start_at | Some next \<Rightarrow> region_i64 (nth_opt next 0)) (\<lambda>end_at.
     bindr (case following of None \<Rightarrow> Inr (i64_add start_column 1) | Some next \<Rightarrow> region_i64 (nth_opt next 1)) (\<lambda>end_column.
       Inr (regions @ [\<lparr>cn_path = normalized, cn_logical_source_id = None, cn_start_line = start_at,
          cn_end_line = end_at,
          cn_discriminator = ''llvm:'' @ show_int start_at @ '':'' @ show_int start_column @ '':'' @ show_int end_at
             @ '':'' @ show_int end_column,
          cn_hits = hits, cn_covered = (0 < hits), cn_source_hash = None\<rparr>])))))))"

definition with_next :: "'a list \<Rightarrow> ('a \<times> 'a option) list" where
  "with_next xs = zip xs (map Some (tl xs) @ [None])"

definition llvm_region_file :: "composite_env \<Rightarrow> string option \<Rightarrow> canonical_region list \<Rightarrow> json \<Rightarrow> canonical_region list res" where
  "llvm_region_file env repo regions file =
     bindr (ok_or (as_object file) (Validation ''LLVM file must be an object'')) (\<lambda>object.
     bindr (required_object_string object ''filename'' ''LLVM file'') (\<lambda>raw_path.
     bindr (ok_or (Option.bind (bt_get object ''segments'') as_array) (Validation ''LLVM file must contain segments'')) (\<lambda>segments.
       foldM (llvm_region (normalize_report_path (pe_canon (ce_parser env)) raw_path repo)) regions
         (with_next (List.map_filter llvm_entry segments)))))"

definition llvm_region_unit :: "composite_env \<Rightarrow> string option \<Rightarrow> canonical_region list \<Rightarrow> json \<Rightarrow> canonical_region list res" where
  "llvm_region_unit env repo regions u =
     bindr (ok_or (Option.bind (jget u ''files'') as_array) (Validation ''LLVM data entry must contain files'')) (\<lambda>files.
       foldM (llvm_region_file env repo) regions files)"

definition derive_llvm_regions :: "composite_env \<Rightarrow> string \<Rightarrow> string option \<Rightarrow> canonical_region list res" where
  "derive_llvm_regions env path repo =
     bindr (read_json_as env ''LLVM'' path) (\<lambda>value.
     bindr (ok_or (Option.bind (jget value ''data'') as_array) (Validation ''LLVM JSON must contain data'')) (\<lambda>units.
       foldM (llvm_region_unit env repo) [] units))"

definition derive_standard_regions :: "composite_env \<Rightarrow> string \<Rightarrow> string \<Rightarrow> string option \<Rightarrow> canonical_region list res" where
  "derive_standard_regions env path format repo =
     (if format = ''coveragepy'' then derive_coveragepy_regions env path repo
      else if format = ''istanbul'' then derive_istanbul_regions env path repo
      else if format = ''llvm'' then derive_llvm_regions env path repo
      else bindr (parse_coverage_report (ce_parser env) (ce_exists env) (ce_file_len env) (ce_read env) path format repo) (\<lambda>report.
        Inr (map (\<lambda>l. line_region (lc_file_path l) (format @ '':line:'' @ show_int (lc_line_number l)) (lc_line_number l)
               (lc_hits l) (lc_covered l)) (filter lc_count_line (cr_lines report)))))"


section \<open>Accepted inventories\<close>

definition region_ok :: "inventory_region \<Rightarrow> bool" where
  "region_ok r \<longleftrightarrow> 1 \<le> ir_start_line r \<and> ir_start_line r \<le> ir_end_line r \<and> ir_discriminator r \<noteq> []"

definition entry_ok :: "inventory_entry \<Rightarrow> bool" where
  "entry_ok e \<longleftrightarrow> ie_logical_source_id e \<noteq> []
     \<and> \<not> is_absolute (ie_path e) \<and> ParentDir \<notin> set (components (ie_path e))
     \<and> length (ie_source_hash e) = 64
     \<and> distinct (ie_variants e) \<and> distinct (ie_regions e) \<and> sorted_wrt (<) (ie_expected_formats e)
     \<and> list_all region_ok (ie_regions e)
     \<and> ie_role e \<in> {''production'', ''catalogue''}
     \<and> (ie_role e = ''production'' \<longrightarrow> ie_regions e \<noteq> [] \<and> ie_variants e \<noteq> [] \<and> ie_expected_formats e \<noteq> [])"

definition inventory_wf :: "inventory_doc \<Rightarrow> bool" where
  "inventory_wf doc \<longleftrightarrow> id_entries doc \<noteq> [] \<and> list_all entry_ok (id_entries doc)
     \<and> distinct (map ie_logical_source_id (id_entries doc))
     \<and> id_mapping_version doc = mapping_version"

lemma non_blank_not_Nil: "non_blank v = Some s \<Longrightarrow> s \<noteq> []"
  by (auto simp: non_blank_def bind_eq_Some_conv split: if_splits)

lemma required_object_string_not_Nil: "required_object_string m k ctx = Inr s \<Longrightarrow> s \<noteq> []"
  by (auto simp: required_object_string_def dest: non_blank_not_Nil)

lemma positive_integer_pos: "positive_integer v ctx = Inr n \<Longrightarrow> 1 \<le> n"
  by (auto simp: positive_integer_def split: option.splits if_splits)

lemma region_ok_parse: "parse_inventory_region v = Inr r \<Longrightarrow> region_ok r"
  by (auto simp: parse_inventory_region_def bindr_eq_Inr region_ok_def
      dest: positive_integer_pos required_object_string_not_Nil split: if_splits)

lemma length_to_lower [simp]: "length (to_lower s) = length s"
  by (simp add: to_lower_def)

lemma check_entry_regions_ok:
  "check_entry_regions lsid role variants formats regions = Inr u \<Longrightarrow> distinct regions
    \<and> (role = ''production'' \<longrightarrow> regions \<noteq> [] \<and> variants \<noteq> [] \<and> formats \<noteq> [])"
  by (auto simp: check_entry_regions_def split: if_splits)

lemma entry_ok_parse:
  assumes "parse_inventory_entry v = Inr e" shows "entry_ok e"
  using assms unfolding parse_inventory_entry_def Let_def
proof (elim bindr_InrE if_Inl_InrE)
  fix m lsid path u package language role hash u' variants formats raw regions u''
  assume id: "required_object_string m ''logical_source_id'' ''inventory entry'' = Inr lsid"
    and path: "validate_inventory_path path = Inr u"
    and role: "\<not> role \<notin> {''production'', ''catalogue''}"
    and sha: "validate_sha256 (to_lower hash) (''inventory entry '' @ lsid) = Inr u'"
    and vs: "\<not> \<not> distinct variants"
    and rs: "mapM parse_inventory_region raw = Inr regions"
    and chk: "check_entry_regions lsid role variants (remdups_adj (sort (map normalize_composite_format formats))) regions = Inr u''"
    and e: "Inr \<lparr>ie_logical_source_id = lsid, ie_path = path, ie_package = package,
            ie_component_id = entry_component m package, ie_language = to_lower language, ie_role = role,
            ie_source_hash = to_lower hash, ie_variants = variants,
            ie_expected_formats = remdups_adj (sort (map normalize_composite_format formats)),
            ie_regions = regions\<rparr> = Inr e"
  have "list_all region_ok regions" using mapM_set[OF rs] by (auto simp: list_all_iff dest: region_ok_parse)
  moreover have "\<not> is_absolute path \<and> ParentDir \<notin> set (components path)"
    using path by (auto simp: validate_inventory_path_def list_ex_iff split: if_splits)
  moreover have "length hash = 64" using sha by (auto simp: validate_sha256_def split: if_splits)
  moreover note required_object_string_not_Nil[OF id] role vs check_entry_regions_ok[OF chk]
  ultimately show "entry_ok e" using e by (auto simp: entry_ok_def strict_sorted_dedup)
qed

lemma unique_ids:
  "foldM unique_id_step ids es = Inr ids' \<Longrightarrow>
   distinct (map ie_logical_source_id es) \<and> set ids \<inter> set (map ie_logical_source_id es) = {}"
  by (induction es arbitrary: ids) (fastforce simp: unique_id_step_def bindr_eq_Inr split: if_splits)+

lemma inventory_wf_of_json:
  assumes "inventory_of_json v = Inr doc" shows "inventory_wf doc"
  using assms unfolding inventory_of_json_def
proof (elim bindr_InrE if_Inl_InrE)
  fix m schema version revision raw entries ids
  assume es: "mapM parse_inventory_entry raw = Inr entries" and ne: "entries \<noteq> []"
    and ids: "foldM unique_id_step [] entries = Inr ids" and version: "\<not> version \<noteq> mapping_version"
    and doc: "Inr \<lparr>id_schema = schema, id_mapping_version = version, id_source_revision = revision,
            id_entries = entries\<rparr> = Inr doc"
  have "list_all entry_ok entries" using mapM_set[OF es] by (auto simp: list_all_iff dest: entry_ok_parse)
  with doc version ne unique_ids[OF ids] show "inventory_wf doc" by (auto simp: inventory_wf_def)
qed

lemma inventory_wf_parse: "parse_inventory env path = Inr doc \<Longrightarrow> inventory_wf doc"
  by (auto simp: parse_inventory_def bindr_eq_Inr dest: inventory_wf_of_json)

section \<open>Region keys\<close>

text \<open>A region key determines its source and region when source identifiers have no colon.\<close>

lemma region_key_inj:
  assumes "region_key i s e d = region_key j t f g" and "CHR '':'' \<notin> set i" "CHR '':'' \<notin> set j"
  shows "i = j \<and> s = t \<and> e = f \<and> d = g"
proof -
  from assms(1) have eq: "i @ CHR '':'' # (show_int s @ CHR '':'' # (show_int e @ CHR '':'' # d))
      = j @ CHR '':'' # (show_int t @ CHR '':'' # (show_int f @ CHR '':'' # g))"
    by (simp add: region_key_def)
  have 1: "i = j \<and> show_int s @ CHR '':'' # (show_int e @ CHR '':'' # d) = show_int t @ CHR '':'' # (show_int f @ CHR '':'' # g)"
    using append_sep_eq[OF assms(2,3) eq] by blast
  have 2: "show_int s = show_int t \<and> show_int e @ CHR '':'' # d = show_int f @ CHR '':'' # g"
    using append_sep_eq[OF show_int_sep(4) show_int_sep(4) conjunct2[OF 1]] by blast
  have 3: "show_int e = show_int f \<and> d = g"
    using append_sep_eq[OF show_int_sep(4) show_int_sep(4) conjunct2[OF 2]] by blast
  show ?thesis using 1 2 3 show_int_inj by blast
qed


section \<open>Properties\<close>

text \<open>An inventory that is accepted is well formed: it has entries, their identifiers are distinct, each
  path stays inside the repository, hashes have 64 digits, regions are non-empty line ranges without
  duplicates, and every production entry declares regions, variants and formats.\<close>

theorem accepted_inventory_wf:
  assumes "parse_inventory env path = Inr doc"
  shows "inventory_wf doc"
  by (rule inventory_wf_parse[OF assms])

definition sample_inventory_json :: json where
  "sample_inventory_json = jobj [(''schema'', JStr inventory_schema), (''mapping_version'', JStr mapping_version),
     (''source_revision'', JStr ''r1''),
     (''entries'', JArr [jobj [(''logical_source_id'', JStr ''lib''), (''path'', JStr ''src/lib.rs''), (''package'', JStr ''p''),
        (''language'', JStr ''Rust''), (''role'', JStr ''production''), (''source_hash'', JStr (replicate 64 (CHR ''a''))),
        (''variants'', JArr [JStr ''cpu'']), (''expected_formats'', JArr [JStr ''llvm-json'', JStr ''llvm'']),
        (''regions'', JArr [jobj [(''start_line'', JInt 1), (''end_line'', JInt 3), (''discriminator'', JStr ''d'')]])]])]"

definition inventory_env :: composite_env where
  "inventory_env = \<lparr>ce_parser = plain_env\<lparr>pe_from_slice := (\<lambda>_. Inr sample_inventory_json)\<rparr>, ce_exists = (\<lambda>_. True),
     ce_file_len = (\<lambda>_. Inr 0), ce_read = Inr, ce_sha256 = (\<lambda>s. s)\<rparr>"

theorem accepted_inventory_wf_witness:
  "\<exists>doc. parse_inventory inventory_env ''i.json'' = Inr doc \<and> inventory_wf doc"
proof -
  have "(case parse_inventory inventory_env ''i.json'' of Inr _ \<Rightarrow> True | Inl _ \<Rightarrow> False)" by code_simp
  then obtain doc where doc: "parse_inventory inventory_env ''i.json'' = Inr doc" by (auto split: sum.splits)
  from accepted_inventory_wf[OF doc] doc show ?thesis by blast
qed

text \<open>Region keys can collide: the identifiers \<open>a\<close> and \<open>a:1\<close> give two different regions the same key,
  so an inventory that has both counts them once.\<close>

theorem region_keys_collide:
  "inventory_region_key \<lparr>ir_start_line = 1, ir_end_line = 2, ir_discriminator = ''3:d''\<rparr> ''a''
   = inventory_region_key \<lparr>ir_start_line = 2, ir_end_line = 3, ir_discriminator = ''d''\<rparr> ''a:1''"
  by code_simp

end
