(* ===== verification/Assemble.thy ===== *)
theory Assemble
  imports Composite
begin

text \<open>
  The assembly of a composite snapshot (\<open>assemble\<close> of \<open>src/src/composite.rs\<close>): the inventory's
  production regions are the denominator, each declared piece of evidence contributes observed
  regions, and the result lists one row per expected region with the state of every required
  variant.  The state of the loop over the inputs is the record \<open>gather_state\<close>.
\<close>

section \<open>Inputs and result\<close>

record component_input =
  ci_descriptor :: artifact_descriptor
  ci_artifact_path :: string
  ci_artifact_hash :: "string option"
  ci_snapshot_id :: "string option"
  ci_source_revision :: "string option"
  ci_artifact_status :: string
  ci_reused_from_snapshot_id :: "string option"
  ci_regions :: "canonical_region list"

record composite_build =
  bd_status :: string
  bd_covered_regions :: int
  bd_total_regions :: int
  bd_components :: "json list"
  bd_reasons :: "string list"
  bd_remediation :: json
  bd_component_evidence :: "json list"
  bd_regions :: "json list"
  bd_inventory :: json
  bd_provenance :: json

definition incomplete_build :: "string \<Rightarrow> json \<Rightarrow> json \<Rightarrow> composite_build" where
  "incomplete_build reason inventory_json provenance =
     \<lparr>bd_status = ''incomplete'', bd_covered_regions = 0, bd_total_regions = 0,
      bd_components = map (\<lambda>c. jobj [(''component'', JStr c), (''covered_regions'', JInt 0), (''total_regions'', JInt 0),
          (''region_rate'', JNull), (''status'', JStr ''incomplete'')]) [''rust'', ''python'', ''javascript''],
      bd_reasons = [reason], bd_remediation = jobj [(''missing_artifact'', JInt 1)], bd_component_evidence = [],
      bd_regions = [], bd_inventory = inventory_json, bd_provenance = provenance\<rparr>"

record expected_region =
  ex_logical_source_id :: string
  ex_path :: string
  ex_component_id :: string
  ex_language :: string
  ex_package :: string
  ex_source_hash :: string
  ex_variants :: "string list"
  ex_expected_formats :: "string list"
  ex_region :: inventory_region

section \<open>The denominator\<close>

definition entry_variants :: "inventory_entry \<Rightarrow> string list" where
  "entry_variants entry = (if ie_variants entry = [] then [''default''] else ie_variants entry)"

definition expected_of :: "inventory_entry \<Rightarrow> inventory_region \<Rightarrow> expected_region" where
  "expected_of entry region =
     \<lparr>ex_logical_source_id = ie_logical_source_id entry, ex_path = ie_path entry,
      ex_component_id = ie_component_id entry, ex_language = ie_language entry, ex_package = ie_package entry,
      ex_source_hash = ie_source_hash entry, ex_variants = entry_variants entry,
      ex_expected_formats = ie_expected_formats entry, ex_region = region\<rparr>"

definition expected_entries :: "inventory_entry \<Rightarrow> (string \<times> expected_region) list" where
  "expected_entries entry =
     map (\<lambda>region. (inventory_region_key region (ie_logical_source_id entry), expected_of entry region)) (ie_regions entry)"

definition expected_regions :: "inventory_entry list \<Rightarrow> (string, expected_region) btree" where
  "expected_regions entries = bt_of_list (concat (map expected_entries entries))"

definition component_of_language :: "string \<Rightarrow> string" where
  "component_of_language language =
     (if language \<in> {''rust'', ''wgsl'', ''wasm''} then ''rust''
      else if language = ''python'' then ''python''
      else if language \<in> {''javascript'', ''js''} then ''javascript''
      else ''other'')"

definition component_keys :: "(string, expected_region) btree \<Rightarrow> string \<Rightarrow> string list" where
  "component_keys expected component =
     bs_of_list (map fst (filter (\<lambda>(key, entry). component_of_language (ex_language entry) = component) expected))"

definition component_summary :: "(string, expected_region) btree \<Rightarrow> string list \<Rightarrow> string list \<Rightarrow> string \<Rightarrow> json" where
  "component_summary expected covered reasons component =
     (let keys = component_keys expected component;
          tot = length keys;
          covered_count = length (filter (\<lambda>k. k \<in> set covered) keys)
      in jobj [(''component'', JStr component), (''covered_regions'', jnat covered_count), (''total_regions'', jnat tot),
               (''region_rate'', if 0 < tot then JFloat (f64_div (f64_of_int (int covered_count)) (f64_of_int (int tot))) else JNull),
               (''status'', JStr (if 0 < tot \<and> covered_count = tot \<and> reasons = [] then ''complete'' else ''incomplete''))])"

definition component_summaries :: "(string, expected_region) btree \<Rightarrow> string list \<Rightarrow> string list \<Rightarrow> json list" where
  "component_summaries expected covered reasons =
     map (component_summary expected covered reasons) [''rust'', ''python'', ''javascript'']"

definition remediation_for_state :: "string \<Rightarrow> string" where
  "remediation_for_state state =
     (if state = ''uncovered'' then ''test_gap''
      else if state = ''unmeasured'' then ''instrumentation_gap''
      else if state = ''missing_artifact'' then ''generated_variant_gap''
      else if state = ''stale_evidence'' then ''instrumentation_gap''
      else if state = ''source_mismatch'' then ''source_mismatch''
      else ''none'')"

section \<open>Gathering evidence\<close>

type_synonym producer = "string \<times> string"

record gather_state =
  gs_reasons :: "string list"
  gs_observed :: "(producer, (string, bool \<times> int) btree) btree"
  gs_statuses :: "(producer, string) btree"
  gs_mismatch_keys :: "(string \<times> string \<times> string) list"
  gs_descriptors :: "producer list"
  gs_evidence :: "json list"
  gs_artifact_hashes :: "(string, json) btree"
  gs_toolchains :: "(string, json) btree"

definition add_reason :: "string \<Rightarrow> gather_state \<Rightarrow> gather_state" where
  "add_reason r st = st\<lparr>gs_reasons := bs_insert r (gs_reasons st)\<rparr>"

definition add_reason_if :: "bool \<Rightarrow> string \<Rightarrow> gather_state \<Rightarrow> gather_state" where
  "add_reason_if b r st = (if b then add_reason r st else st)"

definition set_status :: "producer \<Rightarrow> string \<Rightarrow> gather_state \<Rightarrow> gather_state" where
  "set_status p s st = st\<lparr>gs_statuses := bt_insert p s (gs_statuses st)\<rparr>"

definition producer_of :: "component_input \<Rightarrow> producer" where
  "producer_of input = (ad_component_id (ci_descriptor input), ad_package_variant (ci_descriptor input))"

definition producer_name :: "component_input \<Rightarrow> string" where
  "producer_name input = ad_component_id (ci_descriptor input) @ '':'' @ ad_package_variant (ci_descriptor input)"

definition owned_by :: "(string, expected_region) btree \<Rightarrow> component_input \<Rightarrow> expected_region list" where
  "owned_by expected input =
     filter (\<lambda>entry. ex_component_id entry = ad_component_id (ci_descriptor input)
        \<and> ad_package_variant (ci_descriptor input) \<in> set (ex_variants entry)) (bt_values expected)"

definition format_allowed :: "(string, expected_region) btree \<Rightarrow> component_input \<Rightarrow> bool" where
  "format_allowed expected input =
     list_ex (\<lambda>entry. list_ex (\<lambda>format. normalize_composite_format format = ad_format (ci_descriptor input))
        (ex_expected_formats entry)) (owned_by expected input)"

definition alias_map :: "canon \<Rightarrow> string \<Rightarrow> artifact_descriptor \<Rightarrow> (string, string) btree" where
  "alias_map canon repo d =
     bt_of_list (map (\<lambda>a. (normalize_report_path canon (la_path a) (Some repo), la_logical_source_id a))
       (ad_logical_source_aliases d))"

definition resolve_source :: "canon \<Rightarrow> string \<Rightarrow> (string, string) btree \<Rightarrow> canonical_region \<Rightarrow> string option" where
  "resolve_source canon repo aliases region = (case cn_logical_source_id region of
      Some lsid \<Rightarrow> Some lsid
    | None \<Rightarrow> bt_get aliases (normalize_report_path canon (cn_path region) (Some repo)))"

definition merge_region :: "canonical_region \<Rightarrow> (bool \<times> int) option \<Rightarrow> bool \<times> int" where
  "merge_region region old = (case old of
      None \<Rightarrow> (cn_covered region, max 0 (cn_hits region))
    | Some (covered, hits) \<Rightarrow> (covered \<or> cn_covered region, max hits (cn_hits region)))"

definition observe_region :: "producer \<Rightarrow> string \<Rightarrow> canonical_region \<Rightarrow> gather_state \<Rightarrow> gather_state" where
  "observe_region p key region st =
     st\<lparr>gs_observed := bt_update p (\<lambda>old. bt_update key (merge_region region) (case old of None \<Rightarrow> [] | Some m \<Rightarrow> m))
          (gs_observed st)\<rparr>"

text \<open>One observed region; the count of accepted regions is threaded with the state.\<close>

definition region_step :: "canon \<Rightarrow> string \<Rightarrow> (string, expected_region) btree \<Rightarrow> component_input \<Rightarrow> (string, string) btree
    \<Rightarrow> gather_state \<times> int \<Rightarrow> canonical_region \<Rightarrow> gather_state \<times> int" where
  "region_step canon repo expected input aliases acc region = (case acc of (st, observed_count) \<Rightarrow>
     (case resolve_source canon repo aliases region of
        None \<Rightarrow> (add_reason (producer_name input @ '' contains a region without an explicit logical-source alias'') st, observed_count)
      | Some lsid \<Rightarrow>
          (let key = canonical_region_key region lsid in
           case bt_get expected key of
             None \<Rightarrow> (add_reason (''evidence contains unowned region '' @ key) st, observed_count)
           | Some expected_region \<Rightarrow>
               (if (case cn_source_hash region of None \<Rightarrow> False | Some h \<Rightarrow> h \<noteq> ex_source_hash expected_region)
                then (add_reason (''source hash mismatch for '' @ lsid)
                       (st\<lparr>gs_mismatch_keys := bs_insert (fst (producer_of input), snd (producer_of input), key) (gs_mismatch_keys st)\<rparr>),
                      observed_count)
                else (observe_region (producer_of input) key region st, i64_add observed_count 1)))))"

definition evidence_row :: "component_input \<Rightarrow> int \<Rightarrow> json" where
  "evidence_row input observed_count =
     (let d = ci_descriptor input in
      jobj [(''component_id'', JStr (ad_component_id d)), (''package_variant'', JStr (ad_package_variant d)),
            (''language'', JStr (ad_language d)),
            (''status'', JStr (if ci_artifact_status input = ''ingested'' then ''measured'' else ''missing'')),
            (''evidence_source'', JStr (if ci_reused_from_snapshot_id input \<noteq> None then ''baseline_snapshot'' else ''run_artifact'')),
            (''reused_from_snapshot_id'', jopt JStr (ci_reused_from_snapshot_id input)),
            (''format'', JStr (ad_format d)), (''artifact_path'', JStr (ci_artifact_path input)),
            (''artifact_hash'', jopt JStr (ci_artifact_hash input)), (''snapshot_id'', jopt JStr (ci_snapshot_id input)),
            (''observed_regions'', JInt observed_count), (''toolchain_versions'', ad_toolchain_versions d)])"

definition record_provenance :: "component_input \<Rightarrow> gather_state \<Rightarrow> gather_state" where
  "record_provenance input st =
     st\<lparr>gs_artifact_hashes := bt_insert (producer_name input) (jopt JStr (ci_artifact_hash input)) (gs_artifact_hashes st),
        gs_toolchains := (case as_object (ad_toolchain_versions (ci_descriptor input)) of
            Some m \<Rightarrow> bt_insert (producer_name input) (JObj m) (gs_toolchains st)
          | None \<Rightarrow> gs_toolchains st)\<rparr>"

text \<open>The checks of one input before its regions are read.\<close>

definition check_input :: "inventory_doc \<Rightarrow> (string, expected_region) btree \<Rightarrow> component_input \<Rightarrow> gather_state \<Rightarrow> gather_state" where
  "check_input doc expected input st =
     (let p = producer_of input;
          st = set_status p (ci_artifact_status input) st;
          st = (case ci_source_revision input of
              Some revision \<Rightarrow> (if revision \<noteq> id_source_revision doc
                 then add_reason (producer_name input @ '' evidence source revision does not match the inventory'')
                        (set_status p ''stale_evidence'' st)
                 else st)
            | None \<Rightarrow> st);
          st = add_reason_if (p \<in> set (gs_descriptors st)) (''duplicate evidence descriptor for '' @ producer_name input) st;
          st = st\<lparr>gs_descriptors := bs_insert p (gs_descriptors st)\<rparr>;
          st = record_provenance input st;
          st = add_reason_if (ci_artifact_status input \<noteq> ''ingested'')
                 (producer_name input @ '' evidence is '' @ ci_artifact_status input) st;
          st = add_reason_if (owned_by expected input = [])
                 (''evidence '' @ producer_name input @ '' is not owned by the production inventory'') st
      in if format_allowed expected input then st
         else add_reason (''no declared evidence uses expected format '' @ ad_format (ci_descriptor input) @ '' for ''
                @ producer_name input) (set_status p ''format_mismatch'' st))"

definition gather_input :: "canon \<Rightarrow> string \<Rightarrow> inventory_doc \<Rightarrow> (string, expected_region) btree \<Rightarrow> gather_state
    \<Rightarrow> component_input \<Rightarrow> gather_state" where
  "gather_input canon repo doc expected st input =
     (let st = check_input doc expected input st;
          (st, observed_count) =
            (if format_allowed expected input
             then foldl (region_step canon repo expected input (alias_map canon repo (ci_descriptor input))) (st, 0) (ci_regions input)
             else (st, 0))
      in st\<lparr>gs_evidence := gs_evidence st @ [evidence_row input observed_count]\<rparr>)"

section \<open>Checking the sources\<close>

definition hash_of_source :: "(string \<Rightarrow> io_error + string) \<Rightarrow> (string \<Rightarrow> string) \<Rightarrow> string \<Rightarrow> string res" where
  "hash_of_source read sha path = (case read path of Inl e \<Rightarrow> Inl (Io e) | Inr bytes \<Rightarrow> Inr (sha bytes))"

definition supported_language :: "string \<Rightarrow> bool" where
  "supported_language l \<longleftrightarrow> l \<in> {''rust'', ''wgsl'', ''wasm'', ''python'', ''javascript'', ''js''}"

definition format_missing :: "component_input list \<Rightarrow> inventory_entry \<Rightarrow> string \<Rightarrow> bool" where
  "format_missing inputs entry format \<longleftrightarrow>
     \<not> list_ex (\<lambda>input. ad_role (ci_descriptor input) = ''coverage''
         \<and> ad_component_id (ci_descriptor input) = ie_component_id entry
         \<and> ad_language (ci_descriptor input) = ie_language entry
         \<and> ad_format (ci_descriptor input) = normalize_composite_format format) inputs"

type_synonym check_state = "string list \<times> string list"

definition entry_reasons :: "component_input list \<Rightarrow> producer list \<Rightarrow> inventory_entry \<Rightarrow> string res \<Rightarrow> string list" where
  "entry_reasons inputs descriptors entry actual =
     (if supported_language (ie_language entry) then []
      else [''unsupported production language for '' @ ie_logical_source_id entry @ '': '' @ ie_language entry])
     @ map (\<lambda>variant. ''missing required package/backend variant '' @ ie_component_id entry @ '':'' @ variant)
         (filter (\<lambda>variant. (ie_component_id entry, variant) \<notin> set descriptors) (entry_variants entry))
     @ (case actual of
          Inr h \<Rightarrow> (if h = ie_source_hash entry then [] else [''source hash mismatch for '' @ ie_logical_source_id entry])
        | Inl _ \<Rightarrow> [''inventory source is missing: '' @ ie_path entry])
     @ map (\<lambda>format. ''no declared evidence uses expected format '' @ normalize_composite_format format @ '' for ''
              @ ie_logical_source_id entry)
         (filter (\<lambda>format. format_missing inputs entry format
             \<and> list_ex (\<lambda>(component, _). component = ie_component_id entry) descriptors) (ie_expected_formats entry))"

definition entry_step :: "(string \<Rightarrow> string res) \<Rightarrow> string \<Rightarrow> component_input list \<Rightarrow> producer list \<Rightarrow> check_state
    \<Rightarrow> inventory_entry \<Rightarrow> check_state" where
  "entry_step hash_source repo inputs descriptors acc entry = (case acc of (reasons, mismatched) \<Rightarrow>
     (let actual = hash_source (path_join repo (ie_path entry)) in
      (foldl (\<lambda>s r. bs_insert r s) reasons (entry_reasons inputs descriptors entry actual),
       if actual = Inr (ie_source_hash entry) then mismatched
       else bs_insert (ie_logical_source_id entry) mismatched)))"

section \<open>Rows\<close>

definition observed_state :: "(bool \<times> int) option \<Rightarrow> string \<times> int" where
  "observed_state ob = (case ob of
      Some (True, hits) \<Rightarrow> (''covered'', hits)
    | Some (False, hits) \<Rightarrow> (''uncovered'', hits)
    | None \<Rightarrow> (''unmeasured'', 0))"

definition variant_state :: "bool \<Rightarrow> bool \<Rightarrow> string option \<Rightarrow> (bool \<times> int) option \<Rightarrow> string \<times> int" where
  "variant_state source_mismatch checkout_dirty status ob =
     (if source_mismatch then (''source_mismatch'', 0)
      else if checkout_dirty \<and> status = Some ''ingested'' then (''stale_evidence'', 0)
      else case status of
        None \<Rightarrow> (''missing_artifact'', 0)
      | Some s \<Rightarrow>
          (if s = ''missing'' then (''missing_artifact'', 0)
           else if s = ''skipped_stale'' then (''stale_evidence'', 0)
           else if s \<noteq> ''ingested'' then (''unmeasured'', 0)
           else observed_state ob))"

definition state_of_variant :: "gather_state \<Rightarrow> string list \<Rightarrow> bool \<Rightarrow> string \<Rightarrow> expected_region \<Rightarrow> string \<Rightarrow> string \<times> int" where
  "state_of_variant st mismatched checkout_dirty key entry variant =
     variant_state
       (ex_logical_source_id entry \<in> set mismatched
          \<or> (ex_component_id entry, variant, key) \<in> set (gs_mismatch_keys st))
       checkout_dirty
       (bt_get (gs_statuses st) (ex_component_id entry, variant))
       (Option.bind (bt_get (gs_observed st) (ex_component_id entry, variant)) (\<lambda>m. bt_get m key))"

definition variant_json :: "string \<Rightarrow> string \<times> int \<Rightarrow> json" where
  "variant_json variant s = jobj [(''package_variant'', JStr variant), (''state'', JStr (fst s)), (''hits'', JInt (snd s))]"

definition state_order :: "string list" where
  "state_order = [''source_mismatch'', ''missing_artifact'', ''stale_evidence'', ''unmeasured'', ''covered'', ''uncovered'']"

definition region_state :: "string list \<Rightarrow> string" where
  "region_state states = (case List.find (\<lambda>candidate. candidate \<in> set states) state_order of
      Some s \<Rightarrow> s
    | None \<Rightarrow> ''unmeasured'')"

definition region_row :: "string \<Rightarrow> expected_region \<Rightarrow> (string \<times> string \<times> int) list \<Rightarrow> json" where
  "region_row key entry variant_states =
     (let state = region_state (map (\<lambda>(_, s, _). s) variant_states) in
      jobj [(''region_key'', JStr key), (''logical_source_id'', JStr (ex_logical_source_id entry)),
            (''component_id'', JStr (ex_component_id entry)), (''package'', JStr (ex_package entry)),
            (''language'', JStr (ex_language entry)), (''path'', JStr (ex_path entry)),
            (''start_line'', JInt (ir_start_line (ex_region entry))), (''end_line'', JInt (ir_end_line (ex_region entry))),
            (''discriminator'', JStr (ir_discriminator (ex_region entry))), (''source_hash'', JStr (ex_source_hash entry)),
            (''state'', JStr state), (''variants'', JArr (map (\<lambda>(v, s). variant_json v s) variant_states)),
            (''remediation_bucket'', JStr (remediation_for_state state))])"

record row_state_acc =
  ra_covered_keys :: "string list"
  ra_rows :: "json list"
  ra_remediation :: "(string, int) btree"

definition row_step :: "gather_state \<Rightarrow> string list \<Rightarrow> bool \<Rightarrow> row_state_acc \<Rightarrow> string \<times> expected_region \<Rightarrow> row_state_acc" where
  "row_step st mismatched checkout_dirty acc e = (case e of (key, entry) \<Rightarrow>
     (let states = map (\<lambda>v. (v, state_of_variant st mismatched checkout_dirty key entry v)) (ex_variants entry) in
      \<lparr>ra_covered_keys = (if ''covered'' \<in> set (map (\<lambda>(_, s, _). s) states)
           then bs_insert key (ra_covered_keys acc) else ra_covered_keys acc),
       ra_rows = ra_rows acc @ [region_row key entry states],
       ra_remediation = foldl (\<lambda>m (_, s, _). bt_update (remediation_for_state s)
           (\<lambda>old. i64_add (case old of None \<Rightarrow> 0 | Some n \<Rightarrow> n) 1) m) (ra_remediation acc) states\<rparr>))"

section \<open>Assembly\<close>

definition base_reasons :: "inventory_doc \<Rightarrow> inventory_entry list \<Rightarrow> string option \<Rightarrow> bool \<Rightarrow> string list" where
  "base_reasons doc production checkout_revision checkout_dirty =
     bs_of_list ((if production = [] then [''inventory contains no production entries''] else [])
       @ (if Some (id_source_revision doc) \<noteq> checkout_revision
          then [''inventory source revision does not match the checkout''] else [])
       @ (if checkout_dirty
          then [''checkout is dirty; production composite evidence requires a clean revision''] else []))"

definition production_of :: "inventory_doc \<Rightarrow> inventory_entry list" where
  "production_of doc = filter (\<lambda>entry. ie_role entry = ''production'') (id_entries doc)"

definition gather :: "canon \<Rightarrow> string \<Rightarrow> inventory_doc \<Rightarrow> component_input list \<Rightarrow> string option \<Rightarrow> bool \<Rightarrow> gather_state" where
  "gather canon repo doc inputs checkout_revision checkout_dirty =
     foldl (gather_input canon repo doc (expected_regions (production_of doc)))
       \<lparr>gs_reasons = base_reasons doc (production_of doc) checkout_revision checkout_dirty, gs_observed = [],
        gs_statuses = [], gs_mismatch_keys = [], gs_descriptors = [], gs_evidence = [], gs_artifact_hashes = [],
        gs_toolchains = []\<rparr>
       (filter (\<lambda>input. ad_role (ci_descriptor input) = ''coverage'') inputs)"

definition check_sources :: "(string \<Rightarrow> string res) \<Rightarrow> string \<Rightarrow> inventory_doc \<Rightarrow> component_input list \<Rightarrow> gather_state \<Rightarrow> check_state" where
  "check_sources hash_source repo doc inputs st =
     foldl (entry_step hash_source repo inputs (gs_descriptors st)) (gs_reasons st, []) (production_of doc)"

definition rows_of :: "gather_state \<Rightarrow> string list \<Rightarrow> bool \<Rightarrow> (string, expected_region) btree \<Rightarrow> row_state_acc" where
  "rows_of st mismatched checkout_dirty expected =
     foldl (row_step st mismatched checkout_dirty) \<lparr>ra_covered_keys = [], ra_rows = [], ra_remediation = []\<rparr> expected"

definition build_status :: "string list \<Rightarrow> nat \<Rightarrow> nat \<Rightarrow> string" where
  "build_status reasons tot covered =
     (if reasons = [] \<and> 0 < tot \<and> covered = tot then ''complete'' else ''incomplete'')"

definition assemble :: "canon \<Rightarrow> (string \<Rightarrow> string res) \<Rightarrow> inventory_doc \<Rightarrow> component_input list \<Rightarrow> string
    \<Rightarrow> string option \<Rightarrow> bool \<Rightarrow> composite_build" where
  "assemble canon hash_source doc inputs repo checkout_revision checkout_dirty =
     (let production = production_of doc;
          expected = expected_regions production;
          st = gather canon repo doc inputs checkout_revision checkout_dirty;
          (reasons, mismatched) = check_sources hash_source repo doc inputs st;
          acc = rows_of st mismatched checkout_dirty expected;
          tot = length expected;
          covered = length (ra_covered_keys acc)
      in \<lparr>bd_status = build_status reasons tot covered,
          bd_covered_regions = int covered, bd_total_regions = int tot,
          bd_components = component_summaries expected (ra_covered_keys acc) reasons,
          bd_reasons = reasons,
          bd_remediation = JObj (map (\<lambda>(k, n). (k, JInt n)) (ra_remediation acc)),
          bd_component_evidence = gs_evidence st,
          bd_regions = ra_rows acc,
          bd_inventory = jobj [(''schema'', JStr (id_schema doc)), (''mapping_version'', JStr (id_mapping_version doc)),
              (''source_revision'', JStr (id_source_revision doc)), (''production_entries'', jnat (length production)),
              (''catalogue_entries'', jnat (length (id_entries doc) - length production)),
              (''production_regions'', jnat tot)],
          bd_provenance = jobj [(''mapping_version'', JStr (id_mapping_version doc)),
              (''inventory_source_revision'', JStr (id_source_revision doc)),
              (''checkout_revision'', jopt JStr checkout_revision), (''checkout_dirty'', JBool checkout_dirty),
              (''artifact_hashes'', JObj (gs_artifact_hashes st)), (''toolchain_versions'', JObj (gs_toolchains st))]\<rparr>)"


section \<open>The rows\<close>

definition variant_states :: "gather_state \<Rightarrow> string list \<Rightarrow> bool \<Rightarrow> string \<times> expected_region \<Rightarrow> string list" where
  "variant_states st mismatched dirty e =
     map (\<lambda>v. fst (state_of_variant st mismatched dirty (fst e) (snd e) v)) (ex_variants (snd e))"

definition row_of :: "gather_state \<Rightarrow> string list \<Rightarrow> bool \<Rightarrow> string \<times> expected_region \<Rightarrow> json" where
  "row_of st mismatched dirty e = region_row (fst e) (snd e)
     (map (\<lambda>v. (v, state_of_variant st mismatched dirty (fst e) (snd e) v)) (ex_variants (snd e)))"

lemma row_step_fields:
  "ra_covered_keys (row_step st ms dirty acc e) = (if ''covered'' \<in> set (variant_states st ms dirty e)
      then bs_insert (fst e) (ra_covered_keys acc) else ra_covered_keys acc)"
  "ra_rows (row_step st ms dirty acc e) = ra_rows acc @ [row_of st ms dirty e]"
  by (simp_all add: row_step_def variant_states_def row_of_def Let_def case_prod_beta comp_def image_image)

lemma rows_of_rows: "ra_rows (rows_of st ms dirty expected) = map (row_of st ms dirty) expected"
proof -
  have "ra_rows (foldl (row_step st ms dirty) acc es) = ra_rows acc @ map (row_of st ms dirty) es" for acc es
    by (induction es arbitrary: acc) (simp_all add: row_step_fields)
  then show ?thesis by (simp add: rows_of_def)
qed

lemma rows_of_covered:
  "set (ra_covered_keys (rows_of st ms dirty expected)) = {k. \<exists>e \<in> set expected. k = fst e \<and> ''covered'' \<in> set (variant_states st ms dirty e)}"
  "sorted_wrt (<) (ra_covered_keys (rows_of st ms dirty expected))"
proof -
  have "set (ra_covered_keys (foldl (row_step st ms dirty) acc es)) = set (ra_covered_keys acc)
      \<union> {k. \<exists>e \<in> set es. k = fst e \<and> ''covered'' \<in> set (variant_states st ms dirty e)}" for acc es
    by (induction es arbitrary: acc) (auto simp: row_step_fields)
  then show "set (ra_covered_keys (rows_of st ms dirty expected)) = {k. \<exists>e \<in> set expected. k = fst e \<and> ''covered'' \<in> set (variant_states st ms dirty e)}"
    by (simp add: rows_of_def)
  have "sorted_wrt (<) (ra_covered_keys acc) \<Longrightarrow> sorted_wrt (<) (ra_covered_keys (foldl (row_step st ms dirty) acc es))" for acc es
    by (induction es arbitrary: acc) (simp_all add: row_step_fields)
  then show "sorted_wrt (<) (ra_covered_keys (rows_of st ms dirty expected))" by (simp add: rows_of_def)
qed

text \<open>The covered keys are counted without repetition: one for each expected region some variant covers.\<close>

lemma rows_of_covered_count:
  assumes "bt_inv expected"
  shows "length (ra_covered_keys (rows_of st ms dirty expected))
    = length (filter (\<lambda>e. ''covered'' \<in> set (variant_states st ms dirty e)) expected)"
proof -
  let ?hit = "filter (\<lambda>e. ''covered'' \<in> set (variant_states st ms dirty e)) expected"
  have "distinct (map fst ?hit)" by (rule distinct_map_filter) (rule bt_inv_distinct[OF assms])
  note hit = distinct_card[OF this]
  have "distinct (ra_covered_keys (rows_of st ms dirty expected))"
    using rows_of_covered(2) strict_sorted_iff by blast
  note cov = distinct_card[OF this]
  have "set (ra_covered_keys (rows_of st ms dirty expected)) = set (map fst ?hit)"
    unfolding rows_of_covered(1) by auto
  with hit cov show ?thesis by simp
qed

section \<open>Row states\<close>

definition row_state_of :: "json \<Rightarrow> string" where
  "row_state_of row = (case jidx row ''state'' of JStr s \<Rightarrow> s | _ \<Rightarrow> [])"

lemma row_state_of_row_of: "jidx (row_of st ms dirty e) ''state'' = JStr (region_state (variant_states st ms dirty e))"
  by (simp add: row_of_def region_row_def variant_states_def Let_def comp_def case_prod_beta)

text \<open>A row is called covered when some variant covers the region and every other one measured it.\<close>

definition unmeasured_states :: "string set" where
  "unmeasured_states = {''source_mismatch'', ''missing_artifact'', ''stale_evidence'', ''unmeasured''}"

lemma region_state_covered_iff:
  "region_state states = ''covered'' \<longleftrightarrow> ''covered'' \<in> set states \<and> set states \<inter> unmeasured_states = {}"
  by (auto simp: region_state_def state_order_def unmeasured_states_def)

lemma variant_state_range: "fst (variant_state b d s ob) \<in> set state_order"
  by (auto simp: variant_state_def observed_state_def state_order_def split: option.splits bool.splits)

lemma region_state_range: "region_state states \<in> set state_order"
  by (auto simp: region_state_def state_order_def)


section \<open>Evidence without complaints\<close>

text \<open>Reasons are only ever added.  So when none is left at the end, no step added one, and each
  step's checks have passed.\<close>

lemma gs_reasons_add [simp]: "gs_reasons (add_reason r st) = bs_insert r (gs_reasons st)"
  by (simp add: add_reason_def)

lemma add_reason_frame [simp]:
  "gs_observed (add_reason r st) = gs_observed st" "gs_statuses (add_reason r st) = gs_statuses st"
  "gs_mismatch_keys (add_reason r st) = gs_mismatch_keys st" "gs_descriptors (add_reason r st) = gs_descriptors st"
  by (simp_all add: add_reason_def)

lemma set_status_frame [simp]:
  "gs_reasons (set_status p s st) = gs_reasons st" "gs_statuses (set_status p s st) = bt_insert p s (gs_statuses st)"
  "gs_mismatch_keys (set_status p s st) = gs_mismatch_keys st" "gs_descriptors (set_status p s st) = gs_descriptors st"
  by (simp_all add: set_status_def)

lemma record_provenance_frame [simp]:
  "gs_reasons (record_provenance input st) = gs_reasons st" "gs_statuses (record_provenance input st) = gs_statuses st"
  "gs_mismatch_keys (record_provenance input st) = gs_mismatch_keys st"
  "gs_descriptors (record_provenance input st) = gs_descriptors st"
  by (simp_all add: record_provenance_def)

lemma observe_region_frame [simp]:
  "gs_reasons (observe_region p key r st) = gs_reasons st" "gs_statuses (observe_region p key r st) = gs_statuses st"
  "gs_mismatch_keys (observe_region p key r st) = gs_mismatch_keys st"
  "gs_descriptors (observe_region p key r st) = gs_descriptors st"
  by (simp_all add: observe_region_def)

lemma region_step_quiet:
  assumes "gs_reasons (fst (region_step canon repo expected input aliases acc region)) = []"
  shows "gs_reasons (fst acc) = []"
    and "gs_mismatch_keys (fst (region_step canon repo expected input aliases acc region)) = gs_mismatch_keys (fst acc)"
  using assms by (auto simp: region_step_def Let_def split: prod.splits option.splits if_splits)

lemma region_step_frame [simp]:
  "gs_statuses (fst (region_step canon repo expected input aliases acc region)) = gs_statuses (fst acc)"
  "gs_descriptors (fst (region_step canon repo expected input aliases acc region)) = gs_descriptors (fst acc)"
  by (auto simp: region_step_def Let_def split: prod.splits option.splits)

lemma region_steps_quiet:
  assumes "gs_reasons (fst (foldl (region_step canon repo expected input aliases) acc rs)) = []"
  shows "gs_reasons (fst acc) = []
    \<and> gs_mismatch_keys (fst (foldl (region_step canon repo expected input aliases) acc rs)) = gs_mismatch_keys (fst acc)"
  using assms
proof (induction rs arbitrary: acc)
  case (Cons r rs)
  let ?acc = "region_step canon repo expected input aliases acc r"
  have "gs_reasons (fst ?acc) = []"
    and keys: "gs_mismatch_keys (fst (foldl (region_step canon repo expected input aliases) ?acc rs)) = gs_mismatch_keys (fst ?acc)"
    using Cons.IH[of ?acc] Cons.prems by simp_all
  with region_step_quiet[of canon repo expected input aliases acc r] show ?case by simp
qed simp

lemma region_steps_frame [simp]:
  "gs_statuses (fst (foldl (region_step canon repo expected input aliases) acc rs)) = gs_statuses (fst acc)"
  "gs_descriptors (fst (foldl (region_step canon repo expected input aliases) acc rs)) = gs_descriptors (fst acc)"
  by (induction rs arbitrary: acc) simp_all

definition input_ok :: "inventory_doc \<Rightarrow> (string, expected_region) btree \<Rightarrow> component_input \<Rightarrow> bool" where
  "input_ok doc expected input \<longleftrightarrow> ci_artifact_status input = ''ingested''
     \<and> (\<forall>revision. ci_source_revision input = Some revision \<longrightarrow> revision = id_source_revision doc)
     \<and> format_allowed expected input"

lemma check_input_quiet:
  assumes "gs_reasons (check_input doc expected input st) = []"
  shows "gs_reasons st = []" and "input_ok doc expected input" and "producer_of input \<notin> set (gs_descriptors st)"
    and "gs_statuses (check_input doc expected input st) = bt_insert (producer_of input) ''ingested'' (gs_statuses st)"
    and "gs_mismatch_keys (check_input doc expected input st) = gs_mismatch_keys st"
    and "gs_descriptors (check_input doc expected input st) = bs_insert (producer_of input) (gs_descriptors st)"
  using assms
  by (auto simp: check_input_def Let_def input_ok_def add_reason_if_def split: if_splits option.splits)

lemma gather_input_quiet:
  assumes "gs_reasons (gather_input canon repo doc expected st input) = []"
  shows "gs_reasons st = []" and "input_ok doc expected input" and "producer_of input \<notin> set (gs_descriptors st)"
    and "gs_statuses (gather_input canon repo doc expected st input) = bt_insert (producer_of input) ''ingested'' (gs_statuses st)"
    and "gs_mismatch_keys (gather_input canon repo doc expected st input) = gs_mismatch_keys st"
    and "gs_descriptors (gather_input canon repo doc expected st input) = bs_insert (producer_of input) (gs_descriptors st)"
proof -
  let ?c = "check_input doc expected input st"
  let ?f = "foldl (region_step canon repo expected input (alias_map canon repo (ci_descriptor input))) (?c, 0) (ci_regions input)"
  have eq: "gs_reasons (gather_input canon repo doc expected st input) = (if format_allowed expected input then gs_reasons (fst ?f) else gs_reasons ?c)"
    "gs_statuses (gather_input canon repo doc expected st input) = gs_statuses ?c"
    "gs_mismatch_keys (gather_input canon repo doc expected st input) = (if format_allowed expected input then gs_mismatch_keys (fst ?f) else gs_mismatch_keys ?c)"
    "gs_descriptors (gather_input canon repo doc expected st input) = gs_descriptors ?c"
    by (simp_all add: gather_input_def Let_def case_prod_beta)
  have c: "gs_reasons ?c = []" and m: "gs_mismatch_keys (gather_input canon repo doc expected st input) = gs_mismatch_keys ?c"
    using assms region_steps_quiet[of canon repo expected input _ "(?c, 0)"] unfolding eq
    by (auto split: if_splits)
  note q = check_input_quiet[OF c]
  show "gs_reasons st = []" "input_ok doc expected input" "producer_of input \<notin> set (gs_descriptors st)"
    using q(1-3) by simp_all
  show "gs_statuses (gather_input canon repo doc expected st input) = bt_insert (producer_of input) ''ingested'' (gs_statuses st)"
    by (simp add: eq q(4))
  show "gs_mismatch_keys (gather_input canon repo doc expected st input) = gs_mismatch_keys st" by (simp add: m q(5))
  show "gs_descriptors (gather_input canon repo doc expected st input) = bs_insert (producer_of input) (gs_descriptors st)"
    by (simp add: eq q(6))
qed

lemma gather_inputs_quiet:
  assumes "gs_reasons (foldl (gather_input canon repo doc expected) st inputs) = []"
  shows "gs_reasons st = [] \<and> (\<forall>input \<in> set inputs. input_ok doc expected input)
    \<and> set (gs_descriptors (foldl (gather_input canon repo doc expected) st inputs))
        = set (gs_descriptors st) \<union> producer_of ` set inputs
    \<and> gs_mismatch_keys (foldl (gather_input canon repo doc expected) st inputs) = gs_mismatch_keys st
    \<and> (\<forall>p. bt_get (gs_statuses (foldl (gather_input canon repo doc expected) st inputs)) p
        = (if p \<in> producer_of ` set inputs then Some ''ingested'' else bt_get (gs_statuses st) p))"
  using assms
proof (induction inputs arbitrary: st)
  case (Cons input inputs)
  let ?st = "gather_input canon repo doc expected st input"
  have quiet: "gs_reasons (foldl (gather_input canon repo doc expected) ?st inputs) = []"
    using Cons.prems by simp
  note IH = Cons.IH[OF quiet]
  note q = gather_input_quiet[OF conjunct1[OF IH]]
  show ?case using IH by (simp add: q)
qed simp


lemma foldl_bs_insert_Nil: "foldl (\<lambda>s r. bs_insert r s) s rs = [] \<longleftrightarrow> s = [] \<and> rs = []"
  using set_foldl_bs_insert[of s rs] by (metis Un_empty set_empty foldl_Nil)

lemma check_entries_quiet:
  "fst (foldl (entry_step hash_source repo inputs ds) acc es) = [] \<Longrightarrow>
   fst acc = [] \<and> snd (foldl (entry_step hash_source repo inputs ds) acc es) = snd acc
   \<and> (\<forall>entry \<in> set es. entry_reasons inputs ds entry (hash_source (path_join repo (ie_path entry))) = [])"
proof (induction es arbitrary: acc)
  case (Cons entry es)
  let ?acc = "entry_step hash_source repo inputs ds acc entry"
  have IH: "fst ?acc = []" "snd (foldl (entry_step hash_source repo inputs ds) ?acc es) = snd ?acc"
      "\<forall>entry \<in> set es. entry_reasons inputs ds entry (hash_source (path_join repo (ie_path entry))) = []"
    using Cons.IH[of ?acc] Cons.prems by simp_all
  have q: "fst acc = []" "entry_reasons inputs ds entry (hash_source (path_join repo (ie_path entry))) = []"
    using IH(1) by (auto simp: entry_step_def Let_def foldl_bs_insert_Nil split: prod.splits)
  then have "hash_source (path_join repo (ie_path entry)) = Inr (ie_source_hash entry)"
    by (auto simp: entry_reasons_def split: sum.splits if_splits)
  then have "snd ?acc = snd acc" by (simp add: entry_step_def Let_def split: prod.splits)
  with IH q show ?case by simp
qed simp

section \<open>Complete composites\<close>

definition source_ok :: "(string \<Rightarrow> string res) \<Rightarrow> string \<Rightarrow> component_input list \<Rightarrow> inventory_entry \<Rightarrow> bool" where
  "source_ok hash_source repo inputs entry \<longleftrightarrow>
     hash_source (path_join repo (ie_path entry)) = Inr (ie_source_hash entry)
     \<and> supported_language (ie_language entry)
     \<and> (\<forall>v \<in> set (entry_variants entry). \<exists>input \<in> set inputs. ad_role (ci_descriptor input) = ''coverage''
          \<and> producer_of input = (ie_component_id entry, v))"

lemma assemble_quiet:
  assumes "bd_reasons (assemble canon hash_source doc inputs repo head dirty) = []"
  shows "\<not> dirty" and "head = Some (id_source_revision doc)"
    and "\<And>input. input \<in> set inputs \<Longrightarrow> ad_role (ci_descriptor input) = ''coverage''
       \<Longrightarrow> input_ok doc (expected_regions (production_of doc)) input"
    and "\<And>entry. entry \<in> set (production_of doc) \<Longrightarrow> source_ok hash_source repo inputs entry"
    and "gs_mismatch_keys (gather canon repo doc inputs head dirty) = []"
    and "snd (check_sources hash_source repo doc inputs (gather canon repo doc inputs head dirty)) = []"
    and "\<And>p s. bt_get (gs_statuses (gather canon repo doc inputs head dirty)) p = Some s \<Longrightarrow> s = ''ingested''"
proof -
  let ?st = "gather canon repo doc inputs head dirty"
  have "fst (check_sources hash_source repo doc inputs ?st) = []"
    using assms by (simp add: assemble_def Let_def case_prod_beta)
  note c = check_entries_quiet[OF this[unfolded check_sources_def]]
  have q: "gs_reasons ?st = []" using c by simp
  note g = gather_inputs_quiet[OF q[unfolded gather_def], folded gather_def]
  have base: "base_reasons doc (production_of doc) head dirty = []" using conjunct1[OF g] by simp
  note g2 = conjunct1[OF conjunct2[OF g]] and g3 = conjunct1[OF conjunct2[OF conjunct2[OF g]]]
    and g4 = conjunct1[OF conjunct2[OF conjunct2[OF conjunct2[OF g]]]]
    and g5 = conjunct2[OF conjunct2[OF conjunct2[OF conjunct2[OF g]]]]
  have "set (base_reasons doc (production_of doc) head dirty) = {}" using base by simp
  then show "\<not> dirty" "head = Some (id_source_revision doc)"
    by (auto simp: base_reasons_def split: if_splits)
  show "input_ok doc (expected_regions (production_of doc)) input"
    if "input \<in> set inputs" "ad_role (ci_descriptor input) = ''coverage''" for input
    using g2 that by simp
  show "gs_mismatch_keys ?st = []" using g4 by simp
  show "snd (check_sources hash_source repo doc inputs ?st) = []"
    using conjunct1[OF conjunct2[OF c]] unfolding check_sources_def by simp
  show "s = ''ingested''" if "bt_get (gs_statuses ?st) p = Some s" for p s
    using spec[OF g5, of p] that by (simp split: if_splits)
  have ds: "set (gs_descriptors ?st) = producer_of ` {i \<in> set inputs. ad_role (ci_descriptor i) = ''coverage''}"
    using g3 by simp
  show "source_ok hash_source repo inputs entry" if "entry \<in> set (production_of doc)" for entry
  proof -
    have er: "entry_reasons inputs (gs_descriptors ?st) entry (hash_source (path_join repo (ie_path entry))) = []"
      using c that by blast
    then have "\<forall>v \<in> set (entry_variants entry). (ie_component_id entry, v) \<in> set (gs_descriptors ?st)"
      by (auto simp: entry_reasons_def filter_empty_conv)
    with ds have "\<forall>v \<in> set (entry_variants entry). \<exists>input \<in> set inputs. ad_role (ci_descriptor input) = ''coverage''
          \<and> producer_of input = (ie_component_id entry, v)" by fastforce
    with er show ?thesis by (auto simp: source_ok_def entry_reasons_def split: sum.splits if_splits)
  qed
qed

lemma assemble_fields:
  "bd_total_regions (assemble canon hs doc inputs repo head dirty) = int (length (expected_regions (production_of doc)))"
  "bd_covered_regions (assemble canon hs doc inputs repo head dirty)
     = int (length (ra_covered_keys (rows_of (gather canon repo doc inputs head dirty)
          (snd (check_sources hs repo doc inputs (gather canon repo doc inputs head dirty))) dirty (expected_regions (production_of doc)))))"
  "bd_regions (assemble canon hs doc inputs repo head dirty)
     = map (row_of (gather canon repo doc inputs head dirty)
          (snd (check_sources hs repo doc inputs (gather canon repo doc inputs head dirty))) dirty) (expected_regions (production_of doc))"
  "bd_status (assemble canon hs doc inputs repo head dirty) = ''complete'' \<longleftrightarrow>
     bd_reasons (assemble canon hs doc inputs repo head dirty) = []
     \<and> 0 < bd_total_regions (assemble canon hs doc inputs repo head dirty)
     \<and> bd_covered_regions (assemble canon hs doc inputs repo head dirty) = bd_total_regions (assemble canon hs doc inputs repo head dirty)"
  by (simp_all add: assemble_def Let_def case_prod_beta rows_of_rows build_status_def)

lemma bt_inv_expected [simp]: "bt_inv (expected_regions es)"
  by (simp add: expected_regions_def)

text \<open>The row states agree with the covered count only through the regions where no variant is
  left unmeasured.\<close>

definition covered_row_count :: "json list \<Rightarrow> int" where
  "covered_row_count rows = int (length (filter (\<lambda>row. jidx row ''state'' = JStr ''covered'') rows))"

lemma covered_row_count_le:
  "covered_row_count (bd_regions (assemble canon hs doc inputs repo head dirty))
    \<le> bd_covered_regions (assemble canon hs doc inputs repo head dirty)"
proof -
  have "length (filter (\<lambda>e. region_state (f e) = ''covered'') es) \<le> length (filter (\<lambda>e. ''covered'' \<in> set (f e)) es)"
    for f :: "string \<times> expected_region \<Rightarrow> string list" and es
    by (induction es) (auto simp: region_state_covered_iff)
  then show ?thesis
    by (simp add: covered_row_count_def assemble_fields rows_of_covered_count filter_map comp_def row_state_of_row_of)
qed


section \<open>The denominator counts the inventory's regions\<close>

lemma keys_of_list: "set (bt_keys (bt_of_list kvs)) = fst ` set kvs"
proof -
  have "k \<in> set (bt_keys (bt_of_list kvs)) \<longleftrightarrow> k \<in> fst ` set kvs" for k
    using bt_get_mem_keys[of "bt_of_list kvs" k] by (auto simp: bt_get_of_list map_of_eq_None_iff)
  then show ?thesis by blast
qed

lemma length_bt_inv: "bt_inv m \<Longrightarrow> length m = card (set (bt_keys m))"
  using distinct_card[of "bt_keys m"] bt_inv_distinct[of m] by (simp add: bt_keys_def)

definition denominator_keys :: "inventory_entry list \<Rightarrow> string list" where
  "denominator_keys es = concat (map (\<lambda>e. map (\<lambda>r. inventory_region_key r (ie_logical_source_id e)) (ie_regions e)) es)"

lemma expected_keys: "fst ` set (concat (map expected_entries es)) = set (denominator_keys es)"
  by (force simp: denominator_keys_def expected_entries_def)

lemma length_expected: "length (expected_regions es) = card (set (denominator_keys es))"
  using length_bt_inv[of "expected_regions es"]
  by (simp only: expected_regions_def bt_inv_of_list keys_of_list expected_keys)

lemma distinct_denominator:
  assumes "distinct (map ie_logical_source_id es)" and "\<And>e. e \<in> set es \<Longrightarrow> distinct (ie_regions e)"
    and "\<And>e. e \<in> set es \<Longrightarrow> CHR '':'' \<notin> set (ie_logical_source_id e)"
  shows "distinct (denominator_keys es)"
  using assms
proof (induction es)
  case (Cons e es)
  have inj: "inventory_region_key r (ie_logical_source_id a) = inventory_region_key q (ie_logical_source_id b)
      \<Longrightarrow> ie_logical_source_id a = ie_logical_source_id b \<and> r = q"
    if "a \<in> set (e # es)" "b \<in> set (e # es)" for a b r q
    using region_key_inj[OF _ Cons.prems(3)[OF that(1)] Cons.prems(3)[OF that(2)]]
    unfolding inventory_region_key_def by (metis inventory_region.equality unit.exhaust)
  have "distinct (map (\<lambda>r. inventory_region_key r (ie_logical_source_id e)) (ie_regions e))"
    using Cons.prems(2)[of e] inj[of e e] by (auto simp: distinct_map inj_on_def)
  moreover have "inventory_region_key r (ie_logical_source_id e) \<notin> set (denominator_keys es)" for r
  proof
    assume "inventory_region_key r (ie_logical_source_id e) \<in> set (denominator_keys es)"
    then obtain b q where b: "b \<in> set es" "inventory_region_key r (ie_logical_source_id e) = inventory_region_key q (ie_logical_source_id b)"
      by (auto simp: denominator_keys_def)
    have "ie_logical_source_id e = ie_logical_source_id b" using inj[OF _ _ b(2)] b(1) by simp
    then show False using Cons.prems(1) b(1) by auto
  qed
  moreover have "distinct (denominator_keys es)" using Cons by simp
  ultimately show ?case by (auto simp: denominator_keys_def)
qed (simp add: denominator_keys_def)

lemma length_denominator: "length (denominator_keys es) = sum_list (map (\<lambda>e. length (ie_regions e)) es)"
  by (simp add: denominator_keys_def length_concat comp_def)

lemma expected_count:
  assumes "inventory_wf doc" and "\<And>e. e \<in> set (production_of doc) \<Longrightarrow> CHR '':'' \<notin> set (ie_logical_source_id e)"
  shows "length (expected_regions (production_of doc)) = sum_list (map (\<lambda>e. length (ie_regions e)) (production_of doc))"
proof -
  have "distinct (denominator_keys (production_of doc))"
    using assms by (intro distinct_denominator)
      (auto simp: production_of_def inventory_wf_def list_all_iff entry_ok_def intro: distinct_map_filter)
  then show ?thesis using length_denominator distinct_card by (metis length_expected)
qed

section \<open>Accounting\<close>

definition variant_count :: "(string, expected_region) btree \<Rightarrow> int" where
  "variant_count expected = sum_list (map (\<lambda>e. int (length (ex_variants (snd e)))) expected)"

definition bump :: "(string, int) btree \<Rightarrow> string \<Rightarrow> (string, int) btree" where
  "bump m s = bt_update (remediation_for_state s) (\<lambda>old. i64_add (case old of None \<Rightarrow> 0 | Some n \<Rightarrow> n) 1) m"

text \<open>\<open>tally n m\<close>: the buckets of \<open>m\<close> are counts that add up to \<open>n\<close>.\<close>

definition tally :: "int \<Rightarrow> (string, int) btree \<Rightarrow> bool" where
  "tally n m \<longleftrightarrow> bt_inv m \<and> sum_list (bt_values m) = n \<and> (\<forall>v \<in> set (bt_values m). 0 \<le> v)"

lemma member_le_sum: "\<forall>v \<in> set vs. (0::int) \<le> v \<Longrightarrow> v \<in> set vs \<Longrightarrow> v \<le> sum_list vs"
proof (induction vs)
  case (Cons w vs)
  then have "0 \<le> sum_list vs" by (intro sum_list_nonneg) simp
  with Cons show ?case by auto
qed simp

lemma tally_bump:
  assumes "tally n m" and "n < 2 ^ 63 - 1"
  shows "tally (n + 1) (bump m s)"
proof -
  let ?k = "remediation_for_state s"
  let ?old = "case bt_get m ?k of None \<Rightarrow> 0 | Some n \<Rightarrow> n"
  have inv: "bt_inv m" and sum: "sum_list (bt_values m) = n" and nn: "\<forall>v \<in> set (bt_values m). 0 \<le> v"
    using assms(1) by (simp_all add: tally_def)
  have mem: "bt_get m ?k = Some v \<Longrightarrow> v \<in> set (bt_values m)" for v
    using bt_get_in[of m ?k v] by (force simp: bt_values_def)
  have "0 \<le> ?old" "?old \<le> n"
    using mem nn member_le_sum[OF nn] sum by (auto split: option.split intro: sum_list_nonneg)
  then have new: "i64_add ?old 1 = ?old + 1" using assms(2) by (intro i64_add_exact) (simp add: in_i64_def)
  have b: "bump m s = bt_insert ?k (?old + 1) m" by (simp add: bump_def bt_update_def new)
  have "sum_list (bt_values (bump m s)) = n + 1"
    using bt_sum_insert[OF inv, of "\<lambda>x. x" ?k "?old + 1"] sum by (simp add: b split: option.splits)
  moreover have "\<forall>v \<in> set (bt_values (bump m s)). 0 \<le> v"
    using nn \<open>0 \<le> ?old\<close> set_bt_insert[of ?k "?old + 1" m] unfolding b by (fastforce simp: bt_values_def)
  ultimately show ?thesis using inv by (simp add: tally_def b)
qed

lemma tally_bumps:
  "tally n m \<Longrightarrow> n + int (length ss) < 2 ^ 63 \<Longrightarrow> tally (n + int (length ss)) (foldl bump m ss)"
proof (induction ss arbitrary: n m)
  case (Cons s ss)
  have "tally (n + 1) (bump m s)" using Cons.prems by (intro tally_bump) auto
  from Cons.IH[OF this] Cons.prems show ?case by (simp add: algebra_simps)
qed simp

lemma row_step_remediation:
  "ra_remediation (row_step st ms dirty acc e) = foldl bump (ra_remediation acc) (variant_states st ms dirty e)"
proof -
  have "foldl (\<lambda>m x. bump m (g x)) m xs = foldl bump m (map g xs)" for m g and xs :: "(string \<times> string \<times> int) list"
    by (induction xs arbitrary: m) simp_all
  from this[of "\<lambda>(_, s, _). s"] show ?thesis
    by (simp add: row_step_def variant_states_def Let_def bump_def comp_def split_def)
qed

lemma rows_of_tally:
  assumes "variant_count expected < 2 ^ 63"
  shows "tally (variant_count expected) (ra_remediation (rows_of st ms dirty expected))"
proof -
  have nn: "0 \<le> variant_count es" for es by (auto simp: variant_count_def intro!: sum_list_nonneg)
  have "tally n (ra_remediation acc) \<Longrightarrow> n + variant_count es < 2 ^ 63 \<Longrightarrow>
      tally (n + variant_count es) (ra_remediation (foldl (row_step st ms dirty) acc es))" for n acc es
  proof (induction es arbitrary: n acc)
    case (Cons e es)
    have len: "length (variant_states st ms dirty e) = length (ex_variants (snd e))" by (simp add: variant_states_def)
    have vc: "variant_count (e # es) = int (length (ex_variants (snd e))) + variant_count es" by (simp add: variant_count_def)
    have "tally (n + int (length (ex_variants (snd e)))) (ra_remediation (row_step st ms dirty acc e))"
      using tally_bumps[OF Cons.prems(1), of "variant_states st ms dirty e"] Cons.prems(2) nn[of es]
      by (simp add: row_step_remediation len vc)
    from Cons.IH[OF this] Cons.prems(2) show ?case by (simp add: vc add.assoc)
  qed (simp add: variant_count_def)
  from this[of 0 "\<lparr>ra_covered_keys = [], ra_rows = [], ra_remediation = []\<rparr>" expected] assms show ?thesis
    by (simp add: rows_of_def tally_def bt_values_def)
qed


section \<open>Properties\<close>


definition region1 :: inventory_region where
  "region1 = \<lparr>ir_start_line = 1, ir_end_line = 2, ir_discriminator = ''d''\<rparr>"

definition two_variants :: inventory_doc where
  "two_variants = \<lparr>id_schema = inventory_schema, id_mapping_version = mapping_version, id_source_revision = ''r1'',
     id_entries = [\<lparr>ie_logical_source_id = ''lib'', ie_path = ''lib.rs'', ie_package = ''p'', ie_component_id = ''p'',
       ie_language = ''rust'', ie_role = ''production'', ie_source_hash = replicate 64 (CHR ''a''), ie_variants = [''cpu'', ''gpu''],
       ie_expected_formats = [''llvm''], ie_regions = [region1]\<rparr>]\<rparr>"

definition evidence :: "string \<Rightarrow> canonical_region list \<Rightarrow> component_input" where
  "evidence variant rs = \<lparr>ci_descriptor = \<lparr>ad_component_id = ''p'', ad_package_variant = variant, ad_language = ''rust'',
       ad_format = ''llvm'', ad_inventory_artifact = ''inv.json'',
       ad_logical_source_aliases = [\<lparr>la_path = ''lib.rs'', la_logical_source_id = ''lib''\<rparr>], ad_role = ''coverage'',
       ad_toolchain_versions = JObj []\<rparr>, ci_artifact_path = ''a'', ci_artifact_hash = None, ci_snapshot_id = None,
     ci_source_revision = None, ci_artifact_status = ''ingested'', ci_reused_from_snapshot_id = None, ci_regions = rs\<rparr>"

definition covered1 :: canonical_region where
  "covered1 = \<lparr>cn_path = ''lib.rs'', cn_logical_source_id = None, cn_start_line = 1, cn_end_line = 2, cn_discriminator = ''d'',
     cn_hits = 3, cn_covered = True, cn_source_hash = None\<rparr>"

definition assembled :: "canonical_region list \<Rightarrow> composite_build" where
  "assembled gpu = assemble (\<lambda>_. None) (\<lambda>_. Inr (replicate 64 (CHR ''a''))) two_variants
     [evidence ''cpu'' [covered1], evidence ''gpu'' gpu] ''/r'' (Some ''r1'') False"


text \<open>The denominator is the inventory's: for a well-formed inventory whose source identifiers have no
  colon, the region total of the assembled composite is the number of regions its production entries
  list, whatever evidence there is.\<close>

theorem denominator_counts_inventory:
  assumes "inventory_wf doc" and "\<forall>e \<in> set (production_of doc). CHR '':'' \<notin> set (ie_logical_source_id e)"
  shows "bd_total_regions (assemble canon hash_source doc inputs repo head dirty)
    = int (sum_list (map (\<lambda>e. length (ie_regions e)) (production_of doc)))"
  using expected_count[OF assms(1)] assms(2) by (simp add: assemble_fields)

theorem denominator_counts_inventory_witness: "bd_total_regions (assembled []) = 1"
proof -
  have wf: "inventory_wf two_variants"
    by (simp add: inventory_wf_def two_variants_def entry_ok_def region_ok_def region1_def mapping_version_def)
      (simp add: is_absolute_def starts_with_def components_def raw_component_def)
  have colon: "\<forall>e \<in> set (production_of two_variants). CHR '':'' \<notin> set (ie_logical_source_id e)"
    by (simp add: production_of_def two_variants_def)
  have "sum_list (map (\<lambda>e. length (ie_regions e)) (production_of two_variants)) = 1"
    by (simp add: production_of_def two_variants_def)
  with denominator_counts_inventory[OF wf colon] show ?thesis by (simp add: assembled_def)
qed

lemma row_of_key: "jidx (row_of st ms dirty e) ''region_key'' = JStr (fst e)"
  by (simp add: row_of_def region_row_def Let_def)

text \<open>The composite lists every expected region exactly once, in the order of its keys, with one of the
  six states, and its covered count never exceeds the total.\<close>

theorem one_row_per_region:
  "map (\<lambda>row. jidx row ''region_key'') (bd_regions (assemble canon hash_source doc inputs repo head dirty))
     = map JStr (bt_keys (expected_regions (production_of doc)))
   \<and> list_all (\<lambda>row. \<exists>s \<in> set state_order. jidx row ''state'' = JStr s)
       (bd_regions (assemble canon hash_source doc inputs repo head dirty))
   \<and> bd_covered_regions (assemble canon hash_source doc inputs repo head dirty)
       \<le> bd_total_regions (assemble canon hash_source doc inputs repo head dirty)"
proof -
  have "list_all (\<lambda>row. \<exists>s \<in> set state_order. jidx row ''state'' = JStr s)
       (bd_regions (assemble canon hash_source doc inputs repo head dirty))"
    by (auto simp: assemble_fields list_all_iff row_state_of_row_of region_state_range)
  moreover have "bd_covered_regions (assemble canon hash_source doc inputs repo head dirty)
       \<le> bd_total_regions (assemble canon hash_source doc inputs repo head dirty)"
    by (simp add: assemble_fields rows_of_covered_count)
  ultimately show ?thesis by (simp add: assemble_fields comp_def row_of_key bt_keys_def)
qed

theorem one_row_per_region_witness:
  "map (\<lambda>row. jidx row ''region_key'') (bd_regions (assembled [])) = [JStr ''lib:1:2:d'']"
proof -
  have "bt_keys (expected_regions (production_of two_variants)) = [''lib:1:2:d'']" by code_simp
  with one_row_per_region[of "\<lambda>_. None" "\<lambda>_. Inr (replicate 64 (CHR ''a''))" two_variants] show ?thesis by (simp add: assembled_def)
qed

text \<open>The remediation buckets account for every required variant of every region once: their counts add
  up to the number of (region, variant) pairs.\<close>

theorem remediation_accounts_for_variants:
  assumes "variant_count (expected_regions (production_of doc)) < 2 ^ 63"
  shows "\<exists>buckets. bd_remediation (assemble canon hash_source doc inputs repo head dirty)
       = JObj (map (\<lambda>(k, n). (k, JInt n)) buckets)
     \<and> tally (variant_count (expected_regions (production_of doc))) buckets"
proof -
  let ?st = "gather canon repo doc inputs head dirty"
  let ?acc = "rows_of ?st (snd (check_sources hash_source repo doc inputs ?st)) dirty (expected_regions (production_of doc))"
  have "bd_remediation (assemble canon hash_source doc inputs repo head dirty) = JObj (map (\<lambda>(k, n). (k, JInt n)) (ra_remediation ?acc))"
    by (simp add: assemble_def Let_def case_prod_beta)
  with rows_of_tally[OF assms] show ?thesis by blast
qed

theorem remediation_accounts_for_variants_witness:
  "\<exists>buckets. bd_remediation (assembled []) = JObj (map (\<lambda>(k, n). (k, JInt n)) buckets) \<and> tally 2 buckets"
proof -
  have vc: "variant_count (expected_regions (production_of two_variants)) = 2" by code_simp
  then have "variant_count (expected_regions (production_of two_variants)) < 2 ^ 63" by simp
  from remediation_accounts_for_variants[OF this] show ?thesis unfolding vc assembled_def by blast
qed

text \<open>Complete does not mean measured everywhere: a required variant whose evidence was ingested but
  lacks the region leaves no reason behind, so the composite is complete although the row's own state
  is \<open>unmeasured\<close>.\<close>

theorem complete_with_unmeasured_variant:
  "bd_status (assembled []) = ''complete'' \<and> bd_reasons (assembled []) = []
   \<and> map (\<lambda>row. jidx row ''state'') (bd_regions (assembled [])) = [JStr ''unmeasured'']"
proof (intro conjI)
  show "bd_status (assembled []) = ''complete''" by code_simp
  show "bd_reasons (assembled []) = []" by code_simp
  show "map (\<lambda>row. jidx row ''state'') (bd_regions (assembled [])) = [JStr ''unmeasured'']" by code_simp
qed

end
