(* ===== verification/Lcov_Spec.thy ===== *)
theory Lcov_Spec
  imports Parser
begin

text \<open>
  A specification of the LCOV reader: the tracefile that a producer writes for a list of line
  records is read back as exactly the report of these records.  Together with the builder's
  merge law this gives the meaning of a tracefile with repeated records.
\<close>

section \<open>Tracefiles\<close>

type_synonym lcov_section = "string \<times> (int \<times> int) list"

definition da_line :: "int \<times> int \<Rightarrow> string" where
  "da_line r = ''DA:'' @ show_int (fst r) @ '','' @ show_int (snd r)"

definition section_lines :: "lcov_section \<Rightarrow> string list" where
  "section_lines s = (''SF:'' @ fst s) # map da_line (snd s) @ [''end_of_record'']"

definition lcov_text :: "lcov_section list \<Rightarrow> string" where
  "lcov_text ss = unlines (concat (map section_lines ss))"

definition section_records :: "lcov_section \<Rightarrow> (string \<times> int \<times> int) list" where
  "section_records s = map (\<lambda>(n, h). (fst s, n, h)) (snd s)"

text \<open>Sections a producer may write: visible ASCII paths, and numbers a double represents.\<close>

definition visible :: "char \<Rightarrow> bool" where
  "visible c \<longleftrightarrow> byte_in 33 126 c"

definition section_ok :: "lcov_section \<Rightarrow> bool" where
  "section_ok s \<longleftrightarrow> list_all visible (fst s)
     \<and> list_all (\<lambda>(n, h). \<bar>n\<bar> < 2 ^ 53 \<and> \<bar>h\<bar> < 2 ^ 53) (snd s)"

section \<open>Texts and lines\<close>

lemma visible_not_space: "visible c \<Longrightarrow> \<not> is_ws c"
  by (auto simp: visible_def is_ws_def byte_in_def)

lemma visible_not_wide: "visible a \<Longrightarrow> \<not> is_ws2 a b" "visible a \<Longrightarrow> \<not> is_ws3 a b c"
  by (auto simp: is_ws2_def is_ws3_def visible_def byte_in_def)

lemma visible_not_control: "visible c \<Longrightarrow> c \<noteq> CHR 0x0A \<and> c \<noteq> CHR 0x0D"
  by (auto simp: visible_def byte_in_def)

lemma visible_one_line: "list_all visible l \<Longrightarrow> one_line l"
  using visible_not_control by (auto simp: one_line_def list_all_iff)

lemma trim_visible: assumes "list_all visible l" shows "trim l = l"
proof -
  have no: "list_all visible s \<Longrightarrow> ws_prefix s = 0 \<and> ws_suffix_rev s = 0" for s
    by (cases s rule: ws_prefix.cases) (simp_all add: visible_not_space visible_not_wide)
  have "ws_prefix l = 0" "ws_suffix_rev (rev l) = 0"
    using no[OF assms] no[of "rev l"] assms by (simp_all add: list_all_iff)
  then show ?thesis by (simp add: trim_def trim_end_def trim_start_id trim_end_rev_id)
qed

lemma utf8_ascii: "list_all (byte_in 0 127) s \<Longrightarrow> utf8_valid s"
  by (induction s rule: utf8_valid.induct) (auto simp: byte_in_def)

lemma visible_show_int: "list_all visible (show_int n)"
  using set_show_int[of _ n] by (fastforce simp: list_all_iff visible_def byte_in_def is_digit_def)

lemma visible_section:
  "section_ok s \<Longrightarrow> list_all (list_all visible) (section_lines s)"
proof -
  assume ok: "section_ok s"
  have lit: "list_all visible ''SF:''" "list_all visible ''DA:''" "list_all visible '',''" "list_all visible ''end_of_record''"
    by (simp_all add: visible_def byte_in_def)
  have "list_all visible (da_line r)" for r
    unfolding da_line_def list_all_append using lit visible_show_int by blast
  moreover have "list_all visible (''SF:'' @ fst s)" using ok lit by (simp only: list_all_append section_ok_def)
  ultimately show ?thesis using lit(4) by (simp add: section_lines_def list_all_iff)
qed

lemma utf8_unlines:
  assumes "list_all (list_all visible) ls" shows "utf8_valid (unlines ls)"
  using assms by (intro utf8_ascii) (fastforce simp: unlines_def list_all_iff visible_def byte_in_def)

section \<open>Reading a section\<close>

lemma lcov_step_da:
  assumes "\<bar>n\<bar> < 2 ^ 53" "\<bar>h\<bar> < 2 ^ 53" and cur: "ls_current_file s = Some f" and test: "ls_current_test s = None"
  shows "lcov_step canon s (da_line (n, h)) = Inr (s\<lparr>ls_builder :=
    add_line canon f n h None True (0, 0, 0, 0) (JObj []) (ls_builder s)\<rparr>)"
proof -
  have vis: "list_all visible (da_line (n, h))"
    unfolding da_line_def list_all_append using visible_show_int by (simp add: visible_def byte_in_def)
  have "split_on (CHR '','') (show_int n @ CHR '','' # show_int h) = [show_int n, show_int h]"
    by (simp add: split_on_append_sep split_on_none)
  moreover have "show_int n \<noteq> []" "show_int h \<noteq> []" by (simp_all add: show_int_def)
  ultimately have "lcov_da canon f (show_int n @ CHR '','' # show_int h) s = Inr (s\<lparr>ls_builder :=
      add_line canon f n h None True (0, 0, 0, 0) (JObj []) (ls_builder s)\<rparr>)"
    using test by (simp add: lcov_da_def nonempty_def nth_opt_def safe_i64_show_int[OF assms(1)]
        safe_i64_show_int[OF assms(2)] empty_details_def add_observation_opt_def Let_def)
  then show ?thesis
    using cur trim_visible[OF vis] by (simp add: lcov_step_def da_line_def lcov_record_def)
qed

lemma lcov_das:
  assumes "list_all (\<lambda>(n, h). \<bar>n\<bar> < 2 ^ 53 \<and> \<bar>h\<bar> < 2 ^ 53) rs" "ls_current_file s = Some f" "ls_current_test s = None"
  shows "foldM (lcov_step canon) s (map da_line rs)
    = Inr (s\<lparr>ls_builder := add_hits canon (ls_builder s) (map (\<lambda>(n, h). (f, n, h)) rs)\<rparr>)"
  using assms
proof (induction rs arbitrary: s)
  case (Cons r rs)
  obtain n h where r: "r = (n, h)" by (cases r)
  have step: "lcov_step canon s (da_line (n, h)) = Inr (s\<lparr>ls_builder :=
      add_line canon f n h None True (0, 0, 0, 0) (JObj []) (ls_builder s)\<rparr>)"
    using Cons.prems r by (intro lcov_step_da) auto
  then show ?case using Cons.IH[of "s\<lparr>ls_builder := add_line canon f n h None True (0, 0, 0, 0) (JObj []) (ls_builder s)\<rparr>"]
      Cons.prems r by (simp add: add_hits_def)
qed (simp add: add_hits_def)

lemma bindr_Inr: "bindr m Inr = m"
  by (cases m) auto

lemma lcov_section_step:
  assumes ok: "section_ok s" and "ls_current_test st = None"
  shows "foldM (lcov_step canon) st (section_lines s) = Inr
    \<lparr>ls_builder = add_hits canon (ls_builder st) (section_records s), ls_current_test = None,
     ls_current_file = None, ls_function_lines = []\<rparr>"
proof -
  have vis: "list_all visible (''SF:'' @ fst s)" "list_all visible ''end_of_record''"
    using visible_section[OF ok] by (simp_all add: section_lines_def)
  have sf: "lcov_step canon st (''SF:'' @ fst s) = Inr (st\<lparr>ls_current_file := Some (fst s), ls_function_lines := []\<rparr>)"
    using trim_visible[OF vis(1)] by (simp add: lcov_step_def)
  have fin: "lcov_step canon u ''end_of_record'' = Inr (u\<lparr>ls_current_test := None, ls_current_file := None, ls_function_lines := []\<rparr>)" for u
    using trim_visible[OF vis(2)] by (simp add: lcov_step_def)
  have das: "foldM (lcov_step canon) (st\<lparr>ls_current_file := Some (fst s), ls_function_lines := []\<rparr>) (map da_line (snd s))
      = Inr (st\<lparr>ls_current_file := Some (fst s), ls_function_lines := [], ls_builder := add_hits canon (ls_builder st) (section_records s)\<rparr>)"
    using lcov_das[of "snd s" "st\<lparr>ls_current_file := Some (fst s), ls_function_lines := []\<rparr>" "fst s"] ok assms(2)
    by (simp add: section_ok_def section_records_def)
  have app: "foldM (lcov_step canon) st (section_lines s) = bindr (lcov_step canon st (''SF:'' @ fst s)) (\<lambda>u.
      bindr (foldM (lcov_step canon) u (map da_line (snd s))) (\<lambda>v. lcov_step canon v ''end_of_record''))"
    unfolding section_lines_def foldM.simps(2) foldM_append by (intro bindr_cong refl) (simp add: bindr_Inr)
  show ?thesis unfolding app sf bindr.simps das fin using assms(2) by simp
qed

lemma add_hits_append: "add_hits canon b (xs @ ys) = add_hits canon (add_hits canon b xs) ys"
  by (simp add: add_hits_def)

lemma lcov_sections:
  assumes "list_all section_ok ss" and "ls_current_test st = None" "ls_current_file st = None" "ls_function_lines st = []"
  shows "foldM (lcov_step canon) st (concat (map section_lines ss))
    = Inr (st\<lparr>ls_builder := add_hits canon (ls_builder st) (concat (map section_records ss))\<rparr>)"
  using assms
proof (induction ss arbitrary: st)
  case (Cons s ss)
  let ?st = "\<lparr>ls_builder = add_hits canon (ls_builder st) (section_records s), ls_current_test = None,
     ls_current_file = None, ls_function_lines = []\<rparr>"
  have "foldM (lcov_step canon) st (section_lines s) = Inr ?st"
    using Cons.prems by (intro lcov_section_step) auto
  then show ?case using Cons.IH[of ?st] Cons.prems by (simp add: foldM_append add_hits_append)
qed (simp add: add_hits_def)

text \<open>The report that is read is the report of the records.\<close>

lemma parse_lcov_text:
  assumes "list_all section_ok ss" and "cr_lines r \<noteq> []"
    and r: "r = build (add_hits canon (new_builder repo) (concat (map section_records ss))) ''lcov'' path [] (JObj [])"
  shows "parse_lcov canon path (lcov_text ss) repo = Inr r"
proof -
  have vis: "list_all (list_all visible) (concat (map section_lines ss))"
    using assms(1) visible_section by (auto simp: list_all_iff)
  have "foldM (lcov_step canon) (lcov_init repo) (concat (map section_lines ss)) = Inr ((lcov_init repo)\<lparr>ls_builder :=
      add_hits canon (new_builder repo) (concat (map section_records ss))\<rparr>)"
    using lcov_sections[OF assms(1), of "lcov_init repo"] by (simp add: lcov_init_def)
  then show ?thesis
    using assms(2) unfolding r
    by (simp add: parse_lcov_def lcov_text_def from_utf8_def utf8_unlines[OF vis] lines_of_unlines[OF list.pred_mono_strong[OF vis visible_one_line]] Let_def)
qed


section \<open>Totals of a tracefile\<close>

type_synonym hit_record = "string \<times> int \<times> int"

definition record_keys :: "canon \<Rightarrow> string option \<Rightarrow> hit_record list \<Rightarrow> (string \<times> int) set" where
  "record_keys canon repo xs = (\<lambda>(f, n, h). (normalize_report_path canon f repo, n)) ` set xs"

definition hit_keys :: "canon \<Rightarrow> string option \<Rightarrow> hit_record list \<Rightarrow> (string \<times> int) set" where
  "hit_keys canon repo xs = record_keys canon repo (filter (\<lambda>(f, n, h). 0 < h) xs)"

lemma builder_inv_add_hits: "builder_inv b \<Longrightarrow> builder_inv (add_hits canon b xs)"
  unfolding add_hits_def by (rule foldl_invariant) auto

lemma add_hits_present:
  assumes "\<forall>(f, n, h) \<in> set xs. 0 < n"
  shows "bt_get (cb_lines (add_hits canon (new_builder repo) xs)) k \<noteq> None \<longleftrightarrow> k \<in> record_keys canon repo xs"
proof -
  have some: "foldl (\<lambda>r x. Some (merge_row r x)) r ys \<noteq> None \<longleftrightarrow> r \<noteq> None \<or> ys \<noteq> []" for r ys
    by (induction ys arbitrary: r) auto
  show ?thesis
    unfolding add_hits_get[OF assms refl] some
    by (force simp: record_keys_def filter_empty_conv line_key_hit_row)
qed

lemma counted_merge_row: "lc_count_line x \<Longrightarrow> lc_count_line (merge_row r x)"
  by (simp add: merge_row_def merge_def Let_def split: option.split)

lemma add_hits_counted:
  assumes "\<forall>(f, n, h) \<in> set xs. 0 < n" and "bt_get (cb_lines (add_hits canon (new_builder repo) xs)) k = Some l"
  shows "lc_count_line l"
proof -
  have "foldl (\<lambda>r x. Some (merge_row r x)) r ys = Some l \<Longrightarrow> list_all lc_count_line ys
      \<Longrightarrow> r = None \<or> lc_count_line (the r) \<Longrightarrow> lc_count_line l" for r ys
    by (induction ys arbitrary: r) (simp_all add: counted_merge_row)
  moreover have "list_all lc_count_line (filter (\<lambda>l. line_key l = k) (map (hit_row canon repo) xs))"
    by (auto simp: list_all_iff)
  ultimately show ?thesis using assms(2)[unfolded add_hits_get[OF assms(1) refl]] by blast
qed

lemma add_hits_covered:
  assumes pos: "\<forall>(f, n, h) \<in> set xs. 0 < n" and get: "bt_get (cb_lines (add_hits canon (new_builder repo) xs)) k = Some l"
  shows "lc_covered l \<longleftrightarrow> k \<in> hit_keys canon repo xs"
proof -
  let ?hits = "{max h 0 | f n h. (f, n, h) \<in> set xs \<and> (normalize_report_path canon f repo, n) = k}"
  have fin: "finite ?hits"
    by (rule finite_subset[of _ "(\<lambda>(f, n, h). max h 0) ` set xs"]) force+
  have "k \<in> record_keys canon repo xs" using add_hits_present[OF pos] get by blast
  then have ne: "?hits \<noteq> {}" by (auto simp: record_keys_def)
  have "lc_covered l \<longleftrightarrow> 0 < Max ?hits" using add_hits_row[OF pos get refl] by auto
  also have "\<dots> \<longleftrightarrow> (\<exists>x \<in> ?hits. 0 < x)" using Max_gr_iff[OF fin ne] by simp
  also have "\<dots> \<longleftrightarrow> k \<in> hit_keys canon repo xs" by (force simp: hit_keys_def record_keys_def)
  finally show ?thesis .
qed

lemma entries_card:
  assumes "bt_inv m"
  shows "length (filter (\<lambda>v. P v) (bt_values m)) = card {k. \<exists>v. bt_get m k = Some v \<and> P v}"
proof -
  have "distinct (map fst (filter (\<lambda>e. P (snd e)) m))"
    by (rule distinct_map_filter) (rule bt_inv_distinct[OF assms])
  note card = distinct_card[OF this]
  have "set (map fst (filter (\<lambda>e. P (snd e)) m)) = {k. \<exists>v. bt_get m k = Some v \<and> P v}"
    using bt.entries_get[OF assms] by force
  with card show ?thesis by (simp add: bt_values_def filter_map comp_def)
qed

text \<open>The totals count distinct lines, and those with a positive record.\<close>

lemma add_hits_totals:
  assumes pos: "\<forall>(f, n, h) \<in> set xs. 0 < n" and small: "int (length xs) < 2 ^ 63"
  shows "total_lines (build (add_hits canon (new_builder repo) xs) fmt path ws md) = int (card (record_keys canon repo xs))"
    and "covered_lines (build (add_hits canon (new_builder repo) xs) fmt path ws md) = int (card (hit_keys canon repo xs))"
proof -
  let ?b = "add_hits canon (new_builder repo) xs"
  have inv: "bt_inv (cb_lines ?b)" using builder_inv_add_hits[OF builder_inv_new] unfolding builder_inv_def by blast
  have counted: "count_where lc_count_line (bt_values (cb_lines ?b)) = int (card (record_keys canon repo xs))"
    unfolding count_where_def entries_card[OF inv]
  proof (rule arg_cong[of _ _ "\<lambda>s. int (card s)"], intro set_eqI iffI)
    fix k assume "k \<in> record_keys canon repo xs"
    then show "k \<in> {k. \<exists>v. bt_get (cb_lines ?b) k = Some v \<and> lc_count_line v}"
      using add_hits_present[OF pos, of canon repo k] add_hits_counted[OF pos, of canon repo k] by blast
  next
    fix k assume "k \<in> {k. \<exists>v. bt_get (cb_lines ?b) k = Some v \<and> lc_count_line v}"
    then show "k \<in> record_keys canon repo xs" using add_hits_present[OF pos, of canon repo k] by auto
  qed
  have hit: "count_where (\<lambda>l. lc_count_line l \<and> lc_covered l) (bt_values (cb_lines ?b)) = int (card (hit_keys canon repo xs))"
    unfolding count_where_def entries_card[OF inv]
  proof (rule arg_cong[of _ _ "\<lambda>s. int (card s)"], intro set_eqI iffI)
    fix k assume "k \<in> hit_keys canon repo xs"
    moreover from this have "k \<in> record_keys canon repo xs" by (force simp: hit_keys_def record_keys_def)
    ultimately show "k \<in> {k. \<exists>v. bt_get (cb_lines ?b) k = Some v \<and> lc_count_line v \<and> lc_covered v}"
      using add_hits_present[OF pos, of canon repo k] add_hits_counted[OF pos, of canon repo k]
        add_hits_covered[OF pos, of canon repo k] by blast
  next
    fix k assume "k \<in> {k. \<exists>v. bt_get (cb_lines ?b) k = Some v \<and> lc_count_line v \<and> lc_covered v}"
    then show "k \<in> hit_keys canon repo xs" using add_hits_covered[OF pos] by blast
  qed
  have len: "length (cb_lines ?b) = card (record_keys canon repo xs)"
  proof -
    have "set (bt_keys (cb_lines ?b)) = record_keys canon repo xs"
      using add_hits_present[OF pos] bt_get_mem_keys[of "cb_lines ?b"] by blast
    then show ?thesis using distinct_card[of "bt_keys (cb_lines ?b)"] bt_inv_distinct[OF inv] by (simp add: bt_keys_def)
  qed
  also have "\<dots> \<le> length xs" unfolding record_keys_def by (rule order_trans[OF card_image_le[OF finite_set] card_length])
  finally have fit: "int (length (cb_lines ?b)) < 2 ^ 63" using small by linarith
  have ms: "cb_file_metrics ?b = []" by (simp add: new_builder_def)
  show "total_lines (build ?b fmt path ws md) = int (card (record_keys canon repo xs))"
    using build_line_totals(1)[OF ms fit] counted by simp
  show "covered_lines (build ?b fmt path ws md) = int (card (hit_keys canon repo xs))"
    using build_line_totals(2)[OF ms fit] hit by simp
qed


section \<open>Properties\<close>

lemma add_hits_lines_nonempty:
  assumes "\<forall>(f, n, h) \<in> set xs. 0 < n" and "xs \<noteq> []"
  shows "cb_lines (add_hits canon (new_builder repo) xs) \<noteq> []"
proof -
  obtain f n h ys where x: "xs = (f, n, h) # ys" using assms(2) by (cases xs) auto
  have "(normalize_report_path canon f repo, n) \<in> record_keys canon repo xs" by (simp add: x record_keys_def)
  then have "bt_get (cb_lines (add_hits canon (new_builder repo) xs)) (normalize_report_path canon f repo, n) \<noteq> None"
    using add_hits_present[OF assms(1)] by blast
  then show ?thesis by auto
qed

text \<open>C2. A tracefile reads back as the records it was written from: for any list of sections with visible
  ASCII paths, positive line numbers and numbers below \<open>2 ^ 53\<close>, \<open>parse_lcov\<close> returns exactly the report
  that the builder makes of the records in their order.\<close>

theorem lcov_roundtrip:
  assumes "list_all section_ok ss" and "concat (map section_records ss) \<noteq> []"
    and "\<forall>(f, n, h) \<in> set (concat (map section_records ss)). 0 < n"
  shows "parse_lcov canon path (lcov_text ss) repo
    = Inr (build (add_hits canon (new_builder repo) (concat (map section_records ss))) ''lcov'' path [] (JObj []))"
  by (rule parse_lcov_text[OF assms(1) _ refl])
    (use add_hits_lines_nonempty[OF assms(3,2)] in \<open>simp add: bt_values_def\<close>)

definition sample_sections :: "lcov_section list" where
  "sample_sections = [(''a.rs'', [(1, 1), (2, 0)]), (''b.rs'', [(7, 0)]), (''a.rs'', [(2, 4)])]"

lemma sample_sections_ok:
  "list_all section_ok sample_sections" "concat (map section_records sample_sections) \<noteq> []"
  "\<forall>(f, n, h) \<in> set (concat (map section_records sample_sections)). 0 < n"
  by (simp_all add: sample_sections_def section_ok_def section_records_def visible_def byte_in_def)

theorem lcov_roundtrip_witness:
  "parse_lcov (\<lambda>_. None) ''r.info'' (lcov_text sample_sections) None
    = Inr (build (add_hits (\<lambda>_. None) (new_builder None) [(''a.rs'', 1, 1), (''a.rs'', 2, 0), (''b.rs'', 7, 0), (''a.rs'', 2, 4)])
        ''lcov'' ''r.info'' [] (JObj []))"
  using lcov_roundtrip[OF sample_sections_ok, of "\<lambda>_. None" "''r.info''" None]
  by (simp add: sample_sections_def section_records_def)

text \<open>The totals of the report that is read count distinct lines: the line total is the number of
  different (normalized path, line) pairs recorded, the covered total the number of those with some
  positive record, in whatever section or order they occur.\<close>

theorem lcov_totals:
  assumes "list_all section_ok ss" and "concat (map section_records ss) \<noteq> []"
    and "\<forall>(f, n, h) \<in> set (concat (map section_records ss)). 0 < n"
    and "int (length (concat (map section_records ss))) < 2 ^ 63"
  shows "\<exists>r. parse_lcov canon path (lcov_text ss) repo = Inr r
    \<and> total_lines r = int (card (record_keys canon repo (concat (map section_records ss))))
    \<and> covered_lines r = int (card (hit_keys canon repo (concat (map section_records ss))))"
proof -
  have "parse_lcov canon path (lcov_text ss) repo
      = Inr (build (add_hits canon (new_builder repo) (concat (map section_records ss))) ''lcov'' path [] (JObj []))"
    by (rule parse_lcov_text[OF assms(1) _ refl])
      (use add_hits_lines_nonempty[OF assms(3,2)] in \<open>simp add: bt_values_def\<close>)
  then show ?thesis using add_hits_totals[OF assms(3,4)] by simp
qed

theorem lcov_totals_witness:
  "\<exists>r. parse_lcov (\<lambda>_. None) ''r.info'' (lcov_text sample_sections) None = Inr r \<and> total_lines r = 3 \<and> covered_lines r = 2"
proof -
  have small: "int (length (concat (map section_records sample_sections))) < 2 ^ 63"
    by (simp add: sample_sections_def section_records_def)
  have "concat (map section_records sample_sections) = [(''a.rs'', 1, 1), (''a.rs'', 2, 0), (''b.rs'', 7, 0), (''a.rs'', 2, 4)]"
    by (simp add: sample_sections_def section_records_def)
  then have "card (record_keys (\<lambda>_. None) None (concat (map section_records sample_sections))) = 3"
    "card (hit_keys (\<lambda>_. None) None (concat (map section_records sample_sections))) = 2"
    by (simp_all add: hit_keys_def record_keys_def normalize_report_path_def replace_char_def card_insert_if)
  with lcov_totals[OF sample_sections_ok small, of "\<lambda>_. None" "''r.info''" None] show ?thesis by simp
qed

end
