(* ===== verification/Runs.thy ===== *)
theory Runs
  imports Json
begin

text \<open>
  Submitting a registered command (\<open>src/src/storage.rs\<close>): validation of the arguments, the baseline and the
  execution context, rendering of the command line with its quoted arguments, and the search of the logs a run
  leaves.  The fingerprint of an execution (a SHA-256 prefix of a JSON text), Unicode lower-casing, the decoding of
  log bytes and the file reads are arguments.  A reference reading of shell words says what the rendered line means.
\<close>

section \<open>Arguments\<close>

definition check_argument :: "nat \<Rightarrow> json \<Rightarrow> string res" where
  "check_argument index v =
     (case as_str v of
        None \<Rightarrow> Inl (Validation (''arguments['' @ show_int (int index) @ ''] must be a string''))
      | Some argument \<Rightarrow>
          if CHR 0x00 \<in> set argument then Inl (Validation (''arguments['' @ show_int (int index) @ ''] must not contain NUL''))
          else if 512 < length argument then Inl (Validation (''arguments['' @ show_int (int index) @ ''] must be at most 512 bytes''))
          else Inr argument)"

fun arguments_loop :: "nat \<Rightarrow> nat \<Rightarrow> json list \<Rightarrow> string list res" where
  "arguments_loop index total_bytes [] = Inr []"
| "arguments_loop index total_bytes (v # vs) =
     bindr (check_argument index v) (\<lambda>argument.
     let total_bytes = total_bytes + length argument in
     if 8192 < total_bytes then Inl (Validation ''arguments must total at most 8192 bytes'')
     else bindr (arguments_loop (Suc index) total_bytes vs) (\<lambda>rest. Inr (argument # rest)))"

definition normalize_arguments :: "json option \<Rightarrow> string list res" where
  "normalize_arguments value =
     (case value of
        None \<Rightarrow> Inr []
      | Some v \<Rightarrow> (case as_array v of
            None \<Rightarrow> Inl (Validation ''arguments must be an array of strings'')
          | Some vs \<Rightarrow> if 64 < length vs then Inl (Validation ''arguments must contain at most 64 values'')
              else arguments_loop 0 0 vs))"

definition normalize_baseline_snapshot_id :: "string option \<Rightarrow> string option res" where
  "normalize_baseline_snapshot_id value =
     (case value of
        None \<Rightarrow> Inr None
      | Some v \<Rightarrow> let v = trim v in
          if v = [] then Inl (Validation ''baseline.snapshot_id must not be empty'')
          else if 200 < length v then Inl (Validation ''baseline.snapshot_id must be at most 200 characters'')
          else Inr (Some v))"

section \<open>Execution contexts\<close>

record execution_context =
  ec_mode :: string
  ec_identity :: string
  ec_label :: "string option"
  ec_arguments :: "string list"
  ec_baseline_snapshot_id :: "string option"

text \<open>A field that must be a non-blank string when present.\<close>

definition nonblank_text :: "json \<Rightarrow> string option" where
  "nonblank_text v = Option.bind (as_str v) (\<lambda>s. if trim s = [] then None else Some (trim s))"

definition normalize_execution_label :: "json \<Rightarrow> string option res" where
  "normalize_execution_label value =
     bindr (case jget value ''label'' of
              None \<Rightarrow> Inr None
            | Some v \<Rightarrow> bindr (ok_or (nonblank_text v) (Validation ''execution.label must be a string when provided'')) (\<lambda>s. Inr (Some s)))
       (\<lambda>label. case label of
          Some l \<Rightarrow> if 200 < length l then Inl (Validation ''execution.label must not exceed 200 characters'') else Inr label
        | None \<Rightarrow> Inr label)"

definition check_execution_keys :: "(string, json) btree \<Rightarrow> unit res" where
  "check_execution_keys m =
     (case find (\<lambda>k. k \<notin> {''mode'', ''identity'', ''label''}) (bt_keys m) of
        Some k \<Rightarrow> Inl (Validation (''execution does not accept argument '' @ k))
      | None \<Rightarrow> Inr ())"

definition execution_mode :: "(string, json) btree \<Rightarrow> string res" where
  "execution_mode m =
     ok_or (Option.bind (Option.bind (bt_get m ''mode'') as_str)
              (\<lambda>s. if s \<in> {''full'', ''incremental'', ''custom''} then Some s else None))
       (Validation ''execution.mode must be full, incremental, or custom'')"

definition execution_object :: "json \<Rightarrow> (string, json) btree res" where
  "execution_object v = ok_or (as_object v) (Validation ''execution must be an object'')"

definition identity_error :: app_error where
  "identity_error = Validation ''execution.identity must be a non-blank stable fingerprint''"

definition identity_length_error :: app_error where
  "identity_length_error = Validation ''execution.identity must not exceed 256 characters''"

definition normalize_execution :: "json option \<Rightarrow> execution_context option res" where
  "normalize_execution value =
     (case value of
        None \<Rightarrow> Inr None
      | Some v \<Rightarrow>
          bindr (execution_object v) (\<lambda>m.
          bindr (check_execution_keys m) (\<lambda>_.
          bindr (execution_mode m) (\<lambda>mode.
          bindr (ok_or (Option.bind (bt_get m ''identity'') nonblank_text) identity_error) (\<lambda>identity.
          if 256 < length identity then Inl identity_length_error
          else bindr (normalize_execution_label v) (\<lambda>label.
            Inr (Some \<lparr>ec_mode = mode, ec_identity = identity, ec_label = label, ec_arguments = [],
              ec_baseline_snapshot_id = None\<rparr>)))))))"

definition fingerprint_input :: "string \<Rightarrow> string option \<Rightarrow> string list \<Rightarrow> string option \<Rightarrow> json" where
  "fingerprint_input mode identity arguments baseline =
     jobj [(''mode'', JStr mode), (''identity'', jopt JStr identity), (''arguments'', JArr (map JStr arguments)),
       (''baseline_snapshot_id'', jopt JStr baseline)]"

definition generated_run_execution ::
  "(json \<Rightarrow> string) \<Rightarrow> string \<Rightarrow> string option \<Rightarrow> string option \<Rightarrow> string list \<Rightarrow> string option \<Rightarrow> execution_context" where
  "generated_run_execution digest mode requested label arguments baseline =
     \<lparr>ec_mode = mode,
      ec_identity = (case requested of
          Some identity \<Rightarrow> if arguments = [] \<and> baseline = None then identity
            else mode @ '':'' @ digest (fingerprint_input mode requested arguments baseline)
        | None \<Rightarrow> mode @ '':'' @ digest (fingerprint_input mode requested arguments baseline)),
      ec_label = label, ec_arguments = arguments, ec_baseline_snapshot_id = baseline\<rparr>"

definition check_baseline_mode :: "string \<Rightarrow> string option \<Rightarrow> unit res" where
  "check_baseline_mode mode baseline =
     (if mode = ''incremental'' \<and> baseline = None
      then Inl (Validation ''execution.mode=incremental requires an explicit baseline.snapshot_id'')
      else if mode \<noteq> ''incremental'' \<and> baseline \<noteq> None
      then Inl (Validation ''baseline is only valid when execution.mode is incremental'')
      else Inr ())"

definition run_identity :: "(string, json) btree \<Rightarrow> string option res" where
  "run_identity m =
     (case bt_get m ''identity'' of
        None \<Rightarrow> Inr None
      | Some v \<Rightarrow> bindr (ok_or (nonblank_text v) identity_error) (\<lambda>s. Inr (Some s)))"

definition normalize_run_execution ::
  "(json \<Rightarrow> string) \<Rightarrow> json option \<Rightarrow> string list \<Rightarrow> string option \<Rightarrow> execution_context option res" where
  "normalize_run_execution digest value arguments baseline =
     (case value of
        None \<Rightarrow>
          (if baseline \<noteq> None then Inl (Validation ''execution.mode=incremental is required when baseline is provided'')
           else if arguments = [] then Inr None
           else Inr (Some (generated_run_execution digest ''full'' None None arguments baseline)))
      | Some v \<Rightarrow>
          bindr (execution_object v) (\<lambda>m.
          bindr (check_execution_keys m) (\<lambda>_.
          bindr (execution_mode m) (\<lambda>mode.
          bindr (check_baseline_mode mode baseline) (\<lambda>_.
          bindr (run_identity m) (\<lambda>identity.
          if (case identity of None \<Rightarrow> False | Some s \<Rightarrow> 256 < length s) then Inl identity_length_error
          else bindr (normalize_execution_label v) (\<lambda>label.
            Inr (Some (generated_run_execution digest mode identity label arguments baseline)))))))))"

definition execution_metadata_for_snapshot :: "json \<Rightarrow> json" where
  "execution_metadata_for_snapshot value =
     JObj (foldl (\<lambda>m key. case jget value key of None \<Rightarrow> m | Some field \<Rightarrow> bt_insert key field m) []
       [''mode'', ''identity'', ''label''])"

section \<open>The command line\<close>

definition args_marker :: string where
  "args_marker = ''{{args}}''"

text \<open>The text before and after the first occurrence.\<close>

fun split_marker :: "string \<Rightarrow> (string \<times> string) option" where
  "split_marker [] = None"
| "split_marker (c # cs) =
     (case strip_prefix args_marker (c # cs) of
        Some rest \<Rightarrow> Some ([], rest)
      | None \<Rightarrow> map_option (\<lambda>(a, b). (c # a, b)) (split_marker cs))"

lemma split_marker_Some: "split_marker s = Some (a, b) \<Longrightarrow> s = a @ args_marker @ b"
  by (induction s arbitrary: a) (auto split: option.splits simp: strip_prefix_Some)

function marker_count :: "string \<Rightarrow> nat" where
  "marker_count s = (case split_marker s of None \<Rightarrow> 0 | Some (_, rest) \<Rightarrow> Suc (marker_count rest))"
  by pat_completeness auto
termination
  by (relation "measure length") (auto dest!: split_marker_Some simp: args_marker_def)

declare marker_count.simps [simp del]

definition shell_quote :: "string \<Rightarrow> string" where
  "shell_quote v = CHR 0x27 # concat (map (\<lambda>c. if c = CHR 0x27 then [CHR 0x27, CHR 0x5C, CHR 0x27, CHR 0x27] else [c]) v) @ [CHR 0x27]"

definition render_command :: "string \<Rightarrow> string list \<Rightarrow> string res" where
  "render_command command arguments =
     (let rendered = join_with '' '' (map shell_quote arguments) in
      if 1 < marker_count command
      then Inl (Validation ''registered command may contain at most one {{args}} placeholder'')
      else if marker_count command = 1
      then Inr (case split_marker command of None \<Rightarrow> command | Some (before, after) \<Rightarrow> before @ rendered @ after)
      else if rendered = [] then Inr command
      else Inr (command @ '' '' @ rendered))"

section \<open>Logs\<close>

definition context_window :: "string list \<Rightarrow> nat \<Rightarrow> nat \<Rightarrow> json list" where
  "context_window lines index context =
     map (\<lambda>position. jobj [(''line_number'', jnat (position + 1)), (''text'', JStr (lines ! position))])
       [index - context ..< min (index + context + 1) (length lines)]"

definition line_found :: "(string \<Rightarrow> string) \<Rightarrow> bool \<Rightarrow> string list \<Rightarrow> string \<Rightarrow> bool" where
  "line_found lower case_sensitive queries line =
     (let haystack = (if case_sensitive then line else lower line)
      in list_ex (\<lambda>query. contains_str (if case_sensitive then query else lower query) haystack) queries)"

definition log_match :: "string \<Rightarrow> string list \<Rightarrow> nat \<Rightarrow> nat \<Rightarrow> json" where
  "log_match stream_name lines context index =
     jobj [(''stream'', JStr stream_name), (''line_number'', jnat (index + 1)), (''text'', JStr (lines ! index)),
       (''context'', JArr (context_window lines index context))]"

text \<open>The loop over the lines of one stream, from line \<open>index\<close> on.\<close>

fun log_loop :: "(nat \<Rightarrow> bool) \<Rightarrow> (nat \<Rightarrow> json) \<Rightarrow> nat \<Rightarrow> json list \<Rightarrow> nat list \<Rightarrow> json list" where
  "log_loop found mk max_matches matches [] = matches"
| "log_loop found mk max_matches matches (index # rest) =
     (if found index
      then (let matches = matches @ [mk index] in
            if max_matches \<le> length matches then matches else log_loop found mk max_matches matches rest)
      else log_loop found mk max_matches matches rest)"

definition append_log_matches ::
  "(string \<Rightarrow> string) \<Rightarrow> json list \<Rightarrow> string \<Rightarrow> string list \<Rightarrow> string list \<Rightarrow> nat \<Rightarrow> nat \<Rightarrow> bool \<Rightarrow> json list" where
  "append_log_matches lower matches stream_name lines queries context max_matches case_sensitive =
     log_loop (\<lambda>i. line_found lower case_sensitive queries (lines ! i)) (log_match stream_name lines context) max_matches
       matches [0 ..< length lines]"

text \<open>\<open>read\<close> returns the decoded text of a log file.\<close>

definition read_log_lines :: "(string \<Rightarrow> io_error + string) \<Rightarrow> json \<Rightarrow> string \<Rightarrow> string \<Rightarrow> string \<Rightarrow> string list res" where
  "read_log_lines read result run_id stream_name path_key =
     bindr (ok_or (Option.bind (jget result path_key) as_str)
         (Runtime (''run '' @ run_id @ '' is missing its '' @ stream_name @ '' log path''))) (\<lambda>path.
     case read path of Inl e \<Rightarrow> Inl (Io e) | Inr txt \<Rightarrow> Inr (lines_of txt))"

definition search_stream ::
  "(string \<Rightarrow> string) \<Rightarrow> (string \<Rightarrow> io_error + string) \<Rightarrow> json \<Rightarrow> string \<Rightarrow> string list \<Rightarrow> string \<Rightarrow> nat \<Rightarrow> nat \<Rightarrow> bool
   \<Rightarrow> json list \<Rightarrow> string \<times> string \<Rightarrow> json list res" where
  "search_stream lower read result run_id queries stream context max_matches case_sensitive matches names =
     (if stream \<noteq> ''both'' \<and> stream \<noteq> fst names then Inr matches
      else bindr (read_log_lines read result run_id (fst names) (snd names)) (\<lambda>lines.
        Inr (append_log_matches lower matches (fst names) lines queries context max_matches case_sensitive)))"

definition context_length :: "json \<Rightarrow> nat" where
  "context_length item = (case Option.bind (jget item ''context'') as_array of None \<Rightarrow> 1 | Some c \<Rightarrow> length c)"

text \<open>\<open>result\<close> is what \<open>run_result\<close> returned for the run.\<close>

definition search_run_logs ::
  "(string \<Rightarrow> string) \<Rightarrow> (string \<Rightarrow> io_error + string) \<Rightarrow> json res \<Rightarrow> string \<Rightarrow> string list \<Rightarrow> string \<Rightarrow> nat \<Rightarrow> nat \<Rightarrow> bool \<Rightarrow> nat \<Rightarrow> json res" where
  "search_run_logs lower read run_result run_id queries stream context max_matches case_sensitive max_words =
     (if queries = [] \<or> 20 < length queries then Inl (Validation ''query must contain between 1 and 20 terms'')
      else bindr run_result (\<lambda>result.
        let search = search_stream lower read result run_id queries stream context max_matches case_sensitive in
        bindr (search [] (''stdout'', ''stdout_path'')) (\<lambda>found.
        bindr (if stream \<in> {''both'', ''stdout''} \<and> max_matches \<le> length found then Inr found else search found (''stderr'', ''stderr_path'')) (\<lambda>matches.
        Inr (jobj [(''run_id'', JStr run_id),
          (''query'', if length queries = 1 then JStr (hd queries) else JArr (map JStr queries)),
          (''match_count'', jnat (length matches)),
          (''returned_line_count'', jnat (sum_list (map context_length matches))),
          (''matches'', JArr matches), (''max_words'', jnat max_words), (''case_sensitive'', JBool case_sensitive)])))))"

section \<open>Shell words\<close>

text \<open>A reference reading of a command line as POSIX shell words (section 2.2 of the Shell Command Language):
  blanks separate words, single quotes and backslashes quote.  A line with any other character that is special
  when unquoted has no reading here, nor has one with an open quote or a final backslash.\<close>

datatype lex_state = Between | InWord string | Quoted string | Escaped string

definition sh_blank :: "char \<Rightarrow> bool" where
  "sh_blank c \<longleftrightarrow> c = CHR '' '' \<or> c = CHR 0x09"

definition sh_special :: "char \<Rightarrow> bool" where
  "sh_special c \<longleftrightarrow> c \<in> set ''|&;<>()$`*?[#~!{}'' \<or> c = CHR 0x22 \<or> c = CHR 0x0A"

definition unquoted :: "string \<Rightarrow> char \<Rightarrow> lex_state option" where
  "unquoted w c =
     (if c = CHR 0x27 then Some (Quoted w)
      else if c = CHR 0x5C then Some (Escaped w)
      else if sh_special c then None
      else Some (InWord (w @ [c])))"

fun sh_lex :: "lex_state \<Rightarrow> string \<Rightarrow> string list option" where
  "sh_lex Between [] = Some []"
| "sh_lex (InWord w) [] = Some [w]"
| "sh_lex (Quoted w) [] = None"
| "sh_lex (Escaped w) [] = None"
| "sh_lex Between (c # cs) =
     (if sh_blank c then sh_lex Between cs else Option.bind (unquoted [] c) (\<lambda>st. sh_lex st cs))"
| "sh_lex (InWord w) (c # cs) =
     (if sh_blank c then map_option (\<lambda>ws. w # ws) (sh_lex Between cs) else Option.bind (unquoted w c) (\<lambda>st. sh_lex st cs))"
| "sh_lex (Quoted w) (c # cs) = (if c = CHR 0x27 then sh_lex (InWord w) cs else sh_lex (Quoted (w @ [c])) cs)"
| "sh_lex (Escaped w) (c # cs) = (if c = CHR 0x0A then None else sh_lex (InWord (w @ [c])) cs)"

definition sh_words :: "string \<Rightarrow> string list option" where
  "sh_words line = sh_lex Between line"

lemma sh_lex_append_blank:
  "sh_lex st a = Some ws \<Longrightarrow> sh_lex st (a @ CHR '' '' # b) = map_option (\<lambda>vs. ws @ vs) (sh_lex Between b)"
proof (induction st a arbitrary: ws rule: sh_lex.induct)
  case 1 then show ?case by (simp add: sh_blank_def option.map_ident)
next
  case (2 w) then show ?case by (cases "sh_lex Between b") (auto simp: sh_blank_def)
next
  case (5 c cs)
  then show ?case by (auto split: if_splits bind_splits)
next
  case (6 w c cs)
  then show ?case by (cases "sh_lex Between b") (auto split: if_splits bind_splits)
qed (auto split: if_splits)

lemma sh_lex_body:
  "sh_lex (Quoted w) (concat (map (\<lambda>c. if c = CHR 0x27 then [CHR 0x27, CHR 0x5C, CHR 0x27, CHR 0x27] else [c]) v) @ CHR 0x27 # rest)
     = sh_lex (InWord (w @ v)) rest"
  by (induction v arbitrary: w) (auto simp: unquoted_def sh_blank_def)

lemma sh_lex_quote: "sh_lex Between (shell_quote v @ rest) = sh_lex (InWord v) rest"
  using sh_lex_body[of "[]" v rest] by (simp add: shell_quote_def unquoted_def sh_blank_def)

lemma sh_words_quoted: "sh_words (join_with '' '' (map shell_quote args)) = Some args"
  unfolding sh_words_def
proof (induction args rule: induct_list012)
  case (2 a) show ?case using sh_lex_quote[of a "[]"] by simp
next
  case (3 a b args)
  then show ?case by (simp add: sh_lex_quote sh_blank_def)
qed simp

section \<open>Accepted arguments\<close>

definition valid_arguments :: "string list \<Rightarrow> bool" where
  "valid_arguments args \<longleftrightarrow> length args \<le> 64 \<and> list_all (\<lambda>a. CHR 0x00 \<notin> set a \<and> length a \<le> 512) args \<and> sum_list (map length args) \<le> 8192"

lemma check_argument_ok: "check_argument i v = Inr a \<longleftrightarrow> v = JStr a \<and> CHR 0x00 \<notin> set a \<and> length a \<le> 512"
  by (cases v) (auto simp: check_argument_def)

lemma arguments_loop_ok:
  "total_bytes \<le> 8192 \<Longrightarrow> arguments_loop i total_bytes vs = Inr args \<longleftrightarrow>
     vs = map JStr args \<and> list_all (\<lambda>a. CHR 0x00 \<notin> set a \<and> length a \<le> 512) args \<and> total_bytes + sum_list (map length args) \<le> 8192"
proof (induction vs arbitrary: i total_bytes args)
  case (Cons v vs)
  show ?case
  proof (cases args)
    case (Cons a as)
    show ?thesis
      using Cons.IH Cons
      by (auto simp: bindr_eq_Inr check_argument_ok Let_def intro!: exI[of _ a] split: if_splits)
  qed (auto simp: bindr_eq_Inr Let_def split: if_splits)
qed auto

lemma log_loop_take:
  "length matches < max_matches \<Longrightarrow>
   log_loop found mk max_matches matches is = take max_matches (matches @ map mk (filter found is))"
  by (induction "is" arbitrary: matches) (auto simp: Let_def take_Cons')

text \<open>Every match of one stream, in order.\<close>

definition stream_matches :: "(string \<Rightarrow> string) \<Rightarrow> string \<Rightarrow> string list \<Rightarrow> string list \<Rightarrow> nat \<Rightarrow> bool \<Rightarrow> json list" where
  "stream_matches lower stream_name lines queries context case_sensitive =
     map (log_match stream_name lines context) (filter (\<lambda>i. line_found lower case_sensitive queries (lines ! i)) [0 ..< length lines])"

lemma append_log_matches_take:
  "length matches < max_matches \<Longrightarrow>
   append_log_matches lower matches stream_name lines queries context max_matches case_sensitive =
   take max_matches (matches @ stream_matches lower stream_name lines queries context case_sensitive)"
  unfolding append_log_matches_def stream_matches_def by (rule log_loop_take)

lemma split_marker_count [simp]: "split_marker command = None \<Longrightarrow> marker_count command = 0"
  by (simp add: marker_count.simps)

lemma fingerprint_input_inj:
  assumes "fingerprint_input m i as b = fingerprint_input m' i' as' b'"
  shows "m = m' \<and> i = i' \<and> as = as' \<and> b = b'"
proof -
  have eq: "jget (fingerprint_input m i as b) k = jget (fingerprint_input m' i' as' b') k" for k using assms by simp
  have opt: "jopt JStr x = jopt JStr y \<longleftrightarrow> x = y" for x y by (cases x; cases y) (simp_all add: jopt_def)
  have "inj JStr" by (simp add: inj_def)
  then show ?thesis
    using eq[of "''mode''"] eq[of "''identity''"] eq[of "''arguments''"] eq[of "''baseline_snapshot_id''"]
    by (simp add: fingerprint_input_def opt inj_map_eq_map)
qed

section \<open>Properties\<close>



text \<open>A placeholder inside quotes of the registered command undoes the quoting of the arguments: an argument
  with a space is read as the end of one word and the start of the next.\<close>

theorem quoted_placeholder_splits:
  "bindr (render_command (''sh -c '' @ [CHR 0x27] @ ''run {{args}}'' @ [CHR 0x27]) [''a b'']) (\<lambda>line. Inr (sh_words line))
     = Inr (Some [''sh'', ''-c'', ''run a'', ''b''])"
  by code_simp

text \<open>The arguments accepted for a run are exactly the lists of at most 64 strings, without NUL, of at most
  512 bytes each and 8192 in all, taken unchanged; in particular the arguments stored with a run are read back.\<close>

theorem arguments_accepted_iff:
  "normalize_arguments value = Inr args \<longleftrightarrow>
     value = None \<and> args = [] \<or> value = Some (JArr (map JStr args)) \<and> valid_arguments args"
proof (cases "\<exists>vs. value = Some (JArr vs)")
  case True
  then obtain vs where vs: "value = Some (JArr vs)" ..
  have "normalize_arguments (Some (JArr vs)) = Inr args \<longleftrightarrow> length vs \<le> 64 \<and> arguments_loop 0 0 vs = Inr args"
    by (simp add: normalize_arguments_def)
  also have "\<dots> \<longleftrightarrow> vs = map JStr args \<and> valid_arguments args"
    unfolding arguments_loop_ok[OF le0] valid_arguments_def by auto
  finally show ?thesis using vs by simp
next
  case False
  then show ?thesis by (cases "value"; cases "the value") (auto simp: normalize_arguments_def)
qed

text \<open>Runs that differ in mode, requested identity, arguments or baseline are recorded under different
  generated identities, provided the fingerprint tells their two inputs apart.\<close>

theorem run_identity_separates:
  assumes modes: "m \<in> {''full'', ''incremental'', ''custom''}" "m' \<in> {''full'', ''incremental'', ''custom''}"
    and generated: "as \<noteq> [] \<or> b \<noteq> None \<or> i = None" "as' \<noteq> [] \<or> b' \<noteq> None \<or> i' = None"
    and collision_free: "fingerprint_input m i as b \<noteq> fingerprint_input m' i' as' b'
      \<Longrightarrow> digest (fingerprint_input m i as b) \<noteq> digest (fingerprint_input m' i' as' b')"
    and differ: "(m, i, as, b) \<noteq> (m', i', as', b')"
  shows "ec_identity (generated_run_execution digest m i l as b) \<noteq> ec_identity (generated_run_execution digest m' i' l' as' b')"
proof
  assume same: "ec_identity (generated_run_execution digest m i l as b) = ec_identity (generated_run_execution digest m' i' l' as' b')"
  have id: "ec_identity (generated_run_execution digest m i l as b) = m @ CHR '':'' # digest (fingerprint_input m i as b)"
    "ec_identity (generated_run_execution digest m' i' l' as' b') = m' @ CHR '':'' # digest (fingerprint_input m' i' as' b')"
    using generated by (auto simp: generated_run_execution_def split: option.splits)
  have colon: "CHR '':'' \<notin> set m" "CHR '':'' \<notin> set m'" using modes by auto
  have "digest (fingerprint_input m i as b) = digest (fingerprint_input m' i' as' b')"
    using append_sep_eq[OF colon same[unfolded id]] by blast
  then have "fingerprint_input m i as b = fingerprint_input m' i' as' b'" using collision_free by blast
  from fingerprint_input_inj[OF this] differ show False by simp
qed

theorem run_identity_separates_witness:
  "ec_identity (generated_run_execution (\<lambda>j. case jidx j ''arguments'' of JArr (JStr s # _) \<Rightarrow> s | _ \<Rightarrow> []) ''full'' None None [''a''] None)
   \<noteq> ec_identity (generated_run_execution (\<lambda>j. case jidx j ''arguments'' of JArr (JStr s # _) \<Rightarrow> s | _ \<Rightarrow> []) ''full'' None None [''b''] None)"
  by (rule run_identity_separates) (simp_all add: fingerprint_input_def)

text \<open>A log search returns the first matching lines, those of standard output before those of standard error,
  up to the requested number: every line that contains one of the terms, in order, and no other.\<close>

theorem log_search_exact:
  assumes "0 < max_matches" and "queries \<noteq> []" and "length queries \<le> 20"
    and out: "read_log_lines read result run_id ''stdout'' ''stdout_path'' = Inr stdout"
    and err: "read_log_lines read result run_id ''stderr'' ''stderr_path'' = Inr stderr"
  shows "\<exists>v. search_run_logs lower read (Inr result) run_id queries ''both'' context max_matches case_sensitive max_words = Inr v
    \<and> jidx v ''matches'' = JArr (take max_matches
        (stream_matches lower ''stdout'' stdout queries context case_sensitive @ stream_matches lower ''stderr'' stderr queries context case_sensitive))"
proof -
  let ?o = "stream_matches lower ''stdout'' stdout queries context case_sensitive"
  let ?found = "append_log_matches lower [] ''stdout'' stdout queries context max_matches case_sensitive"
  have found: "?found = take max_matches ?o" using append_log_matches_take[of "[]"] assms(1) by simp
  show ?thesis
  proof (cases "max_matches \<le> length ?o")
    case True
    then show ?thesis using assms found by (simp add: search_run_logs_def search_stream_def Let_def)
  next
    case False
    then have fo: "?found = ?o" "length ?o < max_matches" using found by auto
    then show ?thesis
      using assms append_log_matches_take[OF fo(2)] by (simp add: search_run_logs_def search_stream_def Let_def)
  qed
qed

theorem log_search_exact_witness:
  "\<exists>v. search_run_logs (\<lambda>s. s) (\<lambda>p. Inr (unlines [''ok'', ''error: '' @ p])) (Inr (jobj [(''stdout_path'', JStr ''o''), (''stderr_path'', JStr ''e'')]))
      ''r'' [''error''] ''both'' 0 5 True 100 = Inr v
    \<and> jidx v ''matches'' = JArr [log_match ''stdout'' [''ok'', ''error: o''] 0 1, log_match ''stderr'' [''ok'', ''error: e''] 0 1]"
proof -
  let ?read = "\<lambda>p. Inr (unlines [''ok'', ''error: '' @ p])"
  let ?result = "jobj [(''stdout_path'', JStr ''o''), (''stderr_path'', JStr ''e'')]"
  have logs: "read_log_lines ?read ?result ''r'' ''stdout'' ''stdout_path'' = Inr [''ok'', ''error: o'']"
    "read_log_lines ?read ?result ''r'' ''stderr'' ''stderr_path'' = Inr [''ok'', ''error: e'']"
    by (simp_all add: read_log_lines_def lines_of_unlines one_line_def)
  have hits: "stream_matches (\<lambda>s. s) n [''ok'', ''error: '' @ p] [''error''] 0 True = [log_match n [''ok'', ''error: '' @ p] 0 1]" for n p
    by (simp add: stream_matches_def line_found_def upt_rec starts_with_def)
  show ?thesis
    using log_search_exact[OF _ _ _ logs, of 5 "[''error'']" "\<lambda>s. s" 0 True 100] hits[of _ "''o''"] hits[of _ "''e''"] by simp
qed

end
