(* ===== verification/Regions.thy ===== *)
theory Regions
  imports Json "HOL-Library.Multiset"
begin

text \<open>
  Line ranges and changed lines of \<open>src/src/storage.rs\<close>: coalescing lines and requested ranges into
  regions (\<open>line_regions\<close>, \<open>normalize_line_ranges\<close>; \<open>src/src/service.rs\<close> has its own copy of the former),
  and the comparison of the lines of two snapshots (\<open>changed_line_values_from_maps\<close>,
  \<open>incremental_line_category\<close>, \<open>changed_line_regions\<close>).  A hash map keyed by path and line is the list of
  its entries, one per key, in the iteration order, which is arbitrary.
\<close>

type_synonym line_map = "(string \<times> int, json) btree"

section \<open>Coalescing\<close>

definition i64_max :: int where
  "i64_max = 2 ^ 63 - 1"

definition sat_succ :: "int \<Rightarrow> int" where
  "sat_succ e = min (e + 1) i64_max"

text \<open>The loop both functions share: a range that starts at most one line after the previous one ends is
  joined to it.\<close>

fun coalesce :: "(int \<times> int) option \<Rightarrow> (int \<times> int) list \<Rightarrow> (int \<times> int) list" where
  "coalesce None [] = []"
| "coalesce (Some r) [] = [r]"
| "coalesce None (r # rs) = coalesce (Some r) rs"
| "coalesce (Some (s, e)) ((a, b) # rs) =
     (if a \<le> sat_succ e then coalesce (Some (s, max e b)) rs
      else (s, e) # coalesce (Some (a, b)) rs)"

definition region_length :: "int \<times> int \<Rightarrow> int" where
  "region_length r = i64_add (i64_sub (snd r) (fst r)) 1"

definition region_json :: "int \<times> int \<Rightarrow> json" where
  "region_json r = jobj [(''start'', JInt (fst r)), (''end'', JInt (snd r)), (''line_count'', JInt (region_length r))]"

definition line_spans :: "int list \<Rightarrow> (int \<times> int) list" where
  "line_spans numbers = coalesce None (map (\<lambda>n. (n, n)) (remdups_adj (sort numbers)))"

definition line_regions :: "int list \<Rightarrow> json list" where
  "line_regions numbers = map region_json (line_spans numbers)"

section \<open>Requested ranges\<close>

definition range_text :: "int \<times> int \<Rightarrow> string" where
  "range_text r = show_int (fst r) @ ''-'' @ show_int (snd r)"

definition check_range :: "int \<times> int \<Rightarrow> unit res" where
  "check_range r =
     (if fst r < 1 \<or> snd r < 1 then Inl (Validation (''line range bounds must be positive: '' @ range_text r))
      else if snd r < fst r then Inl (Validation (''line range end must be at least start: '' @ range_text r))
      else Inr ())"

definition count_range :: "int \<Rightarrow> int \<times> int \<Rightarrow> int res" where
  "count_range cnt r =
     (if 200 < region_length r
      then Inl (Validation ''line_ranges combined unique span may contain at most 200 lines'')
      else Inr (i64_add cnt (region_length r)))"

definition normalize_line_ranges :: "(int \<times> int) list \<Rightarrow> (int \<times> int) list res" where
  "normalize_line_ranges ranges =
     (if 10 < length ranges then Inl (Validation ''line_ranges accepts at most 10 ranges'')
      else bindr (mapM check_range ranges) (\<lambda>_.
        let normalized = coalesce None (sort ranges) in
        bindr (foldM count_range 0 normalized) (\<lambda>cnt.
        if 200 < cnt then Inl (Validation ''line_ranges combined unique span may contain at most 200 lines'')
        else Inr normalized)))"

section \<open>What coalescing keeps\<close>

definition range_lines :: "int \<times> int \<Rightarrow> int set" where
  "range_lines r = {fst r..snd r}"

definition all_lines :: "(int \<times> int) list \<Rightarrow> int set" where
  "all_lines rs = (\<Union>r \<in> set rs. range_lines r)"

definition range_ok :: "int \<times> int \<Rightarrow> bool" where
  "range_ok r \<longleftrightarrow> fst r \<le> snd r \<and> snd r \<le> i64_max"

definition separated :: "(int \<times> int) list \<Rightarrow> bool" where
  "separated rs \<longleftrightarrow> sorted_wrt (\<lambda>r q. snd r + 1 < fst q) rs"

lemma all_lines_simps [simp]: "all_lines [] = {}" "all_lines (r # rs) = range_lines r \<union> all_lines rs"
  by (simp_all add: all_lines_def)

definition opt_list :: "'a option \<Rightarrow> 'a list" where
  "opt_list x = (case x of None \<Rightarrow> [] | Some a \<Rightarrow> [a])"

lemma coalesce_props:
  assumes "list_all range_ok (opt_list c @ rs)" and "sorted (map fst (opt_list c @ rs))"
  shows "all_lines (coalesce c rs) = all_lines (opt_list c @ rs)
    \<and> list_all range_ok (coalesce c rs) \<and> separated (coalesce c rs)
    \<and> (\<forall>r \<in> set (coalesce c rs). fst (hd (opt_list c @ rs)) \<le> fst r)"
  using assms
proof (induction c rs rule: coalesce.induct)
  case (4 s e a b rs)
  show ?case
  proof (cases "a \<le> sat_succ e")
    case True
    have ok: "list_all range_ok (opt_list (Some (s, max e b)) @ rs)" "sorted (map fst (opt_list (Some (s, max e b)) @ rs))"
      using 4(3,4) by (auto simp: opt_list_def range_ok_def[of "(_, _)"])
    have ae: "a \<le> e + 1" "s \<le> a" "a \<le> b" "s \<le> e" using True 4(3,4) by (auto simp: sat_succ_def opt_list_def range_ok_def)
    have "range_lines (s, max e b) = range_lines (s, e) \<union> range_lines (a, b)" using ae by (auto simp: range_lines_def)
    with 4(1)[OF True ok] True show ?thesis by (auto simp: opt_list_def)
  next
    case False
    have ok: "list_all range_ok (opt_list (Some (a, b)) @ rs)" "sorted (map fst (opt_list (Some (a, b)) @ rs))"
      using 4(3,4) by (auto simp: opt_list_def)
    have gap: "e + 1 < a" using False 4(3) by (auto simp: sat_succ_def opt_list_def range_ok_def i64_max_def split: if_splits)
    with 4(2)[OF False ok] False 4(3,4) show ?thesis by (fastforce simp: opt_list_def separated_def)
  qed
qed (auto simp: opt_list_def separated_def)

lemma coalesce_sorted:
  assumes "list_all range_ok rs" and "sorted (map fst rs)"
  shows "all_lines (coalesce None rs) = all_lines rs" "list_all range_ok (coalesce None rs)" "separated (coalesce None rs)"
    "\<And>r. r \<in> set (coalesce None rs) \<Longrightarrow> fst (hd rs) \<le> fst r"
  using coalesce_props[of None rs] assms by (auto simp: opt_list_def)

lemma finite_all_lines [simp]: "finite (all_lines rs)"
  by (auto simp: all_lines_def range_lines_def)

text \<open>The ranges of a separated list are disjoint, so their lengths add up to the number of lines.\<close>

lemma card_separated:
  assumes "separated rs" and "list_all range_ok rs"
  shows "int (card (all_lines rs)) = sum_list (map (\<lambda>r. snd r - fst r + 1) rs)"
  using assms
proof (induction rs)
  case (Cons r rs)
  have "range_lines r \<inter> all_lines rs = {}"
    using Cons.prems(1) by (force simp: separated_def all_lines_def range_lines_def)
  moreover have "int (card (range_lines r)) = snd r - fst r + 1"
    using Cons.prems(2) by (simp add: range_lines_def range_ok_def)
  ultimately show ?case using Cons by (simp add: card_Un_disjoint separated_def range_lines_def)
qed simp

lemma region_length_exact: "1 \<le> fst r \<Longrightarrow> range_ok r \<Longrightarrow> region_length r = snd r - fst r + 1"
  by (simp add: region_length_def range_ok_def i64_max_def i64_sub_exact i64_add_exact in_i64_def)

lemma sorted_fst: "sorted (rs :: (int \<times> int) list) \<Longrightarrow> sorted (map fst rs)"
  by (induction rs) (auto simp: less_eq_prod_def)

lemma count_ranges:
  assumes "list_all (\<lambda>r. 1 \<le> fst r \<and> range_ok r) rs" and "0 \<le> cnt" and "length rs \<le> 10" and "cnt + 200 * int (length rs) < 2 ^ 63"
  shows "foldM count_range cnt rs = (if list_all (\<lambda>r. snd r - fst r + 1 \<le> 200) rs
      then Inr (cnt + sum_list (map (\<lambda>r. snd r - fst r + 1) rs))
      else Inl (Validation ''line_ranges combined unique span may contain at most 200 lines''))"
  using assms
proof (induction rs arbitrary: cnt)
  case (Cons r rs)
  have len: "region_length r = snd r - fst r + 1" using Cons.prems(1) by (simp add: region_length_exact)
  have "0 \<le> snd r - fst r + 1" using Cons.prems(1) by (simp add: range_ok_def)
  moreover have "i64_add cnt (snd r - fst r + 1) = cnt + (snd r - fst r + 1)" if "snd r - fst r + 1 \<le> 200"
    using that Cons.prems calculation by (intro i64_add_exact) (simp add: in_i64_def)
  ultimately show ?case using Cons.prems Cons.IH[of "cnt + (snd r - fst r + 1)"] by (auto simp: count_range_def len)
qed simp

lemma mapM_check_range: "mapM check_range rs = Inr us \<Longrightarrow> list_all (\<lambda>r. 1 \<le> fst r \<and> fst r \<le> snd r) rs"
  "list_all (\<lambda>r. 1 \<le> fst r \<and> fst r \<le> snd r) rs \<Longrightarrow> \<exists>us. mapM check_range rs = Inr us"
  by (induction rs arbitrary: us) (auto simp: bindr_eq_Inr check_range_def split: if_splits)

lemma length_coalesce: "length (coalesce c rs) \<le> length (opt_list c @ rs)"
  by (induction c rs rule: coalesce.induct) (auto simp: opt_list_def)

definition acceptable_ranges :: "(int \<times> int) list \<Rightarrow> bool" where
  "acceptable_ranges rs \<longleftrightarrow> length rs \<le> 10 \<and> list_all (\<lambda>r. 1 \<le> fst r \<and> fst r \<le> snd r) rs \<and> card (all_lines rs) \<le> 200"

lemma normalize_valid:
  assumes valid: "list_all (\<lambda>r. 1 \<le> fst r \<and> fst r \<le> snd r \<and> snd r \<le> i64_max) rs" and len: "length rs \<le> 10"
  shows "normalize_line_ranges rs = (if card (all_lines rs) \<le> 200 then Inr (coalesce None (sort rs))
      else Inl (Validation ''line_ranges combined unique span may contain at most 200 lines''))"
    and "all_lines (coalesce None (sort rs)) = all_lines rs" and "separated (coalesce None (sort rs))"
proof -
  let ?ns = "coalesce None (sort rs)"
  have ok: "list_all range_ok (sort rs)" using valid by (auto simp: list_all_iff range_ok_def)
  note co = coalesce_sorted[OF ok sorted_fst[OF sorted_sort]]
  show lines: "all_lines ?ns = all_lines rs" using co(1) by (simp add: all_lines_def)
  show sep: "separated ?ns" by (rule co(3))
  have pos: "1 \<le> fst r" if "r \<in> set ?ns" for r
  proof -
    have "sort rs \<noteq> []" using that by (metis coalesce.simps(1) empty_iff empty_set)
    then have "hd (sort rs) \<in> set rs" using hd_in_set by fastforce
    then show ?thesis using co(4)[OF that] valid by (force simp: list_all_iff)
  qed
  have good: "list_all (\<lambda>r. 1 \<le> fst r \<and> range_ok r) ?ns" using co(2) pos by (simp add: list_all_iff)
  have short: "length ?ns \<le> 10" using length_coalesce[of None "sort rs"] len by (simp add: opt_list_def)
  have sum: "int (card (all_lines rs)) = sum_list (map (\<lambda>r. snd r - fst r + 1) ?ns)"
    using card_separated[OF sep co(2)] lines by simp
  have each: "snd r - fst r + 1 \<le> sum_list (map (\<lambda>r. snd r - fst r + 1) ?ns)" if "r \<in> set ?ns" for r
    using that co(2) member_le_sum_list[of "snd r - fst r + 1" "map (\<lambda>r. snd r - fst r + 1) ?ns"]
    by (force simp: list_all_iff range_ok_def)
  obtain us where us: "mapM check_range rs = Inr us"
    using mapM_check_range(2)[of rs] valid by (auto simp: list_all_iff)
  note fold = count_ranges[OF good _ short, of 0]
  show "normalize_line_ranges rs = (if card (all_lines rs) \<le> 200 then Inr ?ns
      else Inl (Validation ''line_ranges combined unique span may contain at most 200 lines''))"
  proof (cases "card (all_lines rs) \<le> 200")
    case True
    then have "list_all (\<lambda>r. snd r - fst r + 1 \<le> 200) ?ns" using each sum by (fastforce simp: list_all_iff)
    then show ?thesis using True len us fold short sum by (simp add: normalize_line_ranges_def Let_def)
  next
    case False
    then have "200 < sum_list (map (\<lambda>r. snd r - fst r + 1) ?ns)" using sum by linarith
    then show ?thesis using False len us fold short by (simp add: normalize_line_ranges_def Let_def split: if_splits)
  qed
qed

section \<open>Changed lines\<close>

definition line_bool :: "json \<Rightarrow> string \<Rightarrow> bool" where
  "line_bool v k = (case Option.bind (jget v k) as_bool of None \<Rightarrow> False | Some b \<Rightarrow> b)"

definition file_metric :: "json option \<Rightarrow> string \<Rightarrow> int" where
  "file_metric v k = (case Option.bind (Option.bind v (\<lambda>v. jget v k)) as_i64 of None \<Rightarrow> 0 | Some n \<Rightarrow> n)"

definition branch_state_changed :: "json \<Rightarrow> bool" where
  "branch_state_changed line \<longleftrightarrow>
     (Option.bind (jget line ''baseline_total_branches'') as_i64, Option.bind (jget line ''baseline_covered_branches'') as_i64)
     \<noteq> (Option.bind (jget line ''current_total_branches'') as_i64, Option.bind (jget line ''current_covered_branches'') as_i64)"

definition checked_sub :: "int \<Rightarrow> int \<Rightarrow> int option" where
  "checked_sub a b = (if in_i64 (a - b) then Some (a - b) else None)"

definition branch_gap :: "json \<Rightarrow> string \<Rightarrow> int option" where
  "branch_gap line prefix =
     Option.bind (Option.bind (jget line (prefix @ ''_total_branches'')) as_i64) (\<lambda>tot.
     Option.bind (Option.bind (jget line (prefix @ ''_covered_branches'')) as_i64) (\<lambda>covered. checked_sub tot covered))"

definition incremental_line_category :: "json \<Rightarrow> string" where
  "incremental_line_category line =
     (let baseline_covered = Option.bind (jget line ''baseline_covered'') as_bool;
          current_covered = Option.bind (jget line ''current_covered'') as_bool
      in if baseline_covered = None then ''added''
         else if current_covered = None then ''removed''
         else if baseline_covered = Some False \<and> current_covered = Some True then ''newly_covered''
         else if baseline_covered = Some True \<and> current_covered = Some False then ''regressed''
         else if branch_state_changed line
         then (case (branch_gap line ''baseline'', branch_gap line ''current'') of
                 (Some baseline, Some current) \<Rightarrow>
                   (if current < baseline then ''newly_covered'' else if baseline < current then ''regressed''
                    else ''branch_state_changed'')
               | _ \<Rightarrow> ''branch_state_changed'')
         else if jget line ''baseline_hits'' \<noteq> jget line ''current_hits'' then ''hit_count_only''
         else ''branch_state_changed'')"

text \<open>The figures of one line on one side.\<close>

type_synonym side = "bool \<times> int \<times> int \<times> int"

definition side_of :: "json option \<Rightarrow> side option" where
  "side_of v = map_option (\<lambda>v. (line_bool v ''covered'', file_metric (Some v) ''hits'',
     file_metric (Some v) ''covered_branches'', file_metric (Some v) ''total_branches'')) v"

definition gap_of :: "side option \<Rightarrow> int option" where
  "gap_of s = map_option (\<lambda>(_, _, cb, tb). i64_sub tb cb) s"

definition covered_of :: "side option \<Rightarrow> bool option" where
  "covered_of s = map_option fst s"

definition gap_grew :: "side option \<Rightarrow> side option \<Rightarrow> bool" where
  "gap_grew before after = (case (gap_of after, gap_of before) of (Some c, Some b) \<Rightarrow> b < c | _ \<Rightarrow> False)"

definition line_status :: "side option \<Rightarrow> side option \<Rightarrow> string" where
  "line_status left right =
     (if left = None then ''new''
      else if right = None then ''removed''
      else if covered_of left = Some True \<and> covered_of right = Some False then ''regressed''
      else if covered_of left = Some False \<and> covered_of right = Some True then ''improved''
      else if gap_grew left right then ''regressed''
      else if gap_grew right left then ''improved''
      else ''changed'')"

definition side_json :: "side option \<Rightarrow> (side \<Rightarrow> json) \<Rightarrow> json" where
  "side_json s f = (case s of None \<Rightarrow> JNull | Some x \<Rightarrow> f x)"

definition changed_line :: "string \<times> int \<Rightarrow> side option \<Rightarrow> side option \<Rightarrow> json" where
  "changed_line key left right =
     (let v = jobj [
        (''file_path'', JStr (fst key)), (''line_number'', JInt (snd key)),
        (''baseline_covered'', side_json left (\<lambda>(c, _). JBool c)), (''current_covered'', side_json right (\<lambda>(c, _). JBool c)),
        (''baseline_hits'', side_json left (\<lambda>(_, h, _). JInt h)), (''current_hits'', side_json right (\<lambda>(_, h, _). JInt h)),
        (''baseline_total_branches'', side_json left (\<lambda>(_, _, _, t). JInt t)),
        (''current_total_branches'', side_json right (\<lambda>(_, _, _, t). JInt t)),
        (''baseline_covered_branches'', side_json left (\<lambda>(_, _, b, _). JInt b)),
        (''current_covered_branches'', side_json right (\<lambda>(_, _, b, _). JInt b)),
        (''status'', JStr (line_status left right))]
      in jset v ''category'' (JStr (incremental_line_category v)))"

definition changed_line_values_from_maps :: "line_map \<Rightarrow> line_map \<Rightarrow> string option \<Rightarrow> json list" where
  "changed_line_values_from_maps before after file_path =
     map (\<lambda>key. changed_line key (side_of (bt_get before key)) (side_of (bt_get after key)))
       (filter (\<lambda>key. (case file_path of None \<Rightarrow> True | Some wanted \<Rightarrow> wanted = fst key)
            \<and> side_of (bt_get before key) \<noteq> side_of (bt_get after key))
          (remdups_adj (sort (bt_keys before @ bt_keys after))))"

section \<open>Changed regions\<close>

definition status_order :: "json \<Rightarrow> nat" where
  "status_order v =
     (case Option.bind (case jget v ''category'' of None \<Rightarrow> jget v ''status'' | Some c \<Rightarrow> Some c) as_str of
        None \<Rightarrow> 2
      | Some s \<Rightarrow> (if s = ''regressed'' then 0
          else if s = ''newly_covered'' \<or> s = ''improved'' then 1
          else if s = ''added'' \<or> s = ''new'' then 2
          else if s = ''removed'' then 3
          else 2))"

definition collection_limit :: "nat \<Rightarrow> nat" where
  "collection_limit limit = min (max limit 1) 5001"

text \<open>The path, the group (the category, or else the status) and the number of a changed line; a line without one
  of the first two or without its number is skipped.\<close>

definition grouped_line :: "json \<Rightarrow> ((string \<times> string) \<times> int) option" where
  "grouped_line line =
     Option.bind (Option.bind (jget line ''file_path'') as_str) (\<lambda>path.
     Option.bind (Option.bind (jget line ''status'') as_str) (\<lambda>status.
     let category = (case Option.bind (jget line ''category'') as_str of None \<Rightarrow> status | Some c \<Rightarrow> c) in
     Option.bind (Option.bind (jget line ''line_number'') as_i64) (\<lambda>number. Some ((path, category), number))))"

definition push_number :: "int \<Rightarrow> int list option \<Rightarrow> int list" where
  "push_number n ns = (case ns of None \<Rightarrow> [n] | Some ns \<Rightarrow> ns @ [n])"

definition group_lines :: "json list \<Rightarrow> (string \<times> string, int list) btree" where
  "group_lines lines = foldl (\<lambda>m x. bt_update (fst x) (push_number (snd x)) m) [] (List.map_filter grouped_line lines)"

definition changed_region :: "string \<times> string \<Rightarrow> json \<Rightarrow> json" where
  "changed_region key region =
     jobj [(''file_path'', JStr (fst key)), (''status'', JStr (snd key)), (''category'', JStr (snd key)),
       (''start'', jidx region ''start''), (''end'', jidx region ''end''), (''line_count'', jidx region ''line_count'')]"

definition changed_region_key :: "json \<Rightarrow> nat \<times> string option \<times> int option" where
  "changed_region_key r = (status_order r, Option.bind (jget r ''file_path'') as_str, Option.bind (jget r ''start'') as_i64)"

definition changed_line_regions :: "json list \<Rightarrow> nat \<Rightarrow> json list" where
  "changed_line_regions lines limit =
     take (collection_limit limit) (sort_key changed_region_key
       (concat (map (\<lambda>(key, numbers). map (changed_region key) (line_regions (remdups_adj (sort numbers)))) (group_lines lines))))"

section \<open>The lines a region list stands for\<close>

lemma line_spans_exact:
  assumes "\<forall>n \<in> set ns. 1 \<le> n \<and> n \<le> i64_max"
  shows "all_lines (line_spans ns) = set ns" and "separated (line_spans ns)"
    and "list_all (\<lambda>r. 1 \<le> fst r \<and> range_ok r) (line_spans ns)"
proof -
  let ?rs = "map (\<lambda>n. (n, n)) (remdups_adj (sort ns))"
  have ok: "list_all range_ok ?rs" using assms by (auto simp: list_all_iff range_ok_def)
  have srt: "sorted (map fst ?rs)" by (simp add: o_def)
  note co = coalesce_sorted[OF ok srt]
  show "all_lines (line_spans ns) = set ns"
    using co(1) by (auto simp: line_spans_def all_lines_def range_lines_def)
  show "separated (line_spans ns)" using co(3) by (simp add: line_spans_def)
  have "1 \<le> fst r" if "r \<in> set (line_spans ns)" for r
  proof -
    have "?rs \<noteq> []" using that by (metis coalesce.simps(1) empty_iff empty_set line_spans_def)
    then have "fst (hd ?rs) \<in> set ns" using hd_in_set[of ?rs] by auto
    then show ?thesis using co(4)[of r] that assms by (force simp: line_spans_def)
  qed
  then show "list_all (\<lambda>r. 1 \<le> fst r \<and> range_ok r) (line_spans ns)"
    using co(2) by (auto simp: list_all_iff line_spans_def)
qed

definition json_span :: "json \<Rightarrow> int \<times> int" where
  "json_span r = (file_metric (Some r) ''start'', file_metric (Some r) ''end'')"

lemma json_span_region [simp]:
  assumes "1 \<le> fst r" and "range_ok r"
  shows "json_span (region_json r) = r" and "file_metric (Some (region_json r)) ''line_count'' = snd r - fst r + 1"
  using assms region_length_exact[OF assms]
  by (simp_all add: json_span_def region_json_def file_metric_def range_ok_def i64_max_def in_i64_def)

lemma line_regions_spans:
  assumes "\<forall>n \<in> set ns. 1 \<le> n \<and> n \<le> i64_max"
  shows "map json_span (line_regions ns) = line_spans ns"
proof -
  have "\<forall>r \<in> set (line_spans ns). 1 \<le> fst r \<and> range_ok r"
    using line_spans_exact(3)[OF assms] by (simp add: list_all_iff)
  then show ?thesis by (simp add: line_regions_def map_idI)
qed

lemma line_regions_counts:
  assumes "\<forall>n \<in> set ns. 1 \<le> n \<and> n \<le> i64_max"
  shows "sum_list (map (\<lambda>r. file_metric (Some r) ''line_count'') (line_regions ns)) = int (card (set ns))"
proof -
  have "map (\<lambda>r. file_metric (Some r) ''line_count'') (line_regions ns) = map (\<lambda>r. snd r - fst r + 1) (line_spans ns)"
    using line_spans_exact(3)[OF assms] by (auto simp: line_regions_def list_all_iff)
  then show ?thesis
    using card_separated[OF line_spans_exact(2)[OF assms]] line_spans_exact(1,3)[OF assms]
    by (simp add: list_all_iff)
qed

section \<open>What a changed line says\<close>

lemma file_metric_in_i64 [simp]: "in_i64 (file_metric v k)"
  by (auto simp: file_metric_def in_i64_def split: option.splits bind_splits)

definition branches_ok :: "line_map \<Rightarrow> bool" where
  "branches_ok m \<longleftrightarrow> list_all (\<lambda>(k, v). 0 \<le> file_metric (Some v) ''covered_branches'' \<and> 0 \<le> file_metric (Some v) ''total_branches'') m"

fun side_ok :: "side \<Rightarrow> bool" where
  "side_ok (c, h, b, t) \<longleftrightarrow> in_i64 h \<and> in_i64 b \<and> in_i64 t \<and> 0 \<le> b \<and> 0 \<le> t"

lemma side_of_ok: "branches_ok m \<Longrightarrow> side_of (bt_get m k) = Some x \<Longrightarrow> side_ok x"
  by (auto simp: side_of_def branches_ok_def list_all_iff bt_get_def dest!: map_of_SomeD)

text \<open>A side is worse than another when the line is no longer covered or, with the line's own coverage unchanged,
  when it has more uncovered branches.\<close>

fun worse :: "side \<Rightarrow> side \<Rightarrow> bool" where
  "worse (c, h, b, t) (c', h', b', t') \<longleftrightarrow> c \<and> \<not> c' \<or> c = c' \<and> t - b < t' - b'"

fun same_but_hits :: "side \<Rightarrow> side \<Rightarrow> bool" where
  "same_but_hits (c, h, b, t) (c', h', b', t') \<longleftrightarrow> c = c' \<and> b = b' \<and> t = t' \<and> h \<noteq> h'"

definition verdict :: "side option \<Rightarrow> side option \<Rightarrow> string \<times> string" where
  "verdict left right = (case (left, right) of
      (None, _) \<Rightarrow> (''new'', ''added'')
    | (Some _, None) \<Rightarrow> (''removed'', ''removed'')
    | (Some l, Some r) \<Rightarrow>
        if worse l r then (''regressed'', ''regressed'')
        else if worse r l then (''improved'', ''newly_covered'')
        else if same_but_hits l r then (''changed'', ''hit_count_only'')
        else (''changed'', ''branch_state_changed''))"

lemma gap_exact: "side_ok (c, h, b, t) \<Longrightarrow> i64_sub t b = t - b" "side_ok (c, h, b, t) \<Longrightarrow> in_i64 (t - b)"
  by (auto simp: in_i64_def intro!: i64_sub_exact)

lemma changed_line_fields:
  "jget (changed_line key left right) ''file_path'' = Some (JStr (fst key))"
  "jget (changed_line key left right) ''line_number'' = Some (JInt (snd key))"
  "jget (changed_line key left right) ''status'' = Some (JStr (line_status left right))"
  by (simp_all add: changed_line_def Let_def)

lemma category_of_sides:
  assumes "jget v ''baseline_covered'' = Some (side_json left (\<lambda>(c, _). JBool c))"
    and "jget v ''current_covered'' = Some (side_json right (\<lambda>(c, _). JBool c))"
    and "jget v ''baseline_hits'' = Some (side_json left (\<lambda>(_, h, _). JInt h))"
    and "jget v ''current_hits'' = Some (side_json right (\<lambda>(_, h, _). JInt h))"
    and "jget v ''baseline_total_branches'' = Some (side_json left (\<lambda>(_, _, _, t). JInt t))"
    and "jget v ''current_total_branches'' = Some (side_json right (\<lambda>(_, _, _, t). JInt t))"
    and "jget v ''baseline_covered_branches'' = Some (side_json left (\<lambda>(_, _, b, _). JInt b))"
    and "jget v ''current_covered_branches'' = Some (side_json right (\<lambda>(_, _, b, _). JInt b))"
    and ok: "\<And>x. left = Some x \<Longrightarrow> side_ok x" "\<And>x. right = Some x \<Longrightarrow> side_ok x"
  shows "incremental_line_category v = snd (verdict left right)"
proof (cases left)
  case None
  then show ?thesis using assms(1) by (simp add: incremental_line_category_def verdict_def side_json_def)
next
  case (Some l)
  obtain c h b t where l: "l = (c, h, b, t)" by (cases l)
  show ?thesis
  proof (cases right)
    case None
    then show ?thesis using assms(1,2) Some l by (simp add: incremental_line_category_def verdict_def side_json_def)
  next
    case (Some r)
    obtain c' h' b' t' where r: "r = (c', h', b', t')" by (cases r)
    note lr = \<open>left = Some l\<close> l \<open>right = Some r\<close> r
    have sok: "side_ok (c, h, b, t)" "side_ok (c', h', b', t')" using ok lr by auto
    then have gaps: "branch_gap v ''baseline'' = Some (t - b)" "branch_gap v ''current'' = Some (t' - b')"
      using assms(5-8) gap_exact(2)[of c h b t] gap_exact(2)[of c' h' b' t'] lr
      by (simp_all add: branch_gap_def side_json_def checked_sub_def)
    have chg: "branch_state_changed v \<longleftrightarrow> (t, b) \<noteq> (t', b')"
      using assms(5-8) sok lr by (simp add: branch_state_changed_def side_json_def)
    have hits: "jget v ''baseline_hits'' \<noteq> jget v ''current_hits'' \<longleftrightarrow> h \<noteq> h'"
      using assms(3,4) lr by (simp add: side_json_def)
    have cov: "Option.bind (jget v ''baseline_covered'') as_bool = Some c" "Option.bind (jget v ''current_covered'') as_bool = Some c'"
      using assms(1,2) lr by (simp_all add: side_json_def)
    show ?thesis unfolding incremental_line_category_def cov Let_def chg hits gaps verdict_def lr
      by (auto simp del: side_ok.simps)
  qed
qed

lemma changed_line_verdict:
  assumes "\<And>x. left = Some x \<Longrightarrow> side_ok x" and "\<And>x. right = Some x \<Longrightarrow> side_ok x"
  shows "line_status left right = fst (verdict left right)"
    and "jget (changed_line key left right) ''category'' = Some (JStr (snd (verdict left right)))"
proof -
  show "line_status left right = fst (verdict left right)"
    using assms by (cases left; cases right)
      (auto simp: line_status_def verdict_def covered_of_def gap_grew_def gap_of_def gap_exact simp del: side_ok.simps)
  show "jget (changed_line key left right) ''category'' = Some (JStr (snd (verdict left right)))"
    unfolding changed_line_def Let_def
    by (subst category_of_sides[where left = left and right = right, OF _ _ _ _ _ _ _ _ assms]) simp_all
qed

section \<open>Grouping\<close>

lemma foldl_push_number: "foldl (\<lambda>r x. Some (push_number (snd x) r)) r xs =
   (if xs = [] then r else Some ((case r of None \<Rightarrow> [] | Some ns \<Rightarrow> ns) @ map snd xs))"
  by (induction xs arbitrary: r) (auto simp: push_number_def split: option.splits)

lemma bt_get_group_lines:
  "bt_get (group_lines lines) k =
     (let xs = filter (\<lambda>x. fst x = k) (List.map_filter grouped_line lines) in if xs = [] then None else Some (map snd xs))"
proof -
  have "group_lines lines = foldl (\<lambda>m x. bt_insert (fst x) ((\<lambda>r x. push_number (snd x) r) (bt_get m (fst x)) x) m) []
      (List.map_filter grouped_line lines)"
    by (simp add: group_lines_def bt_update_def)
  then show ?thesis
    using bt.get_fold_update[of "[]" fst "\<lambda>r x. push_number (snd x) r" "List.map_filter grouped_line lines" k]
    by (simp add: foldl_push_number Let_def)
qed

lemma bt_inv_group_lines: "bt_inv (group_lines lines)"
  using bt.inv_fold_update[of "[]" fst "\<lambda>r x. push_number (snd x) r" "List.map_filter grouped_line lines"]
  by (simp add: group_lines_def bt_update_def)

lemma set_map_filter: "set (List.map_filter f xs) = {y. \<exists>x \<in> set xs. f x = Some y}"
  by (force simp: List.map_filter_def)

lemma group_lines_member:
  "(\<exists>ns. (k, ns) \<in> set (group_lines lines) \<and> n \<in> set ns) \<longleftrightarrow> (\<exists>l \<in> set lines. grouped_line l = Some (k, n))"
proof -
  have "(\<exists>ns. (k, ns) \<in> set (group_lines lines) \<and> n \<in> set ns) \<longleftrightarrow> (k, n) \<in> set (List.map_filter grouped_line lines)"
    by (force simp: bt.entries_get[OF bt_inv_group_lines] bt_get_group_lines Let_def filter_empty_conv)
  then show ?thesis by (simp add: set_map_filter)
qed

lemma changed_region_fields [simp]:
  "jget (changed_region key r) ''file_path'' = Some (JStr (fst key))"
  "jget (changed_region key r) ''category'' = Some (JStr (snd key))"
  "jget r ''start'' \<noteq> None \<Longrightarrow> jget r ''end'' \<noteq> None \<Longrightarrow> json_span (changed_region key r) = json_span r"
  by (auto simp: changed_region_def json_span_def file_metric_def jidx_def)

lemma region_json_fields [simp]: "jget (region_json r) ''start'' \<noteq> None" "jget (region_json r) ''end'' \<noteq> None"
  by (simp_all add: region_json_def)

lemma regions_of_group:
  assumes "\<forall>n \<in> set ns. 1 \<le> n \<and> n \<le> i64_max"
  shows "n \<in> set ns \<longleftrightarrow> (\<exists>r \<in> set (line_regions (remdups_adj (sort ns))). n \<in> range_lines (json_span (changed_region key r)))"
proof -
  let ?ns = "remdups_adj (sort ns)"
  have pos: "\<forall>n \<in> set ?ns. 1 \<le> n \<and> n \<le> i64_max" using assms by simp
  have "all_lines (map json_span (line_regions ?ns)) = set ?ns"
    unfolding line_regions_spans[OF pos] by (rule line_spans_exact(1)[OF pos])
  then have "n \<in> set ns \<longleftrightarrow> (\<exists>r \<in> set (line_regions ?ns). n \<in> range_lines (json_span r))"
    unfolding all_lines_def by auto
  then show ?thesis by (auto simp: line_regions_def)
qed

section \<open>Properties\<close>

definition flip_status :: "json \<Rightarrow> json" where
  "flip_status s = (if s = JStr ''new'' then JStr ''removed'' else if s = JStr ''removed'' then JStr ''new''
     else if s = JStr ''regressed'' then JStr ''improved'' else if s = JStr ''improved'' then JStr ''regressed'' else s)"

lemma normalized_ranges_facts:
  assumes "\<forall>r \<in> set rs. snd r \<le> i64_max"
  shows "(\<exists>ns. normalize_line_ranges rs = Inr ns) \<longleftrightarrow> acceptable_ranges rs"
    and "\<forall>ns. normalize_line_ranges rs = Inr ns \<longrightarrow> all_lines ns = all_lines rs \<and> separated ns"
proof -
  have accept: "length rs \<le> 10 \<and> list_all (\<lambda>r. 1 \<le> fst r \<and> fst r \<le> snd r \<and> snd r \<le> i64_max) rs"
    if "normalize_line_ranges rs = Inr ns" for ns
    using that assms mapM_check_range(1)[of rs]
    by (fastforce simp: normalize_line_ranges_def Let_def bindr_eq_Inr list_all_iff split: if_splits)
  show "(\<exists>ns. normalize_line_ranges rs = Inr ns) \<longleftrightarrow> acceptable_ranges rs"
  proof
    assume "\<exists>ns. normalize_line_ranges rs = Inr ns"
    then obtain ns where ns: "normalize_line_ranges rs = Inr ns" ..
    show "acceptable_ranges rs"
      using accept[OF ns] normalize_valid(1)[of rs] ns by (auto simp: acceptable_ranges_def list_all_iff split: if_splits)
  next
    assume acc: "acceptable_ranges rs"
    then have "list_all (\<lambda>r. 1 \<le> fst r \<and> fst r \<le> snd r \<and> snd r \<le> i64_max) rs"
      using assms by (auto simp: acceptable_ranges_def list_all_iff)
    with acc show "\<exists>ns. normalize_line_ranges rs = Inr ns"
      using normalize_valid(1)[of rs] by (simp add: acceptable_ranges_def)
  qed
  show "\<forall>ns. normalize_line_ranges rs = Inr ns \<longrightarrow> all_lines ns = all_lines rs \<and> separated ns"
    using accept normalize_valid[of rs] by (auto split: if_splits)
qed

text \<open>A request for line ranges is accepted exactly when it has at most ten ranges, each with positive
  bounds and not reversed, covering at most 200 distinct lines between them; the accepted ranges select exactly the
  requested lines, in increasing order, pairwise disjoint and not even adjacent.  (A range's end fits in \<open>i64\<close>.)\<close>

theorem line_ranges_normalized:
  assumes "\<forall>r \<in> set rs. snd r \<le> i64_max"
  shows "((\<exists>ns. normalize_line_ranges rs = Inr ns) \<longleftrightarrow> acceptable_ranges rs)
    \<and> (\<forall>ns. normalize_line_ranges rs = Inr ns \<longrightarrow> all_lines ns = all_lines rs \<and> separated ns)"
  using normalized_ranges_facts[OF assms] by blast

theorem line_ranges_normalized_witness:
  "all_lines [(1, 6), (9, 9)] = all_lines [(9, 9), (1, 4), (3, 6)] \<and> separated [(1, 6), (9, 9 :: int)]"
  using line_ranges_normalized[of "[(9, 9), (1, 4), (3, 6)]"]
  by (simp add: i64_max_def normalize_line_ranges_def check_range_def count_range_def sat_succ_def region_length_exact range_ok_def
      region_length_def i64_add_exact i64_sub_exact in_i64_def)

text \<open>The changed-region list, when the limit did not cut it, stands for exactly the changed lines: a line is
  in a listed region of its file and category exactly when the line list has it under that path and category.  The
  list is ordered by importance (regressed lines first), then path, then start line.\<close>

theorem changed_regions_cover:
  assumes "\<forall>l \<in> set lines. \<forall>k n. grouped_line l = Some (k, n) \<longrightarrow> 1 \<le> n"
    and "length (changed_line_regions lines limit) < collection_limit limit"
  shows "(\<exists>l \<in> set lines. grouped_line l = Some ((p, c), n)) \<longleftrightarrow>
      (\<exists>r \<in> set (changed_line_regions lines limit). jget r ''file_path'' = Some (JStr p)
         \<and> jget r ''category'' = Some (JStr c) \<and> n \<in> range_lines (json_span r))"
    and "sorted (map changed_region_key (changed_line_regions lines limit))"
proof -
  let ?all = "concat (map (\<lambda>(key, numbers). map (changed_region key) (line_regions (remdups_adj (sort numbers)))) (group_lines lines))"
  have full: "changed_line_regions lines limit = sort_key changed_region_key ?all"
    using assms(2) by (simp add: changed_line_regions_def min_def split: if_splits)
  show "sorted (map changed_region_key (changed_line_regions lines limit))" by (simp add: full)
  have pos: "\<forall>n \<in> set ns. 1 \<le> n \<and> n \<le> i64_max" if "(k, ns) \<in> set (group_lines lines)" for k ns
  proof
    fix n assume "n \<in> set ns"
    with that have "\<exists>l \<in> set lines. grouped_line l = Some (k, n)" using group_lines_member[of k lines n] by blast
    then obtain l where l: "l \<in> set lines" "grouped_line l = Some (k, n)" ..
    then have "in_i64 n" by (auto simp: grouped_line_def Let_def split: bind_splits)
    with l assms(1) show "1 \<le> n \<and> n \<le> i64_max" by (auto simp: in_i64_def i64_max_def)
  qed
  have "(\<exists>r \<in> set ?all. jget r ''file_path'' = Some (JStr p) \<and> jget r ''category'' = Some (JStr c) \<and> n \<in> range_lines (json_span r))
    \<longleftrightarrow> (\<exists>ns. ((p, c), ns) \<in> set (group_lines lines) \<and>
          (\<exists>r \<in> set (line_regions (remdups_adj (sort ns))). n \<in> range_lines (json_span (changed_region (p, c) r))))"
    by fastforce
  also have "\<dots> \<longleftrightarrow> (\<exists>ns. ((p, c), ns) \<in> set (group_lines lines) \<and> n \<in> set ns)"
    using regions_of_group[OF pos] by blast
  finally show "(\<exists>l \<in> set lines. grouped_line l = Some ((p, c), n)) \<longleftrightarrow>
      (\<exists>r \<in> set (changed_line_regions lines limit). jget r ''file_path'' = Some (JStr p)
         \<and> jget r ''category'' = Some (JStr c) \<and> n \<in> range_lines (json_span r))"
    by (simp add: full group_lines_member)
qed

definition sample_lines :: "json list" where
  "sample_lines = map (\<lambda>n. jobj [(''file_path'', JStr ''a.rs''), (''line_number'', JInt n), (''status'', JStr ''regressed'')]) [3, 4, 9]"

theorem changed_regions_cover_witness:
  "\<exists>r \<in> set (changed_line_regions sample_lines 10). jget r ''file_path'' = Some (JStr ''a.rs'')
     \<and> jget r ''category'' = Some (JStr ''regressed'') \<and> 4 \<in> range_lines (json_span r)"
proof -
  have lines: "\<forall>l \<in> set sample_lines. \<forall>k n. grouped_line l = Some (k, n) \<longrightarrow> 1 \<le> n"
    by (auto simp: sample_lines_def grouped_line_def Let_def)
  have len: "length (changed_line_regions sample_lines 10) < collection_limit 10" by code_simp
  have "\<exists>l \<in> set sample_lines. grouped_line l = Some ((''a.rs'', ''regressed''), 4)" by code_simp
  then show ?thesis using changed_regions_cover(1)[OF lines len] by blast
qed

text \<open>The lines reported as changed between two snapshots are exactly those, of the selected file, whose
  coverage, hits or branch figures differ, each once and in increasing order.  A reported line is marked regressed
  when it lost coverage or has more uncovered branches, improved (newly covered) in the reverse case, new or removed
  when only one snapshot has it, and otherwise changed, with the category telling a change of hits only from a
  change of branches; the status and the category always agree.\<close>

theorem changed_lines_exact:
  assumes "branches_ok before" and "branches_ok after"
  shows "\<exists>keys. sorted_wrt (<) keys
    \<and> set keys = {k. side_of (bt_get before k) \<noteq> side_of (bt_get after k) \<and> (file_path = None \<or> file_path = Some (fst k))}
    \<and> map (\<lambda>v. (jidx v ''file_path'', jidx v ''line_number'', jidx v ''status'', jidx v ''category'')) (changed_line_values_from_maps before after file_path)
      = map (\<lambda>k. let w = verdict (side_of (bt_get before k)) (side_of (bt_get after k))
                 in (JStr (fst k), JInt (snd k), JStr (fst w), JStr (snd w))) keys"
proof -
  let ?P = "\<lambda>key. (case file_path of None \<Rightarrow> True | Some wanted \<Rightarrow> wanted = fst key)
            \<and> side_of (bt_get before key) \<noteq> side_of (bt_get after key)"
  let ?keys = "filter ?P (remdups_adj (sort (bt_keys before @ bt_keys after)))"
  have strict: "sorted_wrt (<) ?keys" by (intro sorted_wrt_filter strict_sorted_dedup sorted_sort)
  have known: "k \<in> set (bt_keys before @ bt_keys after)" if "side_of (bt_get before k) \<noteq> side_of (bt_get after k)" for k
    using that by (auto simp: bt_keys_def bt_get_def map_of_eq_None_iff) (metis map_of_eq_None_iff)
  have keys: "set ?keys = {k. side_of (bt_get before k) \<noteq> side_of (bt_get after k) \<and> (file_path = None \<or> file_path = Some (fst k))}"
    using known by (cases file_path) auto
  have row: "(jidx v ''file_path'', jidx v ''line_number'', jidx v ''status'', jidx v ''category'') =
      (let w = verdict (side_of (bt_get before k)) (side_of (bt_get after k)) in (JStr (fst k), JInt (snd k), JStr (fst w), JStr (snd w)))"
    if "v = changed_line k (side_of (bt_get before k)) (side_of (bt_get after k))" for v k
    using that changed_line_verdict[OF side_of_ok[OF assms(1)] side_of_ok[OF assms(2)]]
    by (simp add: jidx_def changed_line_fields Let_def)
  show ?thesis
    using strict keys row by (intro exI[of _ ?keys] conjI) (simp_all add: changed_line_values_from_maps_def)
qed

theorem changed_lines_exact_witness:
  "\<exists>keys. set keys = {(''a.rs'', 1)}
    \<and> map (\<lambda>v. (jidx v ''file_path'', jidx v ''line_number'', jidx v ''status'', jidx v ''category''))
        (changed_line_values_from_maps [((''a.rs'', 1), jobj [(''covered'', JBool True)])] [((''a.rs'', 1), jobj [(''covered'', JBool False)])] None)
      = map (\<lambda>k. (JStr (fst k), JInt (snd k), JStr ''regressed'', JStr ''regressed'')) keys"
proof -
  let ?b = "[((''a.rs'', 1), jobj [(''covered'', JBool True)])]" and ?a = "[((''a.rs'', 1), jobj [(''covered'', JBool False)])]"
  have ok: "branches_ok ?b" "branches_ok ?a" by (simp_all add: branches_ok_def file_metric_def)
  have differ: "side_of (bt_get ?b k) \<noteq> side_of (bt_get ?a k) \<longleftrightarrow> k = (''a.rs'', 1)" for k
    by (auto simp: bt_get_def side_of_def line_bool_def)
  have v: "verdict (side_of (bt_get ?b k)) (side_of (bt_get ?a k)) = (''regressed'', ''regressed'')" if "k = (''a.rs'', 1)" for k
    using that by (simp add: bt_get_def side_of_def line_bool_def file_metric_def verdict_def)
  obtain keys where keys: "set keys = {k. side_of (bt_get ?b k) \<noteq> side_of (bt_get ?a k) \<and> (None = (None :: string option) \<or> None = Some (fst k))}"
    and rows: "map (\<lambda>v. (jidx v ''file_path'', jidx v ''line_number'', jidx v ''status'', jidx v ''category'')) (changed_line_values_from_maps ?b ?a None)
      = map (\<lambda>k. let w = verdict (side_of (bt_get ?b k)) (side_of (bt_get ?a k)) in (JStr (fst k), JInt (snd k), JStr (fst w), JStr (snd w))) keys"
    using changed_lines_exact[OF ok, of None] by blast
  have set: "set keys = {(''a.rs'', 1)}" using keys by (simp add: differ)
  then show ?thesis unfolding rows by (intro exI[of _ keys] conjI) (auto simp: v Let_def)
qed

text \<open>Comparing in the other direction reports the same lines with the statuses reversed: new and removed
  swapped, regressed and improved swapped.\<close>

theorem changed_lines_reversed:
  "map (\<lambda>v. (jidx v ''file_path'', jidx v ''line_number'', jidx v ''status'')) (changed_line_values_from_maps after before file_path)
   = map (\<lambda>v. (jidx v ''file_path'', jidx v ''line_number'', flip_status (jidx v ''status''))) (changed_line_values_from_maps before after file_path)"
proof -
  have flip: "JStr (line_status r l) = flip_status (JStr (line_status l r))" if "l \<noteq> r" for l r
    using that by (cases l; cases r) (auto simp: line_status_def flip_status_def covered_of_def gap_grew_def gap_of_def split: option.splits)
  have keys: "remdups_adj (sort (bt_keys after @ bt_keys before)) = remdups_adj (sort (bt_keys before @ bt_keys after))"
    by (rule arg_cong[of _ _ remdups_adj], rule properties_for_sort) simp_all
  show ?thesis
    unfolding changed_line_values_from_maps_def keys map_map
    by (rule map_cong) (auto simp: jidx_def changed_line_fields flip intro!: filter_cong)
qed

end
