(* ===== verification/Union.thy ===== *)
theory Union
  imports Regions Models
begin

text \<open>
  The union of a baseline snapshot with the snapshots of an incremental run (\<open>src/src/storage.rs\<close>): per file, the
  lines by number and the branches, functions and regions by the identities LLVM reports, with a fallback on the
  file's own figures when the detail is not complete; then the snapshot's totals, its file rows and the lines the
  run newly covers.  The rows the store returns are arguments.  Sets of identities are HOL sets: the code only
  inserts into them, unites them and counts.
\<close>

section \<open>Merged figures\<close>

record metric_merge =
  mm_total :: int
  mm_covered :: int
  mm_newly_covered :: int
  mm_exact :: bool

definition merge_default :: metric_merge where
  "merge_default = \<lparr>mm_total = 0, mm_covered = 0, mm_newly_covered = 0, mm_exact = True\<rparr>"

definition sat_add :: "int \<Rightarrow> int \<Rightarrow> int" where
  "sat_add a b = max (- (2 ^ 63)) (min (a + b) i64_max)"

definition sat_sub :: "int \<Rightarrow> int \<Rightarrow> int" where
  "sat_sub a b = max (- (2 ^ 63)) (min (a - b) i64_max)"

definition merge_add :: "metric_merge \<Rightarrow> metric_merge \<Rightarrow> metric_merge" where
  "merge_add self other =
     \<lparr>mm_total = sat_add (mm_total self) (mm_total other), mm_covered = sat_add (mm_covered self) (mm_covered other),
      mm_newly_covered = sat_add (mm_newly_covered self) (mm_newly_covered other), mm_exact = (mm_exact self \<and> mm_exact other)\<rparr>"

definition files_by_path :: "json list \<Rightarrow> (string, json) btree" where
  "files_by_path files = bt_of_list (List.map_filter (\<lambda>f. map_option (\<lambda>p. (p, f)) (Option.bind (jget f ''file_path'') as_str)) files)"

text \<open>\<open>iter().max().unwrap_or(0)\<close>.\<close>

fun max_or_zero :: "int list \<Rightarrow> int" where
  "max_or_zero [] = 0"
| "max_or_zero (x # xs) = foldl max x xs"

section \<open>Lines\<close>

definition merge_line_metric :: "(string, json) btree \<Rightarrow> (string, json) btree \<Rightarrow> string \<Rightarrow> (string, json) btree" where
  "merge_line_metric line existing k =
     bt_insert k (JInt (max (file_metric (Some (JObj existing)) k) (file_metric (Some (JObj line)) k))) existing"

definition merge_line_flag :: "(string, json) btree \<Rightarrow> (string, json) btree \<Rightarrow> string \<Rightarrow> (string, json) btree" where
  "merge_line_flag line existing k =
     bt_insert k (JBool (line_bool (JObj existing) k \<or> line_bool (JObj line) k)) existing"

definition merge_line :: "json \<Rightarrow> json \<Rightarrow> json" where
  "merge_line existing line =
     (case (as_object existing, as_object line) of
        (Some e, Some l) \<Rightarrow>
          JObj (foldl (merge_line_flag l)
            (foldl (merge_line_metric l) e [''hits'', ''total_branches'', ''covered_branches'', ''total_functions'', ''covered_functions''])
            [''covered'', ''count_line''])
      | _ \<Rightarrow> existing)"

definition merge_line_maps :: "line_map list \<Rightarrow> line_map" where
  "merge_line_maps maps =
     foldl (foldl (\<lambda>merged (key, line). bt_update key (\<lambda>old. case old of None \<Rightarrow> line | Some existing \<Rightarrow> merge_line existing line) merged)) [] maps"

definition path_keys :: "string \<Rightarrow> line_map \<Rightarrow> (string \<times> int) list" where
  "path_keys path lines = filter (\<lambda>k. fst k = path) (bt_keys lines)"

definition line_detail_matches_file_summary :: "string \<Rightarrow> line_map \<Rightarrow> json option \<Rightarrow> bool" where
  "line_detail_matches_file_summary path lines file' =
     (case file' of
        None \<Rightarrow> True
      | Some f \<Rightarrow>
          (let counted = filter (\<lambda>(k, v). fst k = path \<and> line_bool v ''count_line'') lines in
           int (length counted) = file_metric (Some f) ''total_lines''
           \<and> int (length (filter (\<lambda>(k, v). line_bool v ''covered'') counted)) = file_metric (Some f) ''covered_lines''))"

definition line_has :: "string \<Rightarrow> (string \<times> int) \<Rightarrow> line_map \<Rightarrow> bool" where
  "line_has flag key lines = (case bt_get lines key of None \<Rightarrow> False | Some v \<Rightarrow> line_bool v flag)"

text \<open>The loop over the keys of the path: every counted line adds to the figures.\<close>

definition union_line :: "line_map \<Rightarrow> line_map list \<Rightarrow> metric_merge \<times> bool \<Rightarrow> (string \<times> int) \<Rightarrow> metric_merge \<times> bool" where
  "union_line baseline_lines current_lines state key =
     (let (m, has_counted) = state;
          count_line = (line_has ''count_line'' key baseline_lines \<or> list_ex (line_has ''count_line'' key) current_lines)
      in if \<not> count_line then (m, has_counted)
         else let before_covered = line_has ''covered'' key baseline_lines;
                  after_covered = list_ex (line_has ''covered'' key) current_lines
              in (m\<lparr>mm_total := mm_total m + 1,
                    mm_covered := mm_covered m + i64_of_bool (before_covered \<or> after_covered),
                    mm_newly_covered := mm_newly_covered m + i64_of_bool (after_covered \<and> \<not> before_covered)\<rparr>, True))"

definition union_keys :: "string \<Rightarrow> line_map \<Rightarrow> line_map list \<Rightarrow> (string \<times> int) list" where
  "union_keys path baseline_lines current_lines =
     remdups_adj (sort (path_keys path baseline_lines @ concat (map (path_keys path) current_lines)))"

definition current_max :: "string \<Rightarrow> json list \<Rightarrow> int" where
  "current_max k current_files = max_or_zero (map (\<lambda>f. file_metric (Some f) k) current_files)"

definition union_line_metric_many :: "string \<Rightarrow> line_map \<Rightarrow> line_map list \<Rightarrow> json option \<Rightarrow> json list \<Rightarrow> metric_merge" where
  "union_line_metric_many path baseline_lines current_lines baseline_file current_files =
     (let (m, has_counted) = foldl (union_line baseline_lines current_lines) (merge_default, False)
            (union_keys path baseline_lines current_lines) in
      if has_counted then
        (let baseline_complete = line_detail_matches_file_summary path baseline_lines baseline_file;
             current_complete = (if current_files = [] then True
               else if length current_files \<noteq> length current_lines then False
               else list_all (\<lambda>(lines, f). line_detail_matches_file_summary path lines (Some f)) (zip current_lines current_files))
         in if baseline_complete \<and> current_complete then m
            else let tot = max (max (mm_total m) (file_metric baseline_file ''total_lines'')) (current_max ''total_lines'' current_files)
                 in m\<lparr>mm_total := tot,
                      mm_covered := min (max (max (mm_covered m) (file_metric baseline_file ''covered_lines''))
                        (current_max ''covered_lines'' current_files)) tot,
                      mm_exact := False\<rparr>)
      else let tot = max (file_metric baseline_file ''total_lines'') (current_max ''total_lines'' current_files)
           in m\<lparr>mm_total := tot,
                mm_covered := min (max (file_metric baseline_file ''covered_lines'') (current_max ''covered_lines'' current_files)) tot,
                mm_exact := (tot = 0)\<rparr>)"

section \<open>Branches, functions and regions\<close>

record unit_set =
  us_total :: "string set"
  us_covered :: "string set"

definition no_units :: unit_set where
  "no_units = \<lparr>us_total = {}, us_covered = {}\<rparr>"

text \<open>A unit is inserted, and counted as covered when its execution count is positive.\<close>

definition add_unit :: "string \<Rightarrow> bool \<Rightarrow> unit_set \<Rightarrow> unit_set" where
  "add_unit key hit u =
     u\<lparr>us_total := insert key (us_total u), us_covered := (if hit then insert key (us_covered u) else us_covered u)\<rparr>"

definition llvm_function_region_values :: "json \<Rightarrow> string \<Rightarrow> json list res" where
  "llvm_function_region_values v kind =
     bindr (ok_or (as_array v) (Runtime (''LLVM function '' @ kind @ '' must be an array''))) (\<lambda>vs.
     if length vs < 8 then Inl (Runtime (''LLVM function '' @ kind @ '' must contain source range and coverage fields''))
     else Inr vs)"

definition required_llvm_i64 :: "json option \<Rightarrow> string \<Rightarrow> int res" where
  "required_llvm_i64 v context =
     ok_or (case Option.bind v as_i64 of
              Some n \<Rightarrow> Some n
            | None \<Rightarrow> Option.bind (Option.bind v as_u64) (\<lambda>n. if in_i64 n then Some n else None))
       (Runtime (context @ '' must be an integer''))"

definition region_unit :: "string \<Rightarrow> nat \<Rightarrow> json list \<Rightarrow> unit_set \<Rightarrow> unit_set res" where
  "region_unit name index vs u =
     bindr (required_llvm_i64 (nth_opt vs 0) ''LLVM range start line'') (\<lambda>a.
     bindr (required_llvm_i64 (nth_opt vs 1) ''LLVM range start column'') (\<lambda>b.
     bindr (required_llvm_i64 (nth_opt vs 2) ''LLVM range end line'') (\<lambda>c.
     bindr (required_llvm_i64 (nth_opt vs 3) ''LLVM range end column'') (\<lambda>d.
     bindr (required_llvm_i64 (nth_opt vs 7) ''LLVM region kind'') (\<lambda>k.
     bindr (required_llvm_i64 (nth_opt vs 4) ''LLVM region execution count'') (\<lambda>n.
     Inr (add_unit (''llvm:'' @ name @ '':region:'' @ join_with '':'' (map show_int [int index, a, b, c, d, k])) (0 < n) u)))))))"

definition branch_arm :: "string \<Rightarrow> json list \<Rightarrow> unit_set \<Rightarrow> string \<times> nat \<Rightarrow> unit_set res" where
  "branch_arm prefix vs u arm =
     bindr (required_llvm_i64 (nth_opt vs (snd arm)) ''LLVM branch execution count'') (\<lambda>n.
     Inr (add_unit (prefix @ '':'' @ fst arm) (0 < n) u))"

definition branch_unit :: "string \<Rightarrow> nat \<Rightarrow> json list \<Rightarrow> unit_set \<Rightarrow> unit_set res" where
  "branch_unit name index vs u =
     bindr (required_llvm_i64 (nth_opt vs 0) ''LLVM branch start line'') (\<lambda>a.
     bindr (required_llvm_i64 (nth_opt vs 1) ''LLVM branch start column'') (\<lambda>b.
     bindr (required_llvm_i64 (nth_opt vs 2) ''LLVM branch end line'') (\<lambda>c.
     bindr (required_llvm_i64 (nth_opt vs 3) ''LLVM branch end column'') (\<lambda>d.
     foldM (branch_arm (''llvm:'' @ name @ '':branch:'' @ join_with '':'' (map show_int [int index, a, b, c, d])) vs) u
       [(''true'', 4), (''false'', 5)]))))"

definition entry_unit :: "string \<Rightarrow> string \<Rightarrow> nat \<Rightarrow> unit_set \<Rightarrow> nat \<times> json \<Rightarrow> unit_set res" where
  "entry_unit m name file_index u entry =
     bindr (llvm_function_region_values (snd entry) (if m = ''regions'' then ''region'' else ''branch'')) (\<lambda>vs.
     bindr (required_llvm_i64 (nth_opt vs (if m = ''regions'' then 5 else 6)) ''LLVM coverage file id'') (\<lambda>file_id.
     if file_id \<noteq> int file_index then Inr u
     else if m = ''regions'' then region_unit name (fst entry) vs u
     else branch_unit name (fst entry) vs u))"

definition unit_file_index :: "canon \<Rightarrow> string \<Rightarrow> string \<Rightarrow> json list \<Rightarrow> nat" where
  "unit_file_index canon file_path repo_path filenames =
     (case find (\<lambda>(i, f). case as_str f of
               None \<Rightarrow> False
             | Some filename \<Rightarrow> normalize_report_path canon filename (Some repo_path) = file_path \<or> filename = file_path)
           (enumerate 0 filenames) of
        None \<Rightarrow> 0
      | Some (i, _) \<Rightarrow> i)"

definition llvm_function_unit :: "canon \<Rightarrow> string \<Rightarrow> string \<Rightarrow> string \<Rightarrow> unit_set \<Rightarrow> json \<Rightarrow> unit_set res" where
  "llvm_function_unit canon file_path repo_path m u fn =
     bindr (ok_or (as_object fn) (Runtime ''LLVM function metrics must contain objects'')) (\<lambda>object.
     bindr (ok_or (Option.bind (Option.bind (bt_get object ''name'') as_str) (\<lambda>n. if n = [] then None else Some n))
       (Runtime ''LLVM function metrics are missing name'')) (\<lambda>name.
     if m = ''functions'' then
       bindr (required_llvm_i64 (bt_get object ''count'') ''LLVM function execution count'') (\<lambda>n.
       Inr (add_unit (''llvm:function:'' @ name) (0 < n) u))
     else
       bindr (ok_or (Option.bind (bt_get object ''filenames'') as_array) (Runtime ''LLVM function metrics are missing filenames'')) (\<lambda>filenames.
       let file_index = unit_file_index canon file_path repo_path filenames in
       if m \<noteq> ''regions'' \<and> m \<noteq> ''branches'' then Inr u
       else (case bt_get object m of
               None \<Rightarrow> Inr u
             | Some entries \<Rightarrow>
                 bindr (ok_or (as_array entries) (Runtime (''LLVM function '' @ m @ '' must be an array''))) (\<lambda>entries.
                 foldM (entry_unit m name file_index) u (enumerate 0 entries))))))"

definition llvm_function_units :: "canon \<Rightarrow> string \<Rightarrow> string \<Rightarrow> json \<Rightarrow> string \<Rightarrow> unit_set res" where
  "llvm_function_units canon file_path repo_path functions m =
     bindr (ok_or (as_array functions) (Runtime ''LLVM function metrics must be an array'')) (\<lambda>fns.
     foldM (llvm_function_unit canon file_path repo_path m) no_units fns)"

definition file_branch_unit :: "unit_set \<Rightarrow> nat \<times> json \<Rightarrow> unit_set res" where
  "file_branch_unit u entry =
     bindr (ok_or (as_object (snd entry)) (Runtime ''LLVM file branch metrics must be objects'')) (\<lambda>object.
     bindr (required_llvm_i64 (bt_get object ''true_hits'') ''LLVM true branch count'') (\<lambda>true_hits.
     bindr (required_llvm_i64 (bt_get object ''false_hits'') ''LLVM false branch count'') (\<lambda>false_hits.
     let key = ''llvm:file-branch:'' @ show_int (int (fst entry)) in
     Inr (add_unit (key @ '':false'') (0 < false_hits) (add_unit (key @ '':true'') (0 < true_hits) u)))))"

definition llvm_file_branch_units :: "json \<Rightarrow> unit_set res" where
  "llvm_file_branch_units v =
     bindr (ok_or (as_array v) (Runtime ''LLVM file branches must be an array'')) (\<lambda>branches.
     foldM file_branch_unit no_units (enumerate 0 branches))"

definition coverage_units :: "canon \<Rightarrow> string \<Rightarrow> string \<Rightarrow> json option \<Rightarrow> string \<Rightarrow> unit_set option res" where
  "coverage_units canon file_path repo_path file' m =
     (case file' of
        None \<Rightarrow> Inr (Some no_units)
      | Some f \<Rightarrow>
          (case Option.bind (jget f ''raw_metrics'') as_object of
             None \<Rightarrow> Inr None
           | Some raw \<Rightarrow>
               (case (if m = ''branches'' then bt_get raw ''llvm_branches'' else None) of
                  Some branches \<Rightarrow> bindr (llvm_file_branch_units branches) (\<lambda>u. Inr (Some u))
                | None \<Rightarrow>
                    (case bt_get raw ''llvm_functions'' of
                       Some functions \<Rightarrow> bindr (llvm_function_units canon file_path repo_path functions m) (\<lambda>u. Inr (Some u))
                     | None \<Rightarrow> Inr None))))"

definition units_match :: "unit_set option \<Rightarrow> int \<Rightarrow> bool" where
  "units_match units expected_total =
     (case units of Some u \<Rightarrow> int (card (us_total u)) = expected_total | None \<Rightarrow> expected_total = 0)"

definition unit_totals :: "unit_set option list \<Rightarrow> string set" where
  "unit_totals us = \<Union> (set (map us_total (List.map_filter id us)))"

definition unit_covered :: "unit_set option list \<Rightarrow> string set" where
  "unit_covered us = \<Union> (set (map us_covered (List.map_filter id us)))"

definition union_metric_for_file_many ::
  "canon \<Rightarrow> string \<Rightarrow> string \<Rightarrow> string \<Rightarrow> json option \<Rightarrow> json list \<Rightarrow> metric_merge res" where
  "union_metric_for_file_many canon file_path repo_path m baseline_file current_files =
     (let total_key = ''total_'' @ m;
          covered_key = ''covered_'' @ m;
          baseline_total = file_metric baseline_file total_key;
          current_total = current_max total_key current_files in
      bindr (coverage_units canon file_path repo_path baseline_file m) (\<lambda>baseline_units.
      bindr (mapM (\<lambda>f. coverage_units canon file_path repo_path (Some f) m) current_files) (\<lambda>current_units.
      if units_match baseline_units baseline_total
         \<and> list_all (\<lambda>(units, f). units_match units (file_metric (Some f) total_key)) (zip current_units current_files)
      then (let base = (case baseline_units of None \<Rightarrow> no_units | Some u \<Rightarrow> u) in
        Inr \<lparr>mm_total = int (card (us_total base \<union> unit_totals current_units)),
             mm_covered = int (card (us_covered base \<union> unit_covered current_units)),
             mm_newly_covered = int (card (unit_covered current_units - us_covered base)), mm_exact = True\<rparr>)
      else (let tot = max baseline_total current_total in
        Inr \<lparr>mm_total = tot,
             mm_covered = min (max (file_metric baseline_file covered_key) (current_max covered_key current_files)) tot,
             mm_newly_covered = sat_sub (current_max covered_key current_files) (file_metric baseline_file covered_key),
             mm_exact = (tot = 0)\<rparr>))))"

section \<open>What the line union counts\<close>

definition counted :: "line_map \<Rightarrow> line_map list \<Rightarrow> (string \<times> int) \<Rightarrow> bool" where
  "counted bl cl k \<longleftrightarrow> line_has ''count_line'' k bl \<or> (\<exists>l \<in> set cl. line_has ''count_line'' k l)"

definition run_covers :: "line_map list \<Rightarrow> (string \<times> int) \<Rightarrow> bool" where
  "run_covers cl k \<longleftrightarrow> (\<exists>l \<in> set cl. line_has ''covered'' k l)"

definition union_counted :: "string \<Rightarrow> line_map \<Rightarrow> line_map list \<Rightarrow> (string \<times> int) set" where
  "union_counted path bl cl = {k. fst k = path \<and> counted bl cl k}"

definition union_covered :: "string \<Rightarrow> line_map \<Rightarrow> line_map list \<Rightarrow> (string \<times> int) set" where
  "union_covered path bl cl = {k \<in> union_counted path bl cl. line_has ''covered'' k bl \<or> run_covers cl k}"

definition union_gained :: "string \<Rightarrow> line_map \<Rightarrow> line_map list \<Rightarrow> (string \<times> int) set" where
  "union_gained path bl cl = {k \<in> union_counted path bl cl. run_covers cl k \<and> \<not> line_has ''covered'' k bl}"

lemma foldl_union_line:
  "foldl (union_line bl cl) (m, h) ks =
     (m\<lparr>mm_total := mm_total m + int (length (filter (counted bl cl) ks)),
        mm_covered := mm_covered m + int (length (filter (\<lambda>k. counted bl cl k \<and> (line_has ''covered'' k bl \<or> run_covers cl k)) ks)),
        mm_newly_covered := mm_newly_covered m + int (length (filter (\<lambda>k. counted bl cl k \<and> run_covers cl k \<and> \<not> line_has ''covered'' k bl) ks))\<rparr>,
      h \<or> (\<exists>k \<in> set ks. counted bl cl k))"
proof (induction ks arbitrary: m h)
  case (Cons k ks)
  have step: "union_line bl cl (m, h) k =
      (if counted bl cl k
       then (m\<lparr>mm_total := mm_total m + 1, mm_covered := mm_covered m + i64_of_bool (line_has ''covered'' k bl \<or> run_covers cl k),
              mm_newly_covered := mm_newly_covered m + i64_of_bool (run_covers cl k \<and> \<not> line_has ''covered'' k bl)\<rparr>, True)
       else (m, h))"
    by (simp add: union_line_def counted_def run_covers_def list_ex_iff Let_def)
  show ?case by (simp add: step Cons.IH i64_of_bool_def)
qed simp

lemma line_has_key: "line_has flag k l \<Longrightarrow> k \<in> set (bt_keys l)"
  by (auto simp: line_has_def bt_get_def bt_keys_def split: option.splits dest: map_of_SomeD)
     (metis fst_conv image_eqI map_of_SomeD)

lemma set_union_keys: "set (union_keys path bl cl) = {k. fst k = path \<and> (k \<in> set (bt_keys bl) \<or> (\<exists>l \<in> set cl. k \<in> set (bt_keys l)))}"
  by (auto simp: union_keys_def path_keys_def)

lemma distinct_union_keys: "distinct (union_keys path bl cl)"
  using strict_sorted_dedup[OF sorted_sort] strict_sorted_iff unfolding union_keys_def by blast

lemma length_filter_card: "distinct xs \<Longrightarrow> length (filter P xs) = card {x \<in> set xs. P x}"
  by (metis distinct_card distinct_filter set_filter)

lemma counted_known: "counted bl cl k \<Longrightarrow> k \<in> set (bt_keys bl) \<or> (\<exists>l \<in> set cl. k \<in> set (bt_keys l))"
  unfolding counted_def by (blast dest: line_has_key)

lemma union_key_sets:
  "{k \<in> set (union_keys path bl cl). counted bl cl k} = union_counted path bl cl"
  "{k \<in> set (union_keys path bl cl). counted bl cl k \<and> (line_has ''covered'' k bl \<or> run_covers cl k)} = union_covered path bl cl"
  "{k \<in> set (union_keys path bl cl). counted bl cl k \<and> run_covers cl k \<and> \<not> line_has ''covered'' k bl} = union_gained path bl cl"
  by (auto simp: set_union_keys union_counted_def union_covered_def union_gained_def dest: counted_known)

lemma finite_union_counted [simp]: "finite (union_counted path bl cl)"
  unfolding union_key_sets(1)[symmetric] by simp

lemma line_set_bounds:
  "union_gained path bl cl \<subseteq> union_covered path bl cl" "union_covered path bl cl \<subseteq> union_counted path bl cl"
  by (auto simp: union_gained_def union_covered_def)

lemma line_card_bounds:
  "card (union_gained path bl cl) \<le> card (union_covered path bl cl)" "card (union_covered path bl cl) \<le> card (union_counted path bl cl)"
  by (rule card_mono[OF finite_subset[OF line_set_bounds(2)] line_set_bounds(1)], simp)
     (rule card_mono[OF _ line_set_bounds(2)], simp)

definition detail_complete :: "string \<Rightarrow> line_map \<Rightarrow> line_map list \<Rightarrow> json option \<Rightarrow> json list \<Rightarrow> bool" where
  "detail_complete path bl cl bf cf \<longleftrightarrow> line_detail_matches_file_summary path bl bf
     \<and> (cf = [] \<or> length cf = length cl \<and> list_all (\<lambda>(lines, f). line_detail_matches_file_summary path lines (Some f)) (zip cl cf))"

lemma union_line_metric_many_eq:
  "union_line_metric_many path bl cl bf cf =
     (let tot = max (file_metric bf ''total_lines'') (current_max ''total_lines'' cf);
          cov = max (file_metric bf ''covered_lines'') (current_max ''covered_lines'' cf);
          n = int (card (union_counted path bl cl)); c = int (card (union_covered path bl cl)); g = int (card (union_gained path bl cl))
      in if union_counted path bl cl \<noteq> {} \<and> detail_complete path bl cl bf cf
         then \<lparr>mm_total = n, mm_covered = c, mm_newly_covered = g, mm_exact = True\<rparr>
         else if union_counted path bl cl \<noteq> {}
         then \<lparr>mm_total = max n tot, mm_covered = min (max c cov) (max n tot), mm_newly_covered = g, mm_exact = False\<rparr>
         else \<lparr>mm_total = tot, mm_covered = min cov tot, mm_newly_covered = 0, mm_exact = (tot = 0)\<rparr>)"
proof -
  have some: "(\<exists>k \<in> set (union_keys path bl cl). counted bl cl k) \<longleftrightarrow> union_counted path bl cl \<noteq> {}"
    using union_key_sets(1)[of path bl cl] by blast
  have gained: "union_counted path bl cl = {} \<Longrightarrow> union_gained path bl cl = {}" by (simp add: union_gained_def)
  have complete: "detail_complete path bl cl bf cf \<longleftrightarrow> line_detail_matches_file_summary path bl bf
     \<and> (if cf = [] then True else if length cf \<noteq> length cl then False
        else list_all (\<lambda>(lines, f). line_detail_matches_file_summary path lines (Some f)) (zip cl cf))"
    by (simp add: detail_complete_def)
  show ?thesis
    unfolding union_line_metric_many_def foldl_union_line length_filter_card[OF distinct_union_keys] union_key_sets some Let_def prod.case complete[symmetric]
    by (cases "union_counted path bl cl = {}"; cases "detail_complete path bl cl bf cf")
       (simp_all only: Let_def prod.case merge_default_def gained max.assoc if_True if_False simp_thms metric_merge.simps
         metric_merge.update_convs add_0 card.empty of_nat_0)
qed

lemma line_has_distinct:
  assumes "distinct (map fst lines)"
  shows "line_has flag k lines \<longleftrightarrow> (\<exists>v. (k, v) \<in> set lines \<and> line_bool v flag)"
proof -
  have iff: "map_of lines k = Some v \<longleftrightarrow> (k, v) \<in> set lines" for v using assms by (rule map_of_eq_Some_iff)
  have "line_has flag k lines \<longleftrightarrow> (\<exists>v. map_of lines k = Some v \<and> line_bool v flag)"
    by (auto simp: line_has_def bt_get_def split: option.splits)
  then show ?thesis by (simp only: iff)
qed

lemma mem_fst_image: "k \<in> fst ` {x \<in> A. P x} \<longleftrightarrow> (\<exists>v. (k, v) \<in> A \<and> P (k, v))"
  by force

lemma detail_counts:
  assumes "distinct (map fst lines)"
  shows "int (length (filter (\<lambda>(k, v). fst k = path \<and> line_bool v ''count_line'') lines)) = int (card (union_counted path lines []))"
    and "int (length (filter (\<lambda>(k, v). line_bool v ''covered'') (filter (\<lambda>(k, v). fst k = path \<and> line_bool v ''count_line'') lines)))
      = int (card (union_covered path lines []))"
proof -
  note has = line_has_distinct[OF assms]
  have len: "length (filter P lines) = card (fst ` {x \<in> set lines. P x})" for P
  proof -
    have "distinct (map fst (filter P lines))" using assms by (rule distinct_map_filter)
    then have "length (filter P lines) = card (set (map fst (filter P lines)))" by (metis distinct_card length_map)
    then show ?thesis by simp
  qed
  have uniq: "v = w" if "(k, v) \<in> set lines" "(k, w) \<in> set lines" for k v w using that assms by (meson eq_key_imp_eq_value)
  have "fst ` {x \<in> set lines. case x of (k, v) \<Rightarrow> fst k = path \<and> line_bool v ''count_line''} = union_counted path lines []"
    by (rule set_eqI) (unfold mem_fst_image, auto simp: union_counted_def counted_def has)
  then show "int (length (filter (\<lambda>(k, v). fst k = path \<and> line_bool v ''count_line'') lines)) = int (card (union_counted path lines []))"
    by (simp add: len)
  have "fst ` {x \<in> set lines. (case x of (k, v) \<Rightarrow> fst k = path \<and> line_bool v ''count_line'') \<and> (case x of (k, v) \<Rightarrow> line_bool v ''covered'')}
      = union_covered path lines []"
  proof (rule set_eqI)
    fix k
    have "k \<in> union_covered path lines [] \<longleftrightarrow> fst k = path \<and> (\<exists>v. (k, v) \<in> set lines \<and> line_bool v ''count_line'') \<and> (\<exists>v. (k, v) \<in> set lines \<and> line_bool v ''covered'')"
      by (simp add: union_covered_def union_counted_def counted_def run_covers_def has)
    also have "\<dots> \<longleftrightarrow> (\<exists>v. (k, v) \<in> set lines \<and> fst k = path \<and> line_bool v ''count_line'' \<and> line_bool v ''covered'')"
      using uniq by blast
    finally show "k \<in> fst ` {x \<in> set lines. (case x of (k, v) \<Rightarrow> fst k = path \<and> line_bool v ''count_line'') \<and> (case x of (k, v) \<Rightarrow> line_bool v ''covered'')}
      \<longleftrightarrow> k \<in> union_covered path lines []"
      unfolding mem_fst_image by auto
  qed
  then show "int (length (filter (\<lambda>(k, v). line_bool v ''covered'') (filter (\<lambda>(k, v). fst k = path \<and> line_bool v ''count_line'') lines)))
      = int (card (union_covered path lines []))"
    by (simp add: len conj_commute)
qed

lemma line_detail_exact:
  assumes "distinct (map fst lines)" and "line_detail_matches_file_summary path lines (Some f)"
  shows "file_metric (Some f) ''total_lines'' = int (card (union_counted path lines []))"
    and "file_metric (Some f) ''covered_lines'' = int (card (union_covered path lines []))"
  using assms(2) detail_counts[OF assms(1), of path] by (simp_all add: line_detail_matches_file_summary_def Let_def)

lemma union_grows:
  "card (union_counted path bl []) \<le> card (union_counted path bl cl)" "card (union_covered path bl []) \<le> card (union_covered path bl cl)"
proof -
  have fin: "finite (union_covered path bl cl)" by (rule finite_subset[OF line_set_bounds(2)]) simp
  show "card (union_counted path bl []) \<le> card (union_counted path bl cl)"
    by (rule card_mono[OF finite_union_counted]) (auto simp: union_counted_def counted_def)
  show "card (union_covered path bl []) \<le> card (union_covered path bl cl)"
    by (rule card_mono[OF fin]) (auto simp: union_covered_def union_counted_def counted_def run_covers_def)
qed

section \<open>Units\<close>

definition units_ok :: "unit_set \<Rightarrow> bool" where
  "units_ok u \<longleftrightarrow> finite (us_total u) \<and> us_covered u \<subseteq> us_total u"

lemma units_ok_simps [simp]: "units_ok no_units" "units_ok u \<Longrightarrow> units_ok (add_unit k h u)"
  by (auto simp: units_ok_def no_units_def add_unit_def)

lemma branch_arm_ok: "units_ok u \<Longrightarrow> branch_arm p vs u arm = Inr u' \<Longrightarrow> units_ok u'"
  by (auto simp: branch_arm_def bindr_eq_Inr)

lemma entry_unit_ok: "units_ok u \<Longrightarrow> entry_unit m name i u e = Inr u' \<Longrightarrow> units_ok u'"
  by (auto simp: entry_unit_def bindr_eq_Inr region_unit_def branch_unit_def branch_arm_def split: if_splits)

lemma foldM_entry_unit_ok: "foldM (entry_unit m name i) u es = Inr u' \<Longrightarrow> units_ok u \<Longrightarrow> units_ok u'"
  by (erule foldM_invariant) (auto intro: entry_unit_ok)

lemma llvm_function_unit_ok: "units_ok u \<Longrightarrow> llvm_function_unit canon fp rp m u fn = Inr u' \<Longrightarrow> units_ok u'"
  unfolding llvm_function_unit_def Let_def
  by (elim bindr_InrE) (auto simp: bindr_eq_Inr split: if_split_asm option.splits dest: foldM_entry_unit_ok)

lemma file_branch_unit_ok: "units_ok u \<Longrightarrow> file_branch_unit u e = Inr u' \<Longrightarrow> units_ok u'"
  by (auto simp: file_branch_unit_def bindr_eq_Inr Let_def)

lemma llvm_function_units_ok: "llvm_function_units canon fp rp v m = Inr u \<Longrightarrow> units_ok u"
  unfolding llvm_function_units_def
  by (erule bindr_InrE, erule foldM_invariant[where P = units_ok]) (auto intro: llvm_function_unit_ok)

lemma llvm_file_branch_units_ok: "llvm_file_branch_units v = Inr u \<Longrightarrow> units_ok u"
  unfolding llvm_file_branch_units_def
  by (erule bindr_InrE, erule foldM_invariant[where P = units_ok]) (auto intro: file_branch_unit_ok)

lemma coverage_units_ok: "coverage_units canon fp rp f m = Inr (Some u) \<Longrightarrow> units_ok u"
  by (auto simp: coverage_units_def bindr_eq_Inr split: option.splits if_splits dest: llvm_function_units_ok llvm_file_branch_units_ok)

lemma unit_sets:
  assumes "\<forall>u. Some u \<in> set us \<longrightarrow> units_ok u"
  shows "finite (unit_totals us)" and "unit_covered us \<subseteq> unit_totals us"
  using assms by (force simp: unit_totals_def unit_covered_def List.map_filter_def units_ok_def)+

definition the_units :: "unit_set option \<Rightarrow> unit_set" where
  "the_units u = (case u of None \<Rightarrow> no_units | Some u \<Rightarrow> u)"

lemma exact_unit_merge:
  assumes r: "union_metric_for_file_many canon fp rp m bf cf = Inr r"
    and units: "coverage_units canon fp rp bf m = Inr bu" "mapM (\<lambda>f. coverage_units canon fp rp (Some f) m) cf = Inr cu"
    and match: "units_match bu (file_metric bf (''total_'' @ m))"
      "list_all (\<lambda>(units, f). units_match units (file_metric (Some f) (''total_'' @ m))) (zip cu cf)"
  defines "base \<equiv> the_units bu"
  shows "mm_total r = int (card (us_total base \<union> unit_totals cu))"
    and "mm_covered r = int (card (us_covered base \<union> unit_covered cu))"
    and "mm_newly_covered r = int (card (unit_covered cu - us_covered base))"
    and "mm_newly_covered r = mm_covered r - int (card (us_covered base))"
    and "mm_covered r \<le> mm_total r" and "mm_exact r"
proof -
  have r': "r = \<lparr>mm_total = int (card (us_total base \<union> unit_totals cu)), mm_covered = int (card (us_covered base \<union> unit_covered cu)),
      mm_newly_covered = int (card (unit_covered cu - us_covered base)), mm_exact = True\<rparr>"
    using r units match by (simp add: union_metric_for_file_many_def base_def the_units_def Let_def)
  have base: "units_ok base" using coverage_units_ok[of canon fp rp bf m] units(1) by (auto simp: base_def the_units_def split: option.splits)
  have cur: "\<forall>u. Some u \<in> set cu \<longrightarrow> units_ok u" using mapM_set[OF units(2)] coverage_units_ok by blast
  note cu = unit_sets[OF cur]
  have fin: "finite (us_covered base)" "finite (unit_covered cu)"
    using base cu finite_subset unfolding units_ok_def by blast+
  have "card (us_covered base \<union> unit_covered cu) = card (us_covered base) + card (unit_covered cu - us_covered base)"
    using fin card_Un_disjoint[of "us_covered base" "unit_covered cu - us_covered base"] by auto
  then show "mm_newly_covered r = mm_covered r - int (card (us_covered base))" by (simp add: r')
  show "mm_covered r \<le> mm_total r" using base cu by (auto simp: r' units_ok_def intro!: card_mono)
  show "mm_total r = int (card (us_total base \<union> unit_totals cu))" "mm_covered r = int (card (us_covered base \<union> unit_covered cu))" "mm_exact r"
    "mm_newly_covered r = int (card (unit_covered cu - us_covered base))"
    by (simp_all add: r')
qed

lemma foldl_max: "foldl max (x :: int) ys = Max (set (x # ys))"
proof (induction ys arbitrary: x)
  case (Cons y ys)
  show ?case using Cons.IH[of "max x y"] by (cases "ys = []") (simp_all add: max.assoc)
qed simp

lemma current_max_set: "current_max k fs = (if fs = [] then 0 else Max ((\<lambda>f. file_metric (Some f) k) ` set fs))"
  by (cases fs) (simp_all add: current_max_def foldl_max)

lemma current_max_nonneg: "(\<forall>f \<in> set fs. 0 \<le> file_metric (Some f) k) \<Longrightarrow> 0 \<le> current_max k fs"
  by (cases fs) (auto simp: current_max_set Max_ge_iff)

section \<open>Properties\<close>

text \<open>C6. When the union of a file's lines is marked exact, its figures are those of the sets of lines: the lines
  some snapshot counts, those of them covered in the baseline or by the run, and those the run covers and the
  baseline does not.\<close>

theorem union_lines_exact:
  assumes "mm_exact (union_line_metric_many path bl cl bf cf)"
    and "0 \<le> file_metric bf ''covered_lines''" and "\<forall>f \<in> set cf. 0 \<le> file_metric (Some f) ''covered_lines''"
  shows "union_line_metric_many path bl cl bf cf =
    \<lparr>mm_total = int (card (union_counted path bl cl)), mm_covered = int (card (union_covered path bl cl)),
     mm_newly_covered = int (card (union_gained path bl cl)), mm_exact = True\<rparr>"
proof (cases "union_counted path bl cl = {}")
  case True
  then have "union_covered path bl cl = {}" "union_gained path bl cl = {}" by (auto simp: union_covered_def union_gained_def)
  with True assms current_max_nonneg[OF assms(3)] show ?thesis
    by (auto simp: union_line_metric_many_eq Let_def)
next
  case False
  with assms(1) show ?thesis by (auto simp: union_line_metric_many_eq Let_def split: if_splits)
qed

theorem union_lines_exact_witness:
  "union_line_metric_many ''a'' [((''a'', 1), jobj [(''count_line'', JBool True)])]
     [[((''a'', 1), jobj [(''count_line'', JBool True), (''covered'', JBool True)])]] None []
   = \<lparr>mm_total = int (card (union_counted ''a'' [((''a'', 1), jobj [(''count_line'', JBool True)])] [[((''a'', 1), jobj [(''count_line'', JBool True), (''covered'', JBool True)])]])),
      mm_covered = int (card (union_covered ''a'' [((''a'', 1), jobj [(''count_line'', JBool True)])] [[((''a'', 1), jobj [(''count_line'', JBool True), (''covered'', JBool True)])]])),
      mm_newly_covered = int (card (union_gained ''a'' [((''a'', 1), jobj [(''count_line'', JBool True)])] [[((''a'', 1), jobj [(''count_line'', JBool True), (''covered'', JBool True)])]])),
      mm_exact = True\<rparr>"
  by (rule union_lines_exact) (code_simp, simp_all add: file_metric_def)

lemma union_baseline_facts:
  assumes "distinct (map fst bl)" and "0 \<le> file_metric (Some f) ''covered_lines''"
    and "file_metric (Some f) ''covered_lines'' \<le> file_metric (Some f) ''total_lines''"
  shows "file_metric (Some f) ''total_lines'' \<le> mm_total (union_line_metric_many path bl cl (Some f) cf)"
    and "file_metric (Some f) ''covered_lines'' \<le> mm_covered (union_line_metric_many path bl cl (Some f) cf)"
    and "mm_newly_covered (union_line_metric_many path bl cl (Some f) cf) \<le> mm_covered (union_line_metric_many path bl cl (Some f) cf)"
    and "mm_covered (union_line_metric_many path bl cl (Some f) cf) \<le> mm_total (union_line_metric_many path bl cl (Some f) cf)"
proof -
  note cards = line_card_bounds[of path bl cl] union_grows[of path bl cl]
  have detail: "file_metric (Some f) ''total_lines'' \<le> int (card (union_counted path bl cl))"
    "file_metric (Some f) ''covered_lines'' \<le> int (card (union_covered path bl cl))" if "detail_complete path bl cl (Some f) cf"
    using that line_detail_exact[OF assms(1), of path f] cards by (simp_all add: detail_complete_def)
  show "file_metric (Some f) ''total_lines'' \<le> mm_total (union_line_metric_many path bl cl (Some f) cf)"
    using detail(1) by (auto simp: union_line_metric_many_eq Let_def max_def)
  show "file_metric (Some f) ''covered_lines'' \<le> mm_covered (union_line_metric_many path bl cl (Some f) cf)"
    using detail(2) assms(2,3) by (simp add: union_line_metric_many_eq Let_def min_def max_def)
  show "mm_newly_covered (union_line_metric_many path bl cl (Some f) cf) \<le> mm_covered (union_line_metric_many path bl cl (Some f) cf)"
    using cards assms(2,3) by (simp add: union_line_metric_many_eq Let_def min_def max_def)
  show "mm_covered (union_line_metric_many path bl cl (Some f) cf) \<le> mm_total (union_line_metric_many path bl cl (Some f) cf)"
    using cards by (simp add: union_line_metric_many_eq Let_def)
qed

text \<open>The union never falls below its baseline, even when the line rows are sparse and the file's own summary
  has to be used: at least the baseline's lines are counted, at least its covered lines are covered, and the lines
  newly covered are among the covered ones.\<close>

theorem union_keeps_baseline:
  assumes "distinct (map fst bl)" and "0 \<le> file_metric (Some f) ''covered_lines''"
    and "file_metric (Some f) ''covered_lines'' \<le> file_metric (Some f) ''total_lines''"
    and "union_line_metric_many path bl cl (Some f) cf = r"
  shows "file_metric (Some f) ''total_lines'' \<le> mm_total r \<and> file_metric (Some f) ''covered_lines'' \<le> mm_covered r
    \<and> mm_newly_covered r \<le> mm_covered r \<and> mm_covered r \<le> mm_total r"
  using union_baseline_facts[OF assms(1-3), of path cl cf] assms(4) by simp

theorem union_keeps_baseline_witness:
  "file_metric (Some (jobj [(''total_lines'', JInt 9), (''covered_lines'', JInt 7)])) ''covered_lines''
     \<le> mm_covered (union_line_metric_many ''a'' [((''a'', 1), jobj [(''count_line'', JBool True)])] []
         (Some (jobj [(''total_lines'', JInt 9), (''covered_lines'', JInt 7)])) [])"
  by (rule union_keeps_baseline[THEN conjunct2, THEN conjunct1]) (simp_all add: file_metric_def in_i64_def)



definition sample_functions :: json where
  "sample_functions = jobj [(''total_functions'', JInt 2), (''raw_metrics'', jobj [(''llvm_functions'',
     JArr [jobj [(''name'', JStr ''f''), (''count'', JInt 3)], jobj [(''name'', JStr ''g''), (''count'', JInt 0)]])])]"

text \<open>When the union of a file's branches, functions or regions is marked exact and not empty, it is the union of
  the identities in the reports: every report lists as many units as its own summary says, the totals are the number of
  different units and of those covered somewhere, the gain is the number of units the run covers and the baseline does
  not, and nothing the baseline has is lost.\<close>

theorem union_units_exact:
  assumes r: "union_metric_for_file_many canon fp rp m bf cf = Inr r" and "mm_exact r" and "mm_total r \<noteq> 0"
  shows "\<exists>bu cu. coverage_units canon fp rp bf m = Inr bu \<and> list_all2 (\<lambda>f u. coverage_units canon fp rp (Some f) m = Inr u) cf cu
    \<and> file_metric bf (''total_'' @ m) = int (card (us_total (the_units bu)))
    \<and> mm_total r = int (card (us_total (the_units bu) \<union> unit_totals cu))
    \<and> mm_covered r = int (card (us_covered (the_units bu) \<union> unit_covered cu))
    \<and> mm_newly_covered r = int (card (unit_covered cu - us_covered (the_units bu)))
    \<and> mm_newly_covered r = mm_covered r - int (card (us_covered (the_units bu)))
    \<and> mm_covered r \<le> mm_total r"
proof -
  obtain bu cu where units: "coverage_units canon fp rp bf m = Inr bu" "mapM (\<lambda>f. coverage_units canon fp rp (Some f) m) cf = Inr cu"
    using r by (auto simp: union_metric_for_file_many_def Let_def bindr_eq_Inr)
  have match: "units_match bu (file_metric bf (''total_'' @ m))"
    "list_all (\<lambda>(units, f). units_match units (file_metric (Some f) (''total_'' @ m))) (zip cu cf)"
    using r units assms(2,3) by (auto simp: union_metric_for_file_many_def Let_def split: if_splits)
  note ex = exact_unit_merge[OF r units match]
  have "file_metric bf (''total_'' @ m) = int (card (us_total (the_units bu)))"
    using match(1) by (auto simp: units_match_def the_units_def no_units_def split: option.splits)
  with units ex mapM_list_all2[OF units(2)] show ?thesis by blast
qed

theorem union_units_exact_witness:
  "\<exists>bu cu. coverage_units (\<lambda>_. None) ''a'' ''/r'' None ''functions'' = Inr bu
     \<and> list_all2 (\<lambda>f u. coverage_units (\<lambda>_. None) ''a'' ''/r'' (Some f) ''functions'' = Inr u) [sample_functions] cu
     \<and> (1 :: int) = int (card (unit_covered cu - us_covered (the_units bu)))"
proof -
  have r: "union_metric_for_file_many (\<lambda>_. None) ''a'' ''/r'' ''functions'' None [sample_functions]
      = Inr \<lparr>mm_total = 2, mm_covered = 1, mm_newly_covered = 1, mm_exact = True\<rparr>"
    by code_simp
  show ?thesis using union_units_exact[OF r] by auto
qed

text \<open>Without identities the fallback can report a negative number of newly covered branches: the difference
  of the two covered figures is not cut at zero.\<close>

theorem union_gain_negative:
  "map_sum id mm_newly_covered (union_metric_for_file_many (\<lambda>_. None) ''a'' ''/r'' ''branches''
      (Some (jobj [(''total_branches'', JInt 10), (''covered_branches'', JInt 5)]))
      [jobj [(''total_branches'', JInt 10), (''covered_branches'', JInt 3)]]) = Inr (- 2)"
  by code_simp

end
