(* ===== verification/Union_Snapshot.thy ===== *)
theory Union_Snapshot
  imports Union
begin

text \<open>
  The union of whole snapshots (\<open>union_snapshot_detail_many\<close> and the comparison around it in
  \<open>src/src/storage.rs\<close>): one step per file, the totals, the rows of the files, the lines newly covered and the
  annotation of a difference whose measurement is only a selected subset.
\<close>

section \<open>Rates and their order\<close>

definition jrate :: "int \<Rightarrow> int \<Rightarrow> json" where
  "jrate covered tot = jopt JFloat (rate covered tot)"

fun as_f64 :: "json \<Rightarrow> f64 option" where
  "as_f64 (JInt n) = Some (f64_of_int n)" | "as_f64 (JFloat x) = Some x" | "as_f64 _ = None"

fun f64_sub :: "f64 \<Rightarrow> f64 \<Rightarrow> f64" where
  "f64_sub (Fin m e) (Fin m' e') =
     (let (n, d) = f64_ratio m e; (n', d') = f64_ratio m' e' in f64_of_ratio (n * d' - n' * d) (d * d'))"
| "f64_sub _ _ = NaN"

definition json_float :: "f64 \<Rightarrow> json" where
  "json_float x = (case x of Fin _ _ \<Rightarrow> JFloat x | _ \<Rightarrow> JNull)"

fun f64_less :: "f64 \<Rightarrow> f64 \<Rightarrow> bool" where
  "f64_less (Fin m e) (Fin m' e') = (let (n, d) = f64_ratio m e; (n', d') = f64_ratio m' e' in n * d' < n' * d)"
| "f64_less _ _ = False"

text \<open>An absent rate sorts first; rates are finite.\<close>

fun rate_less :: "f64 option \<Rightarrow> f64 option \<Rightarrow> bool" where
  "rate_less None (Some _) = True"
| "rate_less (Some a) (Some b) = f64_less a b"
| "rate_less _ None = False"

definition row_le :: "string \<Rightarrow> json \<Rightarrow> json \<Rightarrow> bool" where
  "row_le k x y =
     (let a = Option.bind (jget x k) as_f64; b = Option.bind (jget y k) as_f64 in
      rate_less a b \<or> \<not> rate_less b a
        \<and> Option.bind (jget x ''file_path'') as_str \<le> Option.bind (jget y ''file_path'') as_str)"

fun insert_row :: "('a \<Rightarrow> 'a \<Rightarrow> bool) \<Rightarrow> 'a \<Rightarrow> 'a list \<Rightarrow> 'a list" where
  "insert_row le x [] = [x]"
| "insert_row le x (y # ys) = (if le x y then x # y # ys else y # insert_row le x ys)"

definition sort_rows_by :: "('a \<Rightarrow> 'a \<Rightarrow> bool) \<Rightarrow> 'a list \<Rightarrow> 'a list" where
  "sort_rows_by le xs = foldr (insert_row le) xs []"

section \<open>File rows\<close>

definition figures :: "string \<Rightarrow> metric_merge \<Rightarrow> metric_merge \<Rightarrow> metric_merge \<Rightarrow> metric_merge \<Rightarrow> (string \<times> json) list" where
  "figures path lines branches functions regions =
     [(''file_path'', JStr path),
      (''total_lines'', JInt (mm_total lines)), (''covered_lines'', JInt (mm_covered lines)),
      (''line_rate'', jrate (mm_covered lines) (mm_total lines)),
      (''total_branches'', JInt (mm_total branches)), (''covered_branches'', JInt (mm_covered branches)),
      (''branch_rate'', jrate (mm_covered branches) (mm_total branches)),
      (''total_functions'', JInt (mm_total functions)), (''covered_functions'', JInt (mm_covered functions)),
      (''function_rate'', jrate (mm_covered functions) (mm_total functions)),
      (''total_regions'', JInt (mm_total regions)), (''covered_regions'', JInt (mm_covered regions)),
      (''region_rate'', jrate (mm_covered regions) (mm_total regions))]"

record merged_file =
  mf_value :: json
  mf_branches :: metric_merge
  mf_functions :: metric_merge
  mf_regions :: metric_merge

definition merged_current_file :: "canon \<Rightarrow> string \<Rightarrow> string \<Rightarrow> json list \<Rightarrow> line_map list \<Rightarrow> merged_file option res" where
  "merged_current_file canon path repo_path current_files current_lines =
     (if current_files = [] \<and> \<not> list_ex (\<lambda>lines. path_keys path lines \<noteq> []) current_lines then Inr None
      else let lines = union_line_metric_many path [] current_lines None current_files in
        bindr (union_metric_for_file_many canon path repo_path ''branches'' None current_files) (\<lambda>branches.
        bindr (union_metric_for_file_many canon path repo_path ''functions'' None current_files) (\<lambda>functions.
        bindr (union_metric_for_file_many canon path repo_path ''regions'' None current_files) (\<lambda>regions.
        let row = jobj (figures path lines branches functions regions);
            row = (case List.map_filter (\<lambda>f. jget f ''raw_metrics'') current_files of [] \<Rightarrow> row | raw # _ \<Rightarrow> jset row ''raw_metrics'' raw)
        in Inr (Some \<lparr>mf_value = row, mf_branches = branches, mf_functions = functions, mf_regions = regions\<rparr>)))))"

definition file_rate_value :: "json option \<Rightarrow> string \<Rightarrow> f64 option" where
  "file_rate_value file' k = Option.bind (Option.bind file' (\<lambda>v. jget v k)) as_f64"

definition project_metric :: "json option \<Rightarrow> json option \<Rightarrow> json \<Rightarrow> string \<times> string \<Rightarrow> json" where
  "project_metric baseline_file current_file row m =
     (let total_key = ''total_'' @ fst m; covered_key = ''covered_'' @ fst m; rate_key = snd m;
          baseline_rate = file_rate_value baseline_file rate_key;
          current_rate = file_rate_value current_file rate_key;
          row = jset row (''baseline_'' @ total_key) (JInt (file_metric baseline_file total_key));
          row = jset row (''current_'' @ total_key) (JInt (file_metric current_file total_key));
          row = jset row (''baseline_'' @ covered_key) (JInt (file_metric baseline_file covered_key));
          row = jset row (''current_'' @ covered_key) (JInt (file_metric current_file covered_key));
          row = jset row (''baseline_'' @ rate_key) (jopt json_float baseline_rate);
          row = jset row (''current_'' @ rate_key) (jopt json_float current_rate)
      in jset row (rate_key @ ''_delta'')
           (case (Option.bind (jget row rate_key) as_f64, baseline_rate) of
              (Some current, Some baseline) \<Rightarrow> json_float (f64_sub current baseline)
            | _ \<Rightarrow> JNull))"

definition aggregate_file_projection ::
  "string \<Rightarrow> json option \<Rightarrow> json option \<Rightarrow> metric_merge \<Rightarrow> metric_merge \<Rightarrow> metric_merge \<Rightarrow> metric_merge \<Rightarrow> json" where
  "aggregate_file_projection path baseline_file current_file lines branches functions regions =
     foldl (project_metric baseline_file current_file) (jobj (figures path lines branches functions regions))
       [(''lines'', ''line_rate''), (''branches'', ''branch_rate''), (''functions'', ''function_rate''), (''regions'', ''region_rate'')]"

section \<open>Newly covered lines\<close>

record gain_acc =
  ga_lines :: "json list"
  ga_numbers :: "(string, int list) btree"
  ga_keys :: "(string \<times> int) set"

definition newly_covered_line :: "string \<Rightarrow> line_map \<Rightarrow> gain_acc \<Rightarrow> (string \<times> int) \<times> json \<Rightarrow> gain_acc" where
  "newly_covered_line path baseline_lines acc entry =
     (let (key, right) = entry; left = bt_get baseline_lines key in
      if fst key = path \<and> line_bool right ''count_line'' \<and> line_bool right ''covered''
         \<and> \<not> (case left of None \<Rightarrow> False | Some v \<Rightarrow> line_bool v ''covered'') \<and> key \<notin> ga_keys acc
      then acc\<lparr>ga_keys := insert key (ga_keys acc),
               ga_lines := ga_lines acc @ [jobj [(''file_path'', JStr path), (''line_number'', JInt (snd key)),
                 (''baseline_covered'', jopt (\<lambda>v. jidx v ''covered'') left), (''current_covered'', JBool True),
                 (''baseline_hits'', jopt (\<lambda>v. jidx v ''hits'') left), (''current_hits'', jidx right ''hits''),
                 (''category'', JStr ''newly_covered'')]],
               ga_numbers := bt_update (fst key) (push_number (snd key)) (ga_numbers acc)\<rparr>
      else acc)"

definition gather_gain :: "string \<Rightarrow> line_map \<Rightarrow> line_map list \<Rightarrow> gain_acc \<Rightarrow> gain_acc" where
  "gather_gain path baseline_lines current_line_maps acc =
     foldl (foldl (newly_covered_line path baseline_lines)) acc current_line_maps"

definition grouped_incremental_lines :: "(string, int list) btree \<Rightarrow> json list" where
  "grouped_incremental_lines numbers =
     concat (map (\<lambda>(path, ns). map (\<lambda>region. jobj [(''file_path'', JStr path), (''category'', JStr ''newly_covered''),
       (''status'', JStr ''newly_covered''), (''start'', jidx region ''start''), (''end'', jidx region ''end''),
       (''line_count'', jidx region ''line_count'')]) (line_regions ns)) numbers)"

section \<open>The union of the snapshots\<close>

text \<open>The four metrics, in the order the code lists them.\<close>

record merges =
  ms_line :: metric_merge
  ms_branch :: metric_merge
  ms_function :: metric_merge
  ms_region :: metric_merge

definition merges_default :: merges where
  "merges_default = \<lparr>ms_line = merge_default, ms_branch = merge_default, ms_function = merge_default, ms_region = merge_default\<rparr>"

definition merges_add :: "merges \<Rightarrow> merges \<Rightarrow> merges" where
  "merges_add a b = \<lparr>ms_line = merge_add (ms_line a) (ms_line b), ms_branch = merge_add (ms_branch a) (ms_branch b),
     ms_function = merge_add (ms_function a) (ms_function b), ms_region = merge_add (ms_region a) (ms_region b)\<rparr>"

record union_acc =
  ua_sum :: merges
  ua_current :: merges
  ua_files :: "json list"
  ua_current_files :: "json list"
  ua_gain :: gain_acc

record union_input =
  ui_baseline_files :: "(string, json) btree"
  ui_current_files :: "(string, json) btree list"
  ui_baseline_lines :: line_map
  ui_current_lines :: "line_map list"

definition union_path :: "canon \<Rightarrow> string \<Rightarrow> string option \<Rightarrow> union_input \<Rightarrow> union_acc \<Rightarrow> string \<Rightarrow> union_acc res" where
  "union_path canon repo_path file_path ui acc path =
     (let left_file = bt_get (ui_baseline_files ui) path;
          current = List.map_filter (\<lambda>files. bt_get files path) (ui_current_files ui);
          bl = ui_baseline_lines ui; cl = ui_current_lines ui in
      bindr (merged_current_file canon path repo_path current cl) (\<lambda>projection.
      let right_file = map_option mf_value projection;
          line_merge = union_line_metric_many path bl cl left_file current;
          current_line_merge = union_line_metric_many path [] cl None current;
          gain = (if file_path = None \<or> file_path = Some path then gather_gain path bl cl (ua_gain acc) else ua_gain acc) in
      bindr (union_metric_for_file_many canon path repo_path ''branches'' left_file current) (\<lambda>branch_merge.
      bindr (union_metric_for_file_many canon path repo_path ''functions'' left_file current) (\<lambda>function_merge.
      bindr (union_metric_for_file_many canon path repo_path ''regions'' left_file current) (\<lambda>region_merge.
      let pick = (\<lambda>f. case projection of None \<Rightarrow> merge_default | Some p \<Rightarrow> f p) in
      Inr \<lparr>ua_sum = merges_add (ua_sum acc) \<lparr>ms_line = line_merge, ms_branch = branch_merge, ms_function = function_merge, ms_region = region_merge\<rparr>,
           ua_current = merges_add (ua_current acc) \<lparr>ms_line = current_line_merge, ms_branch = pick mf_branches,
             ms_function = pick mf_functions, ms_region = pick mf_regions\<rparr>,
           ua_files = ua_files acc @ [aggregate_file_projection path left_file right_file line_merge branch_merge function_merge region_merge],
           ua_current_files = ua_current_files acc @ opt_list right_file,
           ua_gain = gain\<rparr>)))))"

definition union_paths :: "union_input \<Rightarrow> string list" where
  "union_paths ui = remdups_adj (sort (bt_keys (ui_baseline_files ui) @ concat (map bt_keys (ui_current_files ui))
     @ map fst (bt_keys (ui_baseline_lines ui)) @ concat (map (\<lambda>lines. map fst (bt_keys lines)) (ui_current_lines ui))))"

definition union_acc_default :: union_acc where
  "union_acc_default = \<lparr>ua_sum = merges_default, ua_current = merges_default, ua_files = [], ua_current_files = [],
     ua_gain = \<lparr>ga_lines = [], ga_numbers = [], ga_keys = {}\<rparr>\<rparr>"

definition merges_exact :: "merges \<Rightarrow> bool" where
  "merges_exact ms \<longleftrightarrow> mm_exact (ms_line ms) \<and> mm_exact (ms_branch ms) \<and> mm_exact (ms_function ms) \<and> mm_exact (ms_region ms)"

definition strategy :: "string \<Rightarrow> metric_merge \<Rightarrow> json" where
  "strategy name m = JStr (if mm_exact m then name else ''conservative_max_fallback'')"

definition merge_json :: "merges \<Rightarrow> json" where
  "merge_json ms =
     jobj [(''exact'', JBool (merges_exact ms)),
       (''strategies'', jobj [(''lines'', strategy ''canonical_line_union'' (ms_line ms)),
          (''branches'', strategy ''canonical_identity_union'' (ms_branch ms)),
          (''functions'', strategy ''canonical_identity_union'' (ms_function ms)),
          (''regions'', strategy ''canonical_identity_union'' (ms_region ms))])]"

definition sum_figures :: "merges \<Rightarrow> (string \<times> json) list" where
  "sum_figures ms = tl (figures [] (ms_line ms) (ms_branch ms) (ms_function ms) (ms_region ms))"

definition gain_json :: "merges \<Rightarrow> json" where
  "gain_json ms =
     jobj [(''newly_covered'', JInt (mm_newly_covered (ms_line ms))), (''regressed'', JInt 0), (''hit_count_only'', JInt 0),
       (''added'', JInt 0), (''removed'', JInt 0), (''branch_state_changed'', JInt 0),
       (''newly_covered_lines'', JInt (mm_newly_covered (ms_line ms))), (''newly_covered_branches'', JInt (mm_newly_covered (ms_branch ms))),
       (''newly_covered_functions'', JInt (mm_newly_covered (ms_function ms))), (''newly_covered_regions'', JInt (mm_newly_covered (ms_region ms))),
       (''exact'', JBool (merges_exact ms))]"

record union_detail =
  ud_summary :: json
  ud_current_summary :: json
  ud_files :: "json list"
  ud_current_files :: "json list"
  ud_file_count :: nat
  ud_newly_covered_lines :: "json list"
  ud_newly_covered_regions :: "json list"
  ud_coverage_gain :: json
  ud_current_lines :: line_map

definition union_snapshot_detail_many ::
  "canon \<Rightarrow> json \<Rightarrow> json \<Rightarrow> string \<Rightarrow> string list \<Rightarrow> string option \<Rightarrow> union_input \<Rightarrow> union_detail res" where
  "union_snapshot_detail_many canon baseline current baseline_id current_ids file_path ui =
     (if current_ids = [] then Inl (Validation ''incremental coverage requires at least one current snapshot'')
      else let repo_path = (case Option.bind (jget baseline ''repo_path'') as_str of
                 Some p \<Rightarrow> p
               | None \<Rightarrow> (case Option.bind (jget current ''repo_path'') as_str of Some p \<Rightarrow> p | None \<Rightarrow> [])) in
        bindr (foldM (union_path canon repo_path file_path ui) union_acc_default (union_paths ui)) (\<lambda>acc.
        let ids = JArr (map JStr current_ids) in
        Inr \<lparr>ud_summary = jobj ([(''kind'', JStr ''baseline_union_incremental''), (''baseline_snapshot_id'', JStr baseline_id),
               (''incremental_snapshot_id'', JStr (hd current_ids)), (''incremental_snapshot_ids'', ids)] @ sum_figures (ua_sum acc)
               @ [(''file_count'', jnat (length (ua_files acc))), (''files_truncated'', JBool False), (''merge'', merge_json (ua_sum acc))]),
             ud_current_summary = jobj ([(''kind'', JStr ''selected_current_union''), (''snapshot_ids'', ids)] @ sum_figures (ua_current acc)
               @ [(''file_count'', jnat (length (ua_current_files acc))), (''merge'', merge_json (ua_current acc))]),
             ud_files = sort_rows_by (row_le ''line_rate'') (ua_files acc),
             ud_current_files = sort_rows_by (row_le ''line_rate'') (ua_current_files acc),
             ud_file_count = length (ua_files acc),
             ud_newly_covered_lines = ga_lines (ua_gain acc),
             ud_newly_covered_regions = grouped_incremental_lines (ga_numbers (ua_gain acc)),
             ud_coverage_gain = gain_json (ua_sum acc),
             ud_current_lines = merge_line_maps (ui_current_lines ui)\<rparr>))"

definition union_snapshot_projection :: "json \<Rightarrow> json \<Rightarrow> json" where
  "union_snapshot_projection snapshot summary' =
     foldl (\<lambda>result k. case jget summary' k of None \<Rightarrow> result | Some v \<Rightarrow> jset result k v) snapshot
       [''total_lines'', ''covered_lines'', ''line_rate'', ''total_branches'', ''covered_branches'', ''branch_rate'',
        ''total_functions'', ''covered_functions'', ''function_rate'', ''total_regions'', ''covered_regions'', ''region_rate'']"

section \<open>A difference over a selected subset\<close>

definition relabel_scope_absence :: "json \<Rightarrow> json" where
  "relabel_scope_absence v =
     (case as_object v of
        None \<Rightarrow> v
      | Some m \<Rightarrow> JObj (foldl (\<lambda>m k. if Option.bind (bt_get m k) as_str \<in> {Some ''regressed'', Some ''removed''}
            then bt_insert k (JStr ''not_observed'') m else m) m [''category'', ''status'']))"

definition relabel_list :: "string \<Rightarrow> (string, json) btree \<Rightarrow> (string, json) btree" where
  "relabel_list k m = (case Option.bind (bt_get m k) as_array of
     None \<Rightarrow> m | Some vs \<Rightarrow> bt_insert k (JArr (map relabel_scope_absence vs)) m)"

definition limit_gain :: "(string, json) btree \<Rightarrow> (string, json) btree" where
  "limit_gain m =
     (let absent = (case bt_get m ''coverage_gain'' of
           None \<Rightarrow> 0 | Some g \<Rightarrow> i64_add (file_metric (Some g) ''regressed'') (file_metric (Some g) ''removed''))
      in case Option.bind (bt_get m ''coverage_gain'') as_object of
           None \<Rightarrow> m
         | Some g \<Rightarrow> bt_insert ''coverage_gain''
             (JObj (bt_insert ''removed'' (JInt 0) (bt_insert ''regressed'' (JInt 0) (bt_insert ''not_observed'' (JInt absent) g)))) m)"

definition annotate_incremental_diff_scope :: "json \<Rightarrow> string \<Rightarrow> json" where
  "annotate_incremental_diff_scope v scope =
     (case as_object v of
        None \<Rightarrow> v
      | Some m \<Rightarrow>
          (let complete = JBool (scope = ''complete_snapshot'');
               m = bt_insert ''comparison_mode'' (JStr ''snapshot_diff'') m;
               m = bt_insert ''measurement_scope'' (jobj [(''kind'', JStr scope), (''complete'', complete)]) m;
               m = bt_insert ''regressions_valid'' complete m
           in if scope \<noteq> ''selected_subset'' then JObj (bt_insert ''claim_status'' (JStr ''supported'') m)
              else JObj (relabel_list ''regions'' (relabel_list ''changed_lines'' (bt_insert ''claim_status'' (JStr ''limited'') (limit_gain m))))))"

text \<open>The file rows the comparison returns, and whether it says it left some out.\<close>

definition union_report_files :: "string option \<Rightarrow> nat \<Rightarrow> union_detail \<Rightarrow> json list \<times> bool" where
  "union_report_files file_path file_limit ud =
     (let rows = take (collection_limit file_limit) (filter (\<lambda>v. case file_path of None \<Rightarrow> True
            | Some path \<Rightarrow> Option.bind (jget v ''file_path'') as_str = Some path) (ud_files ud))
      in (rows, length rows < ud_file_count ud))"

section \<open>What the gain lists\<close>

definition gains :: "line_map \<Rightarrow> (string \<times> int) \<times> json \<Rightarrow> bool" where
  "gains bl e \<longleftrightarrow> line_bool (snd e) ''count_line'' \<and> line_bool (snd e) ''covered'' \<and> \<not> line_has ''covered'' (fst e) bl"

lemma newly_covered_line_keys:
  assumes "finite (ga_keys acc)" and "length (ga_lines acc) = card (ga_keys acc)"
  shows "ga_keys (newly_covered_line path bl acc e) = ga_keys acc \<union> (if fst (fst e) = path \<and> gains bl e then {fst e} else {})"
    and "finite (ga_keys (newly_covered_line path bl acc e))"
    and "length (ga_lines (newly_covered_line path bl acc e)) = card (ga_keys (newly_covered_line path bl acc e))"
  using assms by (cases e; auto simp: newly_covered_line_def gains_def line_has_def Let_def)+

lemma foldl_newly_covered_line:
  assumes "finite (ga_keys acc)" and "length (ga_lines acc) = card (ga_keys acc)"
  shows "ga_keys (foldl (newly_covered_line path bl) acc es) = ga_keys acc \<union> fst ` {e \<in> set es. fst (fst e) = path \<and> gains bl e}
    \<and> finite (ga_keys (foldl (newly_covered_line path bl) acc es))
    \<and> length (ga_lines (foldl (newly_covered_line path bl) acc es)) = card (ga_keys (foldl (newly_covered_line path bl) acc es))"
  using assms
proof (induction es arbitrary: acc)
  case (Cons e es)
  note step = newly_covered_line_keys[OF Cons.prems, of path bl e]
  show ?case using Cons.IH[OF step(2,3)] step(1) by auto
qed simp

lemma foldl_foldl: "foldl (foldl f) acc xss = foldl f acc (concat xss)"
  by (induction xss arbitrary: acc) simp_all

lemma foldl_gather_gain:
  assumes "finite (ga_keys acc)" and "length (ga_lines acc) = card (ga_keys acc)"
  shows "ga_keys (foldl (\<lambda>g path. gather_gain path bl cl g) acc ps)
      = ga_keys acc \<union> fst ` {e \<in> set (concat cl). fst (fst e) \<in> set ps \<and> gains bl e}
    \<and> length (ga_lines (foldl (\<lambda>g path. gather_gain path bl cl g) acc ps)) = card (ga_keys (foldl (\<lambda>g path. gather_gain path bl cl g) acc ps))"
  using assms
proof (induction ps arbitrary: acc)
  case (Cons p ps)
  let ?acc = "gather_gain p bl cl acc"
  have g: "?acc = foldl (newly_covered_line p bl) acc (concat cl)" by (simp add: gather_gain_def foldl_foldl)
  note step = foldl_newly_covered_line[OF Cons.prems, of p bl "concat cl", folded g]
  have "ga_keys ?acc \<union> fst ` {e \<in> set (concat cl). fst (fst e) \<in> set ps \<and> gains bl e}
      = ga_keys acc \<union> fst ` {e \<in> set (concat cl). fst (fst e) \<in> set (p # ps) \<and> gains bl e}"
    using step by auto
  then show ?case using Cons.IH[of ?acc] step Cons.prems(1) by simp
qed simp

lemma newly_covered_card:
  "mm_newly_covered (union_line_metric_many path bl cl bf cf) = int (card (union_gained path bl cl))"
  by (auto simp: union_line_metric_many_eq Let_def union_gained_def)

lemma union_path_step:
  assumes "union_path canon repo None ui acc path = Inr acc'"
  shows "mm_newly_covered (ms_line (ua_sum acc')) = sat_add (mm_newly_covered (ms_line (ua_sum acc)))
      (int (card (union_gained path (ui_baseline_lines ui) (ui_current_lines ui))))"
    and "ua_gain acc' = gather_gain path (ui_baseline_lines ui) (ui_current_lines ui) (ua_gain acc)"
  using assms unfolding union_path_def Let_def
  by (elim bindr_InrE; force simp: merges_add_def merge_add_def newly_covered_card)+

lemma foldM_union_path:
  "foldM (union_path canon repo None ui) acc ps = Inr acc' \<Longrightarrow>
   mm_newly_covered (ms_line (ua_sum acc')) = foldl sat_add (mm_newly_covered (ms_line (ua_sum acc)))
      (map (\<lambda>p. int (card (union_gained p (ui_baseline_lines ui) (ui_current_lines ui)))) ps)
   \<and> ua_gain acc' = foldl (\<lambda>g p. gather_gain p (ui_baseline_lines ui) (ui_current_lines ui) g) (ua_gain acc) ps"
proof (induction ps arbitrary: acc)
  case (Cons p ps)
  then obtain t where t: "union_path canon repo None ui acc p = Inr t" "foldM (union_path canon repo None ui) t ps = Inr acc'"
    by (auto simp: bindr_eq_Inr)
  show ?case using Cons.IH[OF t(2)] union_path_step[OF t(1)] by simp
qed simp

lemma foldl_sat_add:
  "0 \<le> n \<Longrightarrow> \<forall>x \<in> set xs. 0 \<le> x \<Longrightarrow> n + sum_list xs \<le> i64_max \<Longrightarrow> foldl sat_add n xs = n + sum_list xs"
proof (induction xs arbitrary: n)
  case (Cons x xs)
  have "0 \<le> sum_list xs" using Cons.prems(2) by (simp add: sum_list_nonneg)
  then have "sat_add n x = n + x" using Cons.prems by (simp add: sat_add_def)
  then show ?case using Cons by (simp add: add.assoc)
qed simp

definition consistent_lines :: "line_map \<Rightarrow> bool" where
  "consistent_lines m \<longleftrightarrow> distinct (map fst m) \<and> list_all (\<lambda>(k, v). line_bool v ''covered'' \<longrightarrow> line_bool v ''count_line'') m"

lemma gains_gained:
  assumes "\<forall>m \<in> set cl. consistent_lines m"
  shows "fst ` {e \<in> set (concat cl). fst (fst e) \<in> P \<and> gains bl e} = (\<Union>p \<in> P. union_gained p bl cl)"
proof (rule set_eqI)
  fix k
  have has: "line_has f k m \<longleftrightarrow> (\<exists>v. (k, v) \<in> set m \<and> line_bool v f)" if "m \<in> set cl" for m f
    using assms that by (intro line_has_distinct) (simp add: consistent_lines_def)
  have "k \<in> fst ` {e \<in> set (concat cl). fst (fst e) \<in> P \<and> gains bl e} \<longleftrightarrow>
      fst k \<in> P \<and> (\<exists>m \<in> set cl. \<exists>v. (k, v) \<in> set m \<and> line_bool v ''count_line'' \<and> line_bool v ''covered'') \<and> \<not> line_has ''covered'' k bl"
    unfolding mem_fst_image by (auto simp: gains_def)
  also have "\<dots> \<longleftrightarrow> fst k \<in> P \<and> run_covers cl k \<and> \<not> line_has ''covered'' k bl"
    using assms has[of _ "''covered''"] by (fastforce simp: run_covers_def consistent_lines_def list_all_iff)
  also have "\<dots> \<longleftrightarrow> k \<in> (\<Union>p \<in> P. union_gained p bl cl)"
    using assms has by (fastforce simp: run_covers_def union_gained_def union_counted_def counted_def consistent_lines_def list_all_iff)
  finally show "k \<in> fst ` {e \<in> set (concat cl). fst (fst e) \<in> P \<and> gains bl e} \<longleftrightarrow> k \<in> (\<Union>p \<in> P. union_gained p bl cl)" .
qed

lemma sum_gained:
  assumes "distinct ps"
  shows "sum_list (map (\<lambda>p. int (card (union_gained p bl cl))) ps) = int (card (\<Union>p \<in> set ps. union_gained p bl cl))"
proof -
  have fin: "finite (union_gained p bl cl)" for p
    using line_set_bounds finite_union_counted finite_subset by (metis subset_trans)
  have "card (\<Union>p \<in> set ps. union_gained p bl cl) = (\<Sum>p \<in> set ps. card (union_gained p bl cl))"
    by (rule card_UN_disjoint) (auto simp: fin, auto simp: union_gained_def union_counted_def)
  then show ?thesis using assms by (simp add: sum_list_distinct_conv_sum_set)
qed

lemma bt_get_relabel:
  "bt_get (relabel_list k m) j =
     (if j = k then (case Option.bind (bt_get m k) as_array of None \<Rightarrow> bt_get m k | Some vs \<Rightarrow> Some (JArr (map relabel_scope_absence vs)))
      else bt_get m j)"
  by (auto simp: relabel_list_def split: option.splits)

lemma relabelled:
  assumes "k \<in> {''category'', ''status''}"
  shows "jget (relabel_scope_absence v) k \<noteq> Some (JStr ''regressed'')" and "jget (relabel_scope_absence v) k \<noteq> Some (JStr ''removed'')"
  using assms by (cases v; auto simp: relabel_scope_absence_def jget_def)+

definition absence_claims :: "json set" where
  "absence_claims = {JStr ''regressed'', JStr ''removed''}"

section \<open>Properties\<close>

lemma selected_subset_facts:
  assumes "annotate_incremental_diff_scope (JObj m) ''selected_subset'' = v"
  shows "\<forall>k \<in> {''changed_lines'', ''regions''}. \<forall>vs. jget v k = Some (JArr vs) \<longrightarrow>
      (\<forall>x \<in> set vs. \<forall>f \<in> {''category'', ''status''}. \<forall>c \<in> absence_claims. jget x f \<noteq> Some c)"
    and "\<forall>g. jget v ''coverage_gain'' = Some (JObj g) \<longrightarrow> bt_get g ''regressed'' = Some (JInt 0) \<and> bt_get g ''removed'' = Some (JInt 0)"
    and "jget v ''claim_status'' = Some (JStr ''limited'')" and "jget v ''regressions_valid'' = Some (JBool False)"
proof -
  let ?base = "\<lambda>m. bt_insert ''regressions_valid'' (JBool False) (bt_insert ''measurement_scope''
      (jobj [(''kind'', JStr ''selected_subset''), (''complete'', JBool False)]) (bt_insert ''comparison_mode'' (JStr ''snapshot_diff'') m))"
  have v: "v = JObj (relabel_list ''regions'' (relabel_list ''changed_lines'' (bt_insert ''claim_status'' (JStr ''limited'') (limit_gain (?base m)))))"
    using assms by (simp add: annotate_incremental_diff_scope_def Let_def)
  have other: "bt_get (limit_gain n) j = bt_get n j" if "j \<noteq> ''coverage_gain''" for n j
    using that by (simp add: limit_gain_def Let_def split: option.splits)
  show "jget v ''claim_status'' = Some (JStr ''limited'')" "jget v ''regressions_valid'' = Some (JBool False)"
    by (simp_all add: v bt_get_relabel other)
  have gain: "bt_get g ''regressed'' = Some (JInt 0) \<and> bt_get g ''removed'' = Some (JInt 0)" if "bt_get (limit_gain n) ''coverage_gain'' = Some (JObj g)" for n g
    using that by (auto simp: limit_gain_def Let_def split: option.splits bind_splits)
  show "\<forall>g. jget v ''coverage_gain'' = Some (JObj g) \<longrightarrow> bt_get g ''regressed'' = Some (JInt 0) \<and> bt_get g ''removed'' = Some (JInt 0)"
    using gain by (simp add: v bt_get_relabel)
  have lst: "\<exists>ws. vs = map relabel_scope_absence ws" if "bt_get (relabel_list k n) k = Some (JArr vs)" for k n vs
    using that by (auto simp: bt_get_relabel split: option.splits)
  let ?n = "bt_insert ''claim_status'' (JStr ''limited'') (limit_gain (?base m))"
  have fields: "jget v ''regions'' = bt_get (relabel_list ''regions'' (relabel_list ''changed_lines'' ?n)) ''regions''"
    "jget v ''changed_lines'' = bt_get (relabel_list ''changed_lines'' ?n) ''changed_lines''"
    by (simp_all add: v bt_get_relabel[of "''regions''"])
  have shape: "\<exists>ws. vs = map relabel_scope_absence ws" if "k \<in> {''changed_lines'', ''regions''}" "jget v k = Some (JArr vs)" for k vs
    using that lst fields by auto
  have label: "jget x f \<noteq> Some c" if "x \<in> relabel_scope_absence ` W" "f \<in> {''category'', ''status''}" "c \<in> absence_claims" for x f c W
    using that relabelled unfolding absence_claims_def by blast
  show "\<forall>k \<in> {''changed_lines'', ''regions''}. \<forall>vs. jget v k = Some (JArr vs) \<longrightarrow>
      (\<forall>x \<in> set vs. \<forall>f \<in> {''category'', ''status''}. \<forall>c \<in> absence_claims. jget x f \<noteq> Some c)"
  proof (intro ballI allI impI)
    fix k vs x f c
    assume k: "k \<in> {''changed_lines'', ''regions''}" "jget v k = Some (JArr vs)" and x: "x \<in> set vs"
      and f: "f \<in> {''category'', ''status''}" and c: "c \<in> absence_claims"
    obtain ws where "vs = map relabel_scope_absence ws" using shape[OF k] ..
    then have "x \<in> relabel_scope_absence ` set ws" using x by simp
    from label[OF this f c] show "jget x f \<noteq> Some c" .
  qed
qed

text \<open>C31. A difference computed from a selected subset of the tests never claims a regression or a removal: no
  listed line or region carries such a label, the counts of both are zero, and the result is marked as limited,
  with regressions not valid.\<close>

theorem subset_claims_no_regression:
  assumes "annotate_incremental_diff_scope (JObj m) ''selected_subset'' = v"
  shows "(\<forall>k \<in> {''changed_lines'', ''regions''}. \<forall>vs. jget v k = Some (JArr vs) \<longrightarrow>
      (\<forall>x \<in> set vs. \<forall>f \<in> {''category'', ''status''}. \<forall>c \<in> absence_claims. jget x f \<noteq> Some c))
    \<and> (\<forall>g. jget v ''coverage_gain'' = Some (JObj g) \<longrightarrow> bt_get g ''regressed'' = Some (JInt 0) \<and> bt_get g ''removed'' = Some (JInt 0))
    \<and> jget v ''claim_status'' = Some (JStr ''limited'') \<and> jget v ''regressions_valid'' = Some (JBool False)"
  using selected_subset_facts[OF assms] by blast

theorem subset_claims_no_regression_witness:
  "jget (annotate_incremental_diff_scope (jobj [(''changed_lines'', JArr [jobj [(''status'', JStr ''regressed'')]])]) ''selected_subset'') ''claim_status''
     = Some (JStr ''limited'')"
  using subset_claims_no_regression[of "[(''changed_lines'', JArr [jobj [(''status'', JStr ''regressed'')]])]"]
  by (simp add: jobj_def bt_of_list_def)

text \<open>Over all files, the number of newly covered lines in the coverage gain is the number of lines the union
  lists as newly covered, each listed once.  (The rows of a snapshot have one row per line, and a covered line is a
  counted one; the number of rows fits in \<open>i64\<close>.)\<close>

theorem union_gain_lists_lines:
  assumes detail: "union_snapshot_detail_many canon baseline current bid cids None ui = Inr ud"
    and rows: "\<forall>m \<in> set (ui_current_lines ui). consistent_lines m"
    and size: "int (length (concat (ui_current_lines ui))) \<le> i64_max"
  shows "jget (ud_coverage_gain ud) ''newly_covered_lines'' = Some (JInt (int (length (ud_newly_covered_lines ud))))"
proof -
  let ?bl = "ui_baseline_lines ui" and ?cl = "ui_current_lines ui"
  let ?G = "\<Union>p \<in> set (union_paths ui). union_gained p ?bl ?cl"
  obtain repo acc where acc: "foldM (union_path canon repo None ui) union_acc_default (union_paths ui) = Inr acc"
    and ud: "ud_coverage_gain ud = gain_json (ua_sum acc)" "ud_newly_covered_lines ud = ga_lines (ua_gain acc)"
    using detail by (auto simp: union_snapshot_detail_many_def Let_def bindr_eq_Inr split: if_splits)
  have distinct: "distinct (union_paths ui)"
    using strict_sorted_dedup[OF sorted_sort] strict_sorted_iff unfolding union_paths_def by blast
  note steps = foldM_union_path[OF acc]
  have G: "?G = fst ` {e \<in> set (concat ?cl). fst (fst e) \<in> set (union_paths ui) \<and> gains ?bl e}"
    by (rule gains_gained[OF rows, symmetric])
  have "card ?G \<le> card (set (concat ?cl))" unfolding G
    by (rule order_trans[OF card_image_le card_mono]) auto
  also have "\<dots> \<le> length (concat ?cl)" by (rule card_length)
  finally have small: "int (card ?G) \<le> i64_max" using size by linarith
  have "mm_newly_covered (ms_line (ua_sum acc)) = int (card ?G)"
    using steps foldl_sat_add[of 0 "map (\<lambda>p. int (card (union_gained p ?bl ?cl))) (union_paths ui)"] small
    by (simp add: sum_gained[OF distinct] union_acc_default_def merges_default_def merge_default_def)
  moreover have "length (ga_lines (ua_gain acc)) = card ?G"
    unfolding G using steps foldl_gather_gain[of "ua_gain union_acc_default" ?bl ?cl "union_paths ui"] by (simp add: union_acc_default_def)
  ultimately show ?thesis by (simp add: ud gain_json_def)
qed

definition sample_union :: union_input where
  "sample_union = \<lparr>ui_baseline_files = [], ui_current_files = [], ui_baseline_lines = [],
     ui_current_lines = [[((''a.rs'', 1), jobj [(''count_line'', JBool True), (''covered'', JBool True)])]]\<rparr>"

theorem union_gain_lists_lines_witness:
  "\<exists>ud. union_snapshot_detail_many (\<lambda>_. None) JNull JNull ''b'' [''c''] None sample_union = Inr ud
    \<and> jget (ud_coverage_gain ud) ''newly_covered_lines'' = Some (JInt (int (length (ud_newly_covered_lines ud))))"
proof -
  have "\<not> isl (union_snapshot_detail_many (\<lambda>_. None) JNull JNull ''b'' [''c''] None sample_union)" by code_simp
  then obtain ud where ud: "union_snapshot_detail_many (\<lambda>_. None) JNull JNull ''b'' [''c''] None sample_union = Inr ud"
    by (metis sum.collapse(2))
  have rows: "\<forall>m \<in> set (ui_current_lines sample_union). consistent_lines m"
    by (simp add: sample_union_def consistent_lines_def line_bool_def)
  have size: "int (length (concat (ui_current_lines sample_union))) \<le> i64_max"
    by (simp add: sample_union_def i64_max_def)
  from union_gain_lists_lines[OF ud rows size] ud show ?thesis by blast
qed

text \<open>A comparison restricted to one file reports its rows as truncated although every row of that file is
  returned: the flag compares with the number of files before the restriction.\<close>

theorem restricted_rows_truncated:
  "union_report_files (Some ''a.rs'') 100
     \<lparr>ud_summary = JNull, ud_current_summary = JNull, ud_files = [jobj [(''file_path'', JStr ''a.rs'')], jobj [(''file_path'', JStr ''b.rs'')]],
      ud_current_files = [], ud_file_count = 2, ud_newly_covered_lines = [], ud_newly_covered_regions = [], ud_coverage_gain = JNull,
      ud_current_lines = []\<rparr>
   = ([jobj [(''file_path'', JStr ''a.rs'')]], True)"
  by (simp add: union_report_files_def collection_limit_def)

end
