(* ===== verification/Paging.thy ===== *)
theory Paging
  imports Json Paths Lib
begin

text \<open>
  The pages of \<open>src/src/service.rs\<close>: the response envelope and its word and byte budgets, the validation of
  requested paths, the opaque cursors and the selection of one page.  SHA-256, base64 and the JSON text of a value
  (with the reader of such a text) are fields of the record \<open>pager\<close>; the properties name what they need of them.
\<close>

record pager =
  pg_sha256 :: "string \<Rightarrow> string"
  pg_base64 :: "string \<Rightarrow> string"
  pg_unbase64 :: "string \<Rightarrow> string option"
  pg_show :: "json \<Rightarrow> string"
  pg_parse :: "string \<Rightarrow> json option"
  pg_debug :: "string \<Rightarrow> string"

section \<open>Budgets\<close>

definition word_separator :: "char \<Rightarrow> bool" where
  "word_separator c \<longleftrightarrow> c \<in> set ''[]{} ,:''"

definition serialized_word_count :: "pager \<Rightarrow> json \<Rightarrow> nat" where
  "serialized_word_count P v =
     length (filter (\<lambda>tok. tok \<noteq> []) (split_on (CHR '' '')
       (map (\<lambda>c. if word_separator c then CHR '' '' else c) (blank_ws (pg_show P v)))))"

definition validate_max_words :: "nat \<Rightarrow> unit res" where
  "validate_max_words max_words =
     (if 50 \<le> max_words \<and> max_words \<le> 5000 then Inr () else Inl (Validation ''max_words must be between 50 and 5000''))"

definition validate_review_byte_budget :: "nat \<Rightarrow> unit res" where
  "validate_review_byte_budget max_bytes =
     (if 1000 \<le> max_bytes \<and> max_bytes \<le> 2000000 then Inr () else Inl (Validation ''max_bytes must be between 1000 and 2000000''))"

record request_context =
  rc_repo_key :: string
  rc_checkout_path :: string
  rc_suite :: "string option"

definition context_for :: "request_context \<Rightarrow> string option \<Rightarrow> request_context" where
  "context_for ctx suite = (case suite of None \<Rightarrow> ctx | Some s \<Rightarrow> ctx\<lparr>rc_suite := Some s\<rparr>)"

definition service_envelope :: "request_context \<Rightarrow> json \<Rightarrow> string option \<Rightarrow> json option \<Rightarrow> json" where
  "service_envelope ctx data suite page =
     (let ctx = context_for ctx suite in
      jobj [(''context'', jobj [(''repo_key'', JStr (rc_repo_key ctx)), (''checkout_path'', JStr (rc_checkout_path ctx)),
              (''suite'', jopt JStr (rc_suite ctx)), (''schema_revision'', JInt schema_revision)]),
            (''data'', data), (''page'', jopt (\<lambda>p. p) page)])"

definition apply_budget :: "pager \<Rightarrow> json \<Rightarrow> nat \<Rightarrow> json res" where
  "apply_budget P response max_words =
     bindr (validate_max_words max_words) (\<lambda>_.
     let n = serialized_word_count P (jidx response ''data'') in
     if max_words < n
     then Inl (Validation (''response requires '' @ show_int (int n) @ '' words; increase max_words or request detailed=false''))
     else Inr response)"

definition apply_byte_budget :: "pager \<Rightarrow> json \<Rightarrow> nat \<Rightarrow> json res" where
  "apply_byte_budget P response max_bytes =
     (let n = length (pg_show P response) in
      if max_bytes < n then Inl (Validation (''response requires '' @ show_int (int n) @ '' bytes; reduce limits or omit source''))
      else Inr response)"

section \<open>Requested paths\<close>

definition escapes_repository :: "string \<Rightarrow> bool" where
  "escapes_repository p \<longleftrightarrow> trim p = [] \<or> is_absolute p \<or> ParentDir \<in> set (components p)"

text \<open>\<open>canon\<close> is the file system's \<open>canonicalize\<close>.\<close>

definition validate_relative_report_path :: "(string \<Rightarrow> io_error + string) \<Rightarrow> string \<Rightarrow> string \<Rightarrow> unit res" where
  "validate_relative_report_path canon report_path checkout_path =
     (if escapes_repository report_path
      then Inl (Validation ''report_path must be a repository-relative path without parent traversal'')
      else case canon checkout_path of
             Inl e \<Rightarrow> Inl (Io e)
           | Inr root \<Rightarrow> (case canon (path_join root report_path) of
                 Inl e \<Rightarrow> Inl (Io e)
               | Inr resolved \<Rightarrow>
                   if path_starts_with resolved root then Inr ()
                   else Inl (Validation ''report_path must remain inside the selected repository'')))"

definition validate_source_file_path :: "string \<Rightarrow> unit res" where
  "validate_source_file_path file_path =
     (if escapes_repository file_path
      then Inl (Validation ''file_path must be a repository-relative path without parent traversal'')
      else Inr ())"

section \<open>Cursors\<close>

lemma json_entry_smaller: "(k, v) \<in> set m \<Longrightarrow> size v < Suc (size_list (size_prod (\<lambda>_. 0) size) m)"
  by (induction m) auto

function canonical_json :: "pager \<Rightarrow> json \<Rightarrow> string" where
  "canonical_json P (JObj m) =
     ''{'' @ join_with '','' (map (\<lambda>(k, txt). pg_debug P k @ '':'' @ txt) (bt_of_list (map (\<lambda>(k, v). (k, canonical_json P v)) m))) @ ''}''"
| "canonical_json P (JArr vs) = ''['' @ join_with '','' (map (canonical_json P) vs) @ '']''"
| "canonical_json P JNull = pg_show P JNull"
| "canonical_json P (JBool b) = pg_show P (JBool b)"
| "canonical_json P (JInt n) = pg_show P (JInt n)"
| "canonical_json P (JFloat x) = pg_show P (JFloat x)"
| "canonical_json P (JStr s) = pg_show P (JStr s)"
  by pat_completeness auto
termination
  by (relation "measure (\<lambda>(P, v). size v)") (auto dest: json_entry_smaller simp: less_Suc_eq_le size_list_estimation')

definition cursor_scope :: "pager \<Rightarrow> string \<Rightarrow> string" where
  "cursor_scope P scope = hex_prefix (pg_sha256 P scope) 8"

definition cursor_anchor :: "pager \<Rightarrow> json \<Rightarrow> string" where
  "cursor_anchor P v = (let digest = pg_sha256 P (canonical_json P v) in hex_prefix digest (length digest))"

definition encode_cursor :: "pager \<Rightarrow> string \<Rightarrow> string \<Rightarrow> nat \<Rightarrow> string res" where
  "encode_cursor P anchor scope occurrence =
     (if occurrence < 1 then Inl (Validation ''cursor occurrence must be positive'')
      else Inr (pg_base64 P (pg_show P (jobj [(''after'', JStr anchor), (''occurrence'', jnat occurrence), (''scope'', JStr (cursor_scope P scope))]))))"

definition cursor_error :: "string \<Rightarrow> app_error" where
  "cursor_error what = Validation (''invalid pagination cursor'' @ what)"

definition decode_cursor :: "pager \<Rightarrow> string \<Rightarrow> string \<Rightarrow> (string \<times> nat) res" where
  "decode_cursor P cursor scope =
     bindr (ok_or (pg_unbase64 P cursor) (cursor_error [])) (\<lambda>bytes.
     bindr (ok_or (pg_parse P bytes) (cursor_error [])) (\<lambda>payload.
     bindr (ok_or (as_object payload) (cursor_error [])) (\<lambda>object.
     bindr (ok_or (Option.bind (bt_get object ''after'') as_str) (cursor_error '' anchor'')) (\<lambda>anchor.
     bindr (ok_or (Option.bind (bt_get object ''occurrence'') as_u64) (cursor_error '' occurrence'')) (\<lambda>occurrence.
     bindr (ok_or (Option.bind (bt_get object ''scope'') as_str) (cursor_error '' scope'')) (\<lambda>scope_value.
     if length anchor \<noteq> 64 \<or> \<not> list_all is_ascii_hexdigit anchor \<or> occurrence < 1 \<or> scope_value \<noteq> cursor_scope P scope
     then Inl (Validation ''pagination cursor does not belong to this query'')
     else Inr (anchor, nat occurrence)))))))"

section \<open>Pages\<close>

text \<open>The position after the given occurrence of an anchor; \<open>seen\<close> counts those met so far, \<open>index\<close> is the
  position of the first remaining value.\<close>

fun cursor_position :: "(json \<Rightarrow> string) \<Rightarrow> string \<Rightarrow> nat \<Rightarrow> nat \<Rightarrow> nat \<Rightarrow> json list \<Rightarrow> nat option" where
  "cursor_position anc anchor occurrence seen index [] = None"
| "cursor_position anc anchor occurrence seen index (v # vs) =
     (if anc v = anchor
      then (if seen + 1 = occurrence then Some (index + 1)
            else cursor_position anc anchor occurrence (seen + 1) (index + 1) vs)
      else cursor_position anc anchor occurrence seen (index + 1) vs)"

definition page_start :: "pager \<Rightarrow> json list \<Rightarrow> string option \<Rightarrow> string \<Rightarrow> nat res" where
  "page_start P vs cursor scope =
     (case cursor of
        None \<Rightarrow> Inr 0
      | Some c \<Rightarrow>
          bindr (decode_cursor P c scope) (\<lambda>(anchor, occurrence).
          ok_or (cursor_position (cursor_anchor P) anchor occurrence 0 0 vs)
            (Validation ''pagination cursor no longer matches the available results'')))"

text \<open>The loop that fills a page: \<open>taken\<close> values of \<open>words\<close> words so far.\<close>

fun fill_page :: "(json \<Rightarrow> nat) \<Rightarrow> nat option \<Rightarrow> nat \<Rightarrow> nat \<Rightarrow> nat \<Rightarrow> json list \<Rightarrow> json list \<times> nat" where
  "fill_page wc max_items max_words taken words [] = ([], words)"
| "fill_page wc max_items max_words taken words (v # vs) =
     (if (case max_items of None \<Rightarrow> False | Some limit \<Rightarrow> limit \<le> taken) then ([], words)
      else if taken \<noteq> 0 \<and> max_words < words + wc v then ([], words)
      else if max_words \<le> words + wc v then ([v], words + wc v)
      else let (rest, n) = fill_page wc max_items max_words (taken + 1) (words + wc v) vs in (v # rest, n))"

definition page_with_item_limit ::
  "pager \<Rightarrow> json list \<Rightarrow> string option \<Rightarrow> nat \<Rightarrow> string \<Rightarrow> nat option \<Rightarrow> nat option \<Rightarrow> (json list \<times> json) res" where
  "page_with_item_limit P vs cursor max_words scope tot max_items =
     bindr (validate_max_words max_words) (\<lambda>_.
     let known_total = (case tot of None \<Rightarrow> length vs | Some n \<Rightarrow> n) in
     if 5000 < length vs \<or> length vs < known_total
     then Inl (Validation ''result exceeds the defensive 5000-record cap; refine the query'')
     else bindr (page_start P vs cursor scope) (\<lambda>start.
       let (selected, word_count) = fill_page (serialized_word_count P) max_items max_words 0 0 (drop start vs);
           consumed = start + length selected;
           truncated = (consumed < known_total) in
       bindr (if truncated \<and> selected \<noteq> []
              then (let anchor = cursor_anchor P (last selected);
                        occurrence = length (filter (\<lambda>v. cursor_anchor P v = anchor) (take consumed vs))
                    in map_sum id Some (encode_cursor P anchor scope occurrence))
              else Inr None) (\<lambda>next_cursor.
       Inr (selected, jobj [(''returned'', jnat (length selected)), (''total'', jnat known_total), (''word_count'', jnat word_count),
         (''max_words'', jnat max_words), (''truncated'', JBool truncated), (''next_cursor'', jopt JStr next_cursor)]))))"

definition page :: "pager \<Rightarrow> json list \<Rightarrow> string option \<Rightarrow> nat \<Rightarrow> string \<Rightarrow> nat option \<Rightarrow> (json list \<times> json) res" where
  "page P vs cursor max_words scope tot = page_with_item_limit P vs cursor max_words scope tot None"

section \<open>A cursor and its position\<close>

definition cursor_payload :: "string \<Rightarrow> nat \<Rightarrow> string \<Rightarrow> json" where
  "cursor_payload anchor occurrence scope = jobj [(''after'', JStr anchor), (''occurrence'', jnat occurrence), (''scope'', JStr scope)]"

text \<open>What the cursors need of the libraries: base64 and the JSON text of a cursor are read back, and a SHA-256
  digest has 32 bytes.\<close>

definition pager_ok :: "pager \<Rightarrow> bool" where
  "pager_ok P \<longleftrightarrow> (\<forall>s. pg_unbase64 P (pg_base64 P s) = Some s)
     \<and> (\<forall>a n s. pg_parse P (pg_show P (cursor_payload a n s)) = Some (cursor_payload a n s))
     \<and> (\<forall>s. length (pg_sha256 P s) = 32)"

lemma cursor_anchor_ok: "pager_ok P \<Longrightarrow> length (cursor_anchor P v) = 64 \<and> list_all is_ascii_hexdigit (cursor_anchor P v)"
  by (simp add: cursor_anchor_def Let_def length_hex_prefix hex_prefix_hex pager_ok_def)

lemma decode_payload:
  assumes "pager_ok P"
  shows "decode_cursor P (pg_base64 P (pg_show P (cursor_payload a n s))) scope =
    (if length a \<noteq> 64 \<or> \<not> list_all is_ascii_hexdigit a \<or> n < 1 \<or> s \<noteq> cursor_scope P scope
     then Inl (Validation ''pagination cursor does not belong to this query'') else Inr (a, n))"
proof -
  have obj: "\<exists>m. cursor_payload a n s = JObj m \<and> bt_get m ''after'' = Some (JStr a) \<and> bt_get m ''occurrence'' = Some (jnat n)
      \<and> bt_get m ''scope'' = Some (JStr s)"
    by (simp add: cursor_payload_def jobj_def bt_get_of_list)
  then obtain m where m: "cursor_payload a n s = JObj m" "bt_get m ''after'' = Some (JStr a)" "bt_get m ''occurrence'' = Some (jnat n)"
    "bt_get m ''scope'' = Some (JStr s)" by blast
  have parse: "pg_unbase64 P (pg_base64 P t) = Some t" "pg_parse P (pg_show P (cursor_payload a n s)) = Some (JObj m)" for t
    using assms m(1) unfolding pager_ok_def by metis+
  show ?thesis using parse m(2-4) by (simp add: decode_cursor_def jnat_def)
qed

lemma decode_encode:
  assumes "pager_ok P" and "0 < n"
  shows "\<exists>c. encode_cursor P (cursor_anchor P v) scope n = Inr c \<and> decode_cursor P c scope = Inr (cursor_anchor P v, n)"
  using decode_payload[OF assms(1), of "cursor_anchor P v" n "cursor_scope P scope" scope] cursor_anchor_ok[OF assms(1), of v] assms(2)
  by (simp add: encode_cursor_def cursor_payload_def)

lemma cursor_position_exact:
  assumes "0 < k" and "k \<le> length vs" and "anc (vs ! (k - 1)) = a"
  shows "cursor_position anc a (seen + length (filter (\<lambda>v. anc v = a) (take k vs))) seen idx vs = Some (idx + k)"
  using assms
proof (induction vs arbitrary: k seen idx)
  case (Cons v vs)
  show ?case
  proof (cases "k = 1")
    case False
    then obtain j where j: "k = Suc j" "0 < j" using Cons.prems(1) by (cases k) auto
    have rest: "j \<le> length vs" "anc (vs ! (j - 1)) = a" using Cons.prems j by (simp_all add: nth_Cons')
    then have "vs ! (j - 1) \<in> set (take j vs)" using j by (metis diff_less in_set_conv_nth less_le_trans length_take min.absorb2 nth_take zero_less_one)
    then have "0 < length (filter (\<lambda>v. anc v = a) (take j vs))" using rest by (force simp: filter_empty_conv)
    then show ?thesis using Cons.IH[OF j(2) rest, of "Suc seen" "Suc idx"] Cons.IH[OF j(2) rest, of seen "Suc idx"] j by simp
  qed (use Cons.prems in simp)
qed simp

lemma fill_page_prefix: "fill_page wc mi mw taken words vs = (sel, n) \<Longrightarrow> sel = take (length sel) vs"
  by (induction wc mi mw taken words vs arbitrary: sel n rule: fill_page.induct)
     (auto simp: Let_def split: if_splits prod.splits option.splits)

lemma fill_page_progress: "fill_page wc mi mw 0 words (v # vs) = (sel, n) \<Longrightarrow> mi \<noteq> Some 0 \<Longrightarrow> sel \<noteq> []"
  by (auto simp: Let_def split: if_splits prod.splits option.splits)

text \<open>A page that starts at a position takes the next values; its cursor, if any, leads to the position after them.\<close>

lemma page_step:
  assumes ok: "pager_ok P" and small: "length vs \<le> 5000" and words: "50 \<le> mw" "mw \<le> 5000" and items: "mi \<noteq> Some 0"
    and start: "page_start P vs cursor scope = Inr k" "k \<le> length vs"
  shows "\<exists>sel pg. page_with_item_limit P vs cursor mw scope None mi = Inr (sel, pg)
    \<and> sel = take (length sel) (drop k vs) \<and> (k < length vs \<longrightarrow> sel \<noteq> [])
    \<and> (if k + length sel < length vs
       then \<exists>c. jidx pg ''next_cursor'' = JStr c \<and> page_start P vs (Some c) scope = Inr (k + length sel)
       else k + length sel = length vs \<and> jidx pg ''next_cursor'' = JNull)"
proof -
  obtain sel n where fp: "fill_page (serialized_word_count P) mi mw 0 0 (drop k vs) = (sel, n)" by fastforce
  have pre: "sel = take (length sel) (drop k vs)" by (rule fill_page_prefix[OF fp])
  have len: "k + length sel \<le> length vs" using arg_cong[OF pre, of length] start(2) by simp
  have prog: "sel \<noteq> []" if "k < length vs"
    using that fp fill_page_progress[OF _ items] by (cases "drop k vs") auto
  let ?m = "k + length sel"
  show ?thesis
  proof (cases "?m < length vs")
    case True
    then have sel: "sel \<noteq> []" using prog by simp
    then have pos: "0 < ?m" by simp
    have last: "last sel = vs ! (?m - 1)"
      using sel pre len by (metis (no_types, lifting) add_diff_assoc Suc_leI One_nat_def diff_Suc_less last_conv_nth length_greater_0_conv nth_drop nth_take start(2))
    let ?a = "cursor_anchor P (last sel)"
    let ?occ = "length (filter (\<lambda>v. cursor_anchor P v = ?a) (take ?m vs))"
    have cp: "cursor_position (cursor_anchor P) ?a ?occ 0 0 vs = Some ?m"
      using cursor_position_exact[OF pos len, of "cursor_anchor P" ?a 0 0] last by simp
    have "vs ! (?m - 1) \<in> set (take ?m vs)" using pos len by (metis diff_less in_set_conv_nth length_take min.absorb2 nth_take zero_less_one)
    then have "0 < ?occ" using last by (force simp: filter_empty_conv)
    then obtain c where c: "encode_cursor P ?a scope ?occ = Inr c" "decode_cursor P c scope = Inr (?a, ?occ)"
      using decode_encode[OF ok] by blast
    then have "page_start P vs (Some c) scope = Inr ?m" using cp by (simp add: page_start_def)
    then show ?thesis
      using True sel pre small words start fp c by (simp add: page_with_item_limit_def validate_max_words_def Let_def jopt_def)
  next
    case False
    then show ?thesis
      using len pre prog small words start fp by (simp add: page_with_item_limit_def validate_max_words_def Let_def jopt_def)
  qed
qed

text \<open>A client that follows the cursors; \<open>None\<close> when it has not reached the end after the given number of pages.\<close>

fun follow :: "(string option \<Rightarrow> (json list \<times> json) res) \<Rightarrow> nat \<Rightarrow> string option \<Rightarrow> json list list option" where
  "follow get 0 cursor = None"
| "follow get (Suc n) cursor =
     (case get cursor of
        Inl e \<Rightarrow> None
      | Inr (sel, pg) \<Rightarrow>
          (case jidx pg ''next_cursor'' of
             JStr c \<Rightarrow> map_option (\<lambda>rest. sel # rest) (follow get n (Some c))
           | _ \<Rightarrow> Some [sel]))"

lemma follow_from:
  assumes ok: "pager_ok P" and small: "length vs \<le> 5000" and words: "50 \<le> mw" "mw \<le> 5000" and items: "mi \<noteq> Some 0"
    and start: "page_start P vs cursor scope = Inr k" "k \<le> length vs" and fuel: "length vs - k < n"
  shows "\<exists>pages. follow (\<lambda>c. page_with_item_limit P vs c mw scope None mi) n cursor = Some pages \<and> concat pages = drop k vs"
  using start fuel
proof (induction n arbitrary: cursor k)
  case (Suc n)
  obtain sel pg where pg: "page_with_item_limit P vs cursor mw scope None mi = Inr (sel, pg)"
    and pre: "sel = take (length sel) (drop k vs)" and prog: "k < length vs \<longrightarrow> sel \<noteq> []"
    and nxt: "if k + length sel < length vs
       then \<exists>c. jidx pg ''next_cursor'' = JStr c \<and> page_start P vs (Some c) scope = Inr (k + length sel)
       else k + length sel = length vs \<and> jidx pg ''next_cursor'' = JNull"
    using page_step[OF ok small words items Suc.prems(1,2)] by blast
  show ?case
  proof (cases "k + length sel < length vs")
    case True
    then obtain c where c: "jidx pg ''next_cursor'' = JStr c" "page_start P vs (Some c) scope = Inr (k + length sel)" using nxt by auto
    have "length vs - (k + length sel) < n" using prog True Suc.prems(3) by (cases sel) auto
    from Suc.IH[OF c(2) _ this] True obtain pages
      where pages: "follow (\<lambda>c. page_with_item_limit P vs c mw scope None mi) n (Some c) = Some pages" "concat pages = drop (k + length sel) vs"
      by auto
    have "sel @ drop (k + length sel) vs = drop k vs" using pre by (metis append_take_drop_id drop_drop add.commute)
    then show ?thesis using pg c pages by simp
  next
    case False
    then have "jidx pg ''next_cursor'' = JNull" "sel = drop k vs" using nxt pre by auto
    then show ?thesis using pg by simp
  qed
qed simp

section \<open>A concrete pager\<close>

definition plain_show :: "json \<Rightarrow> string" where
  "plain_show j = (case (Option.bind (jget j ''after'') as_str, Option.bind (jget j ''occurrence'') as_u64, Option.bind (jget j ''scope'') as_str) of
      (Some a, Some n, Some s) \<Rightarrow> replicate (nat n) (CHR ''i'') @ '':'' @ replicate (length a) (CHR ''i'') @ '':'' @ a @ s
    | _ \<Rightarrow> [])"

definition plain_parse :: "string \<Rightarrow> json option" where
  "plain_parse t = Option.bind (split_once (CHR '':'') t) (\<lambda>(n, r). Option.bind (split_once (CHR '':'') r) (\<lambda>(l, txt).
     Some (cursor_payload (take (length l) txt) (length n) (drop (length l) txt))))"

definition plain_pager :: pager where
  "plain_pager = \<lparr>pg_sha256 = (\<lambda>s. take 32 (s @ replicate 32 (CHR ''0''))), pg_base64 = (\<lambda>s. s), pg_unbase64 = Some,
     pg_show = plain_show, pg_parse = plain_parse, pg_debug = (\<lambda>s. s)\<rparr>"

lemma split_once_sep: "c \<notin> set a \<Longrightarrow> split_once c (a @ c # b) = Some (a, b)"
  by (induction a) auto

lemma plain_pager_ok: "pager_ok plain_pager"
proof -
  have "plain_parse (plain_show (cursor_payload a n s)) = Some (cursor_payload a n s)" for a n s
    by (simp add: plain_show_def plain_parse_def cursor_payload_def jnat_def split_once_sep)
  then show ?thesis by (auto simp: pager_ok_def plain_pager_def min_def)
qed

section \<open>Properties\<close>

text \<open>C17. Paging loses nothing and repeats nothing: a client that starts without a cursor and follows each
  \<open>next_cursor\<close> gets, in at most one page per value and one more, all the values in their order, equal values
  included.\<close>

theorem pages_visit_everything:
  assumes "pager_ok P" and "length vs \<le> 5000" and "50 \<le> mw" and "mw \<le> 5000" and "mi \<noteq> Some 0"
  shows "\<exists>pages. follow (\<lambda>c. page_with_item_limit P vs c mw scope None mi) (Suc (length vs)) None = Some pages \<and> concat pages = vs"
  using follow_from[OF assms, of None scope 0 "Suc (length vs)"] by (simp add: page_start_def)

theorem pages_visit_everything_witness:
  "\<exists>pages. follow (\<lambda>c. page_with_item_limit plain_pager [JInt 1, JInt 1, JInt 2] c 50 ''q'' None (Some 1)) 4 None = Some pages
     \<and> concat pages = [JInt 1, JInt 1, JInt 2]"
  using pages_visit_everything[OF plain_pager_ok, of "[JInt 1, JInt 1, JInt 2]" 50 "Some 1" "''q''"] by (simp add: numeral_eq_Suc)

text \<open>A cursor is bound to its query: under a scope with another digest it is refused, and under its own it
  yields the anchor and the occurrence it was made from.\<close>

theorem cursor_bound_to_scope:
  assumes "pager_ok P" and "0 < n" and "encode_cursor P (cursor_anchor P v) scope n = Inr c"
  shows "decode_cursor P c scope' =
    (if cursor_scope P scope' = cursor_scope P scope then Inr (cursor_anchor P v, n)
     else Inl (Validation ''pagination cursor does not belong to this query''))"
proof -
  have "c = pg_base64 P (pg_show P (cursor_payload (cursor_anchor P v) n (cursor_scope P scope)))"
    using assms(2,3) by (simp add: encode_cursor_def cursor_payload_def)
  then show ?thesis using decode_payload[OF assms(1)] cursor_anchor_ok[OF assms(1), of v] assms(2) by auto
qed

theorem cursor_bound_to_scope_witness:
  "bindr (encode_cursor plain_pager (cursor_anchor plain_pager JNull) ''a'' 1) (\<lambda>c. decode_cursor plain_pager c ''b'')
     = Inl (Validation ''pagination cursor does not belong to this query'')"
proof -
  obtain c where c: "encode_cursor plain_pager (cursor_anchor plain_pager JNull) ''a'' 1 = Inr c"
    using decode_encode[OF plain_pager_ok, of 1] by auto
  have "cursor_scope plain_pager ''b'' \<noteq> cursor_scope plain_pager ''a''" by code_simp
  then show ?thesis using c cursor_bound_to_scope[OF plain_pager_ok _ c, of "''b''"] by simp
qed

text \<open>A report path that is accepted names a file inside the checkout, also after symbolic links are resolved.\<close>

theorem report_path_stays_inside:
  assumes "validate_relative_report_path canon report_path checkout_path = Inr u"
  shows "\<exists>root resolved rest. canon checkout_path = Inr root \<and> canon (path_join root report_path) = Inr resolved
    \<and> components resolved = components root @ rest \<and> ParentDir \<notin> set (components report_path) \<and> \<not> is_absolute report_path"
  using assms by (auto simp: validate_relative_report_path_def escapes_repository_def path_starts_with_prefix split: sum.splits if_splits)

theorem report_path_stays_inside_witness:
  "\<exists>root resolved rest. Inr ''/r'' = (Inr root :: io_error + string) \<and> Inr ''/r/cov/l.info'' = (Inr resolved :: io_error + string)
    \<and> components resolved = components root @ rest \<and> ParentDir \<notin> set (components ''cov/l.info'') \<and> \<not> is_absolute ''cov/l.info''"
proof -
  let ?canon = "\<lambda>p. if p = ''/r/cov/l.info'' then Inr ''/r/cov/l.info'' else (Inr ''/r'' :: io_error + string)"
  have "validate_relative_report_path ?canon ''cov/l.info'' ''/r'' = Inr ()" by code_simp
  from report_path_stays_inside[OF this] show ?thesis by (simp add: path_join_def is_absolute_def starts_with_def)
qed

end
