(* ===== verification/Query.thy ===== *)
theory Query
  imports Parser Lib "HOL-Library.Multiset"
begin

text \<open>
  The query layer of \<open>src/src/query.rs\<close>: observations, their grouping, loading of a measurement
  (a report file with its optional receipt, or a saved snapshot), the searches \<open>find\<close> and
  \<open>compare\<close>, and the response bound.  What the query layer takes from elsewhere is collected in
  \<open>query_env\<close> (file system, hashing, JSON text, UUID syntax, symbol demangling, Unicode case folding) and in
  \<open>store_api\<close> (the four calls into the storage module).
\<close>

section \<open>Environment\<close>

record store_api =
  st_list_snapshots :: "string \<Rightarrow> string option \<Rightarrow> int \<Rightarrow> json list res"
  st_measurement_report :: "string \<Rightarrow> (json \<times> coverage_report) res"
  st_composite_snapshot :: "string \<Rightarrow> json res"
  st_composite_regions_all :: "string \<Rightarrow> json list res"

record query_env =
  qe_canonicalize :: "string \<Rightarrow> io_error + string"
  qe_read :: "string \<Rightarrow> io_error + string"
  qe_metadata_len :: "string \<Rightarrow> io_error + int"
  qe_is_file :: "string \<Rightarrow> bool"
  qe_from_slice :: json_reader
  qe_read_events :: xml_reader
  qe_to_string :: "json \<Rightarrow> string"
  qe_sha256 :: "string \<Rightarrow> string"
  qe_uuid_ok :: "string \<Rightarrow> bool"
  qe_demangle :: "string \<Rightarrow> string option"
  qe_to_lowercase :: "string \<Rightarrow> string"

definition canon_of :: "query_env \<Rightarrow> canon" where
  "canon_of env p = (case qe_canonicalize env p of Inl _ \<Rightarrow> None | Inr q \<Rightarrow> Some q)"

definition parser_env_of :: "query_env \<Rightarrow> parser_env" where
  "parser_env_of env = \<lparr>pe_canon = canon_of env, pe_from_slice = qe_from_slice env,
     pe_read_events = qe_read_events env\<rparr>"

record reader =
  rd_repo_key :: string
  rd_checkout_path :: string
  rd_suite :: "string option"
  rd_store :: "store_api option"

record find_request =
  fr_measurement :: "string option"
  fr_suite :: "string option"
  fr_query :: "string option"
  fr_line :: "int option"
  fr_metric :: "string option"
  fr_limit :: nat
  fr_offset :: nat

record compare_request =
  cq_measurement :: string
  cq_baseline :: string
  cq_query :: "string option"
  cq_metric :: "string option"
  cq_scope :: "string option"
  cq_previous :: "string list"
  cq_limit :: nat

definition reader_context :: "reader \<Rightarrow> string option \<Rightarrow> reader" where
  "reader_context rd suite = (case suite of None \<Rightarrow> rd | Some s \<Rightarrow> rd\<lparr>rd_suite := Some s\<rparr>)"

definition reader_store :: "reader \<Rightarrow> store_api res" where
  "reader_store rd = ok_or (rd_store rd)
     (invalid ''saved measurements require the server; use a report path for a standalone query'')"

definition envelope :: "reader \<Rightarrow> json \<Rightarrow> string option \<Rightarrow> json" where
  "envelope rd data suite =
     (let c = reader_context rd suite in
      jobj [(''context'', jobj [(''repo_key'', JStr (rd_repo_key c)), (''checkout_path'', JStr (rd_checkout_path c)),
              (''suite'', jopt JStr (rd_suite c)), (''schema_revision'', JInt schema_revision)]),
            (''data'', data), (''page'', JNull)])"

section \<open>The response bound\<close>

definition array_len :: "json \<Rightarrow> string \<Rightarrow> nat" where
  "array_len data key = (case jidx data key of JArr vs \<Rightarrow> length vs | _ \<Rightarrow> 0)"

text \<open>\<open>max_by_key\<close> keeps the last of several greatest elements.\<close>

fun max_by_key :: "('a \<Rightarrow> nat) \<Rightarrow> 'a list \<Rightarrow> 'a option" where
  "max_by_key f [] = None"
| "max_by_key f (x # xs) = (case max_by_key f xs of
      None \<Rightarrow> Some x
    | Some y \<Rightarrow> if f x \<le> f y then Some y else Some x)"

definition group_keys :: "string list" where
  "group_keys = [''groups'', ''gained'', ''remaining'']"

definition largest_groups :: "(json \<Rightarrow> string) \<Rightarrow> json \<Rightarrow> string option" where
  "largest_groups to_string data =
     max_by_key (\<lambda>key. length (to_string (jidx data key))) (filter (\<lambda>key. 0 < array_len data key) group_keys)"

definition pop_array :: "json \<Rightarrow> string \<Rightarrow> json" where
  "pop_array data key = (case jidx data key of JArr vs \<Rightarrow> jset data key (JArr (butlast vs)) | _ \<Rightarrow> data)"

definition previous_offset :: "json \<Rightarrow> json" where
  "previous_offset data =
     (let n = (case as_u64 (jidx data ''next_offset'') of
          Some n \<Rightarrow> n
        | None \<Rightarrow> (case as_u64 (jidx data ''group_count'') of Some n \<Rightarrow> n | None \<Rightarrow> 0))
      in JInt (max (n - 1) 0))"

definition envelope_size :: "json \<Rightarrow> nat" where
  "envelope_size e = sum_list (map (array_len (jidx e ''data'')) group_keys)"

definition pop_step :: "json \<Rightarrow> string \<Rightarrow> json res" where
  "pop_step env key =
     (let data = pop_array (jidx env ''data'') key in
      if key = ''groups'' then
        (if array_len data key = 0
         then Inl (invalid ''a single coverage group exceeds the response limit; inspect the original artifact'')
         else Inr (jset env ''data'' (jset data ''next_offset'' (previous_offset data))))
      else Inr (jset env ''data'' data))"

lemma max_by_key_mem: "max_by_key f xs = Some x \<Longrightarrow> x \<in> set xs"
  by (induction xs arbitrary: x) (auto split: option.splits if_splits)

lemma array_len_jset: "is_object d \<Longrightarrow> array_len (jset d k v) j =
    (if j = k then (case v of JArr vs \<Rightarrow> length vs | _ \<Rightarrow> 0) else array_len d j)"
  by (simp add: array_len_def jidx_def jget_jset_object)

lemma is_object_jset [simp]: "is_object v \<Longrightarrow> is_object (jset v k x)"
  by (cases v) (auto simp: is_object_def jset_def)

lemma array_len_pos: "0 < array_len d k \<Longrightarrow> is_object d \<and> (\<exists>vs. jidx d k = JArr vs \<and> vs \<noteq> [])"
  by (cases d) (auto simp: array_len_def jidx_def jget_def is_object_def split: json.splits)

lemma jidx_object: "jidx e k \<noteq> JNull \<Longrightarrow> is_object e"
  by (cases e) (auto simp: jidx_def jget_def is_object_def)

lemma jidx_jset: "is_object e \<Longrightarrow> jidx (jset e k v) j = (if j = k then v else jidx e j)"
  by (simp add: jidx_def jget_jset_object)

lemma largest_groups_pos:
  "largest_groups ts d = Some key \<Longrightarrow> key \<in> set group_keys \<and> 0 < array_len d key"
  by (auto simp: largest_groups_def dest!: max_by_key_mem)

lemma array_len_pop: "0 < array_len d k \<Longrightarrow> array_len (pop_array d k) j = (if j = k then array_len d k - 1 else array_len d j)"
  using array_len_pos[of d k] by (auto simp: pop_array_def array_len_jset) (auto simp: array_len_def)

lemma pop_array_object: "is_object d \<Longrightarrow> is_object (pop_array d k)"
  by (simp add: pop_array_def split: json.splits)

text \<open>One round of the loop removes one group, so the loop ends.\<close>

lemma pop_step_array_len:
  assumes "0 < array_len (jidx e ''data'') key" and "pop_step e key = Inr e'" and "j \<in> set group_keys"
  shows "array_len (jidx e' ''data'') j
    = (if j = key then array_len (jidx e ''data'') key - 1 else array_len (jidx e ''data'') j)"
proof -
  let ?d = "jidx e ''data''"
  have d: "is_object ?d" using array_len_pos[OF assms(1)] by blast
  then have e: "is_object e" by (intro jidx_object[of e "''data''"]) (auto simp: is_object_def)
  have j: "j \<noteq> ''next_offset''" using assms(3) by (auto simp: group_keys_def)
  show ?thesis
    using assms(2) e d j array_len_pop[OF assms(1)] pop_array_object[OF d]
    by (auto simp: pop_step_def Let_def jidx_jset array_len_jset split: if_splits)
qed

lemma envelope_size_pop_step:
  assumes "largest_groups ts (jidx e ''data'') = Some key" and "pop_step e key = Inr e'"
  shows "envelope_size e' < envelope_size e"
proof -
  note key = largest_groups_pos[OF assms(1)]
  note len = pop_step_array_len[OF conjunct2[OF key] assms(2)]
  have le: "array_len (jidx e' ''data'') j \<le> array_len (jidx e ''data'') j" if "j \<in> set group_keys" for j
    using len[OF that] by simp
  have less: "array_len (jidx e' ''data'') key < array_len (jidx e ''data'') key"
    using len[OF conjunct1[OF key]] key by simp
  have "key = ''groups'' \<or> key = ''gained'' \<or> key = ''remaining''"
    using key by (simp add: group_keys_def)
  with less le[of "''groups''"] le[of "''gained''"] le[of "''remaining''"] show ?thesis
    by (elim disjE) (simp_all add: envelope_size_def group_keys_def)
qed

function bounded :: "(json \<Rightarrow> string) \<Rightarrow> json \<Rightarrow> json res" where
  "bounded to_string env =
     (if length (to_string env) \<le> 12288 then Inr env
      else case largest_groups to_string (jidx env ''data'') of
        None \<Rightarrow> Inl (invalid ''measurement metadata exceeds the 12 KiB response limit; use shorter report paths'')
      | Some key \<Rightarrow> (case pop_step env key of Inl e \<Rightarrow> Inl e | Inr env' \<Rightarrow> bounded to_string env'))"
  by pat_completeness auto
termination
  by (relation "measure (\<lambda>(ts, e). envelope_size e)") (auto intro: envelope_size_pop_step)

declare bounded.simps [simp del]

section \<open>Observations\<close>

type_synonym span = "int \<times> int \<times> int \<times> int"

record observation =
  ob_path :: string
  ob_symbol :: string
  ob_span :: span
  ob_kind :: string
  ob_arm :: string
  ob_hits :: int
  ob_identity :: "string option"
  ob_cause :: "string option"

type_synonym observations = "(string, observation) btree"

definition start_line :: "span \<Rightarrow> int" where
  "start_line s = fst s"

definition end_line :: "span \<Rightarrow> int" where
  "end_line s = fst (snd (snd s))"

definition show_span :: "span \<Rightarrow> string" where
  "show_span s = (case s of (a, b, c, d) \<Rightarrow>
     ''['' @ show_int a @ '', '' @ show_int b @ '', '' @ show_int c @ '', '' @ show_int d @ '']'')"

definition obs_key :: "observation \<Rightarrow> string" where
  "obs_key ob = (case ob_identity ob of
      Some identity \<Rightarrow> identity
    | None \<Rightarrow> ob_kind ob @ '':'' @ ob_path ob @ '':'' @ ob_symbol ob @ '':'' @ show_span (ob_span ob)
         @ '':'' @ ob_arm ob)"

definition matches :: "query_env \<Rightarrow> observation \<Rightarrow> string option \<Rightarrow> int option \<Rightarrow> bool" where
  "matches env ob query line =
     (let text = qe_to_lowercase env (ob_path ob @ '' '' @ ob_symbol ob)
      in (case query of None \<Rightarrow> True | Some q \<Rightarrow> contains_str (qe_to_lowercase env q) text)
         \<and> (case line of None \<Rightarrow> True | Some l \<Rightarrow> start_line (ob_span ob) \<le> l \<and> l \<le> end_line (ob_span ob)))"

text \<open>Messages with an en dash carry its three bytes.\<close>

definition en_dash :: string where
  "en_dash = [CHR 0xE2, CHR 0x80, CHR 0x93]"

definition validate :: "nat \<Rightarrow> string option \<Rightarrow> unit res" where
  "validate limit query =
     (if \<not> (1 \<le> limit \<and> limit \<le> 20) then Inl (invalid ''limit must be between 1 and 20'')
      else if (case query of None \<Rightarrow> False | Some q \<Rightarrow> q = [] \<or> 256 < length q)
      then Inl (invalid (''query must contain 1'' @ en_dash @ ''256 bytes''))
      else Inr ())"

definition digest :: "query_env \<Rightarrow> string \<Rightarrow> string" where
  "digest env bytes = (let hash = qe_sha256 env bytes in hex_prefix hash (length hash))"

definition report_path :: "query_env \<Rightarrow> string \<Rightarrow> string \<Rightarrow> string res" where
  "report_path env root path = (case qe_canonicalize env root of
      Inl e \<Rightarrow> Inl (Io e)
    | Inr root \<Rightarrow> (case qe_canonicalize env (path_join root path) of
        Inl e \<Rightarrow> Inl (Io e)
      | Inr path \<Rightarrow>
          (if \<not> path_starts_with path root
           then Inl (invalid ''measurement must be inside the selected repository'')
           else Inr path)))"

definition number :: "json list \<Rightarrow> nat \<Rightarrow> int res" where
  "number values index =
     (case Option.bind (nth_opt values index) as_i64 of
        Some n \<Rightarrow> (if 0 \<le> n then Inr n else Inl (invalid ''invalid stored LLVM region coordinate or count''))
      | None \<Rightarrow> Inl (invalid ''invalid stored LLVM region coordinate or count''))"

definition merge_observation :: "observation option \<Rightarrow> observation \<Rightarrow> observation" where
  "merge_observation old ob = (case old of
      None \<Rightarrow> ob
    | Some previous \<Rightarrow> previous\<lparr>ob_hits := max (ob_hits previous) (ob_hits ob)\<rparr>)"

definition insert_obs :: "observations \<Rightarrow> observation \<Rightarrow> observations" where
  "insert_obs m ob = bt_insert (obs_key ob) (merge_observation (bt_get m (obs_key ob)) ob) m"

definition llvm_arms :: "bool \<Rightarrow> (nat \<times> string) list" where
  "llvm_arms branch = (if branch then [(4, ''true''), (5, ''false'')] else [(4, [])])"

definition insert_arm :: "string \<Rightarrow> string \<Rightarrow> string \<Rightarrow> span \<Rightarrow> json list \<Rightarrow> observations
    \<Rightarrow> nat \<times> string \<Rightarrow> observations res" where
  "insert_arm path symbol kind sp values m arm = (case arm of (cnt, arm) \<Rightarrow>
     bindr (number values cnt) (\<lambda>hits.
       Inr (insert_obs m \<lparr>ob_path = path, ob_symbol = symbol, ob_span = sp, ob_kind = kind, ob_arm = arm,
              ob_hits = hits, ob_identity = None, ob_cause = None\<rparr>)))"

text \<open>One region or branch row of a function: rows of other files and non-code regions are skipped.\<close>

definition observe_row :: "canon \<Rightarrow> string \<Rightarrow> file_coverage \<Rightarrow> string \<Rightarrow> json list \<Rightarrow> string
    \<Rightarrow> observations \<Rightarrow> json \<Rightarrow> observations res" where
  "observe_row canon root file symbol names kind m row =
     bindr (ok_or (as_array row) (invalid ''invalid LLVM region'')) (\<lambda>values.
     let branch = (kind = ''branches'') in
     bindr (number values (if branch then 6 else 5)) (\<lambda>file_index.
     bindr (ok_or (Option.bind (nth_opt names (nat file_index)) as_str)
       (invalid ''LLVM region references an unknown file'')) (\<lambda>name.
     if normalize_report_path canon name (Some root) \<noteq> fc_file_path file then Inr m
     else bindr (if branch then Inr 0 else number values 7) (\<lambda>region_kind.
     if region_kind \<noteq> 0 then Inr m
     else
     bindr (number values 0) (\<lambda>a. bindr (number values 1) (\<lambda>b.
     bindr (number values 2) (\<lambda>c. bindr (number values 3) (\<lambda>d.
     if a = 0 \<or> (c, d) < (a, b) then Inl (invalid ''invalid LLVM source span'')
     else foldM (insert_arm (fc_file_path file) symbol kind (a, b, c, d) values) m (llvm_arms branch)))))))))"

definition observe_field :: "canon \<Rightarrow> string \<Rightarrow> file_coverage \<Rightarrow> string \<Rightarrow> json list \<Rightarrow> json
    \<Rightarrow> observations \<Rightarrow> string \<Rightarrow> observations res" where
  "observe_field canon root file symbol names function m kind = (case as_array (jidx function kind) of
      None \<Rightarrow> Inr m
    | Some rows \<Rightarrow> foldM (observe_row canon root file symbol names kind) m rows)"

definition observe_function :: "canon \<Rightarrow> string \<Rightarrow> file_coverage \<Rightarrow> observations \<Rightarrow> json \<Rightarrow> observations res" where
  "observe_function canon root file m function =
     bindr (ok_or (as_str (jidx function ''name'')) (invalid ''LLVM function name unavailable'')) (\<lambda>symbol.
     bindr (ok_or (as_array (jidx function ''filenames'')) (invalid ''LLVM filenames unavailable'')) (\<lambda>names.
       foldM (observe_field canon root file symbol names function) m [''regions'', ''branches'']))"

definition observe_file :: "canon \<Rightarrow> string \<Rightarrow> observations \<Rightarrow> file_coverage \<Rightarrow> observations res" where
  "observe_file canon root m file = (case as_array (jidx (fc_raw_metrics file) ''llvm_functions'') of
      None \<Rightarrow> Inr m
    | Some functions \<Rightarrow> foldM (observe_function canon root file) m functions)"

definition line_observation :: "line_coverage \<Rightarrow> observation" where
  "line_observation l =
     \<lparr>ob_path = lc_file_path l, ob_symbol = [], ob_span = (lc_line_number l, 0, lc_line_number l, 0),
      ob_kind = ''lines'', ob_arm = [], ob_hits = i64_of_bool (lc_covered l), ob_identity = None, ob_cause = None\<rparr>"

definition observe_line :: "observations \<Rightarrow> line_coverage \<Rightarrow> observations" where
  "observe_line m l = (if lc_count_line l then insert_obs m (line_observation l) else m)"

definition observations :: "canon \<Rightarrow> coverage_report \<Rightarrow> string \<Rightarrow> observations res" where
  "observations canon report root =
     bindr (foldM (observe_file canon root) [] (cr_files report)) (\<lambda>m.
       Inr (foldl observe_line m (cr_lines report)))"

definition metric :: "string option \<Rightarrow> coverage_report \<Rightarrow> string res" where
  "metric requested report =
     (let m = (case requested of None \<Rightarrow> ''auto'' | Some m \<Rightarrow> m) in
      if m = ''auto'' then Inr (if 0 < total_regions report then ''regions'' else ''lines'')
      else if m \<in> {''regions'', ''branches'', ''lines''} then Inr m
      else Inl (invalid ''metric must be auto, regions, branches, or lines''))"

definition metric_counts :: "coverage_report \<Rightarrow> string \<Rightarrow> int \<times> int" where
  "metric_counts report m =
     (if m = ''regions'' then (covered_regions report, total_regions report)
      else if m = ''branches'' then (covered_branches report, total_branches report)
      else (covered_lines report, total_lines report))"

definition counts :: "coverage_report \<Rightarrow> string \<Rightarrow> json" where
  "counts report m = (case metric_counts report m of (covered, tot) \<Rightarrow>
     jobj [(''metric'', JStr m), (''covered'', JInt covered), (''total'', JInt tot),
           (''missing'', JInt (i64_sub tot covered))])"

section \<open>Grouping\<close>

type_synonym group_key = "string \<times> string \<times> int \<times> string option"

definition group_key_of :: "observation \<Rightarrow> group_key" where
  "group_key_of row = (ob_path row, ob_symbol row,
     (if ob_symbol row = [] then start_line (ob_span row) else 0), ob_cause row)"

definition push_row :: "(group_key, observation list) btree \<Rightarrow> observation \<Rightarrow> (group_key, observation list) btree" where
  "push_row m row = bt_insert (group_key_of row)
     ((case bt_get m (group_key_of row) of None \<Rightarrow> [] | Some rows \<Rightarrow> rows) @ [row]) m"

definition sort_rows :: "observation list \<Rightarrow> observation list" where
  "sort_rows rows = sort_key (\<lambda>row. (ob_span row, ob_arm row)) rows"

definition group_order :: "observation list \<Rightarrow> int \<times> string \<times> span \<times> string" where
  "group_order rows = (- int (length rows), ob_path (hd rows), ob_span (hd rows), ob_symbol (hd rows))"

text \<open>The groups of a row list, in the order they are shown.\<close>

definition ordered_groups :: "observation list \<Rightarrow> observation list list" where
  "ordered_groups rows =
     sort_key group_order (map sort_rows (bt_values (foldl push_row [] rows)))"

definition ellipsis :: string where
  "ellipsis = [CHR 0xE2, CHR 0x80, CHR 0xA6]"

definition display_symbol :: "query_env \<Rightarrow> string \<Rightarrow> string" where
  "display_symbol env symbol =
     (let s = (case qe_demangle env symbol of Some name \<Rightarrow> name | None \<Rightarrow> symbol)
      in if 160 < chars_count s then chars_take 159 s @ ellipsis else s)"

definition span_json :: "span \<Rightarrow> json" where
  "span_json s = (case s of (a, b, c, d) \<Rightarrow> JArr [JInt a, JInt b, JInt c, JInt d])"

definition location_json :: "observation \<Rightarrow> json" where
  "location_json row = jobj [(''span'', span_json (ob_span row)),
     (''arm'', if ob_arm row = [] then JNull else JStr (ob_arm row))]"

definition render_group :: "query_env \<Rightarrow> observation list \<Rightarrow> json" where
  "render_group env rows =
     (let rows = sort_rows rows; first = hd rows; symbol = display_symbol env (ob_symbol first) in
      jobj [(''path'', JStr (ob_path first)),
            (''function'', if symbol = [] then JNull else JStr symbol),
            (''count'', jnat (length rows)),
            (''unmeasured_reason'', jopt JStr (ob_cause first)),
            (''locations'', JArr (map location_json (take 3 rows))),
            (''locations_omitted'', jnat (length rows - 3))])"

definition group_rows :: "query_env \<Rightarrow> observation list \<Rightarrow> nat \<Rightarrow> nat \<Rightarrow> json list \<times> nat" where
  "group_rows env rows limit offset =
     (let groups = ordered_groups rows
      in (map (render_group env) (take limit (drop offset groups)), length groups))"


section \<open>What the bound keeps\<close>

text \<open>The answer that is sent is within the limit, whatever the size of the original.\<close>

lemma bounded_size: "bounded ts e = Inr e' \<Longrightarrow> length (ts e') \<le> 12288"
  by (induction ts e rule: bounded.induct)
    (subst (asm) (2) bounded.simps, auto split: if_splits option.splits sum.splits)

text \<open>Rounds of the loop preserve what every single round preserves.\<close>

lemma bounded_invariant:
  assumes "bounded ts e = Inr e'" and "P e"
    and step: "\<And>e key e''. P e \<Longrightarrow> key \<in> set group_keys \<Longrightarrow> 0 < array_len (jidx e ''data'') key
      \<Longrightarrow> pop_step e key = Inr e'' \<Longrightarrow> P e''"
  shows "P e'"
  using assms(1,2)
proof (induction ts e rule: bounded.induct)
  case (1 ts e)
  show ?case
  proof (cases "length (ts e) \<le> 12288")
    case True
    with 1(2,3) show ?thesis by (simp add: bounded.simps)
  next
    case False
    with 1(2) obtain key e'' where key: "largest_groups ts (jidx e ''data'') = Some key"
      and pop: "pop_step e key = Inr e''" and rest: "bounded ts e'' = Inr e'"
      by (subst (asm) bounded.simps) (auto split: option.splits sum.splits)
    have "P e''" using step[OF 1(3) _ _ pop] largest_groups_pos[OF key] by simp
    with 1(1)[OF False key pop rest] show ?thesis by blast
  qed
qed

definition array_at :: "json \<Rightarrow> string \<Rightarrow> json list" where
  "array_at d k = (case jidx d k of JArr vs \<Rightarrow> vs | _ \<Rightarrow> [])"

lemma array_len_at: "array_len d k = length (array_at d k)"
  by (simp add: array_len_def array_at_def split: json.split)

lemma pop_step_objects:
  assumes "0 < array_len (jidx e ''data'') key"
  shows "is_object e" and "is_object (jidx e ''data'')"
proof -
  show d: "is_object (jidx e ''data'')" using array_len_pos[OF assms] by blast
  then show "is_object e" by (intro jidx_object[of e "''data''"]) (auto simp: is_object_def)
qed

text \<open>One round changes the end of one group array and, for \<open>groups\<close>, the next offset.\<close>

lemma pop_step_frame:
  assumes pos: "0 < array_len (jidx e ''data'') key" and pop: "pop_step e key = Inr e'"
    and key: "key \<in> set group_keys"
  shows "j \<noteq> ''data'' \<Longrightarrow> jidx e' j = jidx e j"
    and "j \<notin> set group_keys \<Longrightarrow> j \<noteq> ''next_offset'' \<Longrightarrow> jidx (jidx e' ''data'') j = jidx (jidx e ''data'') j"
    and "j \<in> set group_keys \<Longrightarrow> array_at (jidx e' ''data'') j
      = (if j = key then butlast (array_at (jidx e ''data'') j) else array_at (jidx e ''data'') j)"
    and "key = ''groups'' \<Longrightarrow> jidx (jidx e' ''data'') ''next_offset'' = previous_offset (jidx e ''data'')"
    and "key \<noteq> ''groups'' \<Longrightarrow> jidx (jidx e' ''data'') ''next_offset'' = jidx (jidx e ''data'') ''next_offset''"
proof -
  note objs = pop_step_objects[OF pos]
  obtain vs where vs: "jidx (jidx e ''data'') key = JArr vs" using array_len_pos[OF pos] by blast
  have nokey: "key \<noteq> ''next_offset''" "key \<noteq> ''group_count''" using key by (auto simp: group_keys_def)
  have nx: "j \<in> set group_keys \<Longrightarrow> j \<noteq> ''next_offset''" by (auto simp: group_keys_def)
  obtain D where D: "D = pop_array (jidx e ''data'') key" by blast
  have d: "jidx D k = (if k = key then JArr (butlast vs) else jidx (jidx e ''data'') k)" for k
    using objs by (simp add: D pop_array_def vs jidx_jset)
  have off: "previous_offset D = previous_offset (jidx e ''data'')"
    using nokey by (simp add: previous_offset_def d split: option.split)
  have obj: "is_object D" unfolding D using objs(2) by (rule pop_array_object)
  from pop have e': "e' = jset e ''data'' (if key = ''groups'' then jset D ''next_offset'' (previous_offset D) else D)"
    by (auto simp: pop_step_def Let_def D split: if_splits)
  note simps = e' jidx_jset objs obj off d
  have jk: "j \<notin> set group_keys \<Longrightarrow> j \<noteq> key" using key by blast
  show "j \<noteq> ''data'' \<Longrightarrow> jidx e' j = jidx e j" by (simp add: simps)
  show "j \<notin> set group_keys \<Longrightarrow> j \<noteq> ''next_offset'' \<Longrightarrow> jidx (jidx e' ''data'') j = jidx (jidx e ''data'') j"
    using jk by (auto simp: simps)
  show "j \<in> set group_keys \<Longrightarrow> array_at (jidx e' ''data'') j
      = (if j = key then butlast (array_at (jidx e ''data'') j) else array_at (jidx e ''data'') j)"
    using nx vs by (auto simp: simps array_at_def)
  show "key = ''groups'' \<Longrightarrow> jidx (jidx e' ''data'') ''next_offset'' = previous_offset (jidx e ''data'')"
    by (simp add: simps)
  show "key \<noteq> ''groups'' \<Longrightarrow> jidx (jidx e' ''data'') ''next_offset'' = jidx (jidx e ''data'') ''next_offset''"
    using nokey by (auto simp: simps)
qed


lemma butlast_take_min: "\<exists>m. butlast (take n xs) = take m xs"
  by (rule exI[of _ "min n (length xs) - 1"]) (simp add: butlast_conv_take min_def, cases xs, auto)

text \<open>The bounded answer shows a prefix of every list of the original one and keeps the rest.\<close>

lemma bounded_frame:
  assumes "bounded ts e = Inr e'"
  shows "j \<noteq> ''data'' \<Longrightarrow> jidx e' j = jidx e j"
    and "j \<notin> set group_keys \<Longrightarrow> j \<noteq> ''next_offset'' \<Longrightarrow> jidx (jidx e' ''data'') j = jidx (jidx e ''data'') j"
    and "j \<in> set group_keys \<Longrightarrow> \<exists>n. array_at (jidx e' ''data'') j = take n (array_at (jidx e ''data'') j)"
proof -
  show "jidx e' j = jidx e j" if "j \<noteq> ''data''"
    by (rule bounded_invariant[OF assms, where P = "\<lambda>x. jidx x j = jidx e j"])
      (simp_all add: pop_step_frame(1) that)
  show "jidx (jidx e' ''data'') j = jidx (jidx e ''data'') j" if "j \<notin> set group_keys" "j \<noteq> ''next_offset''"
    by (rule bounded_invariant[OF assms, where P = "\<lambda>x. jidx (jidx x ''data'') j = jidx (jidx e ''data'') j"])
      (simp_all add: pop_step_frame(2) that)
  show "\<exists>n. array_at (jidx e' ''data'') j = take n (array_at (jidx e ''data'') j)" if "j \<in> set group_keys"
  proof (rule bounded_invariant[OF assms, where P = "\<lambda>x. \<exists>n. array_at (jidx x ''data'') j = take n (array_at (jidx e ''data'') j)"])
    show "\<exists>n. array_at (jidx e ''data'') j = take n (array_at (jidx e ''data'') j)"
      by (rule exI[of _ "length (array_at (jidx e ''data'') j)"]) simp
  qed (auto simp: pop_step_frame(3) that butlast_take_min)
qed

text \<open>\<open>page_ok off\<close>: the groups shown are those from \<open>off\<close> on, and the next offset is the number of
  groups seen so far, absent only when these are all.\<close>

definition page_ok :: "nat \<Rightarrow> json \<Rightarrow> bool" where
  "page_ok off d \<longleftrightarrow>
     (case jidx d ''next_offset'' of
        JInt n \<Rightarrow> n = int (off + array_len d ''groups'')
      | JNull \<Rightarrow> (case jidx d ''group_count'' of
            JInt n \<Rightarrow> 0 \<le> n \<and> n \<le> int (off + array_len d ''groups'')
              \<and> (0 < array_len d ''groups'' \<longrightarrow> n = int (off + array_len d ''groups''))
          | _ \<Rightarrow> False)
      | _ \<Rightarrow> False)"

lemma page_ok_pop_step:
  assumes ok: "page_ok off (jidx e ''data'')" and pos: "0 < array_len (jidx e ''data'') key"
    and pop: "pop_step e key = Inr e'" and key: "key \<in> set group_keys"
  shows "page_ok off (jidx e' ''data'')"
proof -
  let ?d = "jidx e ''data''" and ?d' = "jidx e' ''data''"
  note fr = pop_step_frame[OF pos pop key]
  have gc: "jidx ?d' ''group_count'' = jidx ?d ''group_count''" by (rule fr(2)) (simp_all add: group_keys_def)
  have len: "array_len ?d' ''groups'' = (if key = ''groups'' then array_len ?d ''groups'' - 1 else array_len ?d ''groups'')"
    using fr(3)[of "''groups''"] by (auto simp: array_len_at group_keys_def)
  show ?thesis
  proof (cases "key = ''groups''")
    case True
    have n: "previous_offset ?d = JInt (int (off + array_len ?d ''groups'') - 1)"
      using ok pos True by (auto simp: page_ok_def previous_offset_def split: json.splits)
    show ?thesis using fr(4)[OF True] pos n len True by (simp add: page_ok_def)
  next
    case False
    show ?thesis using fr(5)[OF False] ok gc len False by (simp add: page_ok_def split: json.splits)
  qed
qed

lemma page_ok_bounded:
  "bounded ts e = Inr e' \<Longrightarrow> page_ok off (jidx e ''data'') \<Longrightarrow> page_ok off (jidx e' ''data'')"
  by (rule bounded_invariant[where P = "\<lambda>x. page_ok off (jidx x ''data'')"]) (auto intro: page_ok_pop_step)

section \<open>Observations of a report\<close>

text \<open>Every observation is stored under its own key, with a non-negative count, a known kind and
  an ordered span.\<close>

definition obs_ok :: "string \<Rightarrow> observation \<Rightarrow> bool" where
  "obs_ok k ob \<longleftrightarrow> k = obs_key ob \<and> 0 \<le> ob_hits ob \<and> ob_kind ob \<in> {''regions'', ''branches'', ''lines''}
     \<and> ob_arm ob \<in> {[], ''true'', ''false''}
     \<and> ob_identity ob = None \<and> ob_cause ob = None \<and> start_line (ob_span ob) \<le> end_line (ob_span ob)"

definition obs_map_ok :: "observations \<Rightarrow> bool" where
  "obs_map_ok m \<longleftrightarrow> bt_inv m \<and> (\<forall>(k, ob) \<in> set m. obs_ok k ob)"

lemma obs_map_ok_Nil [simp]: "obs_map_ok []"
  by (simp add: obs_map_ok_def)

lemma obs_map_ok_insert:
  assumes m: "obs_map_ok m" and ob: "obs_ok (obs_key ob) ob"
  shows "obs_map_ok (insert_obs m ob)"
proof -
  let ?new = "merge_observation (bt_get m (obs_key ob)) ob"
  have "obs_ok (obs_key ob) ?new"
  proof (cases "bt_get m (obs_key ob)")
    case (Some old)
    then have "obs_ok (obs_key ob) old" using m bt_get_in[OF Some] by (auto simp: obs_map_ok_def)
    then show ?thesis using ob Some by (auto simp: merge_observation_def obs_ok_def obs_key_def)
  qed (simp add: merge_observation_def ob)
  then show ?thesis using m set_bt_insert[of "obs_key ob" ?new m]
    by (auto simp: obs_map_ok_def insert_obs_def)
qed

lemma number_nonneg: "number values i = Inr n \<Longrightarrow> 0 \<le> n"
  by (auto simp: number_def split: option.splits if_splits)

lemma obs_map_ok_observe_row:
  assumes row: "observe_row canon root file symbol names kind m row = Inr m'" and m: "obs_map_ok m"
    and kind: "kind \<in> {''regions'', ''branches''}"
  shows "obs_map_ok m'"
proof -
  have arm: "obs_map_ok t'" if "obs_map_ok t" "x \<in> set (llvm_arms (kind = ''branches''))"
      "insert_arm (fc_file_path file) symbol kind (a, b, c, d) vs t x = Inr t'" "\<not> (c, d) < (a, b)"
    for t x t' a b c d vs
    using that kind number_nonneg
    by (auto simp: insert_arm_def bindr_eq_Inr llvm_arms_def obs_ok_def start_line_def end_line_def less_prod_def
        intro!: obs_map_ok_insert split: if_splits)
  have fin: "obs_map_ok m'" if "foldM (insert_arm (fc_file_path file) symbol kind (a, b, c, d) vs) m
      (llvm_arms (kind = ''branches'')) = Inr m'" "\<not> (c, d) < (a, b)" for a b c d vs
    using that(1) m by (rule foldM_invariant[where P = obs_map_ok]) (rule arm[OF _ _ _ that(2)])
  show ?thesis using row m fin
    by (auto simp: observe_row_def bindr_eq_Inr Let_def split: if_splits)
qed

lemma obs_map_ok_observe_function:
  assumes "observe_function canon root file m f = Inr m'" and "obs_map_ok m"
  shows "obs_map_ok m'"
proof -
  have field: "obs_map_ok t'" if "observe_field canon root file symbol names f t kind = Inr t'" "obs_map_ok t"
      "kind \<in> {''regions'', ''branches''}" for symbol names t t' kind
    using that by (auto simp: observe_field_def split: option.splits
        elim!: foldM_invariant[where P = obs_map_ok] intro: obs_map_ok_observe_row)
  show ?thesis using assms
    by (auto simp: observe_function_def bindr_eq_Inr simp del: foldM.simps
        elim!: foldM_invariant[where P = obs_map_ok] intro: field)
qed

lemma obs_map_ok_observe_file:
  "observe_file canon root m file = Inr m' \<Longrightarrow> obs_map_ok m \<Longrightarrow> obs_map_ok m'"
  by (auto simp: observe_file_def split: option.splits
      elim!: foldM_invariant[where P = obs_map_ok] intro: obs_map_ok_observe_function)

lemma obs_map_ok_observe_line: "obs_map_ok m \<Longrightarrow> obs_map_ok (observe_line m l)"
  by (auto simp: observe_line_def line_observation_def obs_ok_def start_line_def end_line_def intro!: obs_map_ok_insert)

lemma obs_map_ok_observations:
  assumes "observations canon report root = Inr m"
  shows "obs_map_ok m"
proof -
  obtain t where t: "foldM (observe_file canon root) [] (cr_files report) = Inr t"
      and m: "m = foldl observe_line t (cr_lines report)"
    using assms by (auto simp: observations_def bindr_eq_Inr)
  have "obs_map_ok t"
    by (rule foldM_invariant[OF t, where P = obs_map_ok]) (auto intro: obs_map_ok_observe_file)
  then show ?thesis unfolding m by (rule foldl_invariant) (rule obs_map_ok_observe_line)
qed


section \<open>Grouping partitions the rows\<close>

text \<open>Splitting a list by a key, over all keys that occur, loses and repeats nothing.\<close>

lemma mset_partition:
  assumes "distinct ks" and "key ` set rows \<subseteq> set ks"
  shows "mset (concat (map (\<lambda>k. filter (\<lambda>r. key r = k) rows) ks)) = mset rows"
proof (rule multiset_eqI)
  fix r
  have one: "count (mset (filter (\<lambda>r. key r = k) rows)) r = (if k = key r then count (mset rows) r else 0)" for k
    by (induction rows) auto
  have "count (mset (concat (map (\<lambda>k. filter (\<lambda>r. key r = k) rows) ks))) r
      = (\<Sum>k\<leftarrow>ks. if k = key r then count (mset rows) r else 0)"
    using one by (induction ks) (simp_all del: mset_filter)
  also have "\<dots> = (if key r \<in> set ks then count (mset rows) r else 0)"
    using assms(1) by (induction ks) auto
  also have "\<dots> = count (mset rows) r"
    using assms(2) by (auto simp: not_in_iff[symmetric] dest: count_inI)
  finally show "count (mset (concat (map (\<lambda>k. filter (\<lambda>r. key r = k) rows) ks))) r = count (mset rows) r" .
qed

lemma mset_concat_sort [simp]: "mset (concat (sort_key f xss)) = mset (concat xss)"
  by (metis mset_concat mset_map mset_sort sum_mset_sum_list)

definition grouped :: "observation list \<Rightarrow> (group_key, observation list) btree" where
  "grouped rows = foldl push_row [] rows"

lemma bt_get_grouped:
  "bt_get (grouped rows) k = (if filter (\<lambda>r. group_key_of r = k) rows = [] then None
     else Some (filter (\<lambda>r. group_key_of r = k) rows))"
  unfolding grouped_def push_row_def
  by (subst bt.get_fold_update[where key = group_key_of
        and upd = "\<lambda>old row. (case old of None \<Rightarrow> [] | Some rows \<Rightarrow> rows) @ [row]", OF bt.inv_empty])
    (simp add: foldl_collect)

lemma bt_inv_grouped [simp]: "bt_inv (grouped rows)"
  unfolding grouped_def push_row_def
  by (rule bt.inv_fold_update[where key = group_key_of
        and upd = "\<lambda>old row. (case old of None \<Rightarrow> [] | Some rows \<Rightarrow> rows) @ [row]", OF bt.inv_empty])

lemma keys_grouped: "set (bt_keys (grouped rows)) = group_key_of ` set rows"
proof -
  have "k \<in> set (bt_keys (grouped rows)) \<longleftrightarrow> k \<in> group_key_of ` set rows" for k
    using bt_get_mem_keys[of "grouped rows" k] by (auto simp: bt_get_grouped filter_empty_conv split: if_splits)
  then show ?thesis by blast
qed

lemma grouped_entry: "(k, g) \<in> set (grouped rows) \<Longrightarrow> g = filter (\<lambda>r. group_key_of r = k) rows \<and> g \<noteq> []"
  using bt.entries_get[OF bt_inv_grouped, of k g rows] by (auto simp: bt_get_grouped split: if_splits)

lemma values_grouped: "bt_values (grouped rows) = map (\<lambda>k. filter (\<lambda>r. group_key_of r = k) rows) (bt_keys (grouped rows))"
  using grouped_entry by (fastforce simp: bt_values_def bt_keys_def)

lemma set_sort_rows [simp]: "set (sort_rows g) = set g" and sort_rows_Nil_iff [simp]: "sort_rows g = [] \<longleftrightarrow> g = []"
  by (simp_all add: sort_rows_def) (metis set_empty set_sort)

lemma ordered_groups_grouped: "ordered_groups rows = sort_key group_order (map sort_rows (bt_values (grouped rows)))"
  by (simp add: ordered_groups_def grouped_def)

lemma mset_ordered_groups: "mset (concat (ordered_groups rows)) = mset rows"
proof -
  have s: "mset (concat (map sort_rows gs)) = mset (concat gs)" for gs
    by (induction gs) (simp_all add: sort_rows_def)
  have "distinct (bt_keys (grouped rows))" by (simp add: bt_keys_def bt_inv_distinct)
  then show ?thesis
    by (simp add: ordered_groups_grouped s) (simp add: values_grouped mset_partition keys_grouped)
qed

lemma ordered_groups_mem:
  assumes "g \<in> set (ordered_groups rows)"
  shows "g \<noteq> []" and "\<And>r. r \<in> set g \<Longrightarrow> group_key_of r = group_key_of (hd g)"
    and "sorted (map (\<lambda>r. (ob_span r, ob_arm r)) g)"
proof -
  obtain k h where h: "(k, h) \<in> set (grouped rows)" and g: "g = sort_rows h"
    using assms by (auto simp: ordered_groups_grouped bt_values_def)
  note h' = grouped_entry[OF h]
  show ne: "g \<noteq> []" using conjunct2[OF h'] g by (metis sort_rows_Nil_iff)
  have k: "group_key_of r = k" if "r \<in> set g" for r using that h' g by auto
  show "group_key_of r = group_key_of (hd g)" if "r \<in> set g" for r using k[OF that] k[OF hd_in_set[OF ne]] by simp
  show "sorted (map (\<lambda>r. (ob_span r, ob_arm r)) g)" by (simp add: g sort_rows_def)
qed

lemma distinct_ordered_groups: "distinct (map (\<lambda>g. group_key_of (hd g)) (ordered_groups rows))"
proof -
  have "group_key_of (hd (sort_rows g)) = k" if "(k, g) \<in> set (grouped rows)" for k g
    using grouped_entry[OF that] hd_in_set[of "sort_rows g"] by auto
  then have "map (\<lambda>g. group_key_of (hd (sort_rows g))) (bt_values (grouped rows)) = bt_keys (grouped rows)"
    by (auto simp: bt_values_def bt_keys_def)
  moreover have "distinct (bt_keys (grouped rows))" by (simp add: bt_keys_def bt_inv_distinct)
  ultimately have "distinct (map (\<lambda>g. group_key_of (hd g)) (map sort_rows (bt_values (grouped rows))))"
    by (simp add: comp_def)
  moreover have "mset (map (\<lambda>g. group_key_of (hd g)) (ordered_groups rows))
      = mset (map (\<lambda>g. group_key_of (hd g)) (map sort_rows (bt_values (grouped rows))))"
    by (simp add: ordered_groups_grouped multiset.map_comp)
  ultimately show ?thesis by (metis mset_eq_imp_distinct_iff)
qed


section \<open>Keys\<close>

definition span_body :: "span \<Rightarrow> string" where
  "span_body s = (case s of (a, b, c, d) \<Rightarrow>
     show_int a @ '', '' @ show_int b @ '', '' @ show_int c @ '', '' @ show_int d)"

lemma show_span_body: "show_span s = CHR ''['' # span_body s @ '']''"
  by (simp add: show_span_def span_body_def split: prod.split)

lemma span_body_sep [simp]: "CHR ''['' \<notin> set (span_body s)" "CHR '']'' \<notin> set (span_body s)"
  by (auto simp: span_body_def split: prod.splits)

lemma span_body_inj: assumes "span_body s = span_body t" shows "s = t"
proof -
  have sep: "p = q \<and> x = y" if "show_int p @ CHR '','' # CHR '' '' # x = show_int q @ CHR '','' # CHR '' '' # y" for p q x y
    using append_sep_eq[OF _ _ that] show_int_inj by simp
  show ?thesis
    using assms by (cases s; cases t) (auto simp: span_body_def dest!: sep intro: show_int_inj)
qed

text \<open>A path, a span and an arm are recovered from the text that joins them: the last opening
  bracket starts the span, whatever the path contains.\<close>

lemma span_text_inj:
  assumes "p @ show_span s @ '':'' @ a = q @ show_span t @ '':'' @ b"
    and a: "CHR ''['' \<notin> set a" "CHR '']'' \<notin> set a" and b: "CHR ''['' \<notin> set b" "CHR '']'' \<notin> set b"
  shows "p = q \<and> s = t \<and> a = b"
proof -
  have "p @ CHR ''['' # span_body s @ '']:'' @ a = q @ CHR ''['' # span_body t @ '']:'' @ b"
    using assms(1) by (simp add: show_span_body)
  then have pq: "p = q" and st: "span_body s @ CHR '']'' # '':'' @ a = span_body t @ CHR '']'' # '':'' @ b"
    using append_last_sep_eq[of "CHR ''[''" "span_body s @ '']:'' @ a" "span_body t @ '']:'' @ b" p q] a b by auto
  then have "span_body s = span_body t" "a = b" using append_sep_eq[OF _ _ st] by auto
  then show ?thesis using pq span_body_inj by blast
qed


section \<open>Maps that keep the greatest count per key\<close>

text \<open>Two maps of the query layer are filled the same way, with different keys: the first
  observation of a key stays and its count becomes the greatest one seen.\<close>

lemma merge_observation_simps:
  "merge_observation None ob = ob"
  "merge_observation (Some old) ob = old\<lparr>ob_hits := max (ob_hits old) (ob_hits ob)\<rparr>"
  by (simp_all add: merge_observation_def)

locale keyed_observations =
  fixes key :: "observation \<Rightarrow> string"
    and ins :: "observations \<Rightarrow> observation \<Rightarrow> observations"
  assumes ins_eq: "ins m ob = bt_insert (key ob) (merge_observation (bt_get m (key ob)) ob) m"
    and key_hits: "key (ob\<lparr>ob_hits := h\<rparr>) = key ob"
begin

definition fill :: "observation list \<Rightarrow> observations" where
  "fill rows = foldl ins [] rows"

lemma inv_fill: "bt_inv (fill rows)"
  unfolding fill_def ins_eq
  by (rule bt.inv_fold_update[where key = key and upd = merge_observation, OF bt.inv_empty])

lemma merge_all:
  "foldl (\<lambda>r x. Some (merge_observation r x)) (Some ob) xs
   = Some (ob\<lparr>ob_hits := Max (insert (ob_hits ob) (ob_hits ` set xs))\<rparr>)"
proof (induction xs arbitrary: ob)
  case (Cons x xs)
  have "Max (insert (max (ob_hits ob) (ob_hits x)) (ob_hits ` set xs)) = Max (insert (ob_hits ob) (insert (ob_hits x) (ob_hits ` set xs)))"
    by (cases "xs = []") (simp_all add: Max_insert max.assoc)
  then show ?case by (simp add: Cons.IH merge_observation_simps)
qed simp

lemma get_fill:
  "bt_get (fill rows) k = (case filter (\<lambda>r. key r = k) rows of
      [] \<Rightarrow> None
    | ob # obs \<Rightarrow> Some (ob\<lparr>ob_hits := Max (ob_hits ` {r \<in> set rows. key r = k})\<rparr>))"
proof -
  have "bt_get (fill rows) k = foldl (\<lambda>r x. Some (merge_observation r x)) None (filter (\<lambda>r. key r = k) rows)"
    unfolding fill_def ins_eq
    by (subst bt.get_fold_update[where key = key and upd = merge_observation, OF bt.inv_empty]) simp
  moreover have "{r \<in> set rows. key r = k} = set (filter (\<lambda>r. key r = k) rows)" by auto
  ultimately show ?thesis
    by (cases "filter (\<lambda>r. key r = k) rows") (simp_all add: merge_all merge_observation_simps)
qed

lemma fill_key: "bt_get (fill rows) k = Some ob \<Longrightarrow> key ob = k"
proof -
  assume get: "bt_get (fill rows) k = Some ob"
  then obtain r rs h where r: "filter (\<lambda>r. key r = k) rows = r # rs" and ob: "ob = r\<lparr>ob_hits := h\<rparr>"
    by (auto simp: get_fill split: list.splits)
  have "r \<in> set (filter (\<lambda>r. key r = k) rows)" by (simp add: r)
  then show "key ob = k" by (simp add: ob key_hits)
qed

text \<open>An entry is covered exactly when some observation of its key is.\<close>

lemma fill_covered:
  assumes "bt_get (fill rows) k = Some ob"
  shows "0 < ob_hits ob \<longleftrightarrow> (\<exists>r \<in> set rows. key r = k \<and> 0 < ob_hits r)"
proof -
  have ne: "{r \<in> set rows. key r = k} \<noteq> {}" and hits: "ob_hits ob = Max (ob_hits ` {r \<in> set rows. key r = k})"
    using assms by (auto simp: get_fill filter_eq_Cons_iff split: list.splits)
  then show ?thesis by (subst hits) (auto simp: Max_gr_iff)
qed

text \<open>Rows with different keys are all kept as they are.\<close>

lemma fill_distinct:
  assumes "distinct (map key rows)"
  shows "set (bt_values (fill rows)) = set rows"
proof -
  have one: "filter (\<lambda>r. key r = key ob) rows = [ob] \<and> {r \<in> set rows. key r = key ob} = {ob}" if "ob \<in> set rows" for ob
  proof -
    have set: "{r \<in> set rows. key r = key ob} = {ob}" using assms that by (auto simp: distinct_map inj_on_def)
    have d: "distinct (filter (\<lambda>r. key r = key ob) rows)" using assms by (simp add: distinct_map)
    have "distinct xs \<Longrightarrow> set xs = {ob} \<Longrightarrow> xs = [ob]" for xs :: "observation list"
      by (cases xs) (auto simp: insert_eq_iff subset_singleton_iff)
    with d set show ?thesis by simp
  qed
  have get: "bt_get (fill rows) (key ob) = Some ob" if "ob \<in> set rows" for ob
    using one[OF that] by (simp add: get_fill)
  have "v \<in> set rows" if entry: "bt_get (fill rows) k = Some v" for k v
  proof -
    obtain r rs where r: "filter (\<lambda>r. key r = k) rows = r # rs"
      using entry by (cases "filter (\<lambda>r. key r = k) rows") (auto simp: get_fill)
    then have "r \<in> set rows" "key r = k" by (auto simp: filter_eq_Cons_iff)
    with get[of r] entry show ?thesis by simp
  qed
  then have "(k, v) \<in> set (fill rows) \<Longrightarrow> v \<in> set rows" for k v
    using bt.entries_get[OF inv_fill] by blast
  moreover have "ob \<in> set rows \<Longrightarrow> (key ob, ob) \<in> set (fill rows)" for ob
    using get[of ob] bt.entries_get[OF inv_fill, of "key ob" ob] by simp
  ultimately show ?thesis by (fastforce simp: bt_values_entries)
qed

end

interpretation ob: keyed_observations obs_key insert_obs
  by unfold_locales (simp_all add: insert_obs_def obs_key_def split: option.split)


section \<open>Reports without producer metrics\<close>

text \<open>When the builder holds no producer metrics, the observations of its report are its counted lines,
  each under a key of its own.\<close>

lemma line_observation_key:
  "obs_key (line_observation l) = obs_key (line_observation l') \<Longrightarrow> line_key l = line_key l'"
  using span_text_inj[of "''lines:'' @ lc_file_path l @ ''::''" _ "[]" "''lines:'' @ lc_file_path l' @ ''::''" _ "[]"]
  by (auto simp: obs_key_def line_observation_def line_key_def)

lemma line_observations_fill:
  "list_all lc_count_line ls \<Longrightarrow> foldl observe_line [] ls = ob.fill (map line_observation ls)"
proof -
  have "list_all lc_count_line ls \<Longrightarrow> foldl observe_line m ls = foldl insert_obs m (map line_observation ls)" for m
    by (induction ls arbitrary: m) (simp_all add: observe_line_def)
  then show "list_all lc_count_line ls \<Longrightarrow> foldl observe_line [] ls = ob.fill (map line_observation ls)"
    by (simp add: ob.fill_def)
qed

lemma build_file_plain: "fc_raw_metrics (build_file p ls []) = JObj []"
  by (simp add: build_file_def metric_i64_def Let_def bt_remove_def)

lemma observe_files_plain:
  assumes "cb_file_metrics b = []"
  shows "foldM (observe_file canon root) m (cr_files (build b fmt path ws md)) = Inr m"
proof -
  have raw: "fc_raw_metrics f = JObj []" if "f \<in> set (cr_files (build b fmt path ws md))" for f
    using that by (auto simp: build_def Let_def assms build_file_plain)
  have "(\<And>f. f \<in> set fs \<Longrightarrow> fc_raw_metrics f = JObj []) \<Longrightarrow> foldM (observe_file canon root) m fs = Inr m" for fs
    by (induction fs) (simp_all add: observe_file_def jidx_def jget_def)
  from this[OF raw] show ?thesis by blast
qed

lemma plain_report_rows:
  assumes inv: "builder_inv b" and "cb_file_metrics b = []" and counted: "list_all lc_count_line (bt_values (cb_lines b))"
  shows "\<exists>obs. observations canon (build b fmt path ws md) root = Inr obs
    \<and> set (bt_values obs) = line_observation ` set (bt_values (cb_lines b))"
proof -
  have key: "map line_key (bt_values (cb_lines b)) = bt_keys (cb_lines b)"
    using inv by (auto simp: builder_inv_def bt_values_def bt_keys_def)
  then have "distinct (map line_key (bt_values (cb_lines b)))"
    using inv by (simp add: builder_inv_def bt_keys_def bt_inv_distinct)
  then have "distinct (map obs_key (map line_observation (bt_values (cb_lines b))))"
    unfolding map_map comp_def by (rule distinct_map_finer) (rule line_observation_key)
  note rows = ob.fill_distinct[OF this]
  have "observations canon (build b fmt path ws md) root = Inr (ob.fill (map line_observation (bt_values (cb_lines b))))"
    using line_observations_fill[OF counted] by (simp add: observations_def observe_files_plain[OF assms(2)])
  with rows show ?thesis by simp
qed


section \<open>Properties\<close>

text \<open>A printer for the witnesses: its text has the length of the groups shown.\<close>

definition group_bytes :: "json \<Rightarrow> string" where
  "group_bytes v = replicate (6000 * array_len (jidx v ''data'') ''groups'' + array_len v ''groups'') (CHR ''x'')"

definition three_groups :: json where
  "three_groups = jobj [(''context'', JNull), (''data'', jobj [(''groups'', JArr [JInt 1, JInt 2, JInt 3]), (''group_count'', JInt 3), (''next_offset'', JNull)])]"

definition two_groups :: json where
  "two_groups = jset three_groups ''data'' (jset (pop_array (jidx three_groups ''data'') ''groups'') ''next_offset'' (JInt 2))"

lemma bounded_three_groups: "bounded group_bytes three_groups = Inr two_groups"
proof -
  have len: "array_len (jidx three_groups ''data'') ''groups'' = 3" "array_len three_groups ''groups'' = 0"
    "array_len (jidx two_groups ''data'') ''groups'' = 2" "array_len two_groups ''groups'' = 0" by code_simp+
  have long: "\<not> length (group_bytes three_groups) \<le> 12288" and short: "length (group_bytes two_groups) \<le> 12288"
    by (simp_all add: group_bytes_def len)
  have "filter (\<lambda>key. 0 < array_len (jidx three_groups ''data'') key) group_keys = [''groups'']" by code_simp
  then have big: "largest_groups group_bytes (jidx three_groups ''data'') = Some ''groups''" by (simp add: largest_groups_def)
  have pop: "pop_step three_groups ''groups'' = Inr two_groups" by code_simp
  show ?thesis using long short by (subst bounded.simps) (simp add: big pop bounded.simps[of _ two_groups])
qed

text \<open>Bounding only shortens the lists of groups: every list of the answer is a prefix of the
  original one, and everything else but the next offset is unchanged.\<close>

theorem bounded_shows_prefix:
  assumes "bounded to_string e = Inr e'"
  shows "(\<forall>j. j \<noteq> ''data'' \<longrightarrow> jidx e' j = jidx e j)
    \<and> (\<forall>j. j \<notin> set group_keys \<and> j \<noteq> ''next_offset'' \<longrightarrow> jidx (jidx e' ''data'') j = jidx (jidx e ''data'') j)
    \<and> (\<forall>j \<in> set group_keys. \<exists>n. array_at (jidx e' ''data'') j = take n (array_at (jidx e ''data'') j))"
  using bounded_frame[OF assms] by blast

theorem bounded_shows_prefix_witness:
  "\<exists>n. array_at (jidx two_groups ''data'') ''groups'' = take n (array_at (jidx three_groups ''data'') ''groups'')"
  using bounded_shows_prefix[OF bounded_three_groups] by (auto simp: group_keys_def)

text \<open>Grouping loses nothing: the groups shown are a partition of the rows, each group has the rows of
  one location key in source order, no two groups share a key, and none is empty (so taking the first
  row of a group cannot fail).\<close>

theorem groups_partition_rows:
  "mset (concat (ordered_groups rows)) = mset rows
   \<and> (\<forall>g \<in> set (ordered_groups rows). g \<noteq> [] \<and> (\<forall>r \<in> set g. group_key_of r = group_key_of (hd g))
        \<and> sorted (map (\<lambda>r. (ob_span r, ob_arm r)) g))
   \<and> distinct (map (\<lambda>g. group_key_of (hd g)) (ordered_groups rows))
   \<and> sorted (map group_order (ordered_groups rows))"
proof -
  have "sorted (map group_order (ordered_groups rows))" by (simp add: ordered_groups_def)
  then show ?thesis using mset_ordered_groups ordered_groups_mem distinct_ordered_groups by blast
qed

definition sample_row :: "int \<Rightarrow> observation" where
  "sample_row l = \<lparr>ob_path = ''a.rs'', ob_symbol = [], ob_span = (l, 0, l, 0), ob_kind = ''lines'', ob_arm = [],
     ob_hits = 0, ob_identity = None, ob_cause = None\<rparr>"

theorem groups_partition_rows_witness:
  "mset (concat (ordered_groups [sample_row 4, sample_row 2])) = mset [sample_row 4, sample_row 2]
   \<and> distinct (map (\<lambda>g. group_key_of (hd g)) (ordered_groups [sample_row 4, sample_row 2]))"
  using groups_partition_rows[of "[sample_row 4, sample_row 2]"] by blast

lemma take_drop_chunks: "concat (map (\<lambda>i. take limit (drop (i * limit) xs)) [0..<n]) = take (n * limit) xs"
proof (induction n)
  case (Suc n)
  have "take (Suc n * limit) xs = take (n * limit) xs @ take limit (drop (n * limit) xs)"
    by (simp only: mult_Suc add.commute[of limit] take_add)
  with Suc show ?case by simp
qed simp

text \<open>Paging is exact: the pages of a fixed size, one after the other, list every group once and in
  order, and the group count each page reports does not depend on the page.\<close>

theorem pages_list_every_group:
  assumes "length (ordered_groups rows) \<le> n * limit"
  shows "concat (map (\<lambda>i. fst (group_rows env rows limit (i * limit))) [0..<n]) = map (render_group env) (ordered_groups rows)
    \<and> (\<forall>offset. snd (group_rows env rows limit offset) = length (ordered_groups rows))"
proof -
  have "concat (map (\<lambda>i. fst (group_rows env rows limit (i * limit))) [0..<n])
      = map (render_group env) (concat (map (\<lambda>i. take limit (drop (i * limit) (ordered_groups rows))) [0..<n]))"
    by (simp add: group_rows_def Let_def map_concat comp_def)
  then show ?thesis using assms by (simp add: take_drop_chunks group_rows_def Let_def)
qed

definition plain_query_env :: query_env where
  "plain_query_env = \<lparr>qe_canonicalize = Inr, qe_read = (\<lambda>_. Inl (IoNotFound [])), qe_metadata_len = (\<lambda>_. Inl (IoNotFound [])),
     qe_is_file = (\<lambda>_. False), qe_from_slice = (\<lambda>_. Inl []), qe_read_events = (\<lambda>_. [XEof]), qe_to_string = (\<lambda>_. []),
     qe_sha256 = (\<lambda>s. s), qe_uuid_ok = (\<lambda>_. False), qe_demangle = (\<lambda>_. None), qe_to_lowercase = to_lower\<rparr>"

theorem pages_list_every_group_witness:
  "concat (map (\<lambda>i. fst (group_rows plain_query_env [sample_row 4, sample_row 2] 1 (i * 1))) [0..<2])
     = map (render_group plain_query_env) (ordered_groups [sample_row 4, sample_row 2])"
proof -
  have "length (ordered_groups [sample_row 4, sample_row 2]) \<le> 2 * 1" by code_simp
  from pages_list_every_group[OF this] show ?thesis by blast
qed

text \<open>The observations of a report are stored under their own keys, in key order, with non-negative
  counts, known kinds and arms, and spans that do not end before they start.\<close>

theorem observations_wellformed:
  assumes "observations canon report root = Inr m"
  shows "obs_map_ok m"
  by (rule obs_map_ok_observations[OF assms])

theorem observations_wellformed_witness:
  "obs_map_ok (ob.fill [line_observation (line_row ''a.rs'' 1 1 None True (0, 0, 0, 0) (JObj [])), line_observation (line_row ''a.rs'' 2 0 None True (0, 0, 0, 0) (JObj []))])"
proof -
  have lines: "cr_lines sample_report = [line_row ''a.rs'' 1 1 None True (0, 0, 0, 0) (JObj []), line_row ''a.rs'' 2 0 None True (0, 0, 0, 0) (JObj [])]"
    and "list_all (\<lambda>f. as_array (jidx (fc_raw_metrics f) ''llvm_functions'') = None) (cr_files sample_report)" by code_simp+
  moreover have "list_all (\<lambda>f. as_array (jidx (fc_raw_metrics f) ''llvm_functions'') = None) fs
      \<Longrightarrow> foldM (observe_file (\<lambda>_. None) root) [] fs = Inr []" for fs root
    by (induction fs) (auto simp: observe_file_def)
  ultimately have "foldM (observe_file (\<lambda>_. None) root) [] (cr_files sample_report) = Inr []" for root
    by blast
  then have "observations (\<lambda>_. None) sample_report [] = Inr (ob.fill [line_observation (line_row ''a.rs'' 1 1 None True (0, 0, 0, 0) (JObj [])), line_observation (line_row ''a.rs'' 2 0 None True (0, 0, 0, 0) (JObj []))])"
    by (simp add: observations_def lines ob.fill_def observe_line_def line_row_def)
  then show ?thesis by (rule observations_wellformed)
qed

end
