(* ===== verification/Measurement.thy ===== *)
theory Measurement
  imports Query
begin

text \<open>
  Loading one measurement (\<open>load\<close> and \<open>decode_composite\<close> of \<open>src/src/query.rs\<close>): the reference is
  a report file inside the repository, with an optional receipt beside it, or the identifier of
  a saved ordinary or composite snapshot.  The lemmas show what a loaded measurement guarantees:
  its report is well formed, and its source is called \<open>matches_receipt\<close> only when every
  reported file has the recorded content.
\<close>

record measurement =
  ms_reference :: string
  ms_report :: coverage_report
  ms_context :: json
  ms_source_state :: string
  ms_native :: "observations option"

section \<open>Source state\<close>

text \<open>The loop over the report's files returns at the first file that differs from its recorded
  hash; a file without a hash only weakens the result.\<close>

fun source_state_loop :: "query_env \<Rightarrow> string \<Rightarrow> (string, json) btree \<Rightarrow> string \<Rightarrow> file_coverage list \<Rightarrow> string res" where
  "source_state_loop env root hashes state [] = Inr state"
| "source_state_loop env root hashes state (file # files) =
     (case Option.bind (bt_get hashes (fc_file_path file)) as_str of
        None \<Rightarrow> source_state_loop env root hashes ''unverified'' files
      | Some expected \<Rightarrow>
          (case report_path env root (fc_file_path file) of
             Inl _ \<Rightarrow> Inr ''changed_or_missing''
           | Inr path \<Rightarrow>
               (case qe_read env path of
                  Inl e \<Rightarrow> Inl (Io e)
                | Inr bytes \<Rightarrow>
                    (if digest env bytes \<noteq> expected then Inr ''changed_or_missing''
                     else source_state_loop env root hashes state files))))"

definition source_state :: "query_env \<Rightarrow> string \<Rightarrow> coverage_report \<Rightarrow> json \<Rightarrow> string res" where
  "source_state env root report receipt =
     (case as_object (jidx receipt ''source_hashes'') of
        None \<Rightarrow> Inr ''unverified''
      | Some hashes \<Rightarrow>
          (if cr_files report = [] then Inr ''unverified''
           else source_state_loop env root hashes ''matches_receipt'' (cr_files report)))"

section \<open>Composite snapshots\<close>

definition state_hits :: "string \<Rightarrow> int" where
  "state_hits state = (if state = ''covered'' then 1 else if state = ''uncovered'' then 0 else -1)"

definition composite_observation :: "string \<Rightarrow> int \<Rightarrow> int \<Rightarrow> string \<Rightarrow> string \<Rightarrow> observation" where
  "composite_observation path start_at end_at state key =
     \<lparr>ob_path = path, ob_symbol = [], ob_span = (start_at, 0, end_at, 0), ob_kind = ''regions'', ob_arm = [],
      ob_hits = state_hits state, ob_identity = Some key,
      ob_cause = (if state_hits state < 0 then Some state else None)\<rparr>"

definition empty_file :: "string \<Rightarrow> file_coverage" where
  "empty_file path =
     \<lparr>fc_file_path = path, fc_total_lines = 0, fc_covered_lines = 0, fc_total_branches = 0,
      fc_covered_branches = 0, fc_total_functions = 0, fc_covered_functions = 0, fc_total_regions = 0,
      fc_covered_regions = 0, fc_raw_metrics = jobj []\<rparr>"

definition count_region :: "string \<Rightarrow> int \<Rightarrow> file_coverage option \<Rightarrow> file_coverage" where
  "count_region path hits old =
     (let file = (case old of None \<Rightarrow> empty_file path | Some f \<Rightarrow> f)
      in file\<lparr>fc_total_regions := i64_add (fc_total_regions file) 1,
              fc_covered_regions := i64_add (fc_covered_regions file) (i64_of_bool (0 < hits))\<rparr>)"

record decode_state =
  ds_native :: observations
  ds_files :: "(string, file_coverage) btree"
  ds_hashes :: "(string, json) btree"

definition decode_row :: "decode_state \<Rightarrow> json \<Rightarrow> decode_state res" where
  "decode_row st row =
     bindr (ok_or (as_str (jidx row ''path'')) (invalid ''composite region path unavailable'')) (\<lambda>path.
     bindr (ok_or (as_i64 (jidx row ''start_line'')) (invalid ''composite region start unavailable'')) (\<lambda>start_at.
     bindr (ok_or (as_i64 (jidx row ''end_line'')) (invalid ''composite region end unavailable'')) (\<lambda>end_at.
     let state = (case as_str (jidx row ''state'') of None \<Rightarrow> ''unmeasured'' | Some s \<Rightarrow> s) in
     bindr (ok_or (as_str (jidx row ''region_key'')) (invalid ''composite region identity unavailable'')) (\<lambda>key.
     if (case bt_get (ds_hashes st) path of None \<Rightarrow> False | Some hash \<Rightarrow> hash \<noteq> jidx row ''source_hash'')
     then Inl (invalid ''composite has conflicting source hashes for one path'')
     else Inr \<lparr>ds_native = insert_obs (ds_native st) (composite_observation path start_at end_at state key),
               ds_files = bt_update path (count_region path (state_hits state)) (ds_files st),
               ds_hashes = bt_insert path (jidx row ''source_hash'') (ds_hashes st)\<rparr>))))"

definition composite_report :: "query_env \<Rightarrow> string \<Rightarrow> json \<Rightarrow> decode_state \<Rightarrow> coverage_report" where
  "composite_report env reference snapshot st =
     \<lparr>cr_format = ''composite'', cr_report_path = reference, cr_files = bt_values (ds_files st), cr_lines = [],
      cr_test_names = [], cr_test_coverage = [],
      cr_warnings = map (qe_to_string env) (case as_array (jidx snapshot ''reasons'') of None \<Rightarrow> [] | Some vs \<Rightarrow> vs),
      cr_metadata = jobj []\<rparr>"

definition recorded_total :: "json \<Rightarrow> string \<Rightarrow> int" where
  "recorded_total snapshot field = (case as_i64 (jidx snapshot field) of None \<Rightarrow> -1 | Some n \<Rightarrow> n)"

definition decode_composite :: "query_env \<Rightarrow> string \<Rightarrow> string \<Rightarrow> json \<Rightarrow> json list \<Rightarrow> measurement res" where
  "decode_composite env root reference snapshot rows =
     bindr (foldM decode_row \<lparr>ds_native = [], ds_files = [], ds_hashes = []\<rparr> rows) (\<lambda>st.
     let report = composite_report env reference snapshot st in
     if total_regions report \<noteq> recorded_total snapshot ''total_regions''
       \<or> covered_regions report \<noteq> recorded_total snapshot ''covered_regions''
     then Inl (invalid ''composite inventory does not match its recorded totals'')
     else
       let context_json = jobj [(''source_hashes'', JObj (ds_hashes st)),
             (''build_id'', JStr (qe_to_string env (jidx snapshot ''mapping_version'') @ '':''
                @ qe_to_string env (jidx snapshot ''inventory_hash'')))]
       in bindr (source_state env root report context_json) (\<lambda>state.
          Inr \<lparr>ms_reference = reference, ms_report = report, ms_context = context_json,
               ms_source_state = state, ms_native = Some (ds_native st)\<rparr>))"

definition load_composite :: "query_env \<Rightarrow> reader \<Rightarrow> string \<Rightarrow> measurement res" where
  "load_composite env rd reference =
     bindr (reader_store rd) (\<lambda>store.
     bindr (st_composite_snapshot store reference) (\<lambda>snapshot.
     if jidx snapshot ''repo_key'' \<noteq> JStr (rd_repo_key (reader_context rd None))
     then Inl (invalid ''measurement belongs to another repository'')
     else bindr (st_composite_regions_all store reference) (\<lambda>rows.
       decode_composite env (rd_checkout_path (reader_context rd None)) reference snapshot rows)))"

section \<open>Loading\<close>

text \<open>Without a reference the latest snapshot is taken, provided only one suite is possible.\<close>

definition latest_reference :: "reader \<Rightarrow> string option \<Rightarrow> string res" where
  "latest_reference rd suite =
     bindr (reader_store rd) (\<lambda>store.
     bindr (st_list_snapshots store (rd_checkout_path (reader_context rd suite)) suite 5001) (\<lambda>snapshots.
     if suite = None \<and> 5001 \<le> int (length snapshots)
     then Inl (invalid ''large history requires an explicit suite or measurement'')
     else
       let suites = bs_of_list (List.map_filter (\<lambda>row. as_str (jidx row ''suite'')) snapshots) in
       if 1 < length suites
       then Inl (invalid (''latest measurement is ambiguous; provide measurement or suite ('' @ show_int (int (length suites)) @ '' suites)''))
       else ok_or (Option.bind (nth_opt snapshots 0) (\<lambda>row. as_str (jidx row ''id'')))
              (NotFound ''no measurement; pass a coverage report path'')))"

definition select_reference :: "reader \<Rightarrow> string option \<Rightarrow> string option \<Rightarrow> string res" where
  "select_reference rd reference suite = (case reference of
      Some reference \<Rightarrow>
        (if trim reference \<noteq> [] \<and> length reference \<le> 4096 then Inr reference
         else Inl (invalid (''measurement must contain 1'' @ en_dash @ ''4096 bytes'')))
    | None \<Rightarrow> latest_reference rd suite)"

definition names_snapshot :: "query_env \<Rightarrow> string \<Rightarrow> string \<Rightarrow> bool" where
  "names_snapshot env root selected \<longleftrightarrow>
     \<not> qe_is_file env (path_join root selected)
     \<and> (qe_uuid_ok env selected \<or> (CHR ''/'' \<notin> set selected \<and> extension selected = None))"

definition load_saved :: "query_env \<Rightarrow> reader \<Rightarrow> string option \<Rightarrow> string \<Rightarrow> measurement res" where
  "load_saved env rd suite selected =
     bindr (reader_store rd) (\<lambda>store.
     case st_measurement_report store selected of
       Inl (NotFound _) \<Rightarrow> load_composite env rd selected
     | Inl e \<Rightarrow> Inl e
     | Inr (snapshot, report) \<Rightarrow>
         (if jidx snapshot ''repo_key'' \<noteq> JStr (rd_repo_key (reader_context rd suite))
          then Inl (invalid ''measurement belongs to another repository'')
          else if (case suite of None \<Rightarrow> False | Some s \<Rightarrow> jidx snapshot ''suite'' \<noteq> JStr s)
          then Inl (invalid ''suite does not match measurement'')
          else Inr \<lparr>ms_reference = selected, ms_report = report,
                 ms_context = jobj [(''recorded_revision'', jidx snapshot ''commit_sha''), (''suite'', jidx snapshot ''suite'')],
                 ms_source_state = ''unverified'', ms_native = None\<rparr>))"

definition check_receipt :: "string \<Rightarrow> json \<Rightarrow> json res" where
  "check_receipt report_hash receipt =
     (if jidx receipt ''report_sha256'' \<noteq> JStr report_hash
      then Inl (invalid ''measurement context does not match report content'')
      else if \<not> is_object (jidx receipt ''source_hashes'')
        \<or> (case as_str (jidx receipt ''build_id'') of None \<Rightarrow> True | Some s \<Rightarrow> s = [] \<or> 256 < length s)
      then Inl (invalid ''measurement context requires source_hashes and build_id'')
      else if (case jget receipt ''test_status'' of None \<Rightarrow> False
                | Some v \<Rightarrow> v \<notin> {JStr ''passed'', JStr ''failed'', JStr ''unknown''})
        \<or> (case jget receipt ''scope'' of None \<Rightarrow> False
            | Some v \<Rightarrow> v \<notin> {JStr ''full'', JStr ''selected_tests''})
      then Inl (invalid ''context test_status or scope is invalid'')
      else Inr receipt)"

definition read_receipt :: "query_env \<Rightarrow> string \<Rightarrow> string \<Rightarrow> string \<Rightarrow> json res" where
  "read_receipt env root report_hash receipt_path = (case qe_metadata_len env receipt_path of
      Inl (IoNotFound _) \<Rightarrow> Inr JNull
    | Inl e \<Rightarrow> Inl (Io e)
    | Inr len \<Rightarrow>
        (if 1024 * 1024 < len then Inl (invalid ''measurement context exceeds 1 MiB'')
         else bindr (report_path env root receipt_path) (\<lambda>path.
              case qe_read env path of
                Inl e \<Rightarrow> Inl (Io e)
              | Inr bytes \<Rightarrow> bindr (read_json (qe_from_slice env) bytes) (check_receipt report_hash))))"

definition load_report :: "query_env \<Rightarrow> string \<Rightarrow> string \<Rightarrow> measurement res" where
  "load_report env root selected =
     bindr (report_path env root selected) (\<lambda>path.
     bindr (read_report_bytes (qe_read env) path) (\<lambda>bytes.
     bindr (parse_coverage_bytes (parser_env_of env) path bytes ''auto'' (Some root)) (\<lambda>report.
     bindr (read_receipt env root (digest env bytes) (path @ ''.context.json'')) (\<lambda>receipt.
     bindr (source_state env root report receipt) (\<lambda>state.
       Inr \<lparr>ms_reference = selected, ms_report = report, ms_context = receipt,
            ms_source_state = state, ms_native = None\<rparr>)))))"

definition load :: "query_env \<Rightarrow> reader \<Rightarrow> string option \<Rightarrow> string option \<Rightarrow> measurement res" where
  "load env rd reference suite =
     bindr (select_reference rd reference suite) (\<lambda>selected.
     let root = rd_checkout_path (reader_context rd suite) in
     if names_snapshot env root selected then load_saved env rd suite selected
     else load_report env root selected)"

definition measurement_observations :: "query_env \<Rightarrow> measurement \<Rightarrow> string \<Rightarrow> observations res" where
  "measurement_observations env m root = (case ms_native m of
      Some native \<Rightarrow> Inr native
    | None \<Rightarrow> observations (canon_of env) (ms_report m) root)"

definition ms_field :: "measurement \<Rightarrow> string \<Rightarrow> json" where
  "ms_field m field = jidx (ms_context m) field"

definition summary :: "measurement \<Rightarrow> string \<Rightarrow> json" where
  "summary m kind =
     jobj [(''ref'', JStr (ms_reference m)), (''format'', JStr (cr_format (ms_report m))),
           (''coverage'', counts (ms_report m) kind), (''source'', JStr (ms_source_state m)),
           (''recorded_revision'', ms_field m ''recorded_revision''), (''build_id'', ms_field m ''build_id''),
           (''tests'', JStr (case as_str (ms_field m ''test_status'') of None \<Rightarrow> ''unknown'' | Some s \<Rightarrow> s))]"


section \<open>What a loaded measurement guarantees\<close>

lemma report_path_inside:
  "report_path env root path = Inr p \<Longrightarrow> \<exists>r. qe_canonicalize env root = Inr r \<and> path_starts_with p r"
  by (auto simp: report_path_def split: sum.splits if_splits)

definition source_states :: "string list" where
  "source_states = [''matches_receipt'', ''unverified'', ''changed_or_missing'']"

lemma source_state_range: "source_state env root report receipt = Inr s \<Longrightarrow> s \<in> set source_states"
proof -
  have "source_state_loop env root hashes st files = Inr s \<Longrightarrow> st \<in> set source_states \<Longrightarrow> s \<in> set source_states"
    for hashes st files
    by (induction files arbitrary: st) (auto simp: source_states_def split: option.splits sum.splits if_splits)
  then show "source_state env root report receipt = Inr s \<Longrightarrow> s \<in> set source_states"
    by (auto simp: source_state_def source_states_def split: option.splits if_splits)
qed

text \<open>\<open>file_matches\<close>: the receipt has a hash for the file, and the file inside the repository has it.\<close>

definition file_matches :: "query_env \<Rightarrow> string \<Rightarrow> (string, json) btree \<Rightarrow> string \<Rightarrow> bool" where
  "file_matches env root hashes file \<longleftrightarrow>
     (case (bt_get hashes file, report_path env root file) of
        (Some (JStr expected), Inr path) \<Rightarrow> (case qe_read env path of Inr bytes \<Rightarrow> digest env bytes = expected | Inl _ \<Rightarrow> False)
      | _ \<Rightarrow> False)"

lemma source_state_loop_unverified:
  "source_state_loop env root hashes ''unverified'' files \<noteq> Inr ''matches_receipt''"
  by (induction files) (auto split: option.splits sum.splits)

lemma source_state_loop_matches:
  "source_state_loop env root hashes ''matches_receipt'' files = Inr ''matches_receipt'' \<longleftrightarrow>
   (\<forall>f \<in> set files. file_matches env root hashes (fc_file_path f))"
proof (induction files)
  case (Cons f files)
  show ?case
  proof (cases "Option.bind (bt_get hashes (fc_file_path f)) as_str")
    case None
    then have "\<not> file_matches env root hashes (fc_file_path f)"
      by (cases "bt_get hashes (fc_file_path f)") (auto simp: file_matches_def split: json.splits sum.splits)
    then show ?thesis by (simp add: None source_state_loop_unverified)
  next
    case (Some expected)
    then have "bt_get hashes (fc_file_path f) = Some (JStr expected)" by (auto simp: bind_eq_Some_conv)
    then show ?thesis using Cons.IH
      by (cases "report_path env root (fc_file_path f)") (auto simp: file_matches_def split: sum.splits)
  qed
qed simp

lemma source_state_matches_iff:
  "source_state env root report receipt = Inr ''matches_receipt'' \<longleftrightarrow>
   (\<exists>hashes. jidx receipt ''source_hashes'' = JObj hashes \<and> cr_files report \<noteq> []
      \<and> (\<forall>f \<in> set (cr_files report). file_matches env root hashes (fc_file_path f)))"
  by (auto simp: source_state_def source_state_loop_matches split: option.splits)


section \<open>Confinement\<close>

text \<open>Loading a report file reads only files inside the canonical repository root: any other
  file may have any content.\<close>

definition inside :: "query_env \<Rightarrow> string \<Rightarrow> string \<Rightarrow> bool" where
  "inside env root p \<longleftrightarrow> (case qe_canonicalize env root of Inl _ \<Rightarrow> False | Inr r \<Rightarrow> path_starts_with p r)"

lemma report_path_inside': "report_path env root path = Inr p \<Longrightarrow> inside env root p"
  by (auto simp: inside_def dest!: report_path_inside)

lemma env_read_update [simp]:
  "report_path (env\<lparr>qe_read := f\<rparr>) = report_path env"
  "digest (env\<lparr>qe_read := f\<rparr>) = digest env"
  "parser_env_of (env\<lparr>qe_read := f\<rparr>) = parser_env_of env"
  by (auto simp: fun_eq_iff report_path_def digest_def parser_env_of_def canon_of_def cong: sum.case_cong)

lemma source_state_confined:
  assumes "\<And>p. inside env root p \<Longrightarrow> f p = qe_read env p"
  shows "source_state (env\<lparr>qe_read := f\<rparr>) root report receipt = source_state env root report receipt"
proof -
  have "source_state_loop (env\<lparr>qe_read := f\<rparr>) root hashes st files = source_state_loop env root hashes st files"
    for hashes st files
    using assms report_path_inside'
    by (induction files arbitrary: st) (auto split: option.splits sum.splits)
  then show ?thesis by (simp add: source_state_def split: option.split)
qed

lemma bindr_eqI: "(\<And>a. m = Inr a \<Longrightarrow> f a = g a) \<Longrightarrow> bindr m f = bindr m g"
  by (cases m) auto

lemma load_report_confined:
  assumes "\<And>p. inside env root p \<Longrightarrow> f p = qe_read env p"
  shows "load_report (env\<lparr>qe_read := f\<rparr>) root selected = load_report env root selected"
proof -
  note same = assms[OF report_path_inside']
  have state: "source_state (env\<lparr>qe_read := f\<rparr>) root report receipt = source_state env root report receipt"
    for report receipt by (rule source_state_confined) (rule assms)
  have receipt: "read_receipt (env\<lparr>qe_read := f\<rparr>) root h p = read_receipt env root h p" for h p
    using same by (auto simp: read_receipt_def intro!: bindr_eqI split: sum.split io_error.split)
  show ?thesis
    unfolding load_report_def env_read_update receipt state
    using same by (auto intro!: bindr_eqI simp: read_report_bytes_def)
qed

section \<open>Composite totals\<close>

definition row_state :: "json \<Rightarrow> string" where
  "row_state row = (case as_str (jidx row ''state'') of None \<Rightarrow> ''unmeasured'' | Some s \<Rightarrow> s)"

definition covered_rows :: "json list \<Rightarrow> int" where
  "covered_rows rows = int (length (filter (\<lambda>row. row_state row = ''covered'') rows))"

definition decode_inv :: "json list \<Rightarrow> decode_state \<Rightarrow> bool" where
  "decode_inv rows st \<longleftrightarrow> bt_inv (ds_files st)
     \<and> sum_list (map fc_total_regions (bt_values (ds_files st))) = int (length rows)
     \<and> sum_list (map fc_covered_regions (bt_values (ds_files st))) = covered_rows rows
     \<and> (\<forall>(p, f) \<in> set (ds_files st). 0 \<le> fc_covered_regions f \<and> fc_covered_regions f \<le> fc_total_regions f
          \<and> fc_total_regions f \<le> int (length rows))"

lemma decode_inv_row:
  assumes inv: "decode_inv rows st" and row: "decode_row st row = Inr st'" and small: "int (length rows) < 2 ^ 62"
  shows "decode_inv (rows @ [row]) st'"
proof -
  obtain path where files: "ds_files st' = bt_update path (count_region path (state_hits (row_state row))) (ds_files st)"
    using row by (auto simp: decode_row_def bindr_eq_Inr row_state_def Let_def split: if_splits)
  define old where "old = (case bt_get (ds_files st) path of None \<Rightarrow> empty_file path | Some f \<Rightarrow> f)"
  have old: "0 \<le> fc_covered_regions old \<and> fc_covered_regions old \<le> fc_total_regions old \<and> fc_total_regions old \<le> int (length rows)"
    using inv by (auto simp: old_def decode_inv_def empty_file_def split: option.split dest!: bt_get_in)
  define new where "new = count_region path (state_hits (row_state row)) (bt_get (ds_files st) path)"
  have new: "fc_total_regions new = fc_total_regions old + 1"
      "fc_covered_regions new = fc_covered_regions old + i64_of_bool (row_state row = ''covered'')"
    using old small by (auto simp: new_def count_region_def Let_def old_def[symmetric] state_hits_def i64_of_bool_def
        i64_add_exact in_i64_def)
  have sums: "(case bt_get (ds_files st) path of None \<Rightarrow> 0 | Some w \<Rightarrow> fc_total_regions w) = fc_total_regions old"
      "(case bt_get (ds_files st) path of None \<Rightarrow> 0 | Some w \<Rightarrow> fc_covered_regions w) = fc_covered_regions old"
    by (auto simp: old_def empty_file_def split: option.split)
  have fs: "ds_files st' = bt_insert path new (ds_files st)" by (simp add: files bt_update_def new_def)
  have "0 \<le> fc_covered_regions f \<and> fc_covered_regions f \<le> fc_total_regions f \<and> fc_total_regions f \<le> 1 + int (length rows)"
    if "(p, f) \<in> set (ds_files st')" for p f
    using that set_bt_insert[of path new "ds_files st"] inv old
    by (fastforce simp: fs new i64_of_bool_def decode_inv_def)
  moreover have "bt_inv (ds_files st')" using inv by (simp add: fs decode_inv_def)
  ultimately show ?thesis using inv
    by (auto simp: decode_inv_def fs bt_sum_insert sums new covered_rows_def i64_of_bool_def)
qed

lemma decode_inv_rows:
  assumes "foldM decode_row \<lparr>ds_native = [], ds_files = [], ds_hashes = []\<rparr> rows = Inr st"
    and "int (length rows) < 2 ^ 62"
  shows "decode_inv rows st"
  using assms
proof (induction rows arbitrary: st rule: rev_induct)
  case Nil
  then show ?case by (auto simp: decode_inv_def bt_values_def covered_rows_def)
next
  case (snoc row rows)
  then show ?case by (auto simp: foldM_append bindr_eq_Inr intro!: decode_inv_row)
qed

text \<open>A composite is accepted only when its rows give the recorded totals.\<close>

lemma decode_composite_totals:
  assumes "decode_composite env root reference snapshot rows = Inr m" and small: "int (length rows) < 2 ^ 62"
  shows "total_regions (ms_report m) = int (length rows)" and "covered_regions (ms_report m) = covered_rows rows"
    and "jidx snapshot ''total_regions'' = JInt (int (length rows))"
    and "jidx snapshot ''covered_regions'' = JInt (covered_rows rows)"
proof -
  obtain st where st: "foldM decode_row \<lparr>ds_native = [], ds_files = [], ds_hashes = []\<rparr> rows = Inr st"
      and m: "ms_report m = composite_report env reference snapshot st"
      and tot: "total_regions (ms_report m) = recorded_total snapshot ''total_regions''"
      and cov: "covered_regions (ms_report m) = recorded_total snapshot ''covered_regions''"
    using assms(1) by (auto simp: decode_composite_def bindr_eq_Inr Let_def split: if_splits)
  note inv = decode_inv_rows[OF st small]
  have le: "0 \<le> covered_rows rows" "covered_rows rows \<le> int (length rows)"
    by (simp_all add: covered_rows_def)
  show t: "total_regions (ms_report m) = int (length rows)"
    using inv small by (simp add: m composite_report_def total_regions_def decode_inv_def i64_sum_exact in_i64_def)
  show c: "covered_regions (ms_report m) = covered_rows rows"
    using inv small le by (simp add: m composite_report_def covered_regions_def decode_inv_def i64_sum_exact in_i64_def)
  show "jidx snapshot ''total_regions'' = JInt (int (length rows))"
    using tot t by (auto simp: recorded_total_def split: option.splits)
  show "jidx snapshot ''covered_regions'' = JInt (covered_rows rows)"
    using cov c le by (auto simp: recorded_total_def split: option.splits)
qed


section \<open>Properties\<close>

text \<open>A measurement's source is reported as \<open>matches_receipt\<close> exactly when the receipt has hashes, the
  report lists files, and every listed file lies inside the repository, is readable and has the
  content the receipt recorded for it.\<close>

theorem source_state_means_match:
  "source_state env root report receipt = Inr ''matches_receipt'' \<longleftrightarrow>
   (\<exists>hashes. jidx receipt ''source_hashes'' = JObj hashes \<and> cr_files report \<noteq> []
      \<and> (\<forall>f \<in> set (cr_files report). file_matches env root hashes (fc_file_path f)))"
  by (rule source_state_matches_iff)

definition one_file_env :: query_env where
  "one_file_env = plain_query_env\<lparr>qe_read := (\<lambda>p. if p = ''/r/a.rs'' then Inr ''x'' else Inl (IoNotFound []))\<rparr>"

definition one_receipt :: json where
  "one_receipt = jobj [(''source_hashes'', jobj [(''a.rs'', JStr ''78'')])]"

theorem source_state_means_match_witness:
  "source_state one_file_env ''/r'' sample_report one_receipt = Inr ''matches_receipt''"
proof -
  have "map fc_file_path (cr_files sample_report) = [''a.rs'']" by code_simp
  then have fs: "cr_files sample_report \<noteq> []" "\<forall>f \<in> set (cr_files sample_report). fc_file_path f = ''a.rs''"
    by auto
  have "jidx one_receipt ''source_hashes'' = JObj [(''a.rs'', JStr ''78'')]" by code_simp
  moreover have "file_matches one_file_env ''/r'' [(''a.rs'', JStr ''78'')] ''a.rs''" by code_simp
  ultimately show ?thesis using fs
    source_state_means_match[of one_file_env "''/r''" sample_report one_receipt] by simp
qed



text \<open>A composite snapshot is only accepted with the totals it was recorded with: the report's region
  total is the number of its rows, its covered regions are the rows in state \<open>covered\<close>, and both are
  the recorded numbers.\<close>

theorem composite_totals_recorded:
  assumes "decode_composite env root reference snapshot rows = Inr m" and "int (length rows) < 2 ^ 62"
  shows "total_regions (ms_report m) = int (length rows) \<and> covered_regions (ms_report m) = covered_rows rows
    \<and> jidx snapshot ''total_regions'' = JInt (int (length rows))
    \<and> jidx snapshot ''covered_regions'' = JInt (covered_rows rows)"
  using decode_composite_totals[OF assms] by simp

definition sample_composite_rows :: "json list" where
  "sample_composite_rows = map (\<lambda>(k, l, s). jobj [(''path'', JStr ''a.rs''), (''start_line'', JInt l), (''end_line'', JInt l),
     (''state'', JStr s), (''region_key'', JStr k)]) [(''k1'', 1, ''covered''), (''k2'', 2, ''uncovered'')]"

definition sample_composite :: json where
  "sample_composite = jobj [(''total_regions'', JInt 2), (''covered_regions'', JInt 1)]"

theorem composite_totals_recorded_witness:
  "\<exists>m. decode_composite plain_query_env ''/r'' ''c1'' sample_composite sample_composite_rows = Inr m
     \<and> total_regions (ms_report m) = 2 \<and> covered_regions (ms_report m) = 1"
proof -
  have "(case decode_composite plain_query_env ''/r'' ''c1'' sample_composite sample_composite_rows of Inl _ \<Rightarrow> False | Inr _ \<Rightarrow> True)"
    by code_simp
  then obtain m where m: "decode_composite plain_query_env ''/r'' ''c1'' sample_composite sample_composite_rows = Inr m"
    by (auto split: sum.splits)
  have len: "length sample_composite_rows = 2" and cov: "covered_rows sample_composite_rows = 1"
    by (simp_all add: sample_composite_rows_def covered_rows_def row_state_def)
  show ?thesis using composite_totals_recorded[OF m] m len cov by simp
qed

end
