(* ===== verification/Incremental.thy ===== *)
theory Incremental
  imports Measurement
begin

text \<open>
  Marginal coverage of a batch of tests against a fixed inventory
  (\<open>src/src/query_incremental.rs\<close>): the baseline fixes the denominator, earlier batches are folded
  into a union, and the current batch is credited with what the union did not have.
\<close>

section \<open>Inventories\<close>

definition inventory_key :: "observation \<Rightarrow> string" where
  "inventory_key row = (case ob_identity row of
      Some identity \<Rightarrow> identity
    | None \<Rightarrow> ob_path row @ '':'' @ show_span (ob_span row) @ '':'' @ ob_arm row)"

definition inventory_insert :: "observations \<Rightarrow> observation \<Rightarrow> observations" where
  "inventory_insert rows row =
     bt_insert (inventory_key row) (merge_observation (bt_get rows (inventory_key row)) row) rows"

definition inventory :: "query_env \<Rightarrow> measurement \<Rightarrow> string \<Rightarrow> string \<Rightarrow> observations res" where
  "inventory env m root kind =
     bindr (measurement_observations env m root) (\<lambda>obs.
       Inr (foldl inventory_insert [] (filter (\<lambda>row. ob_kind row = kind) (bt_values obs))))"

definition covered_count :: "observations \<Rightarrow> nat" where
  "covered_count rows = length (filter (\<lambda>row. 0 < ob_hits row) (bt_values rows))"

definition totals :: "observations \<Rightarrow> json" where
  "totals rows = jobj [(''covered'', jnat (covered_count rows)), (''total'', jnat (length rows)),
     (''missing'', jnat (length rows - covered_count rows))]"

definition detail_matches :: "measurement \<Rightarrow> observations \<Rightarrow> string \<Rightarrow> bool" where
  "detail_matches m rows kind \<longleftrightarrow>
     rows \<noteq> [] \<and> list_all (\<lambda>row. 0 \<le> ob_hits row) (bt_values rows)
     \<and> jidx (totals rows) ''total'' = jidx (counts (ms_report m) kind) ''total''
     \<and> jidx (totals rows) ''covered'' = jidx (counts (ms_report m) kind) ''covered''"

section \<open>Compatibility of a batch\<close>

definition hash_conflict :: "measurement \<Rightarrow> measurement \<Rightarrow> file_coverage \<Rightarrow> bool" where
  "hash_conflict base batch file =
     (let a = jidx (ms_field base ''source_hashes'') (fc_file_path file);
          b = jidx (ms_field batch ''source_hashes'') (fc_file_path file)
      in is_string a \<and> is_string b \<and> a \<noteq> b)"

definition conflict :: "measurement \<Rightarrow> measurement \<Rightarrow> bool" where
  "conflict base batch \<longleftrightarrow>
     ms_source_state base = ''changed_or_missing''
     \<or> ms_source_state batch = ''changed_or_missing''
     \<or> (is_string (ms_field base ''build_id'') \<and> is_string (ms_field batch ''build_id'')
        \<and> ms_field base ''build_id'' \<noteq> ms_field batch ''build_id'')
     \<or> list_ex (hash_conflict base batch) (cr_files (ms_report batch))"

definition verified :: "measurement \<Rightarrow> measurement \<Rightarrow> bool" where
  "verified base batch \<longleftrightarrow>
     ms_source_state base = ''matches_receipt'' \<and> ms_source_state batch = ''matches_receipt''
     \<and> ms_field base ''build_id'' = ms_field batch ''build_id''
     \<and> ms_field base ''test_status'' = JStr ''passed'' \<and> ms_field batch ''test_status'' = JStr ''passed''"

definition build_differs :: "string option \<Rightarrow> measurement \<Rightarrow> bool" where
  "build_differs known_build batch = (case (known_build, as_str (ms_field batch ''build_id'')) of
      (Some a, Some b) \<Rightarrow> a \<noteq> b
    | _ \<Rightarrow> False)"

definition reject :: "measurement \<Rightarrow> measurement \<Rightarrow> observations \<Rightarrow> observations \<Rightarrow> string \<Rightarrow> string option
    \<Rightarrow> (string \<times> string) option" where
  "reject baseline batch known rows kind known_build =
     (if ms_field batch ''test_status'' = JStr ''failed''
      then Some (''tests_failed'', ''Batch tests failed; no combined coverage was calculated.'')
      else if cr_format (ms_report baseline) \<noteq> cr_format (ms_report batch) \<or> conflict baseline batch
        \<or> build_differs known_build batch
      then Some (''incomparable'', ''Source, build, or report format differs from the baseline. Rebuild a compatible baseline; no combined coverage was calculated.'')
      else if \<not> detail_matches batch rows kind
      then Some (''incomparable'', ''Batch detail is incomplete or differs from its reported totals. Export exact coverage for the selected metric.'')
      else if list_ex (\<lambda>key. \<not> bt_contains known key) (bt_keys rows)
      then Some (''incomparable'', ''Batch includes observations outside the baseline inventory. Keep instrumentation and measured source fixed, or establish a new baseline.'')
      else None)"

section \<open>Accumulation\<close>

definition absorb_row :: "observations \<Rightarrow> string \<times> observation \<Rightarrow> observations" where
  "absorb_row known e = (case e of (key, row) \<Rightarrow> if 0 < ob_hits row then bt_insert key row known else known)"

definition absorb :: "observations \<Rightarrow> observations \<Rightarrow> observations" where
  "absorb known rows = foldl absorb_row known rows"

record inc_state =
  ic_union :: observations
  ic_known_build :: "string option"
  ic_trusted :: bool

text \<open>One earlier batch: \<open>Inl\<close> is the early return with the status and the reason shown.\<close>

definition previous_step :: "query_env \<Rightarrow> reader \<Rightarrow> measurement \<Rightarrow> string \<Rightarrow> inc_state \<Rightarrow> string
    \<Rightarrow> ((string \<times> string) + inc_state) res" where
  "previous_step env rd baseline kind st reference =
     bindr (load env rd (Some reference) None) (\<lambda>batch.
     bindr (inventory env batch (rd_checkout_path rd) kind) (\<lambda>rows.
       Inr (case reject baseline batch (ic_union st) rows kind (ic_known_build st) of
           Some (status, reason) \<Rightarrow> Inl (status, ''Earlier batch '' @ reference @ '': '' @ reason)
         | None \<Rightarrow> Inr \<lparr>ic_union = absorb (ic_union st) rows,
               ic_known_build = (case ic_known_build st of None \<Rightarrow> as_str (ms_field batch ''build_id'') | Some b \<Rightarrow> Some b),
               ic_trusted = (ic_trusted st \<and> verified baseline batch)\<rparr>)))"

fun previous_loop :: "query_env \<Rightarrow> reader \<Rightarrow> measurement \<Rightarrow> string \<Rightarrow> inc_state \<Rightarrow> string list
    \<Rightarrow> ((string \<times> string) + inc_state) res" where
  "previous_loop env rd baseline kind st [] = Inr (Inr st)"
| "previous_loop env rd baseline kind st (reference # references) =
     bindr (previous_step env rd baseline kind st reference) (\<lambda>step.
       case step of Inl r \<Rightarrow> Inr (Inl r) | Inr st' \<Rightarrow> previous_loop env rd baseline kind st' references)"

text \<open>Indexing the union panics on an absent key; \<open>panic\<close> stands for it.\<close>

definition panic :: app_error where
  "panic = Runtime ''index panic''"

definition gained_rows :: "observations \<Rightarrow> observations \<Rightarrow> observation list res" where
  "gained_rows known rows =
     (if list_ex (\<lambda>(key, row). 0 < ob_hits row \<and> \<not> bt_contains known key) rows then Inl panic
      else Inr (map snd (filter (\<lambda>(key, row). 0 < ob_hits row
             \<and> (case bt_get known key of Some base \<Rightarrow> ob_hits base = 0 | None \<Rightarrow> False)) rows)))"

definition rejected_result :: "json \<Rightarrow> string \<times> string \<Rightarrow> json" where
  "rejected_result result r = jset (jset result ''status'' (JStr (fst r))) ''reason'' (JStr (snd r))"

definition percent :: "nat \<Rightarrow> nat \<Rightarrow> f64" where
  "percent cnt tot = f64_div (f64_mul (f64_of_int 100) (f64_of_int (int cnt))) (f64_of_int (int tot))"

definition incremental_json :: "compare_request \<Rightarrow> measurement \<Rightarrow> string \<Rightarrow> bool \<Rightarrow> observations \<Rightarrow> nat \<Rightarrow> nat
    \<Rightarrow> observations \<Rightarrow> json" where
  "incremental_json request baseline kind trusted accepted batch_covered cnt combined =
     (let missing = (case as_u64 (jidx (totals accepted) ''missing'') of None \<Rightarrow> 0 | Some n \<Rightarrow> n) in
      jobj [(''metric'', JStr kind), (''evidence'', JStr (if trusted then ''verified'' else ''unverified'')),
            (''baseline_scope'', JStr (case as_str (ms_field baseline ''scope'') of None \<Rightarrow> ''unknown'' | Some s \<Rightarrow> s)),
            (''previous_batches'', jnat (length (cq_previous request))),
            (''accepted'', totals accepted), (''batch_covered'', jnat batch_covered),
            (''newly_covered'', jnat cnt), (''already_covered'', jnat (batch_covered - cnt)),
            (''combined'', totals combined),
            (''gain_percentage_points'', JFloat (percent cnt (length combined))),
            (''remaining_gap_reduction_percent'', JFloat (if missing = 0 then f64_of_int 0 else percent cnt (nat missing)))])"

definition combined_result :: "query_env \<Rightarrow> compare_request \<Rightarrow> measurement \<Rightarrow> string \<Rightarrow> bool \<Rightarrow> observations
    \<Rightarrow> observation list \<Rightarrow> observations \<Rightarrow> json \<Rightarrow> json" where
  "combined_result env request baseline kind trusted accepted gained rows result =
     (let cnt = length gained;
          (gained_groups, gained_count) =
            group_rows env (filter (\<lambda>row. matches env row (cq_query request) None) gained) (cq_limit request) 0;
          known = absorb accepted rows;
          (remaining, remaining_count) =
            group_rows env (filter (\<lambda>row. ob_hits row = 0 \<and> matches env row (cq_query request) None) (bt_values known))
              (cq_limit request) 0;
          status = (if \<not> trusted then ''limited'' else if cnt = 0 then ''no_gain'' else ''improved'');
          reason = (if trusted
            then ''Baseline and batches have matching source/build receipts and passing tests. Combined coverage is their union; the full suite was not rerun and regression status is unknown.''
            else ''Unverified incremental estimate: source/build identity or passing test evidence is missing. Combined counts are coordinate evidence only; full-suite regression status is unknown.'')
      in foldl (\<lambda>r (k, v). jset r k v) result
           [(''status'', JStr status), (''reason'', JStr reason),
            (''incremental'', incremental_json request baseline kind trusted accepted (covered_count rows) cnt known),
            (''changes'', jobj [(''newly_observed'', jnat cnt), (''not_observed'', JNull), (''added'', JInt 0),
               (''removed'', JInt 0), (''regressed'', JNull)]),
            (''gained'', JArr gained_groups), (''gained_group_count'', jnat gained_count),
            (''remaining'', JArr remaining), (''remaining_group_count'', jnat remaining_count)])"

definition combine :: "query_env \<Rightarrow> reader \<Rightarrow> compare_request \<Rightarrow> measurement \<Rightarrow> measurement \<Rightarrow> string
    \<Rightarrow> observations \<Rightarrow> json \<Rightarrow> json res" where
  "combine env rd request current baseline kind known result =
     bindr (previous_loop env rd baseline kind
        \<lparr>ic_union = known, ic_known_build = as_str (ms_field baseline ''build_id''), ic_trusted = True\<rparr>
        (cq_previous request)) (\<lambda>accepted.
     case accepted of
       Inl r \<Rightarrow> Inr (envelope rd (rejected_result result r) None)
     | Inr st \<Rightarrow>
         bindr (inventory env current (rd_checkout_path rd) kind) (\<lambda>rows.
         case reject baseline current (ic_union st) rows kind (ic_known_build st) of
           Some r \<Rightarrow> Inr (envelope rd (rejected_result result r) None)
         | None \<Rightarrow> bindr (gained_rows (ic_union st) rows) (\<lambda>gained.
             Inr (envelope rd
               (combined_result env request baseline kind (ic_trusted st \<and> verified baseline current)
                  (ic_union st) gained rows result) None))))"

definition initial_result :: "measurement \<Rightarrow> measurement \<Rightarrow> string \<Rightarrow> json" where
  "initial_result current baseline kind =
     jobj [(''status'', JStr ''incomparable''), (''scope'', JStr ''incremental''), (''measurement'', summary current kind),
           (''baseline'', summary baseline kind), (''reason'', JStr []), (''incremental'', JNull), (''changes'', JNull),
           (''gained'', JArr []), (''gained_group_count'', JInt 0), (''remaining'', JArr []),
           (''remaining_group_count'', JInt 0), (''regression_checked'', JBool False)]"

definition compare_incremental :: "query_env \<Rightarrow> reader \<Rightarrow> compare_request \<Rightarrow> measurement \<Rightarrow> measurement \<Rightarrow> string \<Rightarrow> json res" where
  "compare_incremental env rd request current baseline kind =
     bindr (inventory env baseline (rd_checkout_path rd) kind) (\<lambda>known.
     let result = initial_result current baseline kind in
     if ms_field baseline ''test_status'' = JStr ''failed''
     then Inr (envelope rd (rejected_result result (''tests_failed'',
        ''The baseline tests failed. Choose a passing baseline; no combined coverage was calculated.'')) None)
     else if \<not> detail_matches baseline known kind
     then Inr (envelope rd (jset result ''reason'' (JStr
        ''Baseline detail is incomplete or differs from its reported totals. Export exact coverage for the selected metric before combining reports.'')) None)
     else combine env rd request current baseline kind known result)"


section \<open>Absorbing a batch\<close>

text \<open>\<open>known_ok\<close>: an ordered map whose observations are all measured.\<close>

definition known_ok :: "observations \<Rightarrow> bool" where
  "known_ok m \<longleftrightarrow> bt_inv m \<and> list_all (\<lambda>row. 0 \<le> ob_hits row) (bt_values m)"

definition covered_keys :: "observations \<Rightarrow> string set" where
  "covered_keys m = {k. \<exists>row. bt_get m k = Some row \<and> 0 < ob_hits row}"

lemma known_ok_insert: "known_ok m \<Longrightarrow> 0 \<le> ob_hits row \<Longrightarrow> known_ok (bt_insert k row m)"
  using set_bt_insert[of k row m] by (fastforce simp: known_ok_def list_all_iff bt_values_entries)

lemma known_ok_get: "known_ok m \<Longrightarrow> bt_get m k = Some row \<Longrightarrow> 0 \<le> ob_hits row"
  using bt_get_in[of m k row] by (auto simp: known_ok_def list_all_iff bt_values_def)

lemma known_ok_absorb: "known_ok m \<Longrightarrow> known_ok (absorb m rows)"
  unfolding absorb_def
  by (rule foldl_invariant) (auto simp: absorb_row_def intro!: known_ok_insert split: prod.split)

lemma bt_get_absorb:
  "distinct (map fst rows) \<Longrightarrow> bt_get (absorb m rows) k =
   (case bt_get rows k of Some row \<Rightarrow> if 0 < ob_hits row then Some row else bt_get m k | None \<Rightarrow> bt_get m k)"
proof (induction rows arbitrary: m)
  case (Cons e rows)
  obtain j row where e: "e = (j, row)" by (cases e)
  have "absorb m (e # rows) = absorb (absorb_row m e) rows" by (simp add: absorb_def)
  moreover have "k = j \<Longrightarrow> bt_get rows k = None" using Cons.prems by (auto simp: e bt_get_def map_of_eq_None_iff)
  ultimately show ?case using Cons by (auto simp: e absorb_row_def bt_get_def bt_get_bt_insert_raw split: option.split)
qed (simp add: absorb_def)

lemma keys_absorb:
  assumes "bt_inv m" and "\<And>k. k \<in> set (bt_keys rows) \<Longrightarrow> bt_get m k \<noteq> None"
  shows "bt_keys (absorb m rows) = bt_keys m"
  using assms
proof (induction rows arbitrary: m)
  case (Cons e rows)
  obtain j row where e: "e = (j, row)" by (cases e)
  have abs: "absorb m (e # rows) = absorb (absorb_row m e) rows" by (simp add: absorb_def)
  have "bt_get m j \<noteq> None" using Cons.prems(2)[of j] by (simp add: e bt_keys_def)
  then have keys: "bt_keys (absorb_row m e) = bt_keys m"
    using Cons.prems(1) by (auto simp: e absorb_row_def bt_keys_insert_present)
  have "bt_keys (absorb (absorb_row m e) rows) = bt_keys (absorb_row m e)"
  proof (rule Cons.IH)
    show "bt_inv (absorb_row m e)" using Cons.prems(1) by (simp add: e absorb_row_def)
    show "bt_get (absorb_row m e) k \<noteq> None" if "k \<in> set (bt_keys rows)" for k
      using Cons.prems(2)[of k] that keys bt_get_mem_keys[of "absorb_row m e" k] bt_get_mem_keys[of m k]
      by (simp add: bt_keys_def)
  qed
  then show ?case by (simp add: abs keys)
qed (simp add: absorb_def)

lemma covered_keys_absorb:
  "distinct (map fst rows) \<Longrightarrow> covered_keys (absorb m rows) = covered_keys m \<union> covered_keys rows"
  by (auto simp: covered_keys_def bt_get_absorb split: option.splits if_splits)

text \<open>The number of covered observations is the number of covered keys.\<close>

lemma covered_keys_image:
  assumes "bt_inv m"
  shows "covered_keys m = fst ` set (filter (\<lambda>e. 0 < ob_hits (snd e)) m)"
  using bt.entries_get[OF assms] by (force simp: covered_keys_def)

lemma finite_covered_keys: "bt_inv m \<Longrightarrow> finite (covered_keys m)"
  by (simp add: covered_keys_image)

lemma covered_count_card: assumes "bt_inv m" shows "covered_count m = card (covered_keys m)"
proof -
  have "distinct (map fst (filter (\<lambda>e. 0 < ob_hits (snd e)) m))"
    by (rule distinct_map_filter) (rule bt_inv_distinct[OF assms])
  then have "card (covered_keys m) = length (filter (\<lambda>e. 0 < ob_hits (snd e)) m)"
    unfolding covered_keys_image[OF assms] by (metis distinct_card length_map set_map)
  then show ?thesis by (simp add: covered_count_def bt_values_def filter_map comp_def)
qed

lemma covered_count_le: "covered_count m \<le> length m"
  unfolding covered_count_def bt_values_def by (metis length_filter_le length_map)

text \<open>What a batch gains is counted by the keys it covers first.\<close>

lemma gained_rows_card:
  assumes inv: "bt_inv rows" and ok: "known_ok known" and g: "gained_rows known rows = Inr gained"
  shows "length gained = card (covered_keys rows - covered_keys known)"
proof -
  let ?new = "filter (\<lambda>(key, row). 0 < ob_hits row
      \<and> (case bt_get known key of Some base \<Rightarrow> ob_hits base = 0 | None \<Rightarrow> False)) rows"
  have sub: "list_all (\<lambda>(key, row). 0 < ob_hits row \<longrightarrow> bt_contains known key) rows"
    using g by (auto simp: gained_rows_def list_ex_iff list_all_iff split: if_splits)
  have "covered_keys rows - covered_keys known = fst ` set ?new"
  proof (intro set_eqI iffI)
    fix k assume k: "k \<in> covered_keys rows - covered_keys known"
    then obtain row where row: "(k, row) \<in> set rows" "0 < ob_hits row"
      by (auto simp: covered_keys_def dest: bt_get_in)
    with sub obtain base where base: "bt_get known k = Some base"
      by (auto simp: list_all_iff bt_contains_def)
    have "ob_hits base = 0" using k base known_ok_get[OF ok base] by (auto simp: covered_keys_def)
    with row base show "k \<in> fst ` set ?new" by (force simp: image_iff)
  next
    fix k assume "k \<in> fst ` set ?new"
    then show "k \<in> covered_keys rows - covered_keys known"
      using bt.entries_get[OF inv] by (fastforce simp: covered_keys_def split: option.splits)
  qed
  moreover have "distinct (map fst ?new)" by (rule distinct_map_filter) (rule bt_inv_distinct[OF inv])
  ultimately have "card (covered_keys rows - covered_keys known) = length ?new"
    by (metis distinct_card length_map set_map)
  with g show ?thesis by (auto simp: gained_rows_def split: if_splits)
qed

text \<open>Combined coverage is accepted coverage plus the batch's gain.\<close>

lemma covered_count_absorb:
  assumes inv: "bt_inv rows" and ok: "known_ok known" and g: "gained_rows known rows = Inr gained"
  shows "covered_count (absorb known rows) = covered_count known + length gained"
proof -
  have invs: "bt_inv known" "bt_inv (absorb known rows)"
    using ok known_ok_absorb[OF ok, of rows] by (simp_all add: known_ok_def)
  have "covered_keys (absorb known rows) = covered_keys known \<union> (covered_keys rows - covered_keys known)"
    by (auto simp: covered_keys_absorb bt_inv_distinct[OF inv])
  moreover have "card (covered_keys known \<union> (covered_keys rows - covered_keys known))
      = card (covered_keys known) + card (covered_keys rows - covered_keys known)"
    by (rule card_Un_disjoint) (auto simp: finite_covered_keys invs inv)
  ultimately show ?thesis using invs by (simp only: covered_count_card gained_rows_card[OF assms])
qed

lemma gained_le_covered:
  assumes "bt_inv rows" and "known_ok known" and "gained_rows known rows = Inr gained"
  shows "length gained \<le> covered_count rows"
  using assms(1) by (simp add: covered_count_card gained_rows_card[OF assms] finite_covered_keys card_mono)

section \<open>A batch that is not rejected\<close>

lemma reject_None:
  assumes "reject baseline batch known rows kind b = None"
  shows "detail_matches batch rows kind" and "\<And>k. k \<in> set (bt_keys rows) \<Longrightarrow> bt_get known k \<noteq> None"
    and "\<not> conflict baseline batch" and "ms_field batch ''test_status'' \<noteq> JStr ''failed''"
    and "cr_format (ms_report baseline) = cr_format (ms_report batch)" and "\<not> build_differs b batch"
  using assms by (auto simp: reject_def list_ex_iff bt_contains_def split: if_splits)

text \<open>The indexing of the union cannot panic.\<close>

lemma gained_rows_total:
  assumes "reject baseline batch known rows kind b = None"
  shows "\<exists>gained. gained_rows known rows = Inr gained"
  using reject_None(2)[OF assms] by (fastforce simp: gained_rows_def list_ex_iff bt_contains_def bt_keys_def image_iff)

lemma bt_inv_inventory:
  assumes "inventory env m root kind = Inr rows" shows "bt_inv rows"
proof -
  have "bt_inv (foldl inventory_insert [] xs)" for xs
    unfolding inventory_insert_def
    by (rule bt.inv_fold_update[where key = inventory_key and upd = merge_observation, OF bt.inv_empty])
  then show ?thesis using assms by (auto simp: inventory_def bindr_eq_Inr)
qed

lemma detail_matches_known_ok:
  "inventory env m root kind = Inr rows \<Longrightarrow> detail_matches m rows kind \<Longrightarrow> known_ok rows"
  by (simp add: known_ok_def detail_matches_def bt_inv_inventory)

lemma detail_matches_counts:
  assumes "detail_matches m rows kind"
  shows "metric_counts (ms_report m) kind = (int (covered_count rows), int (length rows))"
  using assms by (auto simp: detail_matches_def totals_def counts_def jnat_def split: prod.splits)


section \<open>Inventories count source locations\<close>

interpretation iv: keyed_observations inventory_key inventory_insert
  by unfold_locales (simp_all add: inventory_insert_def inventory_key_def split: option.split)

lemma inventory_fill:
  "inventory env m root kind = Inr rows \<longleftrightarrow>
   (\<exists>obs. measurement_observations env m root = Inr obs
      \<and> rows = iv.fill (filter (\<lambda>row. ob_kind row = kind) (bt_values obs)))"
  by (auto simp: inventory_def bindr_eq_Inr iv.fill_def)

text \<open>Rows without an identity of their own share a key exactly when they share path, span and arm.\<close>

lemma inventory_key_eq_iff:
  assumes "ob_identity a = None" "ob_identity b = None"
    and "ob_arm a \<in> {[], ''true'', ''false''}" "ob_arm b \<in> {[], ''true'', ''false''}"
  shows "inventory_key a = inventory_key b \<longleftrightarrow> ob_path a = ob_path b \<and> ob_span a = ob_span b \<and> ob_arm a = ob_arm b"
  using assms span_text_inj[of "ob_path a @ '':''" "ob_span a" "ob_arm a" "ob_path b @ '':''" "ob_span b" "ob_arm b"]
  by (auto simp: inventory_key_def)

section \<open>The accumulated union\<close>

text \<open>Every round keeps the baseline's keys and only adds covered ones.\<close>

definition grows_from :: "observations \<Rightarrow> observations \<Rightarrow> bool" where
  "grows_from base m \<longleftrightarrow> known_ok m \<and> bt_keys m = bt_keys base \<and> covered_keys base \<subseteq> covered_keys m"

lemma grows_from_absorb:
  assumes "grows_from base known" and "bt_inv rows" and "reject baseline batch known rows kind b = None"
  shows "grows_from base (absorb known rows)"
proof -
  have ok: "known_ok known" and keys: "bt_keys known = bt_keys base" and cov: "covered_keys base \<subseteq> covered_keys known"
    using assms(1) by (simp_all add: grows_from_def)
  have "bt_keys (absorb known rows) = bt_keys known"
    by (rule keys_absorb[OF _ reject_None(2)[OF assms(3)]]) (use ok in \<open>simp_all add: known_ok_def\<close>)
  then show ?thesis
    using known_ok_absorb[OF ok] keys cov by (auto simp: grows_from_def covered_keys_absorb bt_inv_distinct[OF assms(2)])
qed

lemma previous_step_accepts:
  assumes "previous_step env rd baseline kind st reference = Inr (Inr st')"
  obtains batch rows where "load env rd (Some reference) None = Inr batch"
    and "inventory env batch (rd_checkout_path rd) kind = Inr rows"
    and "reject baseline batch (ic_union st) rows kind (ic_known_build st) = None"
    and "ic_union st' = absorb (ic_union st) rows"
    and "ic_trusted st' \<longleftrightarrow> ic_trusted st \<and> verified baseline batch"
proof -
  obtain batch rows where l: "load env rd (Some reference) None = Inr batch"
      and i: "inventory env batch (rd_checkout_path rd) kind = Inr rows"
    using assms by (auto simp: previous_step_def bindr_eq_Inr)
  show thesis
    using assms that[OF l i]
    by (cases "reject baseline batch (ic_union st) rows kind (ic_known_build st)")
      (auto simp: previous_step_def l i)
qed

lemma previous_loop_Cons_iff:
  "previous_loop env rd baseline kind st (r # refs) = Inr (Inr st') \<longleftrightarrow>
   (\<exists>st1. previous_step env rd baseline kind st r = Inr (Inr st1) \<and> previous_loop env rd baseline kind st1 refs = Inr (Inr st'))"
proof (cases "previous_step env rd baseline kind st r")
  case (Inr step)
  then show ?thesis by (cases step) auto
qed simp

lemma grows_from_previous_loop:
  "previous_loop env rd baseline kind st refs = Inr (Inr st') \<Longrightarrow> grows_from base (ic_union st)
   \<Longrightarrow> grows_from base (ic_union st')"
proof (induction refs arbitrary: st)
  case (Cons r refs)
  obtain st1 where s: "previous_step env rd baseline kind st r = Inr (Inr st1)"
      and l: "previous_loop env rd baseline kind st1 refs = Inr (Inr st')"
    using Cons.prems(1) unfolding previous_loop_Cons_iff by blast
  from s have "grows_from base (ic_union st1)"
    by (rule previous_step_accepts) (simp add: grows_from_absorb[OF Cons.prems(2)] bt_inv_inventory)
  with l show ?case by (rule Cons.IH)
qed simp

text \<open>The trust of an answer covers the baseline and every batch that went into it.\<close>

lemma previous_loop_trusted:
  "previous_loop env rd baseline kind st refs = Inr (Inr st') \<Longrightarrow> ic_trusted st'
   \<Longrightarrow> ic_trusted st \<and> (\<forall>r \<in> set refs. \<exists>batch. load env rd (Some r) None = Inr batch \<and> verified baseline batch)"
proof (induction refs arbitrary: st)
  case (Cons r refs)
  obtain st1 where s: "previous_step env rd baseline kind st r = Inr (Inr st1)"
      and l: "previous_loop env rd baseline kind st1 refs = Inr (Inr st')"
    using Cons.prems(1) unfolding previous_loop_Cons_iff by blast
  from s show ?case by (rule previous_step_accepts) (use Cons.IH[OF l Cons.prems(2)] in auto)
qed simp

section \<open>The combined answer\<close>

lemma length_eq_keys: "bt_keys a = bt_keys b \<Longrightarrow> length a = length b"
  by (metis length_bt_keys)

definition incremental_of :: "json \<Rightarrow> json" where
  "incremental_of env = jidx (jidx env ''data'') ''incremental''"

lemma envelope_data [simp]: "jidx (envelope rd data suite) ''data'' = data"
  by (simp add: envelope_def Let_def)

lemma incremental_of_rejected [simp]:
  "incremental_of (envelope rd (rejected_result (initial_result current baseline kind) r) None) = JNull"
  "incremental_of (envelope rd (jset (initial_result current baseline kind) ''reason'' v) None) = JNull"
  by (simp_all add: incremental_of_def rejected_result_def initial_result_def)

lemma incremental_of_combined [simp]:
  "incremental_of (envelope rd (combined_result env request baseline kind trusted accepted gained rows
      (initial_result current baseline kind)) None)
   = incremental_json request baseline kind trusted accepted (covered_count rows) (length gained) (absorb accepted rows)"
  by (simp add: incremental_of_def combined_result_def initial_result_def Let_def split: prod.split)

text \<open>An answer with combined counts comes from a union, a batch that was not rejected, and its gain.\<close>

lemma compare_incremental_cases:
  assumes "compare_incremental env rd request current baseline kind = Inr e" and "incremental_of e \<noteq> JNull"
  obtains base st rows gained
  where "inventory env baseline (rd_checkout_path rd) kind = Inr base" and "detail_matches baseline base kind"
    and "previous_loop env rd baseline kind
        \<lparr>ic_union = base, ic_known_build = as_str (ms_field baseline ''build_id''), ic_trusted = True\<rparr>
        (cq_previous request) = Inr (Inr st)"
    and "inventory env current (rd_checkout_path rd) kind = Inr rows"
    and "reject baseline current (ic_union st) rows kind (ic_known_build st) = None"
    and "gained_rows (ic_union st) rows = Inr gained"
    and "e = envelope rd (combined_result env request baseline kind (ic_trusted st \<and> verified baseline current)
        (ic_union st) gained rows (initial_result current baseline kind)) None"
proof -
  obtain base where base: "inventory env baseline (rd_checkout_path rd) kind = Inr base"
    using assms(1) by (auto simp: compare_incremental_def bindr_eq_Inr)
  have d: "detail_matches baseline base kind" and c: "combine env rd request current baseline kind base
      (initial_result current baseline kind) = Inr e"
    using assms by (auto simp: compare_incremental_def base Let_def split: if_splits)
  let ?start = "\<lparr>ic_union = base, ic_known_build = as_str (ms_field baseline ''build_id''), ic_trusted = True\<rparr>"
  obtain acc where acc: "previous_loop env rd baseline kind ?start (cq_previous request) = Inr acc"
    using c by (auto simp: combine_def bindr_eq_Inr)
  show thesis
  proof (cases acc)
    case (Inl r)
    with c assms(2) show ?thesis by (auto simp: combine_def acc)
  next
    case (Inr st)
    then obtain rows where rows: "inventory env current (rd_checkout_path rd) kind = Inr rows"
      using c by (auto simp: combine_def acc bindr_eq_Inr)
    show ?thesis
    proof (cases "reject baseline current (ic_union st) rows kind (ic_known_build st)")
      case None
      obtain gained where g: "gained_rows (ic_union st) rows = Inr gained" using gained_rows_total[OF None] by blast
      with c None Inr rows show ?thesis by (intro that[OF base d _ rows None g]) (simp_all add: combine_def acc)
    next
      case (Some r)
      with c assms(2) Inr rows show ?thesis by (auto simp: combine_def acc)
    qed
  qed
qed

lemma grows_from_refl: "known_ok base \<Longrightarrow> grows_from base base"
  by (simp add: grows_from_def)

lemma compare_incremental_union:
  assumes "inventory env baseline root kind = Inr base" and "detail_matches baseline base kind"
    and "previous_loop env rd baseline kind \<lparr>ic_union = base, ic_known_build = b, ic_trusted = True\<rparr> refs = Inr (Inr st)"
  shows "grows_from base (ic_union st)"
  using grows_from_previous_loop[OF assms(3)] grows_from_refl detail_matches_known_ok[OF assms(1,2)] by simp


section \<open>Properties\<close>

lemma incremental_json_fields:
  assumes "inc = incremental_json request baseline kind trusted accepted batch_covered cnt combined"
  shows "jidx (jidx inc ''accepted'') ''covered'' = JInt (int (covered_count accepted))"
    and "jidx (jidx inc ''accepted'') ''total'' = JInt (int (length accepted))"
    and "jidx inc ''newly_covered'' = JInt (int cnt)" and "jidx inc ''batch_covered'' = JInt (int batch_covered)"
    and "jidx inc ''already_covered'' = JInt (int (batch_covered - cnt))"
    and "jidx (jidx inc ''combined'') ''covered'' = JInt (int (covered_count combined))"
    and "jidx (jidx inc ''combined'') ''total'' = JInt (int (length combined))"
    and "jidx inc ''evidence'' = JStr (if trusted then ''verified'' else ''unverified'')"
  by (simp_all add: assms incremental_json_def Let_def totals_def jnat_def)

text \<open>C3. Combined coverage adds up: whenever an incremental comparison reports combined counts, the
  combined covered count is the accepted one plus what the batch newly covers, the denominator is the
  baseline's reported total in both, the accepted count is at least the baseline's, and nothing
  exceeds the total.\<close>

theorem incremental_counts_add_up:
  assumes "compare_incremental env rd request current baseline kind = Inr e" and "incremental_of e \<noteq> JNull"
  shows "\<exists>a n t c. jidx (jidx (incremental_of e) ''accepted'') ''covered'' = JInt a
     \<and> jidx (incremental_of e) ''newly_covered'' = JInt n
     \<and> jidx (jidx (incremental_of e) ''combined'') ''covered'' = JInt (a + n)
     \<and> jidx (jidx (incremental_of e) ''accepted'') ''total'' = JInt t
     \<and> jidx (jidx (incremental_of e) ''combined'') ''total'' = JInt t
     \<and> metric_counts (ms_report baseline) kind = (c, t)
     \<and> 0 \<le> c \<and> c \<le> a \<and> 0 \<le> n \<and> a + n \<le> t"
  using assms
proof (rule compare_incremental_cases)
  fix base st rows gained
  assume base: "inventory env baseline (rd_checkout_path rd) kind = Inr base" "detail_matches baseline base kind"
    and prev: "previous_loop env rd baseline kind
        \<lparr>ic_union = base, ic_known_build = as_str (ms_field baseline ''build_id''), ic_trusted = True\<rparr>
        (cq_previous request) = Inr (Inr st)"
    and rows: "inventory env current (rd_checkout_path rd) kind = Inr rows"
    and ok: "reject baseline current (ic_union st) rows kind (ic_known_build st) = None"
    and g: "gained_rows (ic_union st) rows = Inr gained"
    and e: "e = envelope rd (combined_result env request baseline kind (ic_trusted st \<and> verified baseline current)
        (ic_union st) gained rows (initial_result current baseline kind)) None"
  let ?u = "ic_union st" and ?v = "absorb (ic_union st) rows"
  have grow: "grows_from base ?u" "grows_from base ?v"
    using compare_incremental_union[OF base prev] grows_from_absorb[OF _ bt_inv_inventory[OF rows] ok] by blast+
  have invs: "bt_inv base" "bt_inv ?u" "known_ok ?u"
    using detail_matches_known_ok[OF base] grow(1) by (simp_all add: grows_from_def known_ok_def)
  have len: "length ?u = length base" "length ?v = length base"
    using grow length_eq_keys by (auto simp: grows_from_def)
  have "covered_count base \<le> covered_count ?u"
    using grow(1) invs by (simp add: covered_count_card grows_from_def card_mono finite_covered_keys)
  moreover have "covered_count ?v = covered_count ?u + length gained"
    by (rule covered_count_absorb[OF bt_inv_inventory[OF rows] invs(3) g])
  moreover have "covered_count ?v \<le> length base" using covered_count_le[of ?v] len by simp
  moreover note incremental_json_fields[OF refl]
  ultimately show ?thesis
    by (simp add: e detail_matches_counts[OF base(2)] len)
qed

text \<open>A small fixed measurement with an inventory of its own, for the witnesses.\<close>

definition inventory_measurement :: "string \<Rightarrow> int list \<Rightarrow> measurement" where
  "inventory_measurement name hits =
     \<lparr>ms_reference = name,
      ms_report = \<lparr>cr_format = ''composite'', cr_report_path = name,
        cr_files = [(empty_file ''a.rs'')\<lparr>fc_total_regions := int (length hits),
           fc_covered_regions := int (length (filter (\<lambda>h. 0 < h) hits))\<rparr>],
        cr_lines = [], cr_test_names = [], cr_test_coverage = [], cr_warnings = [], cr_metadata = jobj []\<rparr>,
      ms_context = jobj [(''build_id'', JStr ''b''), (''test_status'', JStr ''passed''), (''source_hashes'', jobj [])],
      ms_source_state = ''matches_receipt'',
      ms_native = Some (foldl insert_obs [] (map (\<lambda>(i, h). (composite_observation ''a.rs'' i i ''covered'' (show_int i))\<lparr>ob_hits := h\<rparr>)
        (zip [1..int (length hits)] hits)))\<rparr>"

definition sample_compare :: compare_request where
  "sample_compare = \<lparr>cq_measurement = ''m'', cq_baseline = ''b'', cq_query = None, cq_metric = None,
     cq_scope = Some ''incremental'', cq_previous = [], cq_limit = 5\<rparr>"

definition sample_reader :: reader where
  "sample_reader = \<lparr>rd_repo_key = ''k'', rd_checkout_path = ''/r'', rd_suite = None, rd_store = None\<rparr>"

definition sample_comparison :: "json res" where
  "sample_comparison = compare_incremental plain_query_env sample_reader sample_compare
     (inventory_measurement ''m'' [0, 2, 1]) (inventory_measurement ''b'' [1, 0, 0]) ''regions''"

lemma sample_comparison_ok:
  obtains e where "sample_comparison = Inr e" and "incremental_of e \<noteq> JNull"
    and "jidx (incremental_of e) ''newly_covered'' = JInt 2" and "jidx (incremental_of e) ''evidence'' = JStr ''verified''"
proof -
  have "(case sample_comparison of Inr e \<Rightarrow> incremental_of e \<noteq> JNull
      \<and> jidx (incremental_of e) ''newly_covered'' = JInt 2 \<and> jidx (incremental_of e) ''evidence'' = JStr ''verified'' | Inl _ \<Rightarrow> False)"
    by code_simp
  then show thesis using that by (auto split: sum.splits)
qed

theorem incremental_counts_add_up_witness:
  "\<exists>e a. sample_comparison = Inr e \<and> jidx (jidx (incremental_of e) ''accepted'') ''covered'' = JInt a
     \<and> jidx (jidx (incremental_of e) ''combined'') ''covered'' = JInt (a + 2)"
proof -
  obtain e where e: "sample_comparison = Inr e" "incremental_of e \<noteq> JNull" "jidx (incremental_of e) ''newly_covered'' = JInt 2"
    by (rule sample_comparison_ok)
  from incremental_counts_add_up[OF e(1)[unfolded sample_comparison_def] e(2)] e show ?thesis by auto
qed

text \<open>A batch that is not rejected can be merged without a panic: each of its covered observations has
  an entry in the union, so the indexing that computes the gain succeeds, and subtracting the gain from
  the batch's covered count does not underflow.\<close>

theorem accepted_batch_never_panics:
  assumes "reject baseline batch known rows kind known_build = None" and "bt_inv rows" and "known_ok known"
  shows "\<exists>gained. gained_rows known rows = Inr gained \<and> length gained \<le> covered_count rows"
  using gained_rows_total[OF assms(1)] gained_le_covered[OF assms(2,3)] by blast

theorem accepted_batch_never_panics_witness:
  "\<exists>gained. gained_rows [(''1'', composite_observation ''a.rs'' 1 1 ''uncovered'' ''1'')]
      [(''1'', composite_observation ''a.rs'' 1 1 ''covered'' ''1'')] = Inr gained
    \<and> length gained \<le> covered_count [(''1'', composite_observation ''a.rs'' 1 1 ''covered'' ''1'')]"
proof (rule accepted_batch_never_panics)
  show "reject (inventory_measurement ''b'' [0]) (inventory_measurement ''m'' [1]) [(''1'', composite_observation ''a.rs'' 1 1 ''uncovered'' ''1'')]
      [(''1'', composite_observation ''a.rs'' 1 1 ''covered'' ''1'')] ''regions'' (Some ''b'') = None" by code_simp
  show "bt_inv [(''1'', composite_observation ''a.rs'' 1 1 ''covered'' ''1'')]" by (simp add: bt_inv_def)
  show "known_ok [(''1'', composite_observation ''a.rs'' 1 1 ''uncovered'' ''1'')]"
    by (simp add: known_ok_def bt_inv_def bt_values_def composite_observation_def state_hits_def)
qed

lemma covered_keys_absorb_all:
  "list_all bt_inv rs \<Longrightarrow> covered_keys (foldl absorb m rs) = covered_keys m \<union> (\<Union>r \<in> set rs. covered_keys r)"
  by (induction rs arbitrary: m) (auto simp: covered_keys_absorb bt_inv_distinct)

lemma known_ok_absorb_all: "known_ok m \<Longrightarrow> known_ok (foldl absorb m rs)"
  by (induction rs arbitrary: m) (auto intro: known_ok_absorb)

text \<open>The order of earlier batches does not matter: merging the same batches in another order covers
  the same observations and gives the same covered count.\<close>

theorem batch_order_irrelevant:
  assumes "list_all bt_inv batches" and "mset batches = mset batches'" and "known_ok base"
  shows "covered_keys (foldl absorb base batches) = covered_keys (foldl absorb base batches')
    \<and> covered_count (foldl absorb base batches) = covered_count (foldl absorb base batches')"
proof -
  have same: "set batches = set batches'" using assms(2) by (rule mset_eq_setD)
  then have "list_all bt_inv batches'" using assms(1) by (simp add: list_all_iff)
  with assms(1) same have keys: "covered_keys (foldl absorb base batches) = covered_keys (foldl absorb base batches')"
    by (simp add: covered_keys_absorb_all)
  have "bt_inv (foldl absorb base bs)" for bs using known_ok_absorb_all[OF assms(3)] by (simp add: known_ok_def)
  then show ?thesis using keys by (simp add: covered_count_card)
qed

theorem batch_order_irrelevant_witness:
  "covered_count (foldl absorb [] [[(''1'', (sample_row 1)\<lparr>ob_hits := 1\<rparr>)], [(''2'', (sample_row 2)\<lparr>ob_hits := 1\<rparr>)]])
    = covered_count (foldl absorb [] [[(''2'', (sample_row 2)\<lparr>ob_hits := 1\<rparr>)], [(''1'', (sample_row 1)\<lparr>ob_hits := 1\<rparr>)]])"
  using batch_order_irrelevant[of "[[(''1'', (sample_row 1)\<lparr>ob_hits := 1\<rparr>)], [(''2'', (sample_row 2)\<lparr>ob_hits := 1\<rparr>)]]" "[[(''2'', (sample_row 2)\<lparr>ob_hits := 1\<rparr>)], [(''1'', (sample_row 1)\<lparr>ob_hits := 1\<rparr>)]]" "[]"]
  by (simp add: bt_inv_def known_ok_def bt_values_def)

text \<open>An incremental result is called verified only when the current batch and every earlier one were
  loaded with sources that match their receipts, the baseline's build identity and passing tests.\<close>

theorem verified_evidence_covers_all_batches:
  assumes "compare_incremental env rd request current baseline kind = Inr e"
    and "jidx (incremental_of e) ''evidence'' = JStr ''verified''"
  shows "verified baseline current
    \<and> (\<forall>r \<in> set (cq_previous request). \<exists>batch. load env rd (Some r) None = Inr batch \<and> verified baseline batch)"
proof -
  have "incremental_of e \<noteq> JNull" using assms(2) by auto
  with assms(1) show ?thesis
  proof (rule compare_incremental_cases)
    fix base st rows gained
    assume prev: "previous_loop env rd baseline kind
          \<lparr>ic_union = base, ic_known_build = as_str (ms_field baseline ''build_id''), ic_trusted = True\<rparr>
          (cq_previous request) = Inr (Inr st)"
      and e: "e = envelope rd (combined_result env request baseline kind (ic_trusted st \<and> verified baseline current)
          (ic_union st) gained rows (initial_result current baseline kind)) None"
    have "ic_trusted st \<and> verified baseline current"
      using assms(2) incremental_json_fields(8)[OF refl] by (auto simp: e split: if_splits)
    with previous_loop_trusted[OF prev] show ?thesis by blast
  qed
qed

theorem verified_evidence_covers_all_batches_witness:
  "verified (inventory_measurement ''b'' [1, 0, 0]) (inventory_measurement ''m'' [0, 2, 1])"
proof -
  obtain e where e: "sample_comparison = Inr e" "jidx (incremental_of e) ''evidence'' = JStr ''verified''"
    by (rule sample_comparison_ok)
  from verified_evidence_covers_all_batches[OF e(1)[unfolded sample_comparison_def] e(2)] show ?thesis by blast
qed


lemma inventory_entry_from:
  assumes "bt_get (iv.fill rs) k = Some row"
  shows "\<exists>r \<in> set rs. ob_identity row = ob_identity r \<and> ob_arm row = ob_arm r"
proof -
  obtain r rest h where flt: "filter (\<lambda>r. inventory_key r = k) rs = r # rest" and row: "row = r\<lparr>ob_hits := h\<rparr>"
    using assms by (auto simp: iv.get_fill split: list.splits)
  have "r \<in> set (filter (\<lambda>r. inventory_key r = k) rs)" by (simp add: flt)
  then have "r \<in> set rs" by simp
  with row show ?thesis by auto
qed

text \<open>The inventory of a report counts source locations, not instantiations: the entry of a path, span
  and arm is covered exactly when some observation of the chosen metric at that path, span and arm is,
  whatever function it was instantiated in.\<close>

theorem inventory_counts_locations:
  assumes "ms_native m = None" and "measurement_observations env m root = Inr obs"
    and "inventory env m root kind = Inr rows" and "bt_get rows k = Some row"
  shows "0 < ob_hits row \<longleftrightarrow> (\<exists>r \<in> set (bt_values obs). ob_kind r = kind \<and> ob_path r = ob_path row
     \<and> ob_span r = ob_span row \<and> ob_arm r = ob_arm row \<and> 0 < ob_hits r)"
proof -
  let ?rs = "filter (\<lambda>row. ob_kind row = kind) (bt_values obs)"
  have rows: "rows = iv.fill ?rs" using assms(2,3) unfolding inventory_fill by auto
  have ok: "ob_identity r = None \<and> ob_arm r \<in> {[], ''true'', ''false''}" if "r \<in> set (bt_values obs)" for r
    using that obs_map_ok_observations[of "canon_of env" "ms_report m" root obs] assms(1,2)
    by (auto simp: measurement_observations_def obs_map_ok_def obs_ok_def bt_values_entries)
  have k: "inventory_key row = k" using assms(4) iv.fill_key unfolding rows by blast
  obtain r where "r \<in> set ?rs" "ob_identity row = ob_identity r" "ob_arm row = ob_arm r"
    using inventory_entry_from[OF assms(4)[unfolded rows]] by blast
  then have row: "ob_identity row = None" "ob_arm row \<in> {[], ''true'', ''false''}" using ok[of r] by auto
  have key: "inventory_key r = k \<longleftrightarrow> ob_path r = ob_path row \<and> ob_span r = ob_span row \<and> ob_arm r = ob_arm row"
    if "r \<in> set (bt_values obs)" for r
    unfolding k[symmetric] using ok[OF that] row by (intro inventory_key_eq_iff) auto
  show ?thesis using iv.fill_covered[OF assms(4)[unfolded rows]] key by auto
qed

definition lcov_measurement :: measurement where
  "lcov_measurement = \<lparr>ms_reference = ''r.info'', ms_report = sample_report, ms_context = JNull,
     ms_source_state = ''unverified'', ms_native = None\<rparr>"

theorem inventory_counts_locations_witness:
  "\<exists>obs. measurement_observations plain_query_env lcov_measurement ''/r'' = Inr obs
    \<and> (\<exists>r \<in> set (bt_values obs). ob_kind r = ''lines'' \<and> ob_path r = ''a.rs'' \<and> ob_span r = (1, 0, 1, 0) \<and> 0 < ob_hits r)"
proof -
  have "(case (measurement_observations plain_query_env lcov_measurement ''/r'', inventory plain_query_env lcov_measurement ''/r'' ''lines'') of
      (Inr obs, Inr rows) \<Rightarrow> bt_get rows ''a.rs:[1, 0, 1, 0]:'' = Some (line_observation (line_row ''a.rs'' 1 1 None True (0, 0, 0, 0) (JObj [])))
    | _ \<Rightarrow> False)" by code_simp
  then obtain obs rows where obs: "measurement_observations plain_query_env lcov_measurement ''/r'' = Inr obs"
    and rows: "inventory plain_query_env lcov_measurement ''/r'' ''lines'' = Inr rows"
    and get: "bt_get rows ''a.rs:[1, 0, 1, 0]:'' = Some (line_observation (line_row ''a.rs'' 1 1 None True (0, 0, 0, 0) (JObj [])))"
    by (auto split: sum.splits)
  have "ms_native lcov_measurement = None" by (simp add: lcov_measurement_def)
  from inventory_counts_locations[OF this obs rows get] obs show ?thesis
    by (auto simp: line_observation_def line_row_def i64_of_bool_def)
qed

end
