(* ===== verification/Search.thy ===== *)
theory Search
  imports Incremental
begin

text \<open>
  The two tools of \<open>src/src/query.rs\<close>, \<open>coverage_gaps\<close> (\<open>find\<close>) and \<open>coverage_compare\<close>
  (\<open>compare\<close>), their dispatch and response bound (\<open>call\<close>), and the terminal rendering of an answer.
  Decoding the arguments (\<open>serde_json::from_value\<close> on a derived type) is an argument of \<open>call\<close>.
\<close>

section \<open>Finding gaps\<close>

definition gap_rows :: "query_env \<Rightarrow> find_request \<Rightarrow> string \<Rightarrow> observations \<Rightarrow> observation list" where
  "gap_rows env request kind obs =
     filter (\<lambda>row. ob_kind row = kind \<and> ob_hits row \<le> 0 \<and> matches env row (fr_query request) (fr_line request))
       (bt_values obs)"

definition find_status :: "observations \<Rightarrow> bool \<Rightarrow> string" where
  "find_status obs available =
     (if list_ex (\<lambda>row. ob_hits row < 0) (bt_values obs) then ''incomplete''
      else if available then ''measured'' else ''detail_unavailable'')"

definition find_action :: "measurement \<Rightarrow> bool \<Rightarrow> string" where
  "find_action m available =
     (if ms_source_state m = ''changed_or_missing''
      then ''Source differs from the measurement. Remeasure or inspect the recorded source before drawing conclusions.''
      else if available
      then ''Use rg and bounded file reads at these locations; test references are not coverage attribution.''
      else ''This report lacks exact detail for the selected metric. Export detailed coverage or choose another metric.'')"

definition find_data :: "query_env \<Rightarrow> find_request \<Rightarrow> measurement \<Rightarrow> string \<Rightarrow> observations \<Rightarrow> json" where
  "find_data env request m kind obs =
     (let available = list_ex (\<lambda>row. ob_kind row = kind) (bt_values obs);
          (items, tot) = group_rows env (gap_rows env request kind obs) (fr_limit request) (fr_offset request);
          next = min (int (fr_offset request) + int (length items)) (2 ^ 64 - 1)
      in jobj [(''status'', JStr (find_status obs available)), (''measurement'', summary m kind),
               (''ranking'', JStr ''missing observations, then source location''),
               (''groups'', JArr items), (''group_count'', jnat tot),
               (''next_offset'', if next < int tot then JInt next else JNull),
               (''warnings'', JArr (map (\<lambda>s. JStr (chars_take 240 s)) (take 3 (cr_warnings (ms_report m))))),
               (''warnings_omitted'', jnat (length (cr_warnings (ms_report m)) - 3)),
               (''next_action'', JStr (find_action m available))])"

definition find_gaps :: "query_env \<Rightarrow> reader \<Rightarrow> find_request \<Rightarrow> json res" where
  "find_gaps env rd request =
     bindr (validate (fr_limit request) (fr_query request)) (\<lambda>_.
     if (case fr_line request of None \<Rightarrow> False | Some l \<Rightarrow> l < 1) then Inl (invalid ''line must be positive'')
     else
     bindr (load env rd (fr_measurement request) (fr_suite request)) (\<lambda>m.
     bindr (metric (fr_metric request) (ms_report m)) (\<lambda>kind.
     bindr (measurement_observations env m (rd_checkout_path (reader_context rd None))) (\<lambda>obs.
       Inr (envelope rd (find_data env request m kind obs) (fr_suite request))))))"

section \<open>Comparing measurements\<close>

definition compatible_context :: "measurement \<Rightarrow> measurement \<Rightarrow> bool" where
  "compatible_context current baseline = (case as_str (ms_field current ''build_id'') of
      None \<Rightarrow> False
    | Some b \<Rightarrow>
        (if ms_field baseline ''build_id'' \<noteq> JStr b then False
         else case as_object (ms_field current ''source_hashes'') of
           None \<Rightarrow> False
         | Some current_hashes \<Rightarrow> (case as_object (ms_field baseline ''source_hashes'') of
             None \<Rightarrow> False
           | Some baseline_hashes \<Rightarrow>
               list_all (\<lambda>file. case bt_get current_hashes (fc_file_path file) of
                   None \<Rightarrow> False
                 | Some hash \<Rightarrow> is_string hash \<and> bt_get baseline_hashes (fc_file_path file) = Some hash)
                 (cr_files (ms_report current) @ cr_files (ms_report baseline)))))"

definition compare_conflict :: "measurement \<Rightarrow> measurement \<Rightarrow> bool" where
  "compare_conflict current baseline \<longleftrightarrow>
     is_string (ms_field current ''build_id'') \<and> is_string (ms_field baseline ''build_id'')
     \<and> (ms_field current ''build_id'' \<noteq> ms_field baseline ''build_id''
        \<or> list_ex (hash_conflict current baseline)
            (cr_files (ms_report current) @ cr_files (ms_report baseline)))"

definition is_full :: "string \<Rightarrow> measurement \<Rightarrow> measurement \<Rightarrow> bool" where
  "is_full scope current baseline \<longleftrightarrow>
     scope = ''full'' \<and> ms_field current ''scope'' = JStr ''full'' \<and> ms_field baseline ''scope'' = JStr ''full''
     \<and> compatible_context current baseline"

definition selected_rows :: "query_env \<Rightarrow> compare_request \<Rightarrow> string \<Rightarrow> observations \<Rightarrow> observation list" where
  "selected_rows env request kind obs =
     filter (\<lambda>row. ob_kind row = kind \<and> matches env row (cq_query request) None) (bt_values obs)"

definition comparable :: "measurement \<Rightarrow> measurement \<Rightarrow> observation list \<Rightarrow> observation list \<Rightarrow> bool" where
  "comparable current baseline current_rows baseline_rows \<longleftrightarrow>
     \<not> compare_conflict current baseline
     \<and> cr_format (ms_report current) = cr_format (ms_report baseline)
     \<and> current_rows \<noteq> [] \<and> baseline_rows \<noteq> []
     \<and> list_all (\<lambda>row. 0 \<le> ob_hits row) (current_rows @ baseline_rows)"

definition gained_of :: "observation list \<Rightarrow> observations \<Rightarrow> observation list" where
  "gained_of current_rows before =
     filter (\<lambda>row. 0 < ob_hits row
        \<and> (case bt_get before (obs_key row) of None \<Rightarrow> False | Some base \<Rightarrow> ob_hits base = 0)) current_rows"

definition lost_of :: "observation list \<Rightarrow> observations \<Rightarrow> observation list" where
  "lost_of baseline_rows after =
     filter (\<lambda>row. 0 < ob_hits row
        \<and> (case bt_get after (obs_key row) of None \<Rightarrow> True | Some current \<Rightarrow> ob_hits current = 0)) baseline_rows"

definition absent_of :: "observation list \<Rightarrow> observations \<Rightarrow> nat" where
  "absent_of rows obs = length (filter (\<lambda>row. \<not> bt_contains obs (obs_key row)) rows)"

definition compare_status :: "measurement \<Rightarrow> bool \<Rightarrow> bool \<Rightarrow> bool \<Rightarrow> observation list \<Rightarrow> observation list \<Rightarrow> string" where
  "compare_status current cmp verif full gained lost =
     (if ms_field current ''test_status'' = JStr ''failed'' then ''tests_failed''
      else if \<not> cmp then ''incomparable''
      else if \<not> verif then ''limited''
      else if full \<and> lost \<noteq> [] then ''regression''
      else if gained = [] then ''no_gain''
      else ''improved'')"

definition compare_reason :: "bool \<Rightarrow> bool \<Rightarrow> bool \<Rightarrow> string" where
  "compare_reason cmp verif full =
     (if \<not> cmp then ''Reports have conflicting source/build identities, incompatible formats, missing metric detail, or unmeasured inventory entries. Remeasure compatible inputs.''
      else if \<not> verif then ''Source/build identity is unverified; counts describe report-coordinate changes, not a verified coverage gain or regression.''
      else if \<not> full then ''Selected-test absences are not regressions; full-suite regression status is unknown.''
      else ''Full measurements have matching source/build context.'')"

definition compare_data :: "query_env \<Rightarrow> compare_request \<Rightarrow> measurement \<Rightarrow> measurement \<Rightarrow> string \<Rightarrow> string
    \<Rightarrow> observations \<Rightarrow> observations \<Rightarrow> json" where
  "compare_data env request current baseline kind scope after before =
     (let verif = compatible_context current baseline;
          full = is_full scope current baseline;
          current_rows = selected_rows env request kind after;
          baseline_rows = selected_rows env request kind before;
          cmp = comparable current baseline current_rows baseline_rows;
          gained = gained_of current_rows before;
          lost = lost_of baseline_rows after;
          (gained_groups, gained_count) = group_rows env gained (cq_limit request) 0;
          (remaining, remaining_count) =
            group_rows env (filter (\<lambda>row. ob_hits row = 0) current_rows) (cq_limit request) 0
      in jobj [(''status'', JStr (compare_status current cmp verif full gained lost)),
               (''measurement'', summary current kind), (''baseline'', summary baseline kind),
               (''scope'', JStr (if full then ''full'' else ''selected_tests'')),
               (''reason'', JStr (compare_reason cmp verif full)),
               (''changes'', if cmp then jobj [(''newly_observed'', jnat (length gained)),
                    (''not_observed'', jnat (length lost)), (''added'', jnat (absent_of current_rows before)),
                    (''removed'', jnat (absent_of baseline_rows after)),
                    (''regressed'', if full then jnat (length lost) else JNull)]
                  else JNull),
               (''gained'', JArr (if cmp then gained_groups else [])),
               (''gained_group_count'', jnat (if cmp then gained_count else 0)),
               (''remaining'', JArr remaining), (''remaining_group_count'', jnat remaining_count)])"

definition compare :: "query_env \<Rightarrow> reader \<Rightarrow> compare_request \<Rightarrow> json res" where
  "compare env rd request =
     bindr (validate (cq_limit request) (cq_query request)) (\<lambda>_.
     let scope = (case cq_scope request of None \<Rightarrow> ''selected_tests'' | Some s \<Rightarrow> s) in
     if scope \<notin> {''selected_tests'', ''full'', ''incremental''}
     then Inl (invalid ''scope must be selected_tests, full, or incremental'')
     else if 16 < length (cq_previous request) \<or> (scope \<noteq> ''incremental'' \<and> cq_previous request \<noteq> [])
     then Inl (invalid ''previous accepts up to 16 reports with incremental scope only'')
     else
     bindr (load env rd (Some (cq_measurement request)) None) (\<lambda>current.
     bindr (load env rd (Some (cq_baseline request)) None) (\<lambda>baseline.
     bindr (metric (cq_metric request) (if scope = ''incremental'' then ms_report baseline else ms_report current)) (\<lambda>kind.
     if scope = ''incremental'' then compare_incremental env rd request current baseline kind
     else
       let root = rd_checkout_path (reader_context rd None) in
       bindr (measurement_observations env current root) (\<lambda>after.
       bindr (measurement_observations env baseline root) (\<lambda>before.
         Inr (envelope rd (compare_data env request current baseline kind scope after before) None)))))))"

section \<open>Dispatch\<close>

record request_decoder =
  rq_find :: "json \<Rightarrow> string + find_request"
  rq_compare :: "json \<Rightarrow> string + compare_request"

definition decoded :: "string + 'a \<Rightarrow> 'a res" where
  "decoded r = (case r of Inl e \<Rightarrow> Inl (invalid e) | Inr a \<Rightarrow> Inr a)"

definition call :: "query_env \<Rightarrow> request_decoder \<Rightarrow> reader \<Rightarrow> string \<Rightarrow> json \<Rightarrow> json res" where
  "call env dec rd name arguments =
     bindr (if name = ''coverage_gaps'' then bindr (decoded (rq_find dec arguments)) (find_gaps env rd)
            else if name = ''coverage_compare'' then bindr (decoded (rq_compare dec arguments)) (compare env rd)
            else Inl (NotFound (''unknown coverage tool: '' @ name @ ''; use coverage_gaps or coverage_compare'')))
       (bounded (qe_to_string env))"

text \<open>The standalone reader has no store; the service's reader has one.\<close>

definition read_reports :: "query_env \<Rightarrow> request_decoder \<Rightarrow> (string \<Rightarrow> (string \<times> string) res) \<Rightarrow> string \<Rightarrow> string
    \<Rightarrow> json \<Rightarrow> json res" where
  "read_reports env dec inspect_git repository name arguments =
     bindr (inspect_git repository) (\<lambda>(repo_key, repo_path).
       call env dec \<lparr>rd_repo_key = repo_key, rd_checkout_path = repo_path, rd_suite = None, rd_store = None\<rparr>
         name arguments)"

definition call_tool :: "query_env \<Rightarrow> request_decoder \<Rightarrow> string \<Rightarrow> string \<Rightarrow> store_api \<Rightarrow> string \<Rightarrow> json \<Rightarrow> json res" where
  "call_tool env dec repo_key checkout store name arguments =
     call env dec \<lparr>rd_repo_key = repo_key, rd_checkout_path = checkout, rd_suite = None, rd_store = Some store\<rparr>
       name arguments"

section \<open>Rendering\<close>

definition nl :: string where
  "nl = [CHR 0x0A]"

definition mid_dot :: string where
  "mid_dot = [CHR 0xC2, CHR 0xB7]"

definition str_or :: "string \<Rightarrow> json \<Rightarrow> string" where
  "str_or dflt v = (case as_str v of None \<Rightarrow> dflt | Some s \<Rightarrow> s)"

definition render_location :: "(json \<Rightarrow> string) \<Rightarrow> json \<Rightarrow> string" where
  "render_location ts loc =
     ''  '' @ ts (jat (jidx loc ''span'') 0) @ '':'' @ ts (jat (jidx loc ''span'') 1) @ en_dash
     @ ts (jat (jidx loc ''span'') 2) @ '':'' @ ts (jat (jidx loc ''span'') 3) @ '' ''
     @ str_or [] (jidx loc ''arm'') @ nl"

definition render_shown_group :: "(json \<Rightarrow> string) \<Rightarrow> json \<Rightarrow> string" where
  "render_shown_group ts g =
     str_or ''?'' (jidx g ''path'') @ '':'' @ ts (jat (jidx (jat (jidx g ''locations'') 0) ''span'') 0)
     @ ''  '' @ str_or ''source range'' (jidx g ''function'') @ ''  ('' @ ts (jidx g ''count'') @ '' observations)'' @ nl
     @ (case as_str (jidx g ''unmeasured_reason'') of None \<Rightarrow> []
        | Some cause \<Rightarrow> ''  Evidence missing: '' @ cause @ nl)
     @ concat (map (render_location ts) (case as_array (jidx g ''locations'') of None \<Rightarrow> [] | Some vs \<Rightarrow> vs))
     @ (if 0 < (case as_u64 (jidx g ''locations_omitted'') of None \<Rightarrow> 0 | Some n \<Rightarrow> n)
        then ''  '' @ ts (jidx g ''locations_omitted'') @ '' more locations; narrow the query or line'' @ nl
        else [])"

definition render_field :: "(json \<Rightarrow> string) \<Rightarrow> json \<Rightarrow> string \<times> string \<times> string \<Rightarrow> string" where
  "render_field ts data f = (case f of (field, label, cnt) \<Rightarrow>
     (case as_array (jidx data field) of
        None \<Rightarrow> []
      | Some groups \<Rightarrow> label @ '': '' @ show_int (int (length groups)) @ '' / '' @ ts (jidx data cnt) @ '' groups'' @ nl
          @ concat (map (render_shown_group ts) groups)))"

definition render_changes :: "(json \<Rightarrow> string) \<Rightarrow> json \<Rightarrow> string res" where
  "render_changes ts data =
     (let coverage = jidx (jidx data ''measurement'') ''coverage'' in
      case as_object (jidx data ''incremental'') of
        Some increment \<Rightarrow>
          bindr (ok_or (bt_get increment ''accepted'') panic) (\<lambda>accepted.
          bindr (ok_or (bt_get increment ''newly_covered'') panic) (\<lambda>newly_covered.
          bindr (ok_or (bt_get increment ''combined'') panic) (\<lambda>combined.
            Inr (''Baseline + accepted batches: '' @ ts (jidx accepted ''covered'') @ '' / '' @ ts (jidx accepted ''total'')
              @ '' '' @ mid_dot @ '' New batch adds: '' @ ts newly_covered @ '' '' @ mid_dot @ '' Combined: ''
              @ ts (jidx combined ''covered'') @ '' / '' @ ts (jidx combined ''total'') @ '' ''
              @ str_or ''observations'' (jidx coverage ''metric'') @ nl @ ''Full-suite regression: not checked'' @ nl))))
      | None \<Rightarrow>
          (if is_object (jidx data ''changes'') then
             let c = jidx data ''changes'' in
             Inr (''Newly observed: '' @ ts (jidx c ''newly_observed'') @ '' '' @ mid_dot @ '' Not observed: ''
               @ ts (jidx c ''not_observed'') @ '' '' @ mid_dot @ '' Added: '' @ ts (jidx c ''added'') @ '' '' @ mid_dot
               @ '' Removed: '' @ ts (jidx c ''removed'') @ nl)
           else Inr []))"

definition is_number :: "json \<Rightarrow> bool" where
  "is_number v = (case v of JInt _ \<Rightarrow> True | JFloat _ \<Rightarrow> True | _ \<Rightarrow> False)"

definition render :: "(json \<Rightarrow> string) \<Rightarrow> json \<Rightarrow> string res" where
  "render ts env =
     (let data = jidx env ''data''; m = jidx data ''measurement''; coverage = jidx m ''coverage'' in
      bindr (render_changes ts data) (\<lambda>changes.
      Inr (trim_end (
        str_or ''measurement'' (jidx m ''ref'') @ '': '' @ ts (jidx coverage ''covered'') @ '' / '' @ ts (jidx coverage ''total'')
        @ '' '' @ str_or ''observations'' (jidx coverage ''metric'') @ '' covered'' @ nl
        @ ''Source: '' @ str_or ''unverified'' (jidx m ''source'') @ '' '' @ mid_dot @ '' Tests: '' @ str_or ''unknown'' (jidx m ''tests'')
        @ '' '' @ mid_dot @ '' Status: '' @ str_or ''unknown'' (jidx data ''status'') @ nl
        @ (case as_str (jidx data ''reason'') of None \<Rightarrow> [] | Some reason \<Rightarrow> reason @ nl)
        @ changes
        @ concat (map (render_field ts data) [(''groups'', ''Gaps'', ''group_count''),
             (''gained'', ''Gained'', ''gained_group_count''), (''remaining'', ''Remaining'', ''remaining_group_count'')])
        @ (if is_number (jidx data ''next_offset'') then ''More groups: --offset '' @ ts (jidx data ''next_offset'') @ nl else [])))))"


section \<open>Comparison statuses\<close>

lemma compatible_no_conflict:
  assumes "compatible_context current baseline" shows "\<not> compare_conflict current baseline"
proof
  assume c: "compare_conflict current baseline"
  obtain b where b1: "ms_field current ''build_id'' = JStr b"
    using assms by (cases "as_str (ms_field current ''build_id'')") (simp_all add: compatible_context_def)
  have b2: "ms_field baseline ''build_id'' = JStr b"
    using assms by (cases "ms_field baseline ''build_id'' = JStr b") (simp_all add: compatible_context_def b1)
  note b = b1 b2
  obtain ch where h1: "ms_field current ''source_hashes'' = JObj ch"
    using assms by (cases "as_object (ms_field current ''source_hashes'')") (simp_all add: compatible_context_def b)
  obtain bh where h2: "ms_field baseline ''source_hashes'' = JObj bh"
    using assms by (cases "as_object (ms_field baseline ''source_hashes'')") (simp_all add: compatible_context_def b h1)
  note h = h1 h2
  have all: "\<exists>hash. bt_get ch (fc_file_path fl) = Some hash \<and> bt_get bh (fc_file_path fl) = Some hash"
    if "fl \<in> set (cr_files (ms_report current) @ cr_files (ms_report baseline))" for fl
  proof -
    have "list_all (\<lambda>f. case bt_get ch (fc_file_path f) of None \<Rightarrow> False
        | Some hash \<Rightarrow> is_string hash \<and> bt_get bh (fc_file_path f) = Some hash)
        (cr_files (ms_report current) @ cr_files (ms_report baseline))"
      using assms by (simp add: compatible_context_def b h)
    then have "case bt_get ch (fc_file_path fl) of None \<Rightarrow> False
        | Some hash \<Rightarrow> is_string hash \<and> bt_get bh (fc_file_path fl) = Some hash"
      using that unfolding list_all_iff by blast
    then show ?thesis by (auto split: option.splits)
  qed
  from c b obtain fl where fl: "fl \<in> set (cr_files (ms_report current) @ cr_files (ms_report baseline))"
      and diff: "hash_conflict current baseline fl"
    by (auto simp: compare_conflict_def list_ex_iff)
  from all[OF fl] show False using diff h by (auto simp: hash_conflict_def jidx_def)
qed

lemma compare_data_fields:
  "jidx (compare_data env request current baseline kind scope after before) ''status''
     = JStr (compare_status current
         (comparable current baseline (selected_rows env request kind after) (selected_rows env request kind before))
         (compatible_context current baseline) (is_full scope current baseline)
         (gained_of (selected_rows env request kind after) before) (lost_of (selected_rows env request kind before) after))"
  "jidx (compare_data env request current baseline kind scope after before) ''incremental'' = JNull"
  by (simp_all add: compare_data_def Let_def split: prod.split)

section \<open>What an answer holds\<close>

lemma find_data_fields:
  "jidx (find_data env request m kind obs) ''groups''
     = JArr (map (render_group env) (take (fr_limit request) (drop (fr_offset request) (ordered_groups (gap_rows env request kind obs)))))"
  "jidx (find_data env request m kind obs) ''group_count'' = JInt (int (length (ordered_groups (gap_rows env request kind obs))))"
  "jidx (find_data env request m kind obs) ''incremental'' = JNull"
  by (simp_all add: find_data_def group_rows_def Let_def jnat_def)

lemma page_ok_find_data:
  assumes "int (fr_offset request) < 2 ^ 63" and "fr_limit request \<le> 20"
  shows "page_ok (fr_offset request) (find_data env request m kind obs)"
proof -
  let ?gs = "ordered_groups (gap_rows env request kind obs)"
  let ?shown = "take (fr_limit request) (drop (fr_offset request) ?gs)"
  have len: "array_len (find_data env request m kind obs) ''groups'' = length ?shown"
    by (simp only: array_len_def find_data_fields json.case length_map)
  have small: "int (fr_offset request) + int (length ?shown) < 2 ^ 64 - 1" using assms by simp
  have off: "jidx (find_data env request m kind obs) ''next_offset''
      = (if int (fr_offset request) + int (length ?shown) < int (length ?gs)
         then JInt (int (fr_offset request) + int (length ?shown)) else JNull)"
    using small by (simp add: find_data_def group_rows_def Let_def del: length_take)
  show ?thesis unfolding page_ok_def len off find_data_fields by (auto simp: min_def split: if_splits)
qed

lemma find_gaps_data:
  assumes "find_gaps env rd request = Inr e"
  obtains m kind obs where "jidx e ''data'' = find_data env request m kind obs" and "fr_limit request \<le> 20"
  using assms by (auto simp: find_gaps_def bindr_eq_Inr validate_def split: if_splits)

text \<open>The answers are objects whose incremental part, if any, has the counts that are rendered.\<close>

definition renderable :: "json \<Rightarrow> bool" where
  "renderable data \<longleftrightarrow> (case jidx data ''incremental'' of
      JObj m \<Rightarrow> bt_contains m ''accepted'' \<and> bt_contains m ''newly_covered'' \<and> bt_contains m ''combined''
    | _ \<Rightarrow> True)"

lemma renderable_incremental_json:
  "jidx data ''incremental'' = incremental_json request baseline kind trusted accepted bc cnt combined \<Longrightarrow> renderable data"
  by (simp add: renderable_def incremental_json_def Let_def jobj_def bt_contains_def bt_get_of_list)

lemma renderable_compare_incremental:
  assumes "compare_incremental env rd request current baseline kind = Inr e"
  shows "renderable (jidx e ''data'')"
proof (cases "incremental_of e = JNull")
  case True
  then show ?thesis by (simp add: renderable_def incremental_of_def)
next
  case False
  from assms this show ?thesis
    by (rule compare_incremental_cases)
      (rule renderable_incremental_json, fold incremental_of_def, simp)
qed

lemma renderable_compare:
  "compare env rd request = Inr e \<Longrightarrow> renderable (jidx e ''data'')"
  by (auto simp: compare_def bindr_eq_Inr Let_def renderable_def[of "compare_data _ _ _ _ _ _ _ _"] compare_data_fields
      split: if_splits intro: renderable_compare_incremental)

lemma renderable_find: "find_gaps env rd request = Inr e \<Longrightarrow> renderable (jidx e ''data'')"
  by (erule find_gaps_data) (simp add: renderable_def find_data_fields)

lemma render_total:
  assumes "renderable (jidx e ''data'')" shows "\<exists>s. render ts e = Inr s"
proof -
  have "\<exists>c. render_changes ts (jidx e ''data'') = Inr c"
    using assms by (cases "jidx (jidx e ''data'') ''incremental''")
      (auto simp: render_changes_def renderable_def bt_contains_def Let_def)
  then show ?thesis by (auto simp: render_def Let_def)
qed


section \<open>Properties\<close>

lemma call_answer:
  assumes "call env dec rd name arguments = Inr e"
  obtains (find) r raw where "name = ''coverage_gaps''" and "rq_find dec arguments = Inr r"
      and "find_gaps env rd r = Inr raw" and "bounded (qe_to_string env) raw = Inr e"
    | (compare) r raw where "name = ''coverage_compare''" and "rq_compare dec arguments = Inr r"
      and "compare env rd r = Inr raw" and "bounded (qe_to_string env) raw = Inr e"
  using assms by (auto simp: call_def decoded_def bindr_eq_Inr split: if_splits sum.splits)

text \<open>Every answer of the query tools is at most 12288 bytes long as it is sent; computing it
  terminates, since the bound removes a group in every round.\<close>

theorem answers_within_limit:
  assumes "call env dec rd name arguments = Inr e"
  shows "length (qe_to_string env e) \<le> 12288"
  using assms by (rule call_answer) (auto intro: bounded_size)

text \<open>A repository with one report file, for the witnesses.\<close>

definition report_env :: query_env where
  "report_env = plain_query_env\<lparr>
     qe_read := (\<lambda>p. if p = ''/r/r.info'' then Inr sample_lcov else Inl (IoNotFound [])),
     qe_is_file := (\<lambda>p. p = ''/r/r.info'')\<rparr>"

definition sample_find :: find_request where
  "sample_find = \<lparr>fr_measurement = Some ''r.info'', fr_suite = None, fr_query = None, fr_line = None, fr_metric = None,
     fr_limit = 5, fr_offset = 0\<rparr>"

definition sample_decoder :: request_decoder where
  "sample_decoder = \<lparr>rq_find = (\<lambda>_. Inr sample_find), rq_compare = (\<lambda>_. Inr (sample_compare\<lparr>cq_measurement := ''r.info'',
     cq_baseline := ''r.info'', cq_scope := None\<rparr>))\<rparr>"

lemma sample_find_ok:
  obtains e where "call report_env sample_decoder sample_reader ''coverage_gaps'' JNull = Inr e"
    and "array_len (jidx e ''data'') ''groups'' = 1"
proof -
  have "(case call report_env sample_decoder sample_reader ''coverage_gaps'' JNull of
      Inr e \<Rightarrow> array_len (jidx e ''data'') ''groups'' = 1 | Inl _ \<Rightarrow> False)" by code_simp
  then show thesis using that by (auto split: sum.splits)
qed

theorem answers_within_limit_witness:
  "\<exists>e. call report_env sample_decoder sample_reader ''coverage_gaps'' JNull = Inr e \<and> length (qe_to_string report_env e) \<le> 12288"
proof -
  obtain e where e: "call report_env sample_decoder sample_reader ''coverage_gaps'' JNull = Inr e" by (rule sample_find_ok)
  from answers_within_limit[OF e] e show ?thesis by blast
qed



text \<open>The gaps listed are the uncovered observations and no others: a row belongs to some group of the
  listing exactly when it is an observation of the metric that was never hit and matches the filter,
  and the group count is the number of groups.\<close>

theorem gaps_are_the_uncovered_rows:
  "(row \<in> set (concat (ordered_groups (gap_rows env request kind obs))) \<longleftrightarrow>
      row \<in> set (bt_values obs) \<and> ob_kind row = kind \<and> ob_hits row \<le> 0
      \<and> matches env row (fr_query request) (fr_line request))
   \<and> jidx (find_data env request m kind obs) ''group_count'' = JInt (int (length (ordered_groups (gap_rows env request kind obs))))"
proof -
  have "set (concat (ordered_groups (gap_rows env request kind obs))) = set (gap_rows env request kind obs)"
    by (rule mset_eq_setD[OF mset_ordered_groups])
  then show ?thesis by (simp only: find_data_fields) (auto simp: gap_rows_def)
qed


definition full_measurement :: "int \<Rightarrow> measurement" where
  "full_measurement h = (inventory_measurement ''m'' [h])\<lparr>ms_context := jobj [(''build_id'', JStr ''b''),
     (''test_status'', JStr ''passed''), (''scope'', JStr ''full''), (''source_hashes'', jobj [(''a.rs'', JStr ''78'')])]\<rparr>"


text \<open>A reader without a store only ever measures report files: every measurement it loads names its
  file explicitly and was read from that file inside the repository.\<close>

theorem standalone_reads_reports_only:
  assumes "rd_store rd = None" and "load env rd reference suite = Inr m"
  shows "\<exists>selected. reference = Some selected \<and> load_report env (rd_checkout_path rd) selected = Inr m"
proof (cases reference)
  case None
  with assms show ?thesis
    by (auto simp: load_def select_reference_def latest_reference_def reader_store_def)
next
  case (Some selected)
  have "\<not> names_snapshot env (rd_checkout_path (reader_context rd suite)) selected"
    using assms Some by (auto simp: load_def select_reference_def load_saved_def reader_store_def Let_def split: if_splits)
  with assms Some show ?thesis
    by (auto simp: load_def select_reference_def reader_context_def Let_def split: if_splits option.splits)
qed

theorem standalone_reads_reports_only_witness:
  "\<exists>m. load report_env sample_reader (Some ''r.info'') None = Inr m \<and> load_report report_env ''/r'' ''r.info'' = Inr m"
proof -
  have "(case load report_env sample_reader (Some ''r.info'') None of Inr _ \<Rightarrow> True | Inl _ \<Rightarrow> False)" by code_simp
  then obtain m where m: "load report_env sample_reader (Some ''r.info'') None = Inr m" by (auto split: sum.splits)
  have "rd_store sample_reader = None" "rd_checkout_path sample_reader = ''/r''" by (simp_all add: sample_reader_def)
  with standalone_reads_reports_only[OF _ m] m show ?thesis by auto
qed

text \<open>The terminal rendering accepts every answer of the query tools: the fields it indexes without a
  default are present whenever the answer has an incremental part.\<close>

theorem answers_render:
  assumes "call env dec rd name arguments = Inr e"
  shows "\<exists>text. render to_string e = Inr text"
  using assms
proof (rule call_answer)
  fix r raw
  assume r: "find_gaps env rd r = Inr raw" and b: "bounded (qe_to_string env) raw = Inr e"
  have "jidx (jidx e ''data'') ''incremental'' = jidx (jidx raw ''data'') ''incremental''"
    by (rule bounded_frame(2)[OF b]) (simp_all add: group_keys_def)
  with renderable_find[OF r] have "renderable (jidx e ''data'')" by (simp add: renderable_def)
  then show ?thesis by (rule render_total)
next
  fix r raw
  assume r: "compare env rd r = Inr raw" and b: "bounded (qe_to_string env) raw = Inr e"
  have "jidx (jidx e ''data'') ''incremental'' = jidx (jidx raw ''data'') ''incremental''"
    by (rule bounded_frame(2)[OF b]) (simp_all add: group_keys_def)
  with renderable_compare[OF r] have "renderable (jidx e ''data'')" by (simp add: renderable_def)
  then show ?thesis by (rule render_total)
qed

theorem answers_render_witness:
  "\<exists>e text. call report_env sample_decoder sample_reader ''coverage_gaps'' JNull = Inr e \<and> render (\<lambda>_. ''1'') e = Inr text"
proof -
  obtain e where e: "call report_env sample_decoder sample_reader ''coverage_gaps'' JNull = Inr e" by (rule sample_find_ok)
  from answers_render[OF e, of "\<lambda>_. ''1''"] e show ?thesis by blast
qed

end
