(* ===== verification/Mcp.thy ===== *)
theory Mcp
  imports Search
begin

text \<open>
  The JSON-RPC protocol of \<open>src/src/mcp.rs\<close>, the same for HTTP and standard input: the initialization answer, the
  inventory of tools with their schemas, and the dispatch of a request to the query layer.  The version of the
  package, the digest of a JSON text and the text of a double are arguments.
\<close>

section \<open>Inventory\<close>

definition mcp_instructions :: string where
  "mcp_instructions =
     ''Coverage MCP finds gaps and compares measurements. Call coverage_gaps with a repository-relative report path or saved snapshot ID; omit measurement only when a unique suite has saved history. Filter by a literal path/function query, optionally line, then use normal rg and bounded file reads to investigate the returned locations. Run the repository's existing test command and call coverage_compare with current and baseline report paths. No command registration, source paging, or run polling is needed. Default metric is regions when supplied, otherwise lines; branch detail is opt-in. Five function groups are returned by default, with up to three locations each; filter before paging. Full report totals remain separate from grouped observations. Source/build receipts bind reports to source hashes; absent receipts produce limited coordinate comparisons, never verified regressions. For new tests against a saved baseline use scope incremental: run only the new cases with the normal runner, then compare their report. Optional previous reports accumulate accepted batches without double counting. Incremental results show marginal gain, overlap, combined coverage and remaining baseline gaps; they never establish full-suite regressions. Keep source, instrumentation and baseline inventory fixed; changed or incomplete evidence cannot be combined. Selected-test absences are not regressions. Test results are unknown unless reported by a receipt. A source mismatch requires matching source or remeasurement. Keep zero-gain cases with regression value; coverage alone cannot prove tests interchangeable. Successful results are in structuredContent, with explicit status, scope, limitations, and omitted counts. Exact errors are actionable; fix an invalid selector instead of repeatedly increasing budgets.''"

definition initialize_result :: "string \<Rightarrow> json" where
  "initialize_result version =
     jobj [(''protocolVersion'', JStr ''2025-03-26''), (''capabilities'', jobj [(''tools'', jobj [(''listChanged'', JBool False)])]),
       (''serverInfo'', jobj [(''name'', JStr ''coverage-mcp''), (''version'', JStr version)]), (''instructions'', JStr mcp_instructions)]"

definition measurement_schema :: json where
  "measurement_schema = jobj [(''type'', JStr ''string''),
      (''minLength'', JInt 1),
      (''description'', JStr ''Repository-relative coverage report path or immutable snapshot ID. Reports are read without importing or executing tests.'')]"

definition common_schema :: json where
  "common_schema = jobj [(''query'', jobj [(''type'', JStr ''string''),
      (''minLength'', JInt 1),
      (''maxLength'', JInt 256),
      (''description'', JStr ''Literal, case-insensitive substring of a path or function; use normal rg to inspect code and tests.'')]),
      (''metric'', jobj [(''type'', JStr ''string''),
      (''enum'', JArr [JStr ''auto'', JStr ''regions'', JStr ''branches'', JStr ''lines'']),
      (''default'', JStr ''auto''),
      (''description'', JStr ''Primary metric. Auto uses reported regions, otherwise lines. Unavailable exact detail is reported explicitly.'')]),
      (''limit'', jobj [(''type'', JStr ''integer''),
      (''minimum'', JInt 1),
      (''maximum'', JInt 20),
      (''default'', JInt 5),
      (''description'', JStr ''Maximum returned function groups; each contains at most three locations.'')])]"

definition tool :: "string \<Rightarrow> string \<Rightarrow> json \<Rightarrow> json \<Rightarrow> json" where
  "tool name description properties required =
     jobj [(''name'', JStr name),
      (''description'', JStr description),
      (''inputSchema'', jobj [(''type'', JStr ''object''),
      (''additionalProperties'', JBool False),
      (''properties'', properties),
      (''required'', required)]),
      (''outputSchema'', jobj [(''type'', JStr ''object''),
      (''properties'', jobj [(''context'', jobj [(''type'', JStr ''object'')]),
      (''data'', jobj [(''type'', JStr ''object''),
      (''description'', JStr ''Outcome-first evidence with measurement identity, source state, status, grouped locations and explicit limitations.'')]),
      (''page'', jobj [(''type'', JArr [JStr ''object'', JStr ''null''])])]),
      (''required'', JArr [JStr ''context'', JStr ''data'', JStr ''page''])]),
      (''annotations'', jobj [(''readOnlyHint'', JBool True),
      (''destructiveHint'', JBool False),
      (''idempotentHint'', JBool True),
      (''openWorldHint'', JBool False)])]"

definition find_schema :: json where
  "find_schema =
     (let find = jset common_schema ''measurement'' measurement_schema;
          find = jset find ''suite'' (jobj [(''type'', JStr ''string''),
      (''description'', JStr ''Select a saved suite when measurement is omitted; ambiguous latest selections are errors.'')]);
          find = jset find ''line'' (jobj [(''type'', JStr ''integer''),
      (''minimum'', JInt 1),
      (''description'', JStr ''Restrict to observations spanning this one-based source line.'')])
      in jset find ''offset'' (jobj [(''type'', JStr ''integer''),
      (''minimum'', JInt 0),
      (''default'', JInt 0),
      (''description'', JStr ''Continue at next_offset using the same immutable measurement and filters.'')]))"

definition compare_schema :: json where
  "compare_schema =
     (let cmp = jset common_schema ''measurement'' measurement_schema;
          cmp = jset cmp ''baseline'' measurement_schema;
          cmp = jset cmp ''previous'' (jobj [(''type'', JStr ''array''),
      (''items'', measurement_schema),
      (''maxItems'', JInt 16),
      (''default'', JArr []),
      (''description'', JStr ''Earlier accepted batch reports or snapshot IDs; incremental scope only. Keep each report in a separate file. Repeated hits count once.'')])
      in jset cmp ''scope'' (jobj [(''type'', JStr ''string''),
      (''enum'', JArr [JStr ''selected_tests'', JStr ''full'', JStr ''incremental'']),
      (''default'', JStr ''selected_tests''),
      (''description'', JStr ''incremental unions a new batch with the baseline and previous batches, preserving the baseline denominator; totals ignore display filters. full regression claims require matching full-scope receipts. selected_tests compares two selections without combining.'')]))"

definition tools_list :: json where
  "tools_list = JArr
     [tool ''coverage_gaps''
        ''Find missing coverage grouped by function and source location. Use query and line to narrow a target, then inspect local source with rg. Defaults are five groups and the provider's primary metric. Full totals, source state, omitted counts, and next_offset prevent false completeness claims. Invalid paths, unknown snapshots, ambiguous suites, and malformed reports return errors; missing metric detail returns detail_unavailable.''
        find_schema (JArr []),
      tool ''coverage_compare''
        ''Compare two explicit measurements, or use scope incremental to measure only new tests against a fixed baseline. Incremental returns newly covered and already covered counts, percentage-point gain, combined totals and remaining gaps after union; previous accepts up to 16 earlier batches. Filters and limit affect groups only in incremental mode. Unknown test status yields a limited estimate; failed tests or incompatible inventory prevent a union. Other scopes return newly observed, absent, added and removed observations. Selected-test absences are not regressions; unverified source/build identity yields limited coordinate evidence. Matching full receipts allow regression claims. Reports with incompatible formats or unavailable detail return incomparable. Run tests with the existing repository command before comparing; this query never executes or imports them.''
        compare_schema (JArr [JStr ''measurement'', JStr ''baseline''])]"

definition resources_list :: json where
  "resources_list = JArr []"

definition resource_templates_list :: json where
  "resource_templates_list = JArr []"

definition public_contract_metadata :: "(json \<Rightarrow> string) \<Rightarrow> json" where
  "public_contract_metadata sha =
     jobj [(''schema_revision'', JInt schema_revision),
       (''tool_count'', jnat (case as_array tools_list of None \<Rightarrow> 0 | Some ts \<Rightarrow> length ts)),
       (''tools_sha256'', JStr (sha tools_list))]"

section \<open>Dispatch\<close>

record service =
  sv_repo_key :: string
  sv_checkout :: string
  sv_store :: store_api

record mcp_env =
  me_query :: query_env
  me_decoder :: request_decoder
  me_version :: string
  me_digest :: "json \<Rightarrow> string"
  me_show_f64 :: "f64 \<Rightarrow> string"

definition json_rpc_result :: "json \<Rightarrow> json \<Rightarrow> json" where
  "json_rpc_result id' result = jobj [(''jsonrpc'', JStr ''2.0''), (''id'', id'), (''result'', result)]"

definition json_rpc_error :: "mcp_env \<Rightarrow> json \<Rightarrow> app_error \<Rightarrow> json" where
  "json_rpc_error me id' e =
     jobj [(''jsonrpc'', JStr ''2.0''), (''id'', id'),
       (''error'', jobj [(''code'', JInt (- 32000)), (''message'', JStr (display_error (me_show_f64 me) e))])]"

definition tool_result :: "mcp_env \<Rightarrow> json res \<Rightarrow> json" where
  "tool_result me r = (case r of
      Inr v \<Rightarrow> jobj [(''structuredContent'', v),
        (''content'', JArr [jobj [(''type'', JStr ''text''), (''text'', JStr ''See structuredContent for coverage evidence.'')]]),
        (''isError'', JBool False)]
    | Inl e \<Rightarrow> jobj [(''content'', JArr [jobj [(''type'', JStr ''text''), (''text'', JStr (display_error (me_show_f64 me) e))]]),
        (''isError'', JBool True)])"

definition tools_call :: "mcp_env \<Rightarrow> service option \<Rightarrow> json \<Rightarrow> json \<Rightarrow> json" where
  "tools_call me sv request id' =
     (let params = (case jget request ''params'' of None \<Rightarrow> jobj [] | Some p \<Rightarrow> p) in
      case Option.bind (jget params ''name'') as_str of
        None \<Rightarrow> json_rpc_error me id' (Validation ''tools/call requires name'')
      | Some name \<Rightarrow>
          let arguments = (case jget params ''arguments'' of None \<Rightarrow> jobj [] | Some a \<Rightarrow> a) in
          (case sv of
             None \<Rightarrow> json_rpc_error me id' (Validation ''tools/call requires a selected project'')
           | Some s \<Rightarrow> json_rpc_result id' (tool_result me
               (call_tool (me_query me) (me_decoder me) (sv_repo_key s) (sv_checkout s) (sv_store s) name arguments))))"

definition dispatch_method :: "mcp_env \<Rightarrow> service option \<Rightarrow> json \<Rightarrow> json \<Rightarrow> string \<Rightarrow> json" where
  "dispatch_method me sv request id' meth =
     (if meth = ''initialize'' then json_rpc_result id' (initialize_result (me_version me))
      else if meth = ''tools/list'' then json_rpc_result id' (jobj [(''tools'', tools_list), (''contract'', public_contract_metadata (me_digest me))])
      else if meth = ''resources/list'' then json_rpc_result id' (jobj [(''resources'', resources_list)])
      else if meth = ''resources/templates/list'' then json_rpc_result id' (jobj [(''resourceTemplates'', resource_templates_list)])
      else if meth = ''resources/read'' then json_rpc_error me id' (NotFound ''resources removed; use coverage_gaps or coverage_compare'')
      else if meth = ''ping'' then json_rpc_result id' (jobj [])
      else if meth = ''tools/call'' then tools_call me sv request id'
      else json_rpc_error me id' (NotFound (''unknown MCP method: '' @ meth)))"

definition dispatch_json_rpc :: "mcp_env \<Rightarrow> service option \<Rightarrow> json \<Rightarrow> json option" where
  "dispatch_json_rpc me sv request =
     (let id' = jidx request ''id'' in
      case Option.bind (jget request ''method'') as_str of
        None \<Rightarrow> Some (json_rpc_error me id' (Validation ''MCP request method is required''))
      | Some meth \<Rightarrow> if starts_with ''notifications/'' meth then None else Some (dispatch_method me sv request id' meth))"

section \<open>Answers\<close>

text \<open>A well-formed answer: the protocol version, the given id, and exactly one of a result and an error.\<close>

definition answers :: "json \<Rightarrow> json \<Rightarrow> bool" where
  "answers id' v \<longleftrightarrow> jget v ''jsonrpc'' = Some (JStr ''2.0'') \<and> jget v ''id'' = Some id' \<and> (jget v ''result'' = None \<longleftrightarrow> jget v ''error'' \<noteq> None)"

lemma answers_result [simp]: "answers id' (json_rpc_result id' r)"
  by (simp add: answers_def json_rpc_result_def)

lemma answers_error [simp]: "answers id' (json_rpc_error me id' e)"
  by (simp add: answers_def json_rpc_error_def)

lemma answers_dispatch: "answers id' (dispatch_method me sv request id' meth)"
  by (simp add: dispatch_method_def tools_call_def Let_def split: option.splits)

definition is_notification :: "json \<Rightarrow> bool" where
  "is_notification request \<longleftrightarrow> (\<exists>meth. jget request ''method'' = Some (JStr (''notifications/'' @ meth)))"

section \<open>Properties\<close>

text \<open>C40. Every request that is not a notification gets exactly one answer, with the request's id (null when it has
  none) and either a result or an error, and a notification gets none.\<close>

theorem every_request_answered:
  "(is_notification request \<longrightarrow> dispatch_json_rpc me sv request = None)
   \<and> (\<not> is_notification request \<longrightarrow> (\<exists>v. dispatch_json_rpc me sv request = Some v \<and> answers (jidx request ''id'') v))"
proof -
  have "dispatch_json_rpc me sv request = None" if "is_notification request"
    using that by (auto simp: is_notification_def dispatch_json_rpc_def starts_with_append)
  moreover have "\<exists>v. dispatch_json_rpc me sv request = Some v \<and> answers (jidx request ''id'') v" if "\<not> is_notification request"
    using that answers_dispatch
    by (auto simp: is_notification_def dispatch_json_rpc_def Let_def starts_with_append split: option.splits bind_splits)
  ultimately show ?thesis by blast
qed

theorem every_request_answered_witness:
  "\<forall>me sv. \<exists>v. dispatch_json_rpc me sv (jobj [(''id'', JInt 7), (''method'', JStr ''ping'')]) = Some v \<and> answers (JInt 7) v"
proof (intro allI)
  fix me sv
  have "\<not> is_notification (jobj [(''id'', JInt 7), (''method'', JStr ''ping'')])" by (simp add: is_notification_def)
  with every_request_answered[of "jobj [(''id'', JInt 7), (''method'', JStr ''ping'')]" me sv]
  show "\<exists>v. dispatch_json_rpc me sv (jobj [(''id'', JInt 7), (''method'', JStr ''ping'')]) = Some v \<and> answers (JInt 7) v" by simp
qed

text \<open>A tool the inventory does not list is refused as a failed call: nothing is executed and the answer says
  so, naming the tools there are.\<close>

theorem unlisted_tool_refused:
  assumes "name \<notin> {''coverage_gaps'', ''coverage_compare''}"
    and "jget request ''method'' = Some (JStr ''tools/call'')" and "jget request ''params'' = Some (jobj [(''name'', JStr name)])"
  shows "\<exists>v. dispatch_json_rpc me (Some sv) request = Some v \<and> jidx (jidx v ''result'') ''isError'' = JBool True
    \<and> jidx (jidx v ''result'') ''content'' = JArr [jobj [(''type'', JStr ''text''),
        (''text'', JStr (''unknown coverage tool: '' @ name @ ''; use coverage_gaps or coverage_compare''))]]"
proof -
  have "\<not> starts_with ''notifications/'' ''tools/call''" by (simp add: starts_with_def)
  moreover have "dispatch_method me (Some sv) request i ''tools/call'' = tools_call me (Some sv) request i" for i
    by (simp add: dispatch_method_def)
  moreover have "call_tool (me_query me) (me_decoder me) (sv_repo_key sv) (sv_checkout sv) (sv_store sv) name (jobj [])
      = Inl (NotFound (''unknown coverage tool: '' @ name @ ''; use coverage_gaps or coverage_compare''))"
    using assms(1) by (simp add: call_tool_def call_def)
  ultimately show ?thesis
    using assms(2,3) by (simp add: dispatch_json_rpc_def Let_def tools_call_def tool_result_def json_rpc_result_def)
qed

theorem unlisted_tool_refused_witness:
  "\<forall>me sv. \<exists>v. dispatch_json_rpc me (Some sv) (jobj [(''method'', JStr ''tools/call''), (''params'', jobj [(''name'', JStr ''run'')])]) = Some v
     \<and> jidx (jidx v ''result'') ''isError'' = JBool True"
proof (intro allI)
  fix me sv
  show "\<exists>v. dispatch_json_rpc me (Some sv) (jobj [(''method'', JStr ''tools/call''), (''params'', jobj [(''name'', JStr ''run'')])]) = Some v
     \<and> jidx (jidx v ''result'') ''isError'' = JBool True"
    using unlisted_tool_refused[of "''run''" "jobj [(''method'', JStr ''tools/call''), (''params'', jobj [(''name'', JStr ''run'')])]" me sv] by auto
qed

text \<open>The inventory lists exactly the two tools the dispatcher executes.\<close>

theorem inventory_is_complete:
  "map_option (map (\<lambda>t. jidx t ''name'')) (as_array tools_list) = Some [JStr ''coverage_gaps'', JStr ''coverage_compare'']"
  by (simp add: tools_list_def tool_def)

end
