(* ===== verification/Config.thy ===== *)
theory Config
  imports Errors Paths
begin

text \<open>
  The daemon's configuration (\<open>src/src/config.rs\<close>): command-line overrides, environment variables, their bounds and
  defaults.  The environment is the argument \<open>lookup\<close>.  Unsigned numbers are integers; the readers check their width.
\<close>

definition parse_u16 :: "string \<Rightarrow> int option" where
  "parse_u16 = parse_uint (2 ^ 16 - 1)"

definition parse_u32 :: "string \<Rightarrow> int option" where
  "parse_u32 = parse_uint (2 ^ 32 - 1)"

definition parse_u64 :: "string \<Rightarrow> int option" where
  "parse_u64 = parse_uint (2 ^ 64 - 1)"

record server_config =
  sc_host :: string
  sc_port :: int
  sc_default_repository_path :: "string option"
  sc_common_db_path :: string
  sc_run_retention :: int
  sc_run_concurrency :: int
  sc_mcp_http_concurrency :: int
  sc_db_pool_size :: int
  sc_db_acquire_timeout_ms :: int
  sc_db_query_timeout_ms :: int
  sc_http_request_timeout_seconds :: int
  sc_http_max_body_bytes :: int
  sc_run_log_max_bytes :: int
  sc_compaction_after_days :: int
  sc_compaction_interval_seconds :: int
  sc_compaction_batch_size :: int

type_synonym lookup = "string \<Rightarrow> string option"

text \<open>The three readers of bounded numbers differ in the width only.\<close>

definition env_number :: "(string \<Rightarrow> int option) \<Rightarrow> lookup \<Rightarrow> string \<Rightarrow> int \<Rightarrow> int \<Rightarrow> int \<Rightarrow> int res" where
  "env_number parse lookup name preset lo hi =
     bindr (case lookup name of
              None \<Rightarrow> Inr preset
            | Some raw \<Rightarrow> ok_or (parse raw) (Validation (name @ '' must be an integer''))) (\<lambda>v.
     if lo \<le> v \<and> v \<le> hi then Inr v
     else Inl (Validation (name @ '' must be between '' @ show_int lo @ '' and '' @ show_int hi)))"

definition env_usize :: "lookup \<Rightarrow> string \<Rightarrow> int \<Rightarrow> int \<Rightarrow> int \<Rightarrow> int res" where
  "env_usize = env_number parse_u64"

definition env_u32 :: "lookup \<Rightarrow> string \<Rightarrow> int \<Rightarrow> int \<Rightarrow> int \<Rightarrow> int res" where
  "env_u32 = env_number parse_u32"

definition env_u64 :: "lookup \<Rightarrow> string \<Rightarrow> int \<Rightarrow> int \<Rightarrow> int \<Rightarrow> int res" where
  "env_u64 = env_number parse_u64"

definition default_db_path :: "string \<Rightarrow> string" where
  "default_db_path p = path_join (path_join p ''.coverage-mcp'') ''coverage.duckdb''"

definition default_common_db_path_with_lookup :: "lookup \<Rightarrow> string" where
  "default_common_db_path_with_lookup lookup =
     (case lookup ''COVERAGE_MCP_COMMON_DB'' of
        Some p \<Rightarrow> p
      | None \<Rightarrow> path_join (path_join (case lookup ''HOME'' of None \<Rightarrow> ''.'' | Some h \<Rightarrow> h) ''.coverage-mcp'') ''common.duckdb'')"

definition config_port :: "lookup \<Rightarrow> int option \<Rightarrow> int res" where
  "config_port lookup port =
     (case port of
        Some p \<Rightarrow> Inr p
      | None \<Rightarrow> (case lookup ''COVERAGE_MCP_PORT'' of
            Some raw \<Rightarrow> ok_or (parse_u16 raw) (Validation ''COVERAGE_MCP_PORT must be an integer between 0 and 65535'')
          | None \<Rightarrow> Inr 59471))"

definition u64_sat_mul :: "int \<Rightarrow> int \<Rightarrow> int" where
  "u64_sat_mul a b = min (a * b) (2 ^ 64 - 1)"

definition from_environment_with_lookup :: "string option \<Rightarrow> int option \<Rightarrow> string option \<Rightarrow> lookup \<Rightarrow> server_config res" where
  "from_environment_with_lookup host port common_db_path lookup =
     (let host = (case host of Some h \<Rightarrow> h | None \<Rightarrow> (case lookup ''COVERAGE_MCP_HOST'' of Some h \<Rightarrow> h | None \<Rightarrow> ''127.0.0.1'')) in
      bindr (config_port lookup port) (\<lambda>port.
      let common = (case common_db_path of
            Some p \<Rightarrow> p
          | None \<Rightarrow> (case lookup ''COVERAGE_MCP_COMMON_DB'' of Some p \<Rightarrow> p | None \<Rightarrow> default_common_db_path_with_lookup lookup)) in
      bindr (env_usize lookup ''COVERAGE_MCP_RUN_RETENTION'' 100 1 10000) (\<lambda>run_retention.
      bindr (env_usize lookup ''COVERAGE_MCP_RUN_CONCURRENCY'' 4 1 32) (\<lambda>run_concurrency.
      bindr (env_usize lookup ''COVERAGE_MCP_HTTP_CONCURRENCY'' 16 1 128) (\<lambda>http_concurrency.
      bindr (env_usize lookup ''COVERAGE_MCP_DB_POOL_SIZE'' 4 1 16) (\<lambda>pool_size.
      bindr (env_u64 lookup ''COVERAGE_MCP_DB_ACQUIRE_TIMEOUT_MS'' 5000 50 120000) (\<lambda>acquire_ms.
      bindr (env_u64 lookup ''COVERAGE_MCP_DB_QUERY_TIMEOUT_MS'' 30000 100 3600000) (\<lambda>query_ms.
      bindr (env_u64 lookup ''COVERAGE_MCP_HTTP_REQUEST_TIMEOUT_SECONDS'' 60 1 3600) (\<lambda>request_s.
      bindr (env_usize lookup ''COVERAGE_MCP_HTTP_MAX_BODY_BYTES'' 1048576 1024 (16 * 1024 * 1024)) (\<lambda>max_body.
      bindr (env_u64 lookup ''COVERAGE_MCP_RUN_LOG_MAX_BYTES'' (10 * 1024 * 1024) 1024 (1024 * 1024 * 1024)) (\<lambda>log_bytes.
      if u64_sat_mul request_s 1000 \<le> query_ms
      then Inl (Validation ''COVERAGE_MCP_DB_QUERY_TIMEOUT_MS must be shorter than the HTTP request timeout'')
      else
      bindr (env_u32 lookup ''COVERAGE_MCP_COMPACTION_AFTER_DAYS'' 30 1 36500) (\<lambda>after_days.
      bindr (env_u64 lookup ''COVERAGE_MCP_COMPACTION_INTERVAL_SECONDS'' 3600 60 86400) (\<lambda>interval.
      bindr (env_u32 lookup ''COVERAGE_MCP_COMPACTION_BATCH_SIZE'' 100 1 10000) (\<lambda>batch.
      Inr \<lparr>sc_host = host, sc_port = port, sc_default_repository_path = None, sc_common_db_path = common,
           sc_run_retention = run_retention, sc_run_concurrency = run_concurrency, sc_mcp_http_concurrency = http_concurrency,
           sc_db_pool_size = pool_size, sc_db_acquire_timeout_ms = acquire_ms, sc_db_query_timeout_ms = query_ms,
           sc_http_request_timeout_seconds = request_s, sc_http_max_body_bytes = max_body, sc_run_log_max_bytes = log_bytes,
           sc_compaction_after_days = after_days, sc_compaction_interval_seconds = interval, sc_compaction_batch_size = batch\<rparr>))))))))))))))"

section \<open>Settings of a project\<close>

record settings_patch =
  sp_compaction_enabled :: "bool option"
  sp_compaction_after_days :: "int option"
  sp_compaction_interval_seconds :: "int option"
  sp_compaction_batch_size :: "int option"

definition within :: "int \<Rightarrow> int \<Rightarrow> int option \<Rightarrow> string \<Rightarrow> unit res" where
  "within lo hi v msg = (case v of None \<Rightarrow> Inr () | Some n \<Rightarrow> if lo \<le> n \<and> n \<le> hi then Inr () else Inl (Validation msg))"

definition validate_settings_patch :: "settings_patch \<Rightarrow> unit res" where
  "validate_settings_patch patch =
     bindr (within 1 36500 (sp_compaction_after_days patch) ''compaction_after_days must be between 1 and 36500'') (\<lambda>_.
     bindr (within 1 86400 (sp_compaction_interval_seconds patch) ''compaction_interval_seconds must be between 1 and 86400'') (\<lambda>_.
     within 1 10000 (sp_compaction_batch_size patch) ''compaction_batch_size must be between 1 and 10000''))"

section \<open>Properties\<close>

lemma env_number_Inr: "env_number parse lookup name d lo hi = Inr v \<Longrightarrow> lo \<le> v \<and> v \<le> hi"
  by (auto simp: env_number_def bindr_eq_Inr split: if_splits)

lemmas env_bounds = env_number_Inr[of parse_u64, folded env_usize_def] env_number_Inr[of parse_u64, folded env_u64_def]
  env_number_Inr[of parse_u32, folded env_u32_def]

definition config_ok :: "server_config \<Rightarrow> bool" where
  "config_ok c \<longleftrightarrow> sc_run_retention c \<in> {1..10000} \<and> sc_run_concurrency c \<in> {1..32} \<and> sc_mcp_http_concurrency c \<in> {1..128}
     \<and> sc_db_pool_size c \<in> {1..16} \<and> sc_db_acquire_timeout_ms c \<in> {50..120000} \<and> sc_db_query_timeout_ms c \<in> {100..3600000}
     \<and> sc_http_request_timeout_seconds c \<in> {1..3600} \<and> sc_http_max_body_bytes c \<in> {1024..16777216}
     \<and> sc_run_log_max_bytes c \<in> {1024..1073741824} \<and> sc_compaction_after_days c \<in> {1..36500}
     \<and> sc_compaction_interval_seconds c \<in> {60..86400} \<and> sc_compaction_batch_size c \<in> {1..10000}
     \<and> sc_db_query_timeout_ms c < 1000 * sc_http_request_timeout_seconds c"



end
