(* ===== verification/Wire.thy ===== *)
theory Wire
  imports Config Json
begin

text \<open>
  What a connector and the shared daemon say to each other over TCP (\<open>src/src/main.rs\<close>): the text of a request
  and the reading of a response.  Bytes are characters.
\<close>

record wire_response =
  wr_status :: int
  wr_body :: string

definition http_header_limit :: nat where
  "http_header_limit = 64 * 1024"

definition repository_header :: string where
  "repository_header = ''x-coverage-mcp-repo''"

definition daemon_handoff_path :: string where
  "daemon_handoff_path = ''/_coverage-mcp/handoff''"

definition crlf :: string where
  "crlf = [CHR 0x0D, CHR 0x0A]"

definition validate_loopback_host :: "string \<Rightarrow> unit res" where
  "validate_loopback_host host =
     (if host \<in> {''127.0.0.1'', ''localhost'', ''::1''} then Inr () else Inl (Validation ''daemon host must be loopback''))"

definition host_authority :: "string \<Rightarrow> int \<Rightarrow> string" where
  "host_authority host port =
     (if CHR '':'' \<in> set host then ''['' @ host @ '']:'' @ show_int port else host @ '':'' @ show_int port)"

text \<open>The header lines of a request, and the request: the lines, an empty one and the body.\<close>

definition request_lines :: "server_config \<Rightarrow> string \<Rightarrow> string \<Rightarrow> string option \<Rightarrow> string \<Rightarrow> string list" where
  "request_lines config meth path repo_path body =
     [meth @ '' '' @ path @ '' HTTP/1.1'',
      ''Host: '' @ host_authority (sc_host config) (sc_port config),
      ''Content-Type: application/json'',
      ''Content-Length: '' @ show_int (int (length body)),
      ''Connection: close'']
     @ (case repo_path of None \<Rightarrow> [] | Some p \<Rightarrow> [repository_header @ '': '' @ p])"

definition request_bytes :: "server_config \<Rightarrow> string \<Rightarrow> string \<Rightarrow> string option \<Rightarrow> string \<Rightarrow> string" where
  "request_bytes config meth path repo_path body =
     concat (map (\<lambda>l. l @ crlf) (request_lines config meth path repo_path body)) @ crlf @ body"

definition check_request :: "server_config \<Rightarrow> string option \<Rightarrow> unit res" where
  "check_request config repo_path =
     bindr (validate_loopback_host (sc_host config)) (\<lambda>_.
     if (case repo_path of None \<Rightarrow> False | Some p \<Rightarrow> CHR 0x0D \<in> set p \<or> CHR 0x0A \<in> set p)
     then Inl (Validation ''repository path cannot contain an HTTP line break'') else Inr ())"

text \<open>\<open>windows(4).position(..)\<close>: where the header section ends.\<close>

fun find_break :: "string \<Rightarrow> nat option" where
  "find_break [] = None"
| "find_break (c # cs) = (if starts_with (crlf @ crlf) (c # cs) then Some 0 else map_option Suc (find_break cs))"

fun find_map :: "('a \<Rightarrow> 'b option) \<Rightarrow> 'a list \<Rightarrow> 'b option" where
  "find_map f [] = None"
| "find_map f (x # xs) = (case f x of Some y \<Rightarrow> Some y | None \<Rightarrow> find_map f xs)"

definition header_length :: "string \<Rightarrow> int option" where
  "header_length line =
     (case split_once (CHR '':'') line of
        None \<Rightarrow> None
      | Some (name, v) \<Rightarrow> if to_lower name = ''content-length'' then parse_u64 (trim v) else None)"

definition parse_http_response :: "string \<Rightarrow> wire_response res" where
  "parse_http_response bytes =
     (case find_break bytes of
        None \<Rightarrow> Inl (Runtime ''Coverage MCP daemon returned malformed HTTP'')
      | Some header_end \<Rightarrow>
          if http_header_limit < header_end then Inl (Validation ''Coverage MCP daemon response headers are too large'')
          else (let headers = take header_end bytes; lines = lines_of headers; body = drop (header_end + 4) bytes in
            if \<not> utf8_valid headers then Inl (Runtime ''Coverage MCP daemon returned non-UTF-8 HTTP headers'')
            else bindr (ok_or (Option.bind (case lines of [] \<Rightarrow> None | l # _ \<Rightarrow> nth_opt (split_whitespace l) 1) parse_u16)
                     (Runtime ''Coverage MCP daemon returned an invalid HTTP status'')) (\<lambda>status.
              case find_map header_length (tl lines) of
                Some n \<Rightarrow> if n \<noteq> int (length body)
                    then Inl (Runtime ''Coverage MCP daemon returned an incomplete HTTP body'')
                    else Inr \<lparr>wr_status = status, wr_body = body\<rparr>
              | None \<Rightarrow> Inr \<lparr>wr_status = status, wr_body = body\<rparr>)))"

section \<open>Header sections\<close>

lemma find_break_no_cr: "CHR 0x0D \<notin> set l \<Longrightarrow> find_break (l @ r) = map_option (\<lambda>i. length l + i) (find_break r)"
  by (induction l; cases "find_break r") (auto simp: starts_with_def crlf_def)

lemma find_break_line:
  assumes "one_line l"
  shows "find_break (l @ crlf @ crlf @ body) = Some (length l)"
    and "\<not> starts_with crlf r \<Longrightarrow> find_break (l @ crlf @ r) = map_option (\<lambda>i. length l + 2 + i) (find_break r)"
proof -
  have l: "CHR 0x0D \<notin> set l" using assms by (simp add: one_line_def)
  show "find_break (l @ crlf @ crlf @ body) = Some (length l)"
    by (simp add: find_break_no_cr[OF l]) (simp add: crlf_def starts_with_def)
  show "find_break (l @ crlf @ r) = map_option (\<lambda>i. length l + 2 + i) (find_break r)" if "\<not> starts_with crlf r"
    using that by (simp add: find_break_no_cr[OF l])
      (simp add: crlf_def starts_with_def option.map_comp comp_def split: if_splits)
qed

lemma find_break_bound: "find_break s = Some i \<Longrightarrow> i + 4 \<le> length s \<and> find_break (s @ t) = Some i"
proof (induction s arbitrary: i)
  case (Cons c cs)
  show ?case
  proof (cases "starts_with (crlf @ crlf) (c # cs)")
    case True
    then obtain r where "c # cs = crlf @ crlf @ r" by (auto simp: starts_with_append)
    then have "length (c # cs) = 4 + length r" "starts_with (crlf @ crlf) (c # cs @ t)"
      by (simp_all add: crlf_def starts_with_def)
    with True Cons.prems show ?thesis by simp
  next
    case False
    with Cons.prems obtain j where j: "find_break cs = Some j" "i = Suc j" by auto
    then have "\<not> starts_with (crlf @ crlf) (c # cs @ t)"
      using False Cons.IH[OF j(1)] by (cases cs rule: ws_prefix.cases) (auto simp: crlf_def starts_with_def split: if_splits)
    then show ?thesis using j Cons.IH[OF j(1)] by simp
  qed
qed simp

definition header_line :: "string \<Rightarrow> bool" where
  "header_line l \<longleftrightarrow> one_line l \<and> l \<noteq> []"

lemma header_block_join: "ls \<noteq> [] \<Longrightarrow> concat (map (\<lambda>l. l @ crlf) ls) = join_with crlf ls @ crlf"
  by (induction ls rule: join_with.induct[of _ crlf]) auto

lemma header_line_start: "header_line l \<Longrightarrow> \<not> starts_with crlf (l @ r)"
  by (cases l) (auto simp: header_line_def one_line_def starts_with_def crlf_def)

lemma header_line_start_join: "list_all header_line (l # ls) \<Longrightarrow> \<not> starts_with crlf (join_with crlf (l # ls) @ r)"
  by (cases ls) (auto simp: header_line_start)

lemma find_break_block:
  "list_all header_line ls \<Longrightarrow> ls \<noteq> [] \<Longrightarrow> find_break (join_with crlf ls @ crlf @ crlf @ body) = Some (length (join_with crlf ls))"
proof (induction ls)
  case (Cons l ls)
  have l: "one_line l" using Cons.prems by (simp add: header_line_def)
  show ?case
  proof (cases ls)
    case Nil
    then show ?thesis using find_break_line(1)[OF l] by simp
  next
    case (Cons l' ls')
    then have tail: "list_all header_line (l' # ls')" using Cons.prems by simp
    from find_break_line(2)[OF l header_line_start_join[OF tail], of "crlf @ crlf @ body"] Cons.IH Cons.prems Cons
    show ?thesis by (simp add: crlf_def)
  qed
qed simp

lemma split_on_no_sep: "c \<notin> set l \<Longrightarrow> split_on c l = [l]"
  by (induction l) auto

lemma split_on_join:
  "list_all header_line (l # ls) \<Longrightarrow>
     split_on (CHR 0x0A) (join_with crlf (l # ls)) = map (\<lambda>l. l @ [CHR 0x0D]) (butlast (l # ls)) @ [last (l # ls)]"
proof (induction ls arbitrary: l)
  case Nil
  then show ?case by (simp add: header_line_def one_line_def split_on_no_sep)
next
  case (Cons l' ls)
  have "CHR 0x0A \<notin> set (l @ [CHR 0x0D])" using Cons.prems by (auto simp: header_line_def one_line_def)
  from split_on_append_sep[OF this] Cons show ?case by (simp add: crlf_def)
qed

lemma lines_of_join: "list_all header_line (l # ls) \<Longrightarrow> lines_of (join_with crlf (l # ls)) = l # ls"
proof -
  assume ls: "list_all header_line (l # ls)"
  have "map (strip_cr \<circ> (\<lambda>l. l @ [CHR 0x0D])) xs = xs" for xs by (simp add: comp_def strip_cr_def)
  moreover have "last (l # ls) \<noteq> []" using ls last_in_set[of "l # ls"] by (auto simp: list_all_iff header_line_def)
  ultimately show ?thesis
    unfolding lines_of_def Let_def split_on_join[OF ls] using append_butlast_last_id[of "l # ls"] by (simp only: butlast_snoc last_snoc map_map) simp
qed

section \<open>Properties\<close>

text \<open>The header lines of a request reach the daemon as they are meant.\<close>

lemma request_bytes_join:
  "request_bytes config meth path repo_path body = join_with crlf (request_lines config meth path repo_path body) @ crlf @ crlf @ body"
  unfolding request_bytes_def by (subst header_block_join) (simp_all add: request_lines_def)

lemma one_line_append [simp]: "one_line (a @ b) \<longleftrightarrow> one_line a \<and> one_line b"
  by (auto simp: one_line_def)

lemma request_lines_ok:
  assumes "check_request config repo_path = Inr ()" and "one_line meth" and "one_line path"
  shows "list_all header_line (request_lines config meth path repo_path body)"
proof -
  have "one_line (sc_host config)" using assms(1) by (auto simp: check_request_def bindr_eq_Inr validate_loopback_host_def one_line_def split: if_splits)
  then have host: "one_line (host_authority (sc_host config) (sc_port config))"
    using show_int_one_line[of "sc_port config"] by (auto simp: host_authority_def one_line_def)
  have repo: "repo_path = Some p \<Longrightarrow> one_line p" for p
    using assms(1) by (auto simp: check_request_def bindr_eq_Inr one_line_def split: if_splits)
  have lit: "one_line '' ''" "one_line '' HTTP/1.1''" "one_line ''Host: ''" "one_line ''Content-Type: application/json''"
    "one_line ''Content-Length: ''" "one_line ''Connection: close''" "one_line repository_header" "one_line '': ''"
    by (simp_all add: one_line_def repository_header_def)
  show ?thesis using assms(2,3) host repo lit
    by (auto simp: request_lines_def header_line_def simp del: append.append_Cons split: option.splits)
qed

text \<open>A request cannot smuggle header lines: whatever the repository path and the body are, the header section
  of an accepted request ends where the connector ended it, its lines are exactly the intended ones, and what
  follows is the body, of the announced length.\<close>

theorem request_header_exact:
  assumes "check_request config repo_path = Inr ()" and "one_line meth" and "one_line path"
    and "request_bytes config meth path repo_path body = bytes"
  shows "\<exists>i. find_break bytes = Some i \<and> lines_of (take i bytes) = request_lines config meth path repo_path body
     \<and> drop (i + 4) bytes = body"
proof -
  note ok = request_lines_ok[OF assms(1-3), of body]
  obtain l ls where ls: "request_lines config meth path repo_path body = l # ls" by (simp add: request_lines_def)
  show ?thesis
    using find_break_block[OF ok, of body] lines_of_join[OF ok[unfolded ls]] ls
    by (simp add: request_bytes_join flip: assms(4)) (simp add: crlf_def)
qed

definition default_config :: server_config where
  "default_config = \<lparr>sc_host = ''127.0.0.1'', sc_port = 59471, sc_default_repository_path = None, sc_common_db_path = ''/h/common.duckdb'',
     sc_run_retention = 100, sc_run_concurrency = 4, sc_mcp_http_concurrency = 16, sc_db_pool_size = 4,
     sc_db_acquire_timeout_ms = 5000, sc_db_query_timeout_ms = 30000, sc_http_request_timeout_seconds = 60,
     sc_http_max_body_bytes = 1048576, sc_run_log_max_bytes = 10485760, sc_compaction_after_days = 30,
     sc_compaction_interval_seconds = 3600, sc_compaction_batch_size = 100\<rparr>"

theorem request_header_exact_witness:
  "\<exists>i. find_break (request_bytes default_config ''POST'' ''/mcp/'' (Some ''/r'') ''{}'') = Some i
     \<and> drop (i + 4) (request_bytes default_config ''POST'' ''/mcp/'' (Some ''/r'') ''{}'') = ''{}''"
proof -
  have "check_request default_config (Some ''/r'') = Inr ()"
    by (simp add: check_request_def validate_loopback_host_def default_config_def)
  moreover have "one_line ''POST''" "one_line ''/mcp/''" by (simp_all add: one_line_def)
  ultimately show ?thesis using request_header_exact[of default_config "Some ''/r''" "''POST''" "''/mcp/''" "''{}''"] by blast
qed

text \<open>A response as a server writes it, with a content length.\<close>

definition response_head :: "int \<Rightarrow> string \<Rightarrow> string list \<Rightarrow> string" where
  "response_head status reason headers = join_with crlf ((''HTTP/1.1 '' @ show_int status @ '' '' @ reason) # headers)"

definition response_text :: "int \<Rightarrow> string \<Rightarrow> string list \<Rightarrow> string \<Rightarrow> string" where
  "response_text status reason headers body = response_head status reason headers @ crlf @ crlf @ body"

definition response_ok :: "int \<Rightarrow> string \<Rightarrow> string list \<Rightarrow> string \<Rightarrow> bool" where
  "response_ok status reason headers body \<longleftrightarrow> 0 \<le> status \<and> status \<le> 65535 \<and> one_line reason \<and> list_all header_line headers
     \<and> utf8_valid (response_head status reason headers) \<and> length (response_head status reason headers) \<le> http_header_limit
     \<and> find_map header_length headers = Some (int (length body))"

lemma response_status_line: "nth_opt (split_whitespace (''HTTP/1.1 '' @ show_int status @ '' '' @ reason)) 1 = Some (show_int status)"
proof -
  have "plain_token ''HTTP/1.1''" by (simp add: plain_char_def)
  moreover have "show_int status \<noteq> []" by (simp add: show_int_def)
  ultimately show ?thesis
    using split_whitespace_token(1)[of "''HTTP/1.1''" "show_int status @ CHR '' '' # reason"]
      split_whitespace_token(1)[of "show_int status" reason]
    by (simp add: nth_opt_def)
qed

lemma response_lines_ok:
  "response_ok status reason headers body \<Longrightarrow> list_all header_line ((''HTTP/1.1 '' @ show_int status @ '' '' @ reason) # headers)"
proof -
  have "one_line ''HTTP/1.1 ''" "one_line '' ''" by (simp_all add: one_line_def)
  then show "response_ok status reason headers body \<Longrightarrow> ?thesis" by (simp add: response_ok_def header_line_def del: append.append_Cons)
qed

lemma parse_response_prefix:
  assumes ok: "response_ok status reason headers body"
  shows "parse_http_response (response_head status reason headers @ crlf @ crlf @ part) =
    (if length part = length body then Inr \<lparr>wr_status = status, wr_body = part\<rparr>
     else Inl (Runtime ''Coverage MCP daemon returned an incomplete HTTP body''))"
proof -
  note lines = response_lines_ok[OF ok]
  have "find_break (response_head status reason headers @ crlf @ crlf @ part) = Some (length (response_head status reason headers))"
    unfolding response_head_def by (rule find_break_block[OF lines]) simp
  moreover have "lines_of (response_head status reason headers) = (''HTTP/1.1 '' @ show_int status @ '' '' @ reason) # headers"
    unfolding response_head_def by (rule lines_of_join[OF lines])
  moreover have "parse_u16 (show_int status) = Some status" using ok by (simp add: parse_u16_def parse_uint_show_int response_ok_def)
  moreover have "drop (length h + 4) (h @ crlf @ crlf @ part) = part" for h by (simp add: crlf_def)
  ultimately show ?thesis using ok response_status_line[of status reason]
    by (simp add: parse_http_response_def Let_def response_ok_def)
qed

text \<open>A response is read whole or not at all: the complete message gives its status and body, and a message cut
  anywhere, in the headers or in the body, is an error.\<close>

theorem response_read_whole:
  assumes ok: "response_ok status reason headers body"
  shows "parse_http_response (response_text status reason headers body) = Inr \<lparr>wr_status = status, wr_body = body\<rparr>
    \<and> (\<forall>n < length (response_text status reason headers body).
         \<exists>e. parse_http_response (take n (response_text status reason headers body)) = Inl e)"
proof (intro conjI allI impI)
  show "parse_http_response (response_text status reason headers body) = Inr \<lparr>wr_status = status, wr_body = body\<rparr>"
    using parse_response_prefix[OF ok, of body] by (simp add: response_text_def)
next
  fix n assume n: "n < length (response_text status reason headers body)"
  let ?head = "response_head status reason headers" and ?msg = "response_text status reason headers body"
  show "\<exists>e. parse_http_response (take n ?msg) = Inl e"
  proof (cases "find_break (take n ?msg)")
    case None
    then show ?thesis by (simp add: parse_http_response_def)
  next
    case (Some i)
    have "find_break ?msg = Some (length ?head)"
      unfolding response_text_def response_head_def by (rule find_break_block[OF response_lines_ok[OF ok]]) simp
    with find_break_bound[OF Some, of "drop n ?msg"] have "length ?head + 4 \<le> n" by simp
    then obtain k where k: "n = length ?head + 4 + k" using le_Suc_ex by blast
    then have "take n ?msg = ?head @ crlf @ crlf @ take k body" by (simp add: response_text_def crlf_def eval_nat_numeral)
    moreover have "length (take k body) \<noteq> length body" using n k by (simp add: response_text_def crlf_def)
    ultimately show ?thesis using parse_response_prefix[OF ok, of "take k body"] by simp
  qed
qed

theorem response_read_whole_witness:
  "parse_http_response (response_text 200 ''OK'' [''Content-Length: 2''] ''{}'') = Inr \<lparr>wr_status = 200, wr_body = ''{}''\<rparr>"
proof -
  have "utf8_valid (response_head 200 ''OK'' [''Content-Length: 2''])" "find_map header_length [''Content-Length: 2''] = Some 2"
    "one_line ''OK''" "header_line ''Content-Length: 2''" by code_simp+
  moreover have "length (show_int 200) = 3" by code_simp
  then have "length (response_head 200 ''OK'' [''Content-Length: 2'']) \<le> http_header_limit"
    by (simp add: response_head_def http_header_limit_def crlf_def)
  ultimately have "response_ok 200 ''OK'' [''Content-Length: 2''] ''{}''" by (simp add: response_ok_def)
  from response_read_whole[OF this] show ?thesis by blast
qed

end
