(* ===== verification/Lease.thy ===== *)
theory Lease
  imports Errors Paths
begin

text \<open>
  File leases of \<open>src/src/lock.rs\<close>: acquiring an exclusive advisory lock with owner metadata, releasing
  it when the lease is dropped, and reading the identity of the daemon that holds one.  Every call of
  the operating system that can fail is a field of \<open>lease_os\<close>; the advisory locks (the \<open>fs2\<close> crate) are
  the operations of \<open>lock_ops\<close> on an abstract lock table, with the laws of the locale \<open>advisory_locks\<close>.
\<close>

type_synonym handle = nat

record 'l lock_ops =
  lk_try_lock :: "'l \<Rightarrow> string \<Rightarrow> handle \<Rightarrow> io_error + 'l"
  lk_unlock :: "'l \<Rightarrow> string \<Rightarrow> handle \<Rightarrow> io_error + 'l"
  lk_close :: "'l \<Rightarrow> handle \<Rightarrow> 'l"

text \<open>\<open>None\<close> means the call succeeds.  A write that fails says how many bytes reached the file.\<close>

record lease_os =
  lo_create_dir :: "string \<Rightarrow> io_error option"
  lo_open :: "string \<Rightarrow> io_error option"
  lo_metadata :: "string \<Rightarrow> io_error option"
  lo_set_permissions :: "string \<Rightarrow> io_error option"
  lo_set_len :: "io_error option"
  lo_seek :: "io_error option"
  lo_write :: "(nat \<times> io_error) option"
  lo_sync :: "io_error option"
  lo_read :: "io_error option"
  lo_pid :: int
  lo_current_exe :: "io_error + string"

record 'l lease_world =
  lw_files :: "string \<Rightarrow> string option"
  lw_locks :: 'l
  lw_next :: handle

record file_lease =
  fl_file :: handle
  fl_path :: string

record daemon_lease_owner =
  do_pid :: int
  do_resource :: string
  do_executable :: string
  do_instance_id :: "string option"
  do_handoff_token :: "string option"

section \<open>Paths of the leases\<close>

text \<open>\<open>path.parent().unwrap_or(".")\<close>\<close>

definition parent_or_dot :: "string \<Rightarrow> string" where
  "parent_or_dot p = (case rev (components p) of
      [] \<Rightarrow> ''.''
    | [RootDir] \<Rightarrow> ''.''
    | c # cs \<Rightarrow> (if cs = [RootDir] then ''/'' else join_with ''/'' (map component_text (rev cs))))"

definition daemon_lock_path :: "string \<Rightarrow> string" where
  "daemon_lock_path common_db_path = path_join (parent_or_dot common_db_path) ''daemon.lock''"

definition database_lock_path :: "string \<Rightarrow> string" where
  "database_lock_path db_path = db_path @ ''.lock''"

section \<open>Metadata\<close>

definition lf :: string where
  "lf = [CHR 0x0A]"

definition executable_path :: "io_error + string \<Rightarrow> string" where
  "executable_path result = (case result of Inl _ \<Rightarrow> ''unknown'' | Inr path \<Rightarrow> path)"

definition metadata_text :: "lease_os \<Rightarrow> string \<Rightarrow> (string \<times> string) option \<Rightarrow> string" where
  "metadata_text os resource daemon_identity =
     ''pid='' @ show_int (lo_pid os) @ lf @ ''resource='' @ resource @ lf
     @ ''executable='' @ executable_path (lo_current_exe os) @ lf
     @ (case daemon_identity of
          None \<Rightarrow> []
        | Some (instance_id, handoff_token) \<Rightarrow>
            ''instance_id='' @ instance_id @ lf @ ''handoff_token='' @ handoff_token @ lf)"

text \<open>The file is emptied before the new text is written; a failure in between leaves it so.\<close>

definition write_metadata :: "lease_os \<Rightarrow> string \<Rightarrow> string \<Rightarrow> (string \<times> string) option
    \<Rightarrow> 'l lease_world \<Rightarrow> unit res \<times> 'l lease_world" where
  "write_metadata os path resource daemon_identity w =
     (case lo_set_len os of
        Some e \<Rightarrow> (Inl (Io e), w)
      | None \<Rightarrow>
          (let w = w\<lparr>lw_files := (lw_files w)(path \<mapsto> [])\<rparr> in
           case lo_seek os of
             Some e \<Rightarrow> (Inl (Io e), w)
           | None \<Rightarrow>
               (let metadata = metadata_text os resource daemon_identity in
                case lo_write os of
                  Some (n, e) \<Rightarrow> (Inl (Io e), w\<lparr>lw_files := (lw_files w)(path \<mapsto> take n metadata)\<rparr>)
                | None \<Rightarrow>
                    (let w = w\<lparr>lw_files := (lw_files w)(path \<mapsto> metadata)\<rparr> in
                     case lo_sync os of Some e \<Rightarrow> (Inl (Io e), w) | None \<Rightarrow> (Inr (), w)))))"

definition read_metadata_text :: "lease_os \<Rightarrow> string \<Rightarrow> 'l lease_world \<Rightarrow> string res" where
  "read_metadata_text os path w =
     (case lo_seek os of
        Some e \<Rightarrow> Inl (Io e)
      | None \<Rightarrow> (case lo_read os of
            Some e \<Rightarrow> Inl (Io e)
          | None \<Rightarrow>
              (let s = (case lw_files w path of None \<Rightarrow> [] | Some s \<Rightarrow> s)
               in if utf8_valid s then Inr s else Inl (Io (IoInvalidData ''stream did not contain valid UTF-8'')))))"

text \<open>The text shown to a process that finds the lease taken: the token line is left out.\<close>

definition shown_metadata :: "string \<Rightarrow> string" where
  "shown_metadata metadata =
     '' ('' @ trim (join_with lf (filter (\<lambda>l. \<not> starts_with ''handoff_token='' l) (lines_of metadata))) @ '')''"

definition read_metadata :: "lease_os \<Rightarrow> string \<Rightarrow> 'l lease_world \<Rightarrow> string" where
  "read_metadata os path w = (case read_metadata_text os path w of
      Inr metadata \<Rightarrow> (if trim metadata \<noteq> [] then shown_metadata metadata else '' (owner metadata unavailable)'')
    | Inl _ \<Rightarrow> '' (owner metadata unavailable)'')"

definition find_line :: "string \<Rightarrow> string list \<Rightarrow> string option" where
  "find_line prefix ls = (case filter (\<lambda>l. strip_prefix prefix l \<noteq> None) ls of
      [] \<Rightarrow> None
    | l # _ \<Rightarrow> strip_prefix prefix l)"

definition metadata_value :: "string \<Rightarrow> string \<Rightarrow> string option" where
  "metadata_value metadata name = find_line (name @ ''='') (lines_of metadata)"

definition parse_daemon_owner :: "string \<Rightarrow> daemon_lease_owner res" where
  "parse_daemon_owner metadata =
     bindr (ok_or (metadata_value metadata ''pid'') (Runtime ''daemon lease metadata is missing pid'')) (\<lambda>p.
     bindr (ok_or (parse_uint (2 ^ 32 - 1) p) (Runtime ''daemon lease metadata has an invalid pid'')) (\<lambda>pid.
     if pid = 0 then Inl (Runtime ''daemon lease metadata has an invalid pid'')
     else
     bindr (ok_or (case metadata_value metadata ''executable'' of
           Some path \<Rightarrow> (if path \<noteq> [] \<and> path \<noteq> ''unknown'' then Some path else None)
         | None \<Rightarrow> None) (Runtime ''daemon lease metadata is missing executable identity'')) (\<lambda>executable.
     bindr (ok_or (case metadata_value metadata ''resource'' of
           Some r \<Rightarrow> (if r \<noteq> [] then Some r else None)
         | None \<Rightarrow> None) (Runtime ''daemon lease metadata is missing resource identity'')) (\<lambda>resource.
       Inr \<lparr>do_pid = pid, do_resource = resource, do_executable = executable,
            do_instance_id = metadata_value metadata ''instance_id'',
            do_handoff_token = metadata_value metadata ''handoff_token''\<rparr>))))"

section \<open>Acquiring and releasing\<close>

definition restrict_lock_permissions :: "lease_os \<Rightarrow> string \<Rightarrow> unit res" where
  "restrict_lock_permissions os path =
     (case lo_metadata os path of
        Some e \<Rightarrow> Inl (Io e)
      | None \<Rightarrow> (case lo_set_permissions os path of Some e \<Rightarrow> Inl (Io e) | None \<Rightarrow> Inr ()))"

text \<open>Opening with \<open>create(true)\<close> and \<open>truncate(false)\<close>: a missing file is made, an old one keeps its text.\<close>

definition open_file :: "string \<Rightarrow> 'l lease_world \<Rightarrow> 'l lease_world" where
  "open_file path w = w\<lparr>lw_next := Suc (lw_next w),
     lw_files := (lw_files w)(path \<mapsto> (case lw_files w path of None \<Rightarrow> [] | Some s \<Rightarrow> s))\<rparr>"

text \<open>A file opened by \<open>handle\<close> that goes out of scope is closed, which releases its lock.\<close>

definition close_file :: "'l lock_ops \<Rightarrow> handle \<Rightarrow> 'l lease_world \<Rightarrow> 'l lease_world" where
  "close_file k h w = w\<lparr>lw_locks := lk_close k (lw_locks w) h\<rparr>"

definition acquire_with_metadata :: "'l lock_ops \<Rightarrow> lease_os \<Rightarrow> string \<Rightarrow> string \<Rightarrow> (string \<times> string) option
    \<Rightarrow> 'l lease_world \<Rightarrow> file_lease res \<times> 'l lease_world" where
  "acquire_with_metadata k os path resource daemon_identity w =
     (case lo_create_dir os (parent_or_dot path) of
        Some e \<Rightarrow> (Inl (Io e), w)
      | None \<Rightarrow> (case lo_open os path of
          Some e \<Rightarrow> (Inl (Io e), w)
        | None \<Rightarrow>
            (let h = lw_next w; w = open_file path w
             in case restrict_lock_permissions os path of
                  Inl e \<Rightarrow> (Inl e, close_file k h w)
                | Inr _ \<Rightarrow>
                    (case lk_try_lock k (lw_locks w) path h of
                       Inr locks \<Rightarrow>
                         (case write_metadata os path resource daemon_identity (w\<lparr>lw_locks := locks\<rparr>) of
                            (Inl e, w) \<Rightarrow> (Inl e, close_file k h w)
                          | (Inr _, w) \<Rightarrow> (Inr \<lparr>fl_file = h, fl_path = path\<rparr>, w))
                     | Inl (IoWouldBlock _) \<Rightarrow>
                         (Inl (Busy resource (read_metadata os path w)), close_file k h w)
                     | Inl e \<Rightarrow> (Inl (Io e), close_file k h w)))))"

definition acquire :: "'l lock_ops \<Rightarrow> lease_os \<Rightarrow> string \<Rightarrow> string \<Rightarrow> 'l lease_world \<Rightarrow> file_lease res \<times> 'l lease_world" where
  "acquire k os path resource w = acquire_with_metadata k os path resource None w"

definition acquire_daemon :: "'l lock_ops \<Rightarrow> lease_os \<Rightarrow> string \<Rightarrow> string \<Rightarrow> string \<Rightarrow> string \<Rightarrow> 'l lease_world
    \<Rightarrow> file_lease res \<times> 'l lease_world" where
  "acquire_daemon k os path resource instance_id handoff_token w =
     acquire_with_metadata k os path resource (Some (instance_id, handoff_token)) w"

definition drop_lease :: "'l lock_ops \<Rightarrow> file_lease \<Rightarrow> 'l lease_world \<Rightarrow> 'l lease_world" where
  "drop_lease k lease w =
     close_file k (fl_file lease)
       (case lk_unlock k (lw_locks w) (fl_path lease) (fl_file lease) of
          Inl _ \<Rightarrow> w
        | Inr locks \<Rightarrow> w\<lparr>lw_locks := locks\<rparr>)"

text \<open>The file is opened without creating it; a file that is not there holds no lease.\<close>

definition held_daemon_owner :: "'l lock_ops \<Rightarrow> lease_os \<Rightarrow> string \<Rightarrow> 'l lease_world
    \<Rightarrow> daemon_lease_owner option res \<times> 'l lease_world" where
  "held_daemon_owner k os path w =
     (case (if lw_files w path = None then Some (IoNotFound path) else lo_open os path) of
        Some (IoNotFound _) \<Rightarrow> (Inr None, w)
      | Some e \<Rightarrow> (Inl (Io e), w)
      | None \<Rightarrow>
          (let h = lw_next w; w = w\<lparr>lw_next := Suc h\<rparr> in
           case lk_try_lock k (lw_locks w) path h of
             Inr locks \<Rightarrow>
               (case lk_unlock k locks path h of
                  Inl e \<Rightarrow> (Inl (Io e), close_file k h (w\<lparr>lw_locks := locks\<rparr>))
                | Inr locks \<Rightarrow> (Inr None, close_file k h (w\<lparr>lw_locks := locks\<rparr>)))
           | Inl (IoWouldBlock _) \<Rightarrow>
               (bindr (read_metadata_text os path w) (\<lambda>metadata.
                  bindr (parse_daemon_owner metadata) (\<lambda>owner. Inr (Some owner))), close_file k h w)
           | Inl e \<Rightarrow> (Inl (Io e), close_file k h w)))"

section \<open>What advisory locks promise\<close>

text \<open>\<open>held_by l p\<close> is the handle that holds the lock of the file \<open>p\<close>.  A lock taken is held by the
  handle that asked; a lock held by another handle is refused; closing a handle releases what it
  holds and nothing else.\<close>

locale advisory_locks =
  fixes k :: "'l lock_ops" and held_by :: "'l \<Rightarrow> string \<Rightarrow> handle option"
  assumes try_ok: "lk_try_lock k l p h = Inr l' \<Longrightarrow> held_by l p = None \<and> held_by l' = (held_by l)(p \<mapsto> h)"
    and try_busy: "lk_try_lock k l p h = Inl (IoWouldBlock m) \<Longrightarrow> held_by l p \<noteq> None"
    and unlock_ok: "lk_unlock k l p h = Inr l' \<Longrightarrow> held_by l p = Some h \<Longrightarrow> held_by l' = (held_by l)(p := None)"
    and close: "held_by (lk_close k l h) = (\<lambda>p. if held_by l p = Some h then None else held_by l p)"

text \<open>Locks that never fail for another reason: a free lock is granted, a held one answers \<open>WouldBlock\<close>.\<close>

locale reliable_locks = advisory_locks +
  assumes try_free: "held_by l p = None \<Longrightarrow> \<exists>l'. lk_try_lock k l p h = Inr l'"
    and try_held: "held_by l p \<noteq> None \<Longrightarrow> \<exists>m. lk_try_lock k l p h = Inl (IoWouldBlock m)"
    and unlock_works: "held_by l p = Some h \<Longrightarrow> \<exists>l'. lk_unlock k l p h = Inr l'"

section \<open>Histories\<close>

text \<open>Any number of processes acquire, drop and inspect leases, in any order, each call with failures of
  its own.  \<open>live\<close> lists the leases not yet dropped, with the metadata their owner wrote.\<close>

inductive lease_reach :: "'l lock_ops \<Rightarrow> 'l lease_world \<Rightarrow> 'l lease_world \<Rightarrow> (file_lease \<times> string) list \<Rightarrow> bool"
  for k w0 where
  start: "lease_reach k w0 w0 []"
| acquired: "lease_reach k w0 w live \<Longrightarrow> acquire_with_metadata k os path resource ident w = (Inr lease, w')
    \<Longrightarrow> lease_reach k w0 w' ((lease, metadata_text os resource ident) # live)"
| refused: "lease_reach k w0 w live \<Longrightarrow> acquire_with_metadata k os path resource ident w = (Inl e, w')
    \<Longrightarrow> lease_reach k w0 w' live"
| dropped: "lease_reach k w0 w live \<Longrightarrow> (lease, md) \<in> set live
    \<Longrightarrow> lease_reach k w0 (drop_lease k lease w) (filter (\<lambda>(l, _). l \<noteq> lease) live)"
| inspected: "lease_reach k w0 w live \<Longrightarrow> held_daemon_owner k os path w = (r, w') \<Longrightarrow> lease_reach k w0 w' live"

definition lease_inv :: "('l \<Rightarrow> string \<Rightarrow> handle option) \<Rightarrow> 'l lease_world \<Rightarrow> (file_lease \<times> string) list \<Rightarrow> bool" where
  "lease_inv held_by w live \<longleftrightarrow>
     (\<forall>p h. held_by (lw_locks w) p = Some h \<longrightarrow> h < lw_next w \<and> (\<exists>md. (\<lparr>fl_file = h, fl_path = p\<rparr>, md) \<in> set live))
     \<and> (\<forall>(lease, md) \<in> set live. held_by (lw_locks w) (fl_path lease) = Some (fl_file lease)
          \<and> lw_files w (fl_path lease) = Some md)
     \<and> distinct (map (\<lambda>(lease, _). fl_path lease) live) \<and> distinct (map (\<lambda>(lease, _). fl_file lease) live)"

section \<open>One step\<close>

lemma write_metadata_ok:
  "write_metadata os path resource ident w = (Inr u, w') \<Longrightarrow>
   w' = w\<lparr>lw_files := (lw_files w)(path \<mapsto> metadata_text os resource ident)\<rparr>"
  by (auto simp: write_metadata_def Let_def split: option.splits prod.splits)

lemma write_metadata_err:
  assumes "write_metadata os path resource ident w = (Inl e, w')" and "lw_files w path \<noteq> None"
  shows "\<exists>c. w' = w\<lparr>lw_files := (lw_files w)(path \<mapsto> c)\<rparr>"
proof -
  obtain old where "(lw_files w)(path \<mapsto> old) = lw_files w" using assms(2) by (auto intro: map_upd_triv)
  then have same: "\<exists>c. w = w\<lparr>lw_files := (lw_files w)(path \<mapsto> c)\<rparr>" by (intro exI[of _ old]) simp
  show ?thesis using assms(1) same
    by (auto simp: write_metadata_def Let_def split: option.splits prod.splits)
qed

lemma acquire_elim:
  assumes "acquire_with_metadata k os path resource ident w = (r, w')"
  obtains (early) e where "r = Inl e" "w' = w"
  | (closed) e where "r = Inl e" "w' = close_file k (lw_next w) (open_file path w)"
  | (failed) e locks c where "r = Inl e" "lk_try_lock k (lw_locks w) path (lw_next w) = Inr locks"
      "w' = close_file k (lw_next w) (w\<lparr>lw_next := Suc (lw_next w), lw_locks := locks, lw_files := (lw_files w)(path \<mapsto> c)\<rparr>)"
  | (locked) locks where "r = Inr \<lparr>fl_file = lw_next w, fl_path = path\<rparr>"
      "lk_try_lock k (lw_locks w) path (lw_next w) = Inr locks"
      "w' = w\<lparr>lw_next := Suc (lw_next w), lw_locks := locks, lw_files := (lw_files w)(path \<mapsto> metadata_text os resource ident)\<rparr>"
proof (cases "\<exists>e. lo_create_dir os (parent_or_dot path) = Some e \<or> lo_open os path = Some e
    \<or> restrict_lock_permissions os path \<noteq> Inr () \<or> lk_try_lock k (lw_locks w) path (lw_next w) = Inl e")
  case True
  then show thesis using assms early closed
    by (auto simp: acquire_with_metadata_def Let_def open_file_def split: option.splits sum.splits io_error.splits)
next
  case False
  then obtain locks where lock: "lk_try_lock k (lw_locks w) path (lw_next w) = Inr locks"
    by (cases "lk_try_lock k (lw_locks w) path (lw_next w)") auto
  let ?w = "(open_file path w)\<lparr>lw_locks := locks\<rparr>"
  obtain u w1 where wr: "write_metadata os path resource ident ?w = (u, w1)" by fastforce
  have run: "(r, w') = (case u of Inl e \<Rightarrow> (Inl e, close_file k (lw_next w) w1)
      | Inr _ \<Rightarrow> (Inr \<lparr>fl_file = lw_next w, fl_path = path\<rparr>, w1))"
    using assms False lock wr
    by (auto simp: acquire_with_metadata_def Let_def open_file_def split: option.splits sum.splits)
  show thesis
  proof (cases u)
    case (Inl e)
    then obtain c where "w1 = ?w\<lparr>lw_files := (lw_files ?w)(path \<mapsto> c)\<rparr>"
      using write_metadata_err[of os path resource ident ?w e w1] wr by (auto simp: open_file_def)
    then show thesis using failed[OF _ lock, of e c] run Inl by (simp add: open_file_def)
  next
    case (Inr v)
    then show thesis using locked[OF _ lock] run write_metadata_ok[of os path resource ident ?w v w1] wr by (simp add: open_file_def)
  qed
qed

lemma held_owner_elim:
  assumes "held_daemon_owner k os path w = (r, w')"
  obtains (early) "w' = w"
  | (closed) "w' = close_file k (lw_next w) (w\<lparr>lw_next := Suc (lw_next w)\<rparr>)"
  | (probed) locks where "lk_try_lock k (lw_locks w) path (lw_next w) = Inr locks"
      "w' = close_file k (lw_next w) (w\<lparr>lw_next := Suc (lw_next w), lw_locks := locks\<rparr>)"
  | (unlocked) locks locks' where "lk_try_lock k (lw_locks w) path (lw_next w) = Inr locks"
      "lk_unlock k locks path (lw_next w) = Inr locks'"
      "w' = close_file k (lw_next w) (w\<lparr>lw_next := Suc (lw_next w), lw_locks := locks'\<rparr>)"
proof -
  have "w' = w \<or> w' = close_file k (lw_next w) (w\<lparr>lw_next := Suc (lw_next w)\<rparr>)
    \<or> (\<exists>locks. lk_try_lock k (lw_locks w) path (lw_next w) = Inr locks
        \<and> (w' = close_file k (lw_next w) (w\<lparr>lw_next := Suc (lw_next w), lw_locks := locks\<rparr>)
           \<or> (\<exists>locks'. lk_unlock k locks path (lw_next w) = Inr locks'
                \<and> w' = close_file k (lw_next w) (w\<lparr>lw_next := Suc (lw_next w), lw_locks := locks'\<rparr>))))"
    using assms by (auto simp: held_daemon_owner_def Let_def split: option.splits sum.splits io_error.splits if_splits)
  then show thesis using early closed probed unlocked by blast
qed

section \<open>The invariant of a history\<close>

text \<open>A step that leaves every lock with its holder and every locked file with its text.\<close>

lemma lease_inv_frame:
  assumes "lease_inv held_by w live" and "held_by (lw_locks w') = held_by (lw_locks w)" and "lw_next w \<le> lw_next w'"
    and "\<And>p. held_by (lw_locks w) p \<noteq> None \<Longrightarrow> lw_files w' p = lw_files w p"
  shows "lease_inv held_by w' live"
  unfolding lease_inv_def
proof (intro conjI ballI allI impI)
  fix p h assume "held_by (lw_locks w') p = Some h"
  then have "held_by (lw_locks w) p = Some h" by (simp add: assms(2))
  with assms(1) have "h < lw_next w" "\<exists>md. (\<lparr>fl_file = h, fl_path = p\<rparr>, md) \<in> set live"
    unfolding lease_inv_def by blast+
  with assms(3) show "h < lw_next w'" "\<exists>md. (\<lparr>fl_file = h, fl_path = p\<rparr>, md) \<in> set live" by simp_all
next
  fix x assume "x \<in> set live"
  with assms show "case x of (lease, md) \<Rightarrow> held_by (lw_locks w') (fl_path lease) = Some (fl_file lease) \<and> lw_files w' (fl_path lease) = Some md"
    by (fastforce simp: lease_inv_def)
qed (use assms(1) in \<open>simp_all add: lease_inv_def\<close>)

lemma release_only: "(\<And>p. f p = Some h \<Longrightarrow> p = q) \<Longrightarrow> f q = Some h \<or> f q = None
    \<Longrightarrow> (\<lambda>p. if f p = Some h then None else f p) = f(q := None)"
proof (rule ext)
  fix p assume one: "\<And>p. f p = Some h \<Longrightarrow> p = q" and q: "f q = Some h \<or> f q = None"
  show "(if f p = Some h then None else f p) = (f(q := None)) p"
  proof (cases "p = q")
    case False
    then have "f p \<noteq> Some h" using one by blast
    with False show ?thesis by simp
  qed (use q in auto)
qed

context advisory_locks
begin

lemma fresh_handle: "lease_inv held_by w live \<Longrightarrow> held_by (lw_locks w) p \<noteq> Some (lw_next w)"
  by (fastforce simp: lease_inv_def)

lemma held_live: "lease_inv held_by w live \<Longrightarrow> held_by (lw_locks w) p = Some h \<Longrightarrow> \<exists>md. (\<lparr>fl_file = h, fl_path = p\<rparr>, md) \<in> set live"
  unfolding lease_inv_def by blast

lemma live_held:
  "lease_inv held_by w live \<Longrightarrow> (lease, md) \<in> set live
   \<Longrightarrow> held_by (lw_locks w) (fl_path lease) = Some (fl_file lease) \<and> lw_files w (fl_path lease) = Some md"
  unfolding lease_inv_def by blast

lemma held_file: "lease_inv held_by w live \<Longrightarrow> held_by (lw_locks w) p = Some h \<Longrightarrow> \<exists>md. lw_files w p = Some md"
  by (fastforce simp: lease_inv_def)

lemma held_close: "held_by (lw_locks (close_file k h w)) = (\<lambda>p. if held_by (lw_locks w) p = Some h then None else held_by (lw_locks w) p)"
  by (simp add: close_file_def close)

lemma held_close_fresh: "lease_inv held_by w live \<Longrightarrow> held_by (lk_close k (lw_locks w) (lw_next w)) = held_by (lw_locks w)"
  using fresh_handle by (auto simp: close)

lemma held_close_taken:
  assumes "lease_inv held_by w live" and "lk_try_lock k (lw_locks w) path (lw_next w) = Inr locks"
  shows "held_by (lk_close k locks (lw_next w)) = held_by (lw_locks w)"
  using try_ok[OF assms(2)] fresh_handle[OF assms(1)] by (auto simp: close fun_eq_iff)

lemma inv_acquire:
  assumes inv: "lease_inv held_by w live" and acq: "acquire_with_metadata k os path resource ident w = (r, w')"
  shows "case r of Inl _ \<Rightarrow> lease_inv held_by w' live
    | Inr lease \<Rightarrow> fl_path lease = path \<and> lease_inv held_by w' ((lease, metadata_text os resource ident) # live)"
  using acq
proof (cases rule: acquire_elim)
  case (closed e)
  have keep: "lw_files (open_file path w) p = lw_files w p" if "held_by (lw_locks w) p \<noteq> None" for p
    using that held_file[OF inv, of p] by (auto simp: open_file_def)
  have "lease_inv held_by w' live"
    using inv by (rule lease_inv_frame)
      (use keep in \<open>auto simp: closed close_file_def open_file_def held_close_fresh[OF inv]\<close>)
  then show ?thesis by (simp add: closed)
next
  case (failed e locks c)
  have "lease_inv held_by w' live"
    using inv by (rule lease_inv_frame) (auto simp: failed(3) close_file_def held_close_taken[OF inv failed(2)] try_ok[OF failed(2)])
  then show ?thesis by (simp add: failed)
next
  case (locked locks)
  note free = try_ok[OF locked(2)]
  have fresh: "path \<notin> (\<lambda>(lease, _). fl_path lease) ` set live" using inv free by (fastforce simp: lease_inv_def)
  have new: "lw_next w \<notin> (\<lambda>(lease, _). fl_file lease) ` set live" using inv fresh_handle[OF inv] by (fastforce simp: lease_inv_def)
  have "lease_inv held_by w' ((\<lparr>fl_file = lw_next w, fl_path = path\<rparr>, metadata_text os resource ident) # live)"
    using inv free fresh new unfolding lease_inv_def locked(3) by (auto simp: less_SucI image_iff split: if_splits)
  then show ?thesis by (simp add: locked(1))
qed (use inv in simp)

lemma inv_drop:
  assumes inv: "lease_inv held_by w live" and mem: "(lease, md) \<in> set live"
  shows "lease_inv held_by (drop_lease k lease w) (filter (\<lambda>(l, _). l \<noteq> lease) live)"
    and "held_by (lw_locks (drop_lease k lease w)) (fl_path lease) = None"
proof -
  have held: "held_by (lw_locks w) (fl_path lease) = Some (fl_file lease)" using live_held[OF inv mem] by simp
  have one: "p = fl_path lease" if p: "held_by (lw_locks w) p = Some (fl_file lease)" for p
  proof -
    obtain md' where "(\<lparr>fl_file = fl_file lease, fl_path = p\<rparr>, md') \<in> set live" using held_live[OF inv p] by blast
    then have "(\<lparr>fl_file = fl_file lease, fl_path = p\<rparr>, md') = (lease, md)"
      using inv mem inj_onD[of "\<lambda>(lease, _). fl_file lease" "set live" "(\<lparr>fl_file = fl_file lease, fl_path = p\<rparr>, md')" "(lease, md)"]
      by (simp add: lease_inv_def distinct_map)
    then show ?thesis by (cases lease) simp
  qed
  have after: "held_by (lw_locks (drop_lease k lease w)) = (held_by (lw_locks w))(fl_path lease := None)"
  proof (cases "lk_unlock k (lw_locks w) (fl_path lease) (fl_file lease)")
    case (Inl e)
    show ?thesis unfolding drop_lease_def held_close Inl sum.case
      using release_only[of "held_by (lw_locks w)" "fl_file lease" "fl_path lease", OF one] held by simp
  next
    case (Inr l')
    have "((held_by (lw_locks w))(fl_path lease := None)) p \<noteq> Some (fl_file lease)" for p using one[of p] by auto
    then show ?thesis by (simp add: drop_lease_def held_close Inr unlock_ok[OF Inr held] fun_eq_iff)
  qed
  then show "held_by (lw_locks (drop_lease k lease w)) (fl_path lease) = None" by simp
  have same: "lw_files (drop_lease k lease w) = lw_files w" "lw_next (drop_lease k lease w) = lw_next w"
    by (simp_all add: drop_lease_def close_file_def split: sum.split)
  have only: "l = lease" if "(l, m) \<in> set live" "fl_path l = fl_path lease" for l m
    using that mem inv inj_onD[of "\<lambda>(lease, _). fl_path lease" "set live" "(l, m)" "(lease, md)"] by (auto simp: lease_inv_def distinct_map)
  show "lease_inv held_by (drop_lease k lease w) (filter (\<lambda>(l, _). l \<noteq> lease) live)"
    unfolding lease_inv_def after same
  proof (intro conjI ballI allI impI)
    fix p h assume p: "((held_by (lw_locks w))(fl_path lease := None)) p = Some h"
    then show "h < lw_next w" using inv by (auto simp: lease_inv_def split: if_splits)
    from p have "held_by (lw_locks w) p = Some h" "p \<noteq> fl_path lease" by (auto split: if_splits)
    with held_live[OF inv] obtain m where "(\<lparr>fl_file = h, fl_path = p\<rparr>, m) \<in> set live" "p \<noteq> fl_path lease" by blast
    then show "\<exists>md. (\<lparr>fl_file = h, fl_path = p\<rparr>, md) \<in> set (filter (\<lambda>(l, _). l \<noteq> lease) live)" by (auto intro!: exI[of _ m])
  next
    fix x assume "x \<in> set (filter (\<lambda>(l, _). l \<noteq> lease) live)"
    then obtain l m where x: "x = (l, m)" "(l, m) \<in> set live" "l \<noteq> lease" by auto
    then have "fl_path l \<noteq> fl_path lease" using only by blast
    then show "case x of (l, m) \<Rightarrow> ((held_by (lw_locks w))(fl_path lease := None)) (fl_path l) = Some (fl_file l) \<and> lw_files w (fl_path l) = Some m"
      using live_held[OF inv x(2)] by (simp add: x(1))
  qed (use inv in \<open>auto simp: lease_inv_def intro: distinct_map_filter\<close>)
qed

lemma inv_inspect:
  assumes inv: "lease_inv held_by w live" and look: "held_daemon_owner k os path w = (r, w')"
  shows "lease_inv held_by w' live"
  using look
proof (cases rule: held_owner_elim)
  case early
  with inv show ?thesis by simp
next
  case closed
  show ?thesis using inv by (rule lease_inv_frame) (auto simp: closed close_file_def held_close_fresh[OF inv])
next
  case (probed locks)
  show ?thesis using inv
    by (rule lease_inv_frame) (auto simp: probed(2) close_file_def held_close_taken[OF inv probed(1)])
next
  case (unlocked locks locks')
  note free = try_ok[OF unlocked(1)]
  have held: "held_by locks path = Some (lw_next w)" using free by simp
  have again: "held_by locks' = held_by (lw_locks w)"
    using unlock_ok[OF unlocked(2) held] free by (auto simp: fun_eq_iff)
  then have "held_by (lk_close k locks' (lw_next w)) = held_by (lw_locks w)"
    using fresh_handle[OF inv] by (auto simp: close)
  then show ?thesis using inv by (intro lease_inv_frame[OF inv]) (auto simp: unlocked(3) close_file_def)
qed

lemma reach_inv:
  assumes "lease_reach k w0 w live" and "\<And>p. held_by (lw_locks w0) p = None"
  shows "lease_inv held_by w live"
  using assms(1)
proof (induction rule: lease_reach.induct)
  case start
  show ?case by (simp add: lease_inv_def assms(2))
next
  case (acquired w live os path resource ident lease w')
  with inv_acquire[OF acquired.IH acquired.hyps(2)] show ?case by simp
next
  case (refused w live os path resource ident e w')
  with inv_acquire[OF refused.IH refused.hyps(2)] show ?case by simp
next
  case (dropped w live lease md)
  then show ?case using inv_drop(1) by blast
next
  case (inspected w live os path r w')
  then show ?case using inv_inspect by blast
qed

end

section \<open>Owner metadata\<close>

text \<open>The identities a daemon may record: a process number, and texts of one line each.\<close>

definition owner_ok :: "lease_os \<Rightarrow> string \<Rightarrow> string \<times> string \<Rightarrow> bool" where
  "owner_ok os resource ident \<longleftrightarrow>
     0 < lo_pid os \<and> lo_pid os < 2 ^ 32 \<and> resource \<noteq> [] \<and> one_line resource
     \<and> (case lo_current_exe os of Inl _ \<Rightarrow> False | Inr exe \<Rightarrow> exe \<noteq> [] \<and> exe \<noteq> ''unknown'' \<and> one_line exe)
     \<and> one_line (fst ident) \<and> one_line (snd ident) \<and> utf8_valid (metadata_text os resource (Some ident))"

definition owner_of :: "lease_os \<Rightarrow> string \<Rightarrow> string \<times> string \<Rightarrow> daemon_lease_owner" where
  "owner_of os resource ident = \<lparr>do_pid = lo_pid os, do_resource = resource,
     do_executable = executable_path (lo_current_exe os), do_instance_id = Some (fst ident), do_handoff_token = Some (snd ident)\<rparr>"

definition public_lines :: "lease_os \<Rightarrow> string \<Rightarrow> string \<Rightarrow> string list" where
  "public_lines os resource instance_id =
     [''pid='' @ show_int (lo_pid os), ''resource='' @ resource, ''executable='' @ executable_path (lo_current_exe os),
      ''instance_id='' @ instance_id]"

lemma metadata_lines:
  assumes "owner_ok os resource ident"
  shows "lines_of (metadata_text os resource (Some ident)) = public_lines os resource (fst ident) @ [''handoff_token='' @ snd ident]"
proof -
  have "metadata_text os resource (Some ident) = unlines (public_lines os resource (fst ident) @ [''handoff_token='' @ snd ident])"
    by (cases ident) (simp add: metadata_text_def unlines_def public_lines_def lf_def)
  moreover have "list_all one_line (public_lines os resource (fst ident) @ [''handoff_token='' @ snd ident])"
    using assms show_int_one_line[of "lo_pid os"]
    by (auto simp: owner_ok_def public_lines_def one_line_def executable_path_def split: sum.splits)
  ultimately show ?thesis by (simp add: lines_of_unlines)
qed

lemma parse_daemon_owner_text:
  assumes "owner_ok os resource ident"
  shows "parse_daemon_owner (metadata_text os resource (Some ident)) = Inr (owner_of os resource ident)"
proof -
  have pid: "parse_uint (2 ^ 32 - 1) (show_int (lo_pid os)) = Some (lo_pid os)" "lo_pid os \<noteq> 0"
    using assms by (auto simp: owner_ok_def parse_uint_show_int)
  have exe: "executable_path (lo_current_exe os) \<noteq> []" "executable_path (lo_current_exe os) \<noteq> ''unknown''" "resource \<noteq> []"
    using assms by (auto simp: owner_ok_def executable_path_def split: sum.splits)
  show ?thesis
    using pid exe by (simp add: parse_daemon_owner_def metadata_value_def find_line_def metadata_lines[OF assms] public_lines_def owner_of_def)
qed

text \<open>What another process is shown does not depend on the token.\<close>

lemma shown_metadata_text:
  assumes "owner_ok os resource ident"
  shows "shown_metadata (metadata_text os resource (Some ident))
    = '' ('' @ trim (join_with lf (public_lines os resource (fst ident))) @ '')''"
  by (simp add: shown_metadata_def metadata_lines[OF assms]) (simp add: public_lines_def starts_with_def)

section \<open>A lock table\<close>

text \<open>Advisory locks as a table of holders: what the operating system documents of exclusive locks on
  open files.\<close>

definition flock_ops :: "(string \<Rightarrow> handle option) lock_ops" where
  "flock_ops = \<lparr>
     lk_try_lock = (\<lambda>l p h. if l p = None then Inr (l(p \<mapsto> h)) else Inl (IoWouldBlock ''lock contended'')),
     lk_unlock = (\<lambda>l p h. Inr (if l p = Some h then l(p := None) else l)),
     lk_close = (\<lambda>l h p. if l p = Some h then None else l p)\<rparr>"

interpretation flock: reliable_locks flock_ops "\<lambda>l. l"
  by unfold_locales (auto simp: flock_ops_def split: if_splits)

definition quiet_os :: lease_os where
  "quiet_os = \<lparr>lo_create_dir = (\<lambda>_. None), lo_open = (\<lambda>_. None), lo_metadata = (\<lambda>_. None), lo_set_permissions = (\<lambda>_. None),
     lo_set_len = None, lo_seek = None, lo_write = None, lo_sync = None, lo_read = None, lo_pid = 42,
     lo_current_exe = Inr ''/bin/cov''\<rparr>"

definition fresh_world :: "(string \<Rightarrow> handle option) lease_world" where
  "fresh_world = \<lparr>lw_files = (\<lambda>_. None), lw_locks = (\<lambda>_. None), lw_next = 0\<rparr>"

definition daemon_world :: "(string \<Rightarrow> handle option) lease_world" where
  "daemon_world = snd (acquire_daemon flock_ops quiet_os ''/d.lock'' ''daemon:1'' ''i1'' ''t1'' fresh_world)"

lemma daemon_world_reach:
  "lease_reach flock_ops fresh_world daemon_world
     [(\<lparr>fl_file = 0, fl_path = ''/d.lock''\<rparr>, metadata_text quiet_os ''daemon:1'' (Some (''i1'', ''t1'')))]"
proof -
  have "acquire_with_metadata flock_ops quiet_os ''/d.lock'' ''daemon:1'' (Some (''i1'', ''t1'')) fresh_world
      = (Inr \<lparr>fl_file = 0, fl_path = ''/d.lock''\<rparr>, daemon_world)"
    by (simp add: daemon_world_def acquire_daemon_def acquire_with_metadata_def fresh_world_def quiet_os_def flock_ops_def
        restrict_lock_permissions_def open_file_def write_metadata_def Let_def)
  from lease_reach.acquired[OF lease_reach.start this] show ?thesis .
qed

lemma fresh_world_free: "lw_locks fresh_world p = None"
  by (simp add: fresh_world_def)

lemma quiet_owner_ok: "owner_ok quiet_os ''daemon:1'' (''i1'', ''t1'')"
proof -
  have "utf8_valid (metadata_text quiet_os ''daemon:1'' (Some (''i1'', ''t1'')))" by code_simp
  then show ?thesis by (simp add: owner_ok_def quiet_os_def one_line_def)
qed

section \<open>Properties\<close>

text \<open>C4. A lease is exclusive: in every history of acquisitions, releases and inspections by any number of
  processes, with any failure of the operating system in between, two leases that are alive at the same
  time are for different files, each holds its lock, and no lock is left held without a lease.\<close>

theorem lease_exclusive:
  assumes "advisory_locks k held_by" and "lease_reach k w0 w live" and "\<forall>p. held_by (lw_locks w0) p = None"
  shows "distinct (map (\<lambda>(lease, _). fl_path lease) live)
    \<and> (\<forall>p. held_by (lw_locks w) p \<noteq> None \<longleftrightarrow> (\<exists>(lease, _) \<in> set live. fl_path lease = p))"
proof -
  have inv: "lease_inv held_by w live" using advisory_locks.reach_inv[OF assms(1,2)] assms(3) by blast
  show ?thesis
  proof (intro conjI allI iffI)
    show "distinct (map (\<lambda>(lease, _). fl_path lease) live)" using inv by (simp add: lease_inv_def)
  next
    fix p assume "held_by (lw_locks w) p \<noteq> None"
    then obtain h where "held_by (lw_locks w) p = Some h" by blast
    from advisory_locks.held_live[OF assms(1) inv this] show "\<exists>(lease, _) \<in> set live. fl_path lease = p" by force
  next
    fix p assume "\<exists>(lease, _) \<in> set live. fl_path lease = p"
    then show "held_by (lw_locks w) p \<noteq> None" using advisory_locks.live_held[OF assms(1) inv] by fastforce
  qed
qed

theorem lease_exclusive_witness: "lw_locks daemon_world ''/d.lock'' \<noteq> None"
  using lease_exclusive[OF flock.advisory_locks_axioms daemon_world_reach] fresh_world_free by auto

text \<open>The daemon named by a lease is the one that holds it: while a daemon's lease is alive, whatever
  other processes do, an inspection without failures returns exactly the identity and token it recorded,
  and when no lease for the file is alive the answer is none, whatever text the file still contains.\<close>

theorem held_owner_is_holder:
  assumes "reliable_locks k held_by" and "lease_reach k w0 w live" and "\<forall>p. held_by (lw_locks w0) p = None"
    and "lo_open os path = None" and "lo_seek os = None" and "lo_read os = None"
  shows "((lease, metadata_text os' resource (Some ident)) \<in> set live \<and> fl_path lease = path \<and> owner_ok os' resource ident
        \<longrightarrow> fst (held_daemon_owner k os path w) = Inr (Some (owner_of os' resource ident)))
    \<and> ((\<forall>(lease, _) \<in> set live. fl_path lease \<noteq> path) \<longrightarrow> fst (held_daemon_owner k os path w) = Inr None)"
proof -
  have adv: "advisory_locks k held_by" using assms(1) by (simp add: reliable_locks_def)
  have inv: "lease_inv held_by w live" using advisory_locks.reach_inv[OF adv assms(2)] assms(3) by blast
  show ?thesis
  proof (intro conjI impI)
    assume a: "(lease, metadata_text os' resource (Some ident)) \<in> set live \<and> fl_path lease = path \<and> owner_ok os' resource ident"
    then have held: "held_by (lw_locks w) path \<noteq> None" "lw_files w path = Some (metadata_text os' resource (Some ident))"
      using advisory_locks.live_held[OF adv inv] by auto
    from reliable_locks.try_held[OF assms(1) held(1)] obtain m where "lk_try_lock k (lw_locks w) path (lw_next w) = Inl (IoWouldBlock m)" by blast
    moreover have "utf8_valid (metadata_text os' resource (Some ident))" using a by (simp add: owner_ok_def)
    ultimately show "fst (held_daemon_owner k os path w) = Inr (Some (owner_of os' resource ident))"
      using a held by (simp add: held_daemon_owner_def assms(4-6) read_metadata_text_def Let_def parse_daemon_owner_text)
  next
    assume none: "\<forall>(lease, _) \<in> set live. fl_path lease \<noteq> path"
    have free: "held_by (lw_locks w) path = None"
      using none advisory_locks.held_live[OF adv inv, of path] by (cases "held_by (lw_locks w) path") force+
    obtain l' where l': "lk_try_lock k (lw_locks w) path (lw_next w) = Inr l'" using reliable_locks.try_free[OF assms(1) free] by blast
    then have "held_by l' path = Some (lw_next w)" using advisory_locks.try_ok[OF adv l'] by simp
    then obtain l'' where "lk_unlock k l' path (lw_next w) = Inr l''" using reliable_locks.unlock_works[OF assms(1)] by blast
    with l' show "fst (held_daemon_owner k os path w) = Inr None"
      by (simp add: held_daemon_owner_def assms(4) Let_def split: option.split)
  qed
qed

theorem held_owner_is_holder_witness:
  "fst (held_daemon_owner flock_ops quiet_os ''/d.lock'' daemon_world) = Inr (Some (owner_of quiet_os ''daemon:1'' (''i1'', ''t1'')))
   \<and> fst (held_daemon_owner flock_ops quiet_os ''/e.lock'' daemon_world) = Inr None"
proof -
  have os: "lo_open quiet_os p = None" "lo_seek quiet_os = None" "lo_read quiet_os = None" for p by (simp_all add: quiet_os_def)
  have free: "\<forall>p. lw_locks fresh_world p = None" using fresh_world_free by blast
  note h = held_owner_is_holder[OF flock.reliable_locks_axioms, OF daemon_world_reach, OF free]
  show ?thesis
    using h[OF os(1)[of "''/d.lock''"] os(2,3), where lease = "\<lparr>fl_file = 0, fl_path = ''/d.lock''\<rparr>" and os' = quiet_os
        and resource = "''daemon:1''" and ident = "(''i1'', ''t1'')"]
      h[OF os(1)[of "''/e.lock''"] os(2,3)] quiet_owner_ok by simp
qed

lemma acquire_busy:
  assumes "acquire_with_metadata k os path resource ident w = (Inl (Busy r holder), w')"
  shows "holder = read_metadata os path (open_file path w)"
proof -
  have "fst (write_metadata os path resource ident v) \<noteq> Inl (Busy r holder)" for v :: "'a lease_world"
    by (auto simp: write_metadata_def Let_def split: option.splits)
  moreover have "restrict_lock_permissions os path \<noteq> Inl (Busy r holder)"
    by (auto simp: restrict_lock_permissions_def split: option.splits)
  ultimately show ?thesis using assms
    by (auto simp: acquire_with_metadata_def Let_def split: option.splits sum.splits io_error.splits prod.splits) (metis fst_conv)+
qed

text \<open>The capability stays with its owner: a process refused because a daemon holds the lease is told the
  daemon's process, resource, executable and instance, or that they are unavailable, and never a text
  that depends on the handoff token.\<close>

theorem busy_hides_token:
  assumes "advisory_locks k held_by" and "lease_reach k w0 w live" and "\<forall>p. held_by (lw_locks w0) p = None"
    and "(lease, metadata_text os' resource' (Some (inst, token))) \<in> set live" and "owner_ok os' resource' (inst, token)"
    and "acquire_with_metadata k os (fl_path lease) resource ident w = (Inl (Busy r holder), w')"
  shows "holder = '' (owner metadata unavailable)''
    \<or> holder = '' ('' @ trim (join_with lf (public_lines os' resource' inst)) @ '')''"
proof -
  have inv: "lease_inv held_by w live" using advisory_locks.reach_inv[OF assms(1,2)] assms(3) by blast
  have "lw_files w (fl_path lease) = Some (metadata_text os' resource' (Some (inst, token)))"
    using advisory_locks.live_held[OF assms(1) inv assms(4)] by simp
  then have "lw_files (open_file (fl_path lease) w) (fl_path lease) = Some (metadata_text os' resource' (Some (inst, token)))"
    by (simp add: open_file_def)
  then show ?thesis using acquire_busy[OF assms(6)] shown_metadata_text[OF assms(5)]
    by (auto simp: read_metadata_def read_metadata_text_def Let_def split: option.splits if_splits)
qed

theorem busy_hides_token_witness:
  "\<exists>w'. acquire_with_metadata flock_ops quiet_os ''/d.lock'' ''x'' None daemon_world
    = (Inl (Busy ''x'' ('' ('' @ trim (join_with lf (public_lines quiet_os ''daemon:1'' ''i1'')) @ '')'')), w')"
proof -
  have "(case fst (acquire_with_metadata flock_ops quiet_os ''/d.lock'' ''x'' None daemon_world) of
      Inl (Busy r h) \<Rightarrow> r = ''x'' \<and> h \<noteq> '' (owner metadata unavailable)'' | _ \<Rightarrow> False)" by code_simp
  then obtain h w' where acq: "acquire_with_metadata flock_ops quiet_os ''/d.lock'' ''x'' None daemon_world = (Inl (Busy ''x'' h), w')"
    and h: "h \<noteq> '' (owner metadata unavailable)''"
    by (cases "acquire_with_metadata flock_ops quiet_os ''/d.lock'' ''x'' None daemon_world") (auto split: sum.splits app_error.splits)
  have free: "\<forall>p. lw_locks fresh_world p = None" using fresh_world_free by blast
  have "h = '' ('' @ trim (join_with lf (public_lines quiet_os ''daemon:1'' ''i1'')) @ '')''"
    using busy_hides_token[OF flock.advisory_locks_axioms, OF daemon_world_reach, OF free _ quiet_owner_ok, of "\<lparr>fl_file = 0, fl_path = ''/d.lock''\<rparr>"]
      acq h by fastforce
  with acq show ?thesis by blast
qed

text \<open>No lease blocks for ever: when no lease for the file is alive, whatever earlier owners left in it and
  however they ended, an acquisition without failures succeeds and records the new owner.\<close>

theorem free_lease_granted:
  assumes "reliable_locks k held_by" and "lease_reach k w0 w live" and "\<forall>p. held_by (lw_locks w0) p = None"
    and "\<forall>(lease, _) \<in> set live. fl_path lease \<noteq> path"
    and "lo_create_dir os (parent_or_dot path) = None" and "lo_open os path = None"
    and "restrict_lock_permissions os path = Inr ()"
    and "lo_set_len os = None \<and> lo_seek os = None \<and> lo_write os = None \<and> lo_sync os = None"
  shows "\<exists>lease w'. acquire_with_metadata k os path resource ident w = (Inr lease, w')
    \<and> fl_path lease = path \<and> lw_files w' path = Some (metadata_text os resource ident)"
proof -
  have adv: "advisory_locks k held_by" using assms(1) by (simp add: reliable_locks_def)
  have inv: "lease_inv held_by w live" using advisory_locks.reach_inv[OF adv assms(2)] assms(3) by blast
  have free: "held_by (lw_locks w) path = None"
    using assms(4) advisory_locks.held_live[OF adv inv, of path] by (cases "held_by (lw_locks w) path") force+
  obtain l' where l': "lk_try_lock k (lw_locks w) path (lw_next w) = Inr l'" using reliable_locks.try_free[OF assms(1) free] by blast
  obtain r w' where acq: "acquire_with_metadata k os path resource ident w = (r, w')" by fastforce
  have ok: "\<not> isl r" using acq assms(8)
    by (auto simp: acquire_with_metadata_def assms(5-7) l' open_file_def write_metadata_def Let_def)
  show ?thesis by (rule acquire_elim[OF acq]) (use ok acq in auto)
qed

theorem free_lease_granted_witness:
  "\<exists>lease w'. acquire_with_metadata flock_ops quiet_os ''/e.lock'' ''x'' None daemon_world = (Inr lease, w')
    \<and> fl_path lease = ''/e.lock'' \<and> lw_files w' ''/e.lock'' = Some (metadata_text quiet_os ''x'' None)"
proof -
  have free: "\<forall>p. lw_locks fresh_world p = None" using fresh_world_free by blast
  show ?thesis
    by (rule free_lease_granted[OF flock.reliable_locks_axioms, OF daemon_world_reach, OF free])
      (simp_all add: quiet_os_def restrict_lock_permissions_def write_metadata_def Let_def)
qed

end
