(* ===== verification/Daemon.thy ===== *)
theory Daemon
  imports Wire Lease Lib
begin

text \<open>
  How a connector finds, replaces, starts and calls the shared daemon (\<open>src/src/main.rs\<close>).  Other processes, the
  network, the clock and the lease file change between any two steps, so what the connector meets is an environment
  whose answers may depend on everything that happened before: \<open>daemon_env\<close> is a record of functions of the history,
  the list of the connector's own steps, newest first.  An operation maps a history to its result and the longer
  history; the two loops bounded by a clock are partial functions, and not returning is the value \<open>None\<close>.
\<close>

datatype exchange = Answered string | Failed io_error | Elapsed

datatype event =
    EvRequest string string "string option" string exchange
  | EvOwner "daemon_lease_owner option res"
  | EvKill int
  | EvSpawn string "string list" string
  | EvSleep int

type_synonym history = "event list"

record 'l daemon_env =
  dv_exchange :: "history \<Rightarrow> string \<Rightarrow> int \<Rightarrow> string \<Rightarrow> exchange"
  dv_locks :: "'l lock_ops"
  dv_os :: "history \<Rightarrow> lease_os"
  dv_world :: "history \<Rightarrow> 'l lease_world"
  dv_kill :: "history \<Rightarrow> int \<Rightarrow> io_error + bool"
  dv_create_dir :: "history \<Rightarrow> string \<Rightarrow> io_error option"
  dv_open_log :: "history \<Rightarrow> string \<Rightarrow> io_error option"
  dv_clone :: "history \<Rightarrow> io_error option"
  dv_current_exe :: "history \<Rightarrow> io_error + string"
  dv_start :: "history \<Rightarrow> string \<Rightarrow> string list \<Rightarrow> string \<Rightarrow> io_error option"
  dv_try_wait :: "history \<Rightarrow> io_error option"
  dv_now :: "history \<Rightarrow> int"
  dv_canon :: "history \<Rightarrow> string \<Rightarrow> string option"
  dv_parse :: "string \<Rightarrow> string + json"
  dv_show :: "json \<Rightarrow> string"
  dv_lossy :: "string \<Rightarrow> string"

text \<open>Times are in nanoseconds.\<close>

definition daemon_start_timeout :: int where
  "daemon_start_timeout = 10 * 1000000000"

definition daemon_start_poll_interval :: int where
  "daemon_start_poll_interval = 50 * 1000000"

definition daemon_handoff_timeout :: int where
  "daemon_handoff_timeout = 10 * 1000000000"

definition daemon_version :: string where
  "daemon_version = ''0.16.0''"

section \<open>Releases\<close>

datatype release_version = ReleaseVersion int int int

text \<open>The derived order is the lexicographic one.\<close>

instantiation release_version :: linorder
begin

fun less_eq_release_version :: "release_version \<Rightarrow> release_version \<Rightarrow> bool" where
  "less_eq_release_version (ReleaseVersion a b c) (ReleaseVersion a' b' c') =
     (a < a' \<or> a = a' \<and> (b < b' \<or> b = b' \<and> c \<le> c'))"

definition less_release_version :: "release_version \<Rightarrow> release_version \<Rightarrow> bool" where
  "less_release_version v w \<longleftrightarrow> v \<le> w \<and> \<not> w \<le> v"

instance
proof
  fix u v w :: release_version
  show "u < v \<longleftrightarrow> u \<le> v \<and> \<not> v \<le> u" by (simp add: less_release_version_def)
  show "u \<le> u" by (cases u) simp
  show "u \<le> v \<Longrightarrow> v \<le> w \<Longrightarrow> u \<le> w" by (cases u; cases v; cases w) auto
  show "u \<le> v \<Longrightarrow> v \<le> u \<Longrightarrow> u = v" by (cases u; cases v) auto
  show "u \<le> v \<or> v \<le> u" by (cases u; cases v) auto
qed

end

definition parse_release :: "string \<Rightarrow> release_version option" where
  "parse_release v =
     (case split_on (CHR ''.'') v of
        [a, b, c] \<Rightarrow> (case (parse_u64 a, parse_u64 b, parse_u64 c) of
            (Some major, Some minor, Some patch) \<Rightarrow> Some (ReleaseVersion major minor patch)
          | _ \<Rightarrow> None)
      | _ \<Rightarrow> None)"

section \<open>Requests\<close>

definition daemon_request :: "'l daemon_env \<Rightarrow> server_config \<Rightarrow> string \<Rightarrow> string \<Rightarrow> string option \<Rightarrow> string \<Rightarrow> history
    \<Rightarrow> wire_response res \<times> history" where
  "daemon_request env config meth path repo_path body h =
     (case check_request config repo_path of
        Inl e \<Rightarrow> (Inl e, h)
      | Inr _ \<Rightarrow>
          (let out = dv_exchange env h (sc_host config) (sc_port config) (request_bytes config meth path repo_path body);
               response_limit = nat (sc_http_max_body_bytes config) + http_header_limit
           in (case out of
                 Elapsed \<Rightarrow> Inl (Timeout (meth @ '' '' @ path) (sc_http_request_timeout_seconds config * 1000))
               | Failed e \<Rightarrow> Inl (Io e)
               | Answered sent \<Rightarrow>
                   (let bytes = take (response_limit + 1) sent in
                    if response_limit < length bytes then Inl (Validation ''Coverage MCP daemon response is too large'')
                    else parse_http_response bytes),
               EvRequest meth path repo_path body out # h)))"

fun is_transport_interruption :: "app_error \<Rightarrow> bool" where
  "is_transport_interruption (Io _) = True"
| "is_transport_interruption (Timeout _ _) = True"
| "is_transport_interruption _ = False"

fun is_connection_refused :: "app_error \<Rightarrow> bool" where
  "is_connection_refused (Io (IoConnectionRefused _)) = True"
| "is_connection_refused _ = False"

section \<open>Health\<close>

record daemon_observation =
  dob_healthy :: bool
  dob_version :: string
  dob_schema :: int
  dob_common_db :: string
  dob_daemon_path :: "string option"
  dob_pid :: "int option"
  dob_instance_id :: "string option"
  dob_handoff_supported :: bool

datatype daemon_health_state = Compatible | Unavailable | Incompatible daemon_observation

text \<open>Paths are compared by their components, as \<open>PathBuf\<close> does.\<close>

definition same_path :: "'l daemon_env \<Rightarrow> history \<Rightarrow> string \<Rightarrow> string \<Rightarrow> bool" where
  "same_path env h left right =
     (case (dv_canon env h left, dv_canon env h right) of
        (Some l, Some r) \<Rightarrow> components l = components r
      | _ \<Rightarrow> components left = components right)"

definition observation_eq :: "daemon_observation \<Rightarrow> daemon_observation \<Rightarrow> bool" where
  "observation_eq a b \<longleftrightarrow> a\<lparr>dob_daemon_path := None\<rparr> = b\<lparr>dob_daemon_path := None\<rparr>
     \<and> map_option components (dob_daemon_path a) = map_option components (dob_daemon_path b)"

definition owner_eq :: "daemon_lease_owner \<Rightarrow> daemon_lease_owner \<Rightarrow> bool" where
  "owner_eq a b \<longleftrightarrow> a\<lparr>do_executable := []\<rparr> = b\<lparr>do_executable := []\<rparr>
     \<and> components (do_executable a) = components (do_executable b)"

definition str_field :: "json \<Rightarrow> string \<Rightarrow> string option" where
  "str_field v k = Option.bind (jget v k) as_str"

definition observed_daemon :: "json \<Rightarrow> daemon_observation" where
  "observed_daemon v =
     \<lparr>dob_healthy = (str_field v ''status'' = Some ''ok'' \<or> Option.bind (jget v ''ok'') as_bool = Some True),
      dob_version = (case str_field v ''version'' of None \<Rightarrow> ''unknown'' | Some s \<Rightarrow> s),
      dob_schema = (case Option.bind (jget v ''schema_revision'') as_u64 of None \<Rightarrow> 0 | Some n \<Rightarrow> n),
      dob_common_db = (case str_field v ''common_db_path'' of None \<Rightarrow> ''unknown'' | Some s \<Rightarrow> s),
      dob_daemon_path = str_field v ''daemon_path'',
      dob_pid = Option.bind (Option.bind (jget v ''pid'') as_u64) (\<lambda>n. if n \<le> 2 ^ 32 - 1 then Some n else None),
      dob_instance_id = str_field v ''instance_id'',
      dob_handoff_supported = (Option.bind (jget v ''handoff_supported'') as_bool = Some True)\<rparr>"

definition classify_daemon :: "'l daemon_env \<Rightarrow> server_config \<Rightarrow> history \<Rightarrow> json \<Rightarrow> daemon_health_state" where
  "classify_daemon env config h v =
     (let d = observed_daemon v in
      if dob_healthy d \<and> dob_version d = daemon_version \<and> dob_schema d = schema_revision
         \<and> same_path env h (dob_common_db d) (sc_common_db_path config)
      then Compatible else Incompatible d)"

definition daemon_health :: "'l daemon_env \<Rightarrow> server_config \<Rightarrow> history \<Rightarrow> daemon_health_state res \<times> history" where
  "daemon_health env config h =
     (case daemon_request env config ''GET'' ''/health'' None [] h of
        (Inl e, h) \<Rightarrow> (if is_transport_interruption e then Inr Unavailable else Inl e, h)
      | (Inr response, h) \<Rightarrow>
          (if wr_status response \<noteq> 200 then Inr Unavailable
           else case dv_parse env (wr_body response) of
                  Inl msg \<Rightarrow> Inl (Runtime (''Coverage MCP daemon returned invalid health JSON: '' @ msg))
                | Inr v \<Rightarrow> Inr (classify_daemon env config h v), h))"

section \<open>Recovery of an incompatible daemon\<close>

definition daemon_incompatibility :: "server_config \<Rightarrow> daemon_observation \<Rightarrow> string" where
  "daemon_incompatibility config d =
     ''Coverage MCP daemon at http://'' @ host_authority (sc_host config) (sc_port config) @ '' reports version '' @ dob_version d
     @ '', schema '' @ show_int (dob_schema d) @ '', common database '' @ dob_common_db d @ ''; connector requires version ''
     @ daemon_version @ '', schema '' @ show_int schema_revision @ '', common database '' @ sc_common_db_path config"

definition recovery_refused :: "server_config \<Rightarrow> daemon_observation \<Rightarrow> string \<Rightarrow> app_error" where
  "recovery_refused config d reason =
     Runtime (daemon_incompatibility config d @ ''; automatic recovery refused because '' @ reason)"

definition validate_recoverable_daemon :: "'l daemon_env \<Rightarrow> history \<Rightarrow> server_config \<Rightarrow> daemon_observation \<Rightarrow> unit res" where
  "validate_recoverable_daemon env h config d =
     (if \<not> dob_healthy d
      then Inl (recovery_refused config d ''the listener did not report a healthy Coverage MCP daemon'')
      else if \<not> same_path env h (dob_common_db d) (sc_common_db_path config)
      then Inl (recovery_refused config d ''the listener belongs to a different common database'')
      else
      bindr (ok_or (parse_release (dob_version d))
               (recovery_refused config d ''the daemon did not report a stable x.y.z release'')) (\<lambda>running.
      bindr (ok_or (parse_release daemon_version)
               (Runtime (''Coverage MCP connector version '' @ daemon_version @ '' is not a stable x.y.z release''))) (\<lambda>connector.
      if connector \<le> running
      then Inl (recovery_refused config d
             (if connector < running then ''the running daemon is newer; an older connector must not downgrade it''
              else ''the equal-version daemon has an incompatible schema or configuration''))
      else Inr ())))"

definition validate_daemon_owner :: "'l daemon_env \<Rightarrow> history \<Rightarrow> server_config \<Rightarrow> daemon_observation \<Rightarrow> daemon_lease_owner \<Rightarrow> unit res" where
  "validate_daemon_owner env h config d owner =
     (if do_resource owner \<noteq> ''Coverage MCP daemon on port '' @ show_int (sc_port config)
      then Inl (recovery_refused config d ''the held lease describes a different daemon resource'')
      else
      bindr (ok_or (dob_daemon_path d) (recovery_refused config d ''health did not expose the daemon executable'')) (\<lambda>daemon_path.
      if \<not> same_path env h daemon_path (do_executable owner)
      then Inl (recovery_refused config d ''health and lease metadata identify different executables'')
      else if dob_pid d \<noteq> None \<and> dob_pid d \<noteq> Some (do_pid owner)
      then Inl (recovery_refused config d ''health and lease metadata identify different processes'')
      else if dob_instance_id d \<noteq> do_instance_id owner
      then Inl (recovery_refused config d ''health and lease metadata identify different daemon instances'')
      else Inr ()))"

definition inspect_owner :: "'l daemon_env \<Rightarrow> server_config \<Rightarrow> history \<Rightarrow> daemon_lease_owner option res \<times> history" where
  "inspect_owner env config h =
     (let r = fst (held_daemon_owner (dv_locks env) (dv_os env h) (daemon_lock_path (sc_common_db_path config)) (dv_world env h))
      in (r, EvOwner r # h))"

definition terminate_pre_handoff_daemon :: "'l daemon_env \<Rightarrow> int \<Rightarrow> history \<Rightarrow> unit res \<times> history" where
  "terminate_pre_handoff_daemon env pid h =
     (case dv_kill env h pid of
        Inl e \<Rightarrow> Inl (Io e)
      | Inr success \<Rightarrow> if success then Inr ()
          else Inl (Runtime (''could not request graceful shutdown from pre-handoff Coverage MCP daemon pid '' @ show_int pid)),
      EvKill pid # h)"

definition state_after_missing_owner :: "'l daemon_env \<Rightarrow> server_config \<Rightarrow> daemon_observation \<Rightarrow> history \<Rightarrow> bool res \<times> history" where
  "state_after_missing_owner env config d h =
     (case daemon_health env config h of
        (Inl e, h) \<Rightarrow> (Inl e, h)
      | (Inr Compatible, h) \<Rightarrow> (Inr True, h)
      | (Inr Unavailable, h) \<Rightarrow> (Inr False, h)
      | (Inr (Incompatible current), h) \<Rightarrow>
          (Inl (recovery_refused config d
             (if \<not> observation_eq current d then ''the daemon identity changed while its ownership lease was inspected''
              else ''the reported daemon does not hold the expected ownership lease'')), h))"

text \<open>One round of the wait for the handoff: a result, or \<open>None\<close> to sleep and look again.\<close>

definition handoff_step :: "'l daemon_env \<Rightarrow> server_config \<Rightarrow> daemon_observation \<Rightarrow> daemon_lease_owner \<Rightarrow> history
    \<Rightarrow> bool option res \<times> history" where
  "handoff_step env config d owner h =
     (case daemon_health env config h of
        (Inl e, h) \<Rightarrow> (Inl e, h)
      | (Inr Compatible, h) \<Rightarrow> (Inr (Some True), h)
      | (Inr Unavailable, h) \<Rightarrow>
          (case inspect_owner env config h of
             (Inl e, h) \<Rightarrow> (Inl e, h)
           | (Inr None, h) \<Rightarrow> (Inr (Some False), h)
           | (Inr (Some _), h) \<Rightarrow> (Inr None, h))
      | (Inr (Incompatible current), h) \<Rightarrow>
          (if observation_eq current d
           then (case inspect_owner env config h of
                   (Inl e, h) \<Rightarrow> (Inl e, h)
                 | (Inr None, h) \<Rightarrow> (Inr None, h)
                 | (Inr (Some current_owner), h) \<Rightarrow>
                     (if \<not> owner_eq current_owner owner
                      then Inl (recovery_refused config d ''the ownership lease changed during handoff'')
                      else Inr None, h))
           else (Inl (recovery_refused config d ''a different incompatible daemon appeared during handoff''), h)))"

definition elapsed :: "'l daemon_env \<Rightarrow> int \<Rightarrow> history \<Rightarrow> int" where
  "elapsed env started h = max 0 (dv_now env h - started)"

partial_function (option) handoff_loop :: "'l daemon_env \<Rightarrow> server_config \<Rightarrow> daemon_observation \<Rightarrow> daemon_lease_owner \<Rightarrow> int \<Rightarrow> history
    \<Rightarrow> (bool res \<times> history) option" where
  "handoff_loop env config d owner started h =
     (if elapsed env started h < daemon_handoff_timeout
      then (case handoff_step env config d owner h of
              (Inl e, h) \<Rightarrow> Some (Inl e, h)
            | (Inr (Some b), h) \<Rightarrow> Some (Inr b, h)
            | (Inr None, h) \<Rightarrow> handoff_loop env config d owner started (EvSleep daemon_start_poll_interval # h))
      else Some (Inl (recovery_refused config d
             ''the owned daemon did not release its listener and lease within 10 seconds''), h))"

definition wait_for_daemon_handoff :: "'l daemon_env \<Rightarrow> server_config \<Rightarrow> daemon_observation \<Rightarrow> daemon_lease_owner \<Rightarrow> history
    \<Rightarrow> (bool res \<times> history) option" where
  "wait_for_daemon_handoff env config d owner h = handoff_loop env config d owner (dv_now env h) h"

text \<open>Asking the owner to step down: a token by HTTP, or a signal for a release that has no handoff.  \<open>None\<close> means the
  daemon was asked and has to be waited for.\<close>

definition request_handoff :: "'l daemon_env \<Rightarrow> server_config \<Rightarrow> daemon_observation \<Rightarrow> daemon_lease_owner \<Rightarrow> history
    \<Rightarrow> bool option res \<times> history" where
  "request_handoff env config d owner h =
     (case do_handoff_token owner of
        None \<Rightarrow> (Inl (recovery_refused config d ''the held daemon lease has no handoff capability''), h)
      | Some token \<Rightarrow>
          (case daemon_request env config ''POST'' daemon_handoff_path None (dv_show env (jobj [(''token'', JStr token)])) h of
             (Inr response, h) \<Rightarrow>
               (if wr_status response = 202 then Inr None
                else Inl (recovery_refused config d
                       (''the daemon rejected graceful handoff with HTTP '' @ show_int (wr_status response))), h)
           | (Inl e, h) \<Rightarrow> (if is_transport_interruption e then Inr None else Inl e, h)))"

definition stop_pre_handoff :: "'l daemon_env \<Rightarrow> server_config \<Rightarrow> daemon_observation \<Rightarrow> daemon_lease_owner \<Rightarrow> history
    \<Rightarrow> bool option res \<times> history" where
  "stop_pre_handoff env config d owner h =
     (if do_instance_id owner \<noteq> None \<or> do_handoff_token owner \<noteq> None
      then (Inl (recovery_refused config d ''health and lease metadata disagree about handoff support''), h)
      else case daemon_health env config h of
             (Inl e, h) \<Rightarrow> (Inl e, h)
           | (Inr Compatible, h) \<Rightarrow> (Inr (Some True), h)
           | (Inr Unavailable, h) \<Rightarrow> (Inr (Some False), h)
           | (Inr (Incompatible current), h) \<Rightarrow>
               (if observation_eq current d
                then (case terminate_pre_handoff_daemon env (do_pid owner) h of
                        (Inl e, h) \<Rightarrow> (Inl e, h)
                      | (Inr _, h) \<Rightarrow> (Inr None, h))
                else (Inl (recovery_refused config d ''the daemon identity changed before pre-handoff recovery''), h)))"

definition recover_incompatible_daemon :: "'l daemon_env \<Rightarrow> server_config \<Rightarrow> daemon_observation \<Rightarrow> history
    \<Rightarrow> (bool res \<times> history) option" where
  "recover_incompatible_daemon env config d h =
     (case validate_recoverable_daemon env h config d of
        Inl e \<Rightarrow> Some (Inl e, h)
      | Inr _ \<Rightarrow>
          (case inspect_owner env config h of
             (Inl e, h) \<Rightarrow> Some (Inl e, h)
           | (Inr None, h) \<Rightarrow> Some (state_after_missing_owner env config d h)
           | (Inr (Some owner), h) \<Rightarrow>
               (case validate_daemon_owner env h config d owner of
                  Inl e \<Rightarrow> Some (Inl e, h)
                | Inr _ \<Rightarrow>
                    (case (if dob_handoff_supported d then request_handoff else stop_pre_handoff) env config d owner h of
                       (Inl e, h) \<Rightarrow> Some (Inl e, h)
                     | (Inr (Some b), h) \<Rightarrow> Some (Inr b, h)
                     | (Inr None, h) \<Rightarrow> wait_for_daemon_handoff env config d owner h))))"

section \<open>Starting the daemon\<close>

definition daemon_log_path :: "string \<Rightarrow> string" where
  "daemon_log_path common_db_path = path_join (parent_or_dot common_db_path) ''daemon.log''"

definition serve_arguments :: "server_config \<Rightarrow> string list" where
  "serve_arguments config =
     [''serve'', ''--host'', sc_host config, ''--port'', show_int (sc_port config), ''--common-db'', sc_common_db_path config]"

definition io_step :: "io_error option \<Rightarrow> unit res" where
  "io_step r = (case r of Some e \<Rightarrow> Inl (Io e) | None \<Rightarrow> Inr ())"

definition io_value :: "io_error + 'a \<Rightarrow> 'a res" where
  "io_value r = (case r of Inl e \<Rightarrow> Inl (Io e) | Inr x \<Rightarrow> Inr x)"

definition spawn_daemon :: "'l daemon_env \<Rightarrow> server_config \<Rightarrow> history \<Rightarrow> unit res \<times> history" where
  "spawn_daemon env config h =
     (let log_path = daemon_log_path (sc_common_db_path config) in
      case bindr (io_step (dv_create_dir env h (parent_or_dot log_path))) (\<lambda>_.
           bindr (io_step (dv_open_log env h log_path)) (\<lambda>_.
           bindr (io_step (dv_clone env h)) (\<lambda>_.
           bindr (io_value (dv_current_exe env h)) (\<lambda>exe.
           bindr (io_step (dv_start env h exe (serve_arguments config) log_path)) (\<lambda>_. Inr exe))))) of
        Inl e \<Rightarrow> (Inl e, h)
      | Inr exe \<Rightarrow> (let h = EvSpawn exe (serve_arguments config) log_path # h in (io_step (dv_try_wait env h), h)))"

text \<open>One round of the wait for the started daemon: a result, or \<open>None\<close> to look again.\<close>

definition start_step :: "'l daemon_env \<Rightarrow> server_config \<Rightarrow> history \<Rightarrow> (unit option res \<times> history) option" where
  "start_step env config h =
     (case daemon_health env config h of
        (Inl e, h) \<Rightarrow> Some (Inl e, h)
      | (Inr Compatible, h) \<Rightarrow> Some (Inr (Some ()), h)
      | (Inr (Incompatible d), h) \<Rightarrow>
          Option.bind (recover_incompatible_daemon env config d h) (\<lambda>(r, h).
            case r of
              Inl e \<Rightarrow> Some (Inl e, h)
            | Inr recovered \<Rightarrow>
                if recovered then Some (Inr (Some ()), h)
                else (case spawn_daemon env config h of
                        (Inl e, h) \<Rightarrow> Some (Inl e, h)
                      | (Inr _, h) \<Rightarrow> Some (Inr None, h)))
      | (Inr Unavailable, h) \<Rightarrow> Some (Inr None, EvSleep daemon_start_poll_interval # h))"

partial_function (option) start_loop :: "'l daemon_env \<Rightarrow> server_config \<Rightarrow> int \<Rightarrow> history \<Rightarrow> (unit res \<times> history) option" where
  "start_loop env config started h =
     (if elapsed env started h < daemon_start_timeout
      then Option.bind (start_step env config h) (\<lambda>(r, h).
             case r of
               Inl e \<Rightarrow> Some (Inl e, h)
             | Inr (Some u) \<Rightarrow> Some (Inr u, h)
             | Inr None \<Rightarrow> start_loop env config started h)
      else Some (Inl (Runtime (''Coverage MCP daemon did not become healthy at http://'' @ host_authority (sc_host config) (sc_port config)
             @ ''; inspect '' @ daemon_log_path (sc_common_db_path config))), h))"

definition spawn_and_wait :: "'l daemon_env \<Rightarrow> server_config \<Rightarrow> history \<Rightarrow> (unit res \<times> history) option" where
  "spawn_and_wait env config h =
     (case spawn_daemon env config h of
        (Inl e, h) \<Rightarrow> Some (Inl e, h)
      | (Inr _, h) \<Rightarrow> start_loop env config (dv_now env h) h)"

definition ensure_daemon :: "'l daemon_env \<Rightarrow> server_config \<Rightarrow> history \<Rightarrow> (unit res \<times> history) option" where
  "ensure_daemon env config h =
     (case daemon_health env config h of
        (Inl e, h) \<Rightarrow> Some (Inl e, h)
      | (Inr Compatible, h) \<Rightarrow> Some (Inr (), h)
      | (Inr Unavailable, h) \<Rightarrow> spawn_and_wait env config h
      | (Inr (Incompatible d), h) \<Rightarrow>
          Option.bind (recover_incompatible_daemon env config d h) (\<lambda>(r, h).
            case r of
              Inl e \<Rightarrow> Some (Inl e, h)
            | Inr recovered \<Rightarrow> if recovered then Some (Inr (), h) else spawn_and_wait env config h))"

section \<open>Calling the daemon\<close>

definition daemon_request_with_recovery :: "'l daemon_env \<Rightarrow> server_config \<Rightarrow> string \<Rightarrow> string \<Rightarrow> string option \<Rightarrow> string \<Rightarrow> history
    \<Rightarrow> (wire_response res \<times> history) option" where
  "daemon_request_with_recovery env config meth path repo_path body h =
     (case daemon_request env config meth path repo_path body h of
        (Inr response, h) \<Rightarrow> Some (Inr response, h)
      | (Inl e, h) \<Rightarrow>
          if is_transport_interruption e
          then Option.bind (ensure_daemon env config h) (\<lambda>(r, h).
                 case r of
                   Inl e' \<Rightarrow> Some (Inl e', h)
                 | Inr _ \<Rightarrow> if is_connection_refused e then Some (daemon_request env config meth path repo_path body h)
                           else Some (Inl e, h))
          else Some (Inl e, h))"

definition successful_daemon_json :: "'l daemon_env \<Rightarrow> wire_response \<Rightarrow> string \<Rightarrow> json res" where
  "successful_daemon_json env response operation =
     (if wr_status response \<noteq> 200
      then Inl (Runtime (''Coverage MCP daemon could not '' @ operation @ ''; HTTP '' @ show_int (wr_status response) @ '': ''
             @ dv_lossy env (wr_body response)))
      else case dv_parse env (wr_body response) of Inl msg \<Rightarrow> Inl (Json msg) | Inr v \<Rightarrow> Inr v)"

definition mcp_answer :: "'l daemon_env \<Rightarrow> wire_response \<Rightarrow> json option res" where
  "mcp_answer env response =
     (if wr_status response = 200
      then (case dv_parse env (wr_body response) of Inl msg \<Rightarrow> Inl (Json msg) | Inr v \<Rightarrow> Inr (Some v))
      else if wr_status response = 202 then Inr None
      else Inl (Runtime (''Coverage MCP daemon returned HTTP '' @ show_int (wr_status response) @ '': '' @ dv_lossy env (wr_body response))))"

definition forward_mcp_request_with_recovery :: "'l daemon_env \<Rightarrow> server_config \<Rightarrow> string \<Rightarrow> json \<Rightarrow> history
    \<Rightarrow> (json option res \<times> history) option" where
  "forward_mcp_request_with_recovery env config repo_path request h =
     map_option (\<lambda>(r, h). (bindr r (mcp_answer env), h))
       (daemon_request_with_recovery env config ''POST'' ''/mcp/'' (Some repo_path) (dv_show env request) h)"

section \<open>Histories\<close>

text \<open>\<open>grows P h h'\<close>: the steps that lead from \<open>h\<close> to \<open>h'\<close> satisfy \<open>P\<close>, each with the history it met.\<close>

inductive grows :: "(event \<Rightarrow> history \<Rightarrow> bool) \<Rightarrow> history \<Rightarrow> history \<Rightarrow> bool" for P h where
  grows_refl [simp, intro]: "grows P h h"
| grows_step: "grows P h h' \<Longrightarrow> P e h' \<Longrightarrow> grows P h (e # h')"

lemma grows_trans: "grows P h' h'' \<Longrightarrow> grows P h h' \<Longrightarrow> grows P h h''"
  by (induction rule: grows.induct) (auto intro: grows_step)

lemma grows_one: "P e h \<Longrightarrow> grows P h (e # h)"
  by (intro grows_step grows_refl)

lemma grows_at: "grows P h h' \<Longrightarrow> h' = a @ e # t \<Longrightarrow> length h \<le> length t \<Longrightarrow> P e t"
proof (induction arbitrary: a rule: grows.induct)
  case grows_refl
  then show ?case by (metis length_append add_Suc_right impossible_Cons length_Cons not_less_eq_eq le_add2 le_trans)
next
  case (grows_step h' e')
  then show ?case by (cases a) auto
qed

lemma grows_length: "grows P h h' \<Longrightarrow> length h \<le> length h'"
  by (induction rule: grows.induct) auto

lemma grows_append: "grows P h h' \<Longrightarrow> \<exists>es. h' = es @ h"
  by (induction rule: grows.induct) auto

text \<open>What the operations that do not loop add to the history.\<close>

lemma daemon_request_event:
  assumes "daemon_request env config meth path repo body h = (r, h')"
  shows "(h' = h \<and> (\<exists>e. r = Inl e \<and> \<not> is_transport_interruption e)) \<or> (\<exists>out. h' = EvRequest meth path repo body out # h)"
  using assms by (auto simp: daemon_request_def Let_def check_request_def validate_loopback_host_def split: sum.splits if_splits)

lemma daemon_health_event:
  assumes "daemon_health env config h = (r, h')"
  shows "(h' = h \<and> isl r) \<or> (\<exists>out. h' = EvRequest ''GET'' ''/health'' None [] out # h)"
  using assms daemon_request_event[of env config "''GET''" "''/health''" None "[]" h]
  by (auto simp: daemon_health_def split: prod.splits sum.splits if_splits)

section \<open>What a connector may do\<close>

definition reported :: "'l daemon_env \<Rightarrow> server_config \<Rightarrow> daemon_observation \<Rightarrow> history \<Rightarrow> bool" where
  "reported env config d h \<longleftrightarrow> (\<exists>before. daemon_health env config before = (Inr (Incompatible d), h))"

definition older_daemon :: "'l daemon_env \<Rightarrow> history \<Rightarrow> server_config \<Rightarrow> daemon_observation \<Rightarrow> bool" where
  "older_daemon env h config d \<longleftrightarrow> dob_healthy d \<and> same_path env h (dob_common_db d) (sc_common_db_path config)
     \<and> (\<exists>running connector. parse_release (dob_version d) = Some running \<and> parse_release daemon_version = Some connector \<and> running < connector)"

definition owner_matches :: "'l daemon_env \<Rightarrow> history \<Rightarrow> server_config \<Rightarrow> daemon_observation \<Rightarrow> daemon_lease_owner \<Rightarrow> bool" where
  "owner_matches env h config d owner \<longleftrightarrow> do_resource owner = ''Coverage MCP daemon on port '' @ show_int (sc_port config)
     \<and> (\<exists>p. dob_daemon_path d = Some p \<and> same_path env h p (do_executable owner))
     \<and> dob_pid d \<in> {None, Some (do_pid owner)} \<and> dob_instance_id d = do_instance_id owner"

lemma validate_recoverable_daemon_Inr: "validate_recoverable_daemon env h config d = Inr () \<longleftrightarrow> older_daemon env h config d"
  by (auto simp: validate_recoverable_daemon_def older_daemon_def bindr_eq_Inr ok_or_def not_le split: option.splits if_splits)

lemma validate_daemon_owner_Inr: "validate_daemon_owner env h config d owner = Inr () \<longleftrightarrow> owner_matches env h config d owner"
  by (auto simp: validate_daemon_owner_def owner_matches_def bindr_eq_Inr ok_or_def split: option.splits if_splits)

text \<open>The lease was just read, and its holder is the daemon whose report preceded the reading.\<close>

definition recovery_basis :: "'l daemon_env \<Rightarrow> server_config \<Rightarrow> daemon_observation \<Rightarrow> daemon_lease_owner \<Rightarrow> history \<Rightarrow> bool" where
  "recovery_basis env config d owner h \<longleftrightarrow> (\<exists>h0. inspect_owner env config h0 = (Inr (Some owner), h) \<and> reported env config d h0
     \<and> older_daemon env h0 config d \<and> owner_matches env h config d owner)"

lemma handoff_loop_grows:
  assumes "handoff_loop env config d owner started h = Some (r, h')"
    and "\<forall>h r h'. handoff_step env config d owner h = (r, h') \<longrightarrow> grows P h h'" and "\<forall>n h. P (EvSleep n) h"
  shows "grows P h h'"
proof -
  have "\<forall>r h'. y = (r, h') \<longrightarrow> (\<forall>h r h'. handoff_step env config d owner h = (r, h') \<longrightarrow> grows P h h') \<longrightarrow> grows P h h'"
    if "handoff_loop env config d owner started h = Some y" for y
    using that
  proof (induction rule: handoff_loop.raw_induct[rotated, consumes 1, case_names step])
    case (step loop env config d owner started h y)
    show ?case
    proof (intro allI impI)
      fix r h' assume y: "y = (r, h')" and all: "\<forall>h r h'. handoff_step env config d owner h = (r, h') \<longrightarrow> grows P h h'"
      obtain sr sh where s: "handoff_step env config d owner h = (sr, sh)" by (cases "handoff_step env config d owner h")
      then have g: "grows P h sh" using all by blast
      then have sleep: "grows P h (EvSleep daemon_start_poll_interval # sh)" using assms(3) by (auto intro: grows_step)
      show "grows P h h'"
        using step.hyps y s g grows_trans[OF _ sleep] step.IH[of env config d owner started "EvSleep daemon_start_poll_interval # sh" y] all
        by (auto split: if_splits sum.splits option.splits)
    qed
  qed
  with assms(1,2) show ?thesis by blast
qed

text \<open>A property of single steps that holds for every probe, and for a handoff request and a signal when they have their
  basis, holds for every step of the operations below.\<close>

locale connector_steps =
  fixes env :: "'l daemon_env" and config :: server_config and P :: "event \<Rightarrow> history \<Rightarrow> bool"
  assumes probe: "P (EvRequest ''GET'' ''/health'' None [] out) h"
    and owner_read: "P (EvOwner r) h"
    and slept: "P (EvSleep n) h"
    and spawned: "P (EvSpawn exe args log) h"
    and asked: "recovery_basis env config d owner h \<Longrightarrow> dob_handoff_supported d \<Longrightarrow> do_handoff_token owner = Some token
      \<Longrightarrow> P (EvRequest ''POST'' daemon_handoff_path None (dv_show env (jobj [(''token'', JStr token)])) out) h"
    and signalled: "recovery_basis env config d owner h \<Longrightarrow> \<not> dob_handoff_supported d \<Longrightarrow> do_instance_id owner = None
      \<Longrightarrow> do_handoff_token owner = None \<Longrightarrow> daemon_health env config h = (Inr (Incompatible current), h')
      \<Longrightarrow> observation_eq current d \<Longrightarrow> P (EvKill (do_pid owner)) h'"
begin

lemma health_grows: "daemon_health env config h = (r, h') \<Longrightarrow> grows P h h'"
  using daemon_health_event[of env config h r h'] probe by (auto intro: grows_one)

lemma owner_grows: "inspect_owner env config h = (r, h') \<Longrightarrow> grows P h h'"
  using owner_read by (auto simp: inspect_owner_def Let_def intro: grows_one)

lemma health_owner_grows: "daemon_health env config h = (r, h1) \<Longrightarrow> inspect_owner env config h1 = (r', h') \<Longrightarrow> grows P h h'"
  using grows_trans[OF owner_grows health_grows] by blast

lemma missing_grows: "state_after_missing_owner env config d h = (r, h') \<Longrightarrow> grows P h h'"
  using health_grows by (auto simp: state_after_missing_owner_def split: prod.splits sum.splits daemon_health_state.splits)

lemma step_grows: "handoff_step env config d owner h = (r, h') \<Longrightarrow> grows P h h'"
  using health_grows health_owner_grows
  by (auto simp: handoff_step_def split: prod.splits sum.splits daemon_health_state.splits if_splits option.splits)

lemma wait_grows: "wait_for_daemon_handoff env config d owner h = Some (r, h') \<Longrightarrow> grows P h h'"
  using handoff_loop_grows[of env config d owner "dv_now env h" h r h' P] step_grows slept
  by (simp add: wait_for_daemon_handoff_def)

lemma request_grows:
  assumes "request_handoff env config d owner h = (r, h')" and "recovery_basis env config d owner h" and "dob_handoff_supported d"
  shows "grows P h h'"
proof (cases "do_handoff_token owner")
  case (Some token)
  let ?body = "dv_show env (jobj [(''token'', JStr token)])"
  obtain rr hh where rh: "daemon_request env config ''POST'' daemon_handoff_path None ?body h = (rr, hh)"
    by (cases "daemon_request env config ''POST'' daemon_handoff_path None ?body h")
  then have "grows P h hh" using daemon_request_event[OF rh] asked[OF assms(2,3) Some] by (auto intro: grows_one)
  then show ?thesis using assms(1) Some rh by (auto simp: request_handoff_def split: sum.splits if_splits)
qed (use assms in \<open>simp add: request_handoff_def\<close>)

lemma stop_grows:
  assumes "stop_pre_handoff env config d owner h = (r, h')" and "recovery_basis env config d owner h" and "\<not> dob_handoff_supported d"
  shows "grows P h h'"
proof -
  obtain rr hh where rh: "daemon_health env config h = (rr, hh)" by (cases "daemon_health env config h")
  then have g: "grows P h hh" by (rule health_grows)
  have "grows P h (EvKill (do_pid owner) # hh)"
    if "do_instance_id owner = None" "do_handoff_token owner = None" "rr = Inr (Incompatible current)" "observation_eq current d" for current
    using grows_step[OF g] signalled[OF assms(2,3)] rh that by blast
  then show ?thesis using assms(1) rh g
    by (auto simp: stop_pre_handoff_def terminate_pre_handoff_daemon_def split: sum.splits daemon_health_state.splits if_splits)
qed

lemma recover_grows:
  assumes "recover_incompatible_daemon env config d h = Some (r, h')" and "reported env config d h"
  shows "grows P h h'"
proof (cases "validate_recoverable_daemon env h config d")
  case (Inr u)
  then have older: "older_daemon env h config d" by (simp add: validate_recoverable_daemon_Inr)
  obtain ro ho where o1: "inspect_owner env config h = (ro, ho)" by (cases "inspect_owner env config h")
  then have go: "grows P h ho" by (rule owner_grows)
  show ?thesis
  proof (cases "\<exists>owner. ro = Inr (Some owner) \<and> validate_daemon_owner env ho config d owner = Inr ()")
    case True
    then obtain owner where owner: "ro = Inr (Some owner)" "owner_matches env ho config d owner" "validate_daemon_owner env ho config d owner = Inr ()"
      by (auto simp: validate_daemon_owner_Inr)
    then have basis: "recovery_basis env config d owner ho" using o1 older assms(2) by (auto simp: recovery_basis_def)
    obtain rs hs where s: "(if dob_handoff_supported d then request_handoff else stop_pre_handoff) env config d owner ho = (rs, hs)"
      by (cases "(if dob_handoff_supported d then request_handoff else stop_pre_handoff) env config d owner ho")
    then have gs: "grows P h hs"
      using grows_trans[OF _ go] request_grows[OF _ basis] stop_grows[OF _ basis] by (auto split: if_splits)
    with assms(1) Inr o1 owner s show ?thesis
      using grows_trans[OF wait_grows gs] by (auto simp: recover_incompatible_daemon_def split: sum.splits option.splits)
  next
    case False
    then show ?thesis using assms(1) Inr o1 go grows_trans[OF missing_grows go]
      by (auto simp: recover_incompatible_daemon_def split: sum.splits option.splits)
  qed
qed (use assms in \<open>simp add: recover_incompatible_daemon_def\<close>)

lemma spawn_grows: "spawn_daemon env config h = (r, h') \<Longrightarrow> grows P h h'"
  using spawned by (auto simp: spawn_daemon_def Let_def split: sum.splits intro: grows_one)

end

context connector_steps
begin

lemma start_step_after_grows:
  assumes "start_step env config h = Some (r, h')" and rh: "daemon_health env config h = (rr, hh)"
  shows "grows P hh h'"
proof (cases "\<exists>d. rr = Inr (Incompatible d)")
  case True
  then obtain d where d: "rr = Inr (Incompatible d)" by blast
  with assms rh obtain r2 h2 where r2: "recover_incompatible_daemon env config d hh = Some (r2, h2)"
    by (auto simp: start_step_def bind_eq_Some_conv)
  have g2: "grows P hh h2" using recover_grows[OF r2] d rh by (auto simp: reported_def)
  obtain r3 h3 where r3: "spawn_daemon env config h2 = (r3, h3)" by (cases "spawn_daemon env config h2")
  have "h' \<in> {h2, h3}" using assms(1)[symmetric] rh d r2 r3 by (cases r2; cases r3) (simp_all add: start_step_def split: if_splits)
  then show ?thesis using g2 grows_trans[OF spawn_grows[OF r3] g2] by blast
next
  case False
  then show ?thesis using assms grows_one[of P "EvSleep daemon_start_poll_interval" hh] slept
    by (auto simp: start_step_def split: sum.splits daemon_health_state.splits)
qed

lemma start_step_grows: "start_step env config h = Some (r, h') \<Longrightarrow> grows P h h'"
  using grows_trans[OF start_step_after_grows health_grows] by (metis prod.collapse)

lemma loop_grows: "start_loop env config started h = Some (r, h') \<Longrightarrow> grows P h h'"
proof -
  have "e = env \<longrightarrow> c = config \<longrightarrow> grows P h (snd y)" if "start_loop e c started h = Some y" for e c started h y
    using that
  proof (induction rule: start_loop.raw_induct[rotated, consumes 1, case_names step])
    case (step loop e c started h y)
    have "grows P h (snd y)" if "e = env" "c = config" "start_step env config h = Some (r, k)" for r k
      using step.hyps step.IH[of env config started k] that start_step_grows[OF that(3)] grows_trans
      by (auto split: if_splits sum.splits option.splits)
    then show ?case using step.hyps by (fastforce split: if_splits bind_splits)
  qed
  then show "start_loop env config started h = Some (r, h') \<Longrightarrow> grows P h h'" by force
qed

lemma spawn_wait_grows: "spawn_and_wait env config h = Some (r, h') \<Longrightarrow> grows P h h'"
  using spawn_grows grows_trans[OF loop_grows spawn_grows]
  by (auto simp: spawn_and_wait_def split: prod.splits sum.splits)

lemma ensure_grows:
  assumes "ensure_daemon env config h = Some (r, h')"
  shows "grows P h h'"
proof -
  obtain rr hh where rh: "daemon_health env config h = (rr, hh)" by (cases "daemon_health env config h")
  then have g: "grows P h hh" by (rule health_grows)
  have rec: "grows P h h2" if "rr = Inr (Incompatible d)" "recover_incompatible_daemon env config d hh = Some (r2, h2)" for d r2 h2
    using grows_trans[OF recover_grows[OF that(2)] g] that(1) rh by (auto simp: reported_def)
  show ?thesis using assms rh g rec grows_trans[OF spawn_wait_grows g] grows_trans[OF spawn_wait_grows rec]
    by (auto simp: ensure_daemon_def split: sum.splits daemon_health_state.splits bind_splits prod.splits if_splits)
qed

end

text \<open>Requests of the recovery are probes or handoffs, and handoffs and signals have their basis.\<close>

definition justified :: "'l daemon_env \<Rightarrow> server_config \<Rightarrow> event \<Rightarrow> history \<Rightarrow> bool" where
  "justified env config e h \<longleftrightarrow>
     (\<forall>pid. e = EvKill pid \<longrightarrow> (\<exists>d owner h1 current. recovery_basis env config d owner h1 \<and> \<not> dob_handoff_supported d
        \<and> daemon_health env config h1 = (Inr (Incompatible current), h) \<and> observation_eq current d \<and> pid = do_pid owner))
     \<and> (\<forall>meth path repo body out. e = EvRequest meth path repo body out \<longrightarrow> meth = ''GET'' \<and> path = ''/health''
        \<or> meth = ''POST'' \<and> path = daemon_handoff_path
          \<and> (\<exists>d owner token. recovery_basis env config d owner h \<and> dob_handoff_supported d \<and> do_handoff_token owner = Some token
               \<and> body = dv_show env (jobj [(''token'', JStr token)])))"

interpretation recovery: connector_steps env config "justified env config" for env config
  by unfold_locales (auto simp: justified_def)

section \<open>What a successful start means\<close>

lemma daemon_health_Compatible:
  assumes "daemon_health env config h = (Inr Compatible, h')"
  shows "\<exists>sent response v. h' = EvRequest ''GET'' ''/health'' None [] (Answered sent) # h
    \<and> parse_http_response sent = Inr response \<and> wr_status response = 200 \<and> dv_parse env (wr_body response) = Inr v
    \<and> dob_healthy (observed_daemon v) \<and> dob_version (observed_daemon v) = daemon_version
    \<and> dob_schema (observed_daemon v) = schema_revision \<and> same_path env h' (dob_common_db (observed_daemon v)) (sc_common_db_path config)"
  using assms
  by (auto simp: daemon_health_def daemon_request_def classify_daemon_def Let_def
      split: sum.splits if_splits exchange.splits)

lemma handoff_step_True:
  "handoff_step env config d owner h = (Inr (Some True), h') \<Longrightarrow> \<exists>before. daemon_health env config before = (Inr Compatible, h')"
  by (fastforce simp: handoff_step_def split: prod.splits sum.splits daemon_health_state.splits if_splits option.splits)

lemma handoff_loop_True:
  assumes "handoff_loop env config d owner started h = Some (Inr True, h')"
  shows "\<exists>before. daemon_health env config before = (Inr Compatible, h')"
proof -
  have "y = (Inr True, h') \<longrightarrow> (\<exists>before. daemon_health env config before = (Inr Compatible, h'))"
    if "handoff_loop env config d owner started h = Some y" for y
    using that
  proof (induction rule: handoff_loop.raw_induct[rotated, consumes 1, case_names step])
    case (step loop env config d owner started h y)
    obtain sr sh where s: "handoff_step env config d owner h = (sr, sh)" by (cases "handoff_step env config d owner h")
    then show ?case using step.hyps step.IH handoff_step_True[of env config d owner h sh]
      by (auto split: if_splits sum.splits option.splits)
  qed
  with assms show ?thesis by blast
qed

lemma recover_True:
  assumes "recover_incompatible_daemon env config d h = Some (Inr True, h')"
  shows "\<exists>before. daemon_health env config before = (Inr Compatible, h')"
proof -
  have missing: "state_after_missing_owner env config d k = (Inr True, h') \<Longrightarrow> ?thesis" for k
    by (fastforce simp: state_after_missing_owner_def split: prod.splits sum.splits daemon_health_state.splits)
  have stopped: "stop_pre_handoff env config d owner k = (Inr (Some True), h') \<Longrightarrow> ?thesis" for owner k
    by (fastforce simp: stop_pre_handoff_def split: prod.splits sum.splits daemon_health_state.splits if_splits)
  have asked: "request_handoff env config d owner k \<noteq> (Inr (Some True), h')" for owner k
    by (auto simp: request_handoff_def split: option.splits prod.splits sum.splits if_splits)
  show ?thesis using assms missing stopped asked handoff_loop_True
    by (auto simp: recover_incompatible_daemon_def wait_for_daemon_handoff_def
        split: sum.splits prod.splits option.splits if_splits)
qed

lemma start_step_True:
  assumes "start_step env config h = Some (Inr (Some u), h')"
  shows "\<exists>before. daemon_health env config before = (Inr Compatible, h')"
proof -
  obtain rr hh where rh: "daemon_health env config h = (rr, hh)" by (cases "daemon_health env config h")
  show ?thesis using assms[symmetric] rh recover_True[of env config _ hh h']
    by (auto simp: start_step_def bind_eq_Some_conv split: sum.splits daemon_health_state.splits prod.splits if_splits bind_splits)
qed

lemma start_loop_True:
  assumes "start_loop env config started h = Some (Inr (), h')"
  shows "\<exists>before. daemon_health env config before = (Inr Compatible, h')"
proof -
  have "y = (Inr (), h') \<longrightarrow> (\<exists>before. daemon_health env config before = (Inr Compatible, h'))"
    if "start_loop env config started h = Some y" for y
    using that
  proof (induction rule: start_loop.raw_induct[rotated, consumes 1, case_names step])
    case (step loop env config started h y)
    then show ?case using start_step_True[of env config h _ h']
      by (fastforce split: if_splits bind_splits sum.splits option.splits prod.splits)
  qed
  with assms show ?thesis by blast
qed

lemma ensure_True:
  assumes "ensure_daemon env config h = Some (Inr (), h')"
  shows "\<exists>before. daemon_health env config before = (Inr Compatible, h')"
proof -
  have sw: "spawn_and_wait env config k = Some (Inr (), h') \<Longrightarrow> ?thesis" for k
    using start_loop_True by (auto simp: spawn_and_wait_def split: prod.splits sum.splits)
  show ?thesis using assms sw recover_True[of env config _ _ h']
    by (fastforce simp: ensure_daemon_def split: prod.splits sum.splits daemon_health_state.splits bind_splits if_splits)
qed

section \<open>The loops end\<close>

text \<open>Of the clock it is assumed that it does not run backwards and that a sleep lasts as long as it should; for the
  start loop, also that an exchange with a daemon takes some time.\<close>

definition clock_runs :: "'l daemon_env \<Rightarrow> bool" where
  "clock_runs env \<longleftrightarrow> (\<forall>e h. dv_now env h \<le> dv_now env (e # h)) \<and> (\<forall>n h. dv_now env h + n \<le> dv_now env (EvSleep n # h))"

definition requests_take_time :: "'l daemon_env \<Rightarrow> bool" where
  "requests_take_time env \<longleftrightarrow> (\<forall>meth path repo body out h. dv_now env h < dv_now env (EvRequest meth path repo body out # h))"

interpretation anything: connector_steps env config "\<lambda>_ _. True" for env config
  by unfold_locales simp_all

lemma clock_mono: "clock_runs env \<Longrightarrow> grows P h h' \<Longrightarrow> dv_now env h \<le> dv_now env h'"
  by (rotate_tac 1, induction rule: grows.induct) (auto simp: clock_runs_def intro: order_trans)

lemma handoff_loop_returns:
  assumes "clock_runs env"
  shows "\<exists>y. handoff_loop env config d owner started h = Some y"
proof (induction "nat (started + daemon_handoff_timeout - dv_now env h)" arbitrary: h rule: less_induct)
  case less
  obtain sr sh where s: "handoff_step env config d owner h = (sr, sh)" by (cases "handoff_step env config d owner h")
  show ?case
  proof (cases "elapsed env started h < daemon_handoff_timeout \<and> sr = Inr None")
    case True
    let ?next = "EvSleep daemon_start_poll_interval # sh"
    have "dv_now env h + daemon_start_poll_interval \<le> dv_now env ?next"
      using clock_mono[OF assms anything.step_grows[OF s]] assms unfolding clock_runs_def by (meson add_right_mono order_trans)
    then have "nat (started + daemon_handoff_timeout - dv_now env ?next) < nat (started + daemon_handoff_timeout - dv_now env h)"
      using True by (simp add: elapsed_def daemon_start_poll_interval_def daemon_handoff_timeout_def)
    from less[OF this] True s show ?thesis by (subst handoff_loop.simps) simp
  next
    case False
    then show ?thesis using s by (subst handoff_loop.simps) (auto split: sum.splits option.splits)
  qed
qed

lemma recover_returns: "clock_runs env \<Longrightarrow> \<exists>y. recover_incompatible_daemon env config d h = Some y"
  using handoff_loop_returns
  by (auto simp: recover_incompatible_daemon_def wait_for_daemon_handoff_def split: sum.splits prod.splits option.splits)

lemma start_step_returns: "clock_runs env \<Longrightarrow> \<exists>y. start_step env config h = Some y"
proof -
  assume "clock_runs env"
  then have rec: "recover_incompatible_daemon env config d k = None \<longleftrightarrow> False" for d k using recover_returns[of env config d k] by auto
  have "start_step env config h \<noteq> None"
    by (auto simp: start_step_def rec split: prod.splits sum.splits daemon_health_state.splits bind_splits)
  then show ?thesis by blast
qed

lemma start_step_takes_time:
  assumes "clock_runs env" and "requests_take_time env" and "start_step env config h = Some (Inr r, h')"
  shows "dv_now env h < dv_now env h'"
proof -
  obtain rr hh where rh: "daemon_health env config h = (rr, hh)" by (cases "daemon_health env config h")
  then have "dv_now env h < dv_now env hh"
    using daemon_health_event[OF rh] assms(2,3) by (auto simp: start_step_def requests_take_time_def split: sum.splits)
  also have "\<dots> \<le> dv_now env h'" using clock_mono[OF assms(1) anything.start_step_after_grows[OF assms(3) rh]] .
  finally show ?thesis .
qed

lemma start_loop_returns:
  assumes "clock_runs env" and "requests_take_time env"
  shows "\<exists>y. start_loop env config started h = Some y"
proof (induction "nat (started + daemon_start_timeout - dv_now env h)" arbitrary: h rule: less_induct)
  case less
  obtain sr sh where s: "start_step env config h = Some (sr, sh)" using start_step_returns[OF assms(1)] by fast
  show ?case
  proof (cases "elapsed env started h < daemon_start_timeout \<and> sr = Inr None")
    case True
    then have "dv_now env h < dv_now env sh" using start_step_takes_time[OF assms] s by blast
    then have "nat (started + daemon_start_timeout - dv_now env sh) < nat (started + daemon_start_timeout - dv_now env h)"
      using True by (simp add: elapsed_def daemon_start_timeout_def)
    from less[OF this] True s show ?thesis by (subst start_loop.simps) simp
  next
    case False
    then show ?thesis using s by (subst start_loop.simps) (auto split: sum.splits option.splits)
  qed
qed

lemma ensure_returns:
  assumes "clock_runs env" and "requests_take_time env"
  shows "\<exists>y. ensure_daemon env config h = Some y"
proof -
  have rec: "recover_incompatible_daemon env config d k = None \<longleftrightarrow> False" for d k using recover_returns[OF assms(1), of config d k] by auto
  have start: "\<exists>r k'. spawn_and_wait env config k = Some (r, k')" for k
    using start_loop_returns[OF assms] by (auto simp: spawn_and_wait_def split: prod.splits sum.splits)
  have "ensure_daemon env config h \<noteq> None"
    by (auto simp: ensure_daemon_def rec start split: prod.splits sum.splits daemon_health_state.splits bind_splits if_splits)
  then show ?thesis by blast
qed

section \<open>Requests are not repeated\<close>

definition delivered :: "string \<Rightarrow> string \<Rightarrow> event \<Rightarrow> bool" where
  "delivered meth path e \<longleftrightarrow> (\<exists>repo body out. e = EvRequest meth path repo body out \<and> (\<forall>m. out \<noteq> Failed (IoConnectionRefused m)))"

lemma grows_filter: "grows (\<lambda>e h. \<not> Q e) h h' \<Longrightarrow> \<exists>es. h' = es @ h \<and> filter Q es = []"
  by (induction rule: grows.induct) (auto intro: exI[of _ "_ # _"])

lemma grows_mono: "grows P h h' \<Longrightarrow> (\<And>e h. P e h \<Longrightarrow> Q e h) \<Longrightarrow> grows Q h h'"
  by (induction rule: grows.induct) (auto intro: grows_step)

lemma ensure_delivers_nothing:
  assumes "ensure_daemon env config h = Some (r, h')" and "(meth, path) \<notin> {(''GET'', ''/health''), (''POST'', daemon_handoff_path)}"
  shows "\<exists>es. h' = es @ h \<and> filter (delivered meth path) es = []"
proof (rule grows_filter, rule grows_mono[OF recovery.ensure_grows[OF assms(1)]])
  fix e h assume "justified env config e h"
  then show "\<not> delivered meth path e" using assms(2) by (auto simp: justified_def delivered_def)
qed

lemma is_connection_refused_iff: "is_connection_refused e \<longleftrightarrow> (\<exists>m. e = Io (IoConnectionRefused m))"
  by (cases e rule: is_connection_refused.cases) auto

lemma daemon_request_once:
  assumes "daemon_request env config meth path repo body h = (r, h')"
  shows "\<exists>es. h' = es @ h \<and> length (filter (delivered meth path) es)
      = (case r of Inl e \<Rightarrow> if is_connection_refused e \<or> h' = h then 0 else 1 | Inr _ \<Rightarrow> 1)"
proof (cases "check_request config repo")
  case (Inr u)
  then obtain out where h': "h' = EvRequest meth path repo body out # h" using assms by (auto simp: daemon_request_def Let_def)
  have "\<not> is_connection_refused e" if "parse_http_response b = Inl e" for b e
    using that by (auto simp: parse_http_response_def Let_def bindr_eq_Inl ok_or_def split: option.splits if_splits)
  then show ?thesis using assms h' Inr unfolding is_connection_refused_iff
    by (intro exI[of _ "[EvRequest meth path repo body out]"])
      (auto simp: daemon_request_def Let_def delivered_def split: exchange.splits if_splits sum.splits io_error.splits)
qed (use assms in \<open>auto simp: daemon_request_def\<close>)

lemma recovered_request_once:
  assumes "daemon_request_with_recovery env config meth path repo body h = Some (r, h')"
    and "(meth, path) \<notin> {(''GET'', ''/health''), (''POST'', daemon_handoff_path)}"
  shows "\<exists>es. h' = es @ h \<and> length (filter (delivered meth path) es) \<le> 1
    \<and> (\<not> isl r \<longrightarrow> length (filter (delivered meth path) es) = 1)"
proof -
  let ?D = "delivered meth path"
  obtain r1 h1 where r1: "daemon_request env config meth path repo body h = (r1, h1)"
    by (cases "daemon_request env config meth path repo body h")
  obtain es1 where es1: "h1 = es1 @ h" "length (filter ?D es1) =
      (case r1 of Inl e \<Rightarrow> if is_connection_refused e \<or> h1 = h then 0 else 1 | Inr _ \<Rightarrow> 1)"
    using daemon_request_once[OF r1] by blast
  show ?thesis
  proof (cases "\<exists>e. r1 = Inl e \<and> is_transport_interruption e")
    case True
    then obtain e where e: "r1 = Inl e" "is_transport_interruption e" by blast
    with assms(1) r1 obtain r2 h2 where r2: "ensure_daemon env config h1 = Some (r2, h2)"
      by (auto simp: daemon_request_with_recovery_def bind_eq_Some_conv)
    then obtain es2 where es2: "h2 = es2 @ h1" "filter ?D es2 = []" using ensure_delivers_nothing[OF _ assms(2)] by blast
    obtain r3 h3 where r3: "daemon_request env config meth path repo body h2 = (r3, h3)"
      by (cases "daemon_request env config meth path repo body h2")
    obtain es3 where es3: "h3 = es3 @ h2" "length (filter ?D es3) =
        (case r3 of Inl e \<Rightarrow> if is_connection_refused e \<or> h3 = h2 then 0 else 1 | Inr _ \<Rightarrow> 1)"
      using daemon_request_once[OF r3] by blast
    have "r = r3 \<and> h' = h3 \<and> is_connection_refused e \<or> isl r \<and> h' = h2"
      using assms(1) r1 e r2 r3 by (auto simp: daemon_request_with_recovery_def split: sum.splits if_splits)
    then show ?thesis
    proof (elim disjE conjE)
      assume "r = r3" "h' = h3" "is_connection_refused e"
      then show ?thesis using es1 es2 es3 e
        by (intro exI[of _ "es3 @ es2 @ es1"]) (auto split: sum.splits if_splits)
    next
      assume "isl r" "h' = h2"
      then show ?thesis using es1 es2 e by (intro exI[of _ "es2 @ es1"]) (auto split: if_splits)
    qed
  next
    case False
    then show ?thesis using assms(1) r1 es1
      by (intro exI[of _ es1]) (auto simp: daemon_request_with_recovery_def split: sum.splits if_splits)
  qed
qed

lemma recovered_request_returns:
  assumes "clock_runs env" and "requests_take_time env"
  shows "\<exists>r h'. daemon_request_with_recovery env config meth path repo body h = Some (r, h')"
proof -
  have "\<exists>r k'. ensure_daemon env config k = Some (r, k')" for k using ensure_returns[OF assms, of config k] by auto
  then have "daemon_request_with_recovery env config meth path repo body h \<noteq> None"
    by (auto simp: daemon_request_with_recovery_def split: prod.splits sum.splits bind_splits if_splits) (metis option.distinct(1))+
  then show ?thesis by auto
qed

section \<open>A takeover\<close>

text \<open>A daemon of an older release, without handoff, holds the lease as process 7; it exits when signalled, and the
  daemon the connector starts then answers.\<close>

definition reply :: "string \<Rightarrow> exchange" where
  "reply body = Answered (response_text 200 ''OK'' [''Content-Length: 3''] body)"

definition old_report :: json where
  "old_report = jobj [(''status'', JStr ''ok''), (''version'', JStr ''0.15.2''), (''schema_revision'', JInt 17),
     (''common_db_path'', JStr ''/h/common.duckdb''), (''daemon_path'', JStr ''/bin/old''), (''pid'', JInt 7)]"

definition new_report :: json where
  "new_report = jobj [(''status'', JStr ''ok''), (''version'', JStr ''0.16.0''), (''schema_revision'', JInt 18),
     (''common_db_path'', JStr ''/h/common.duckdb'')]"

definition old_owner :: daemon_lease_owner where
  "old_owner = \<lparr>do_pid = 7, do_resource = ''Coverage MCP daemon on port 59471'', do_executable = ''/bin/old'',
     do_instance_id = None, do_handoff_token = None\<rparr>"

definition old_world :: "(string \<Rightarrow> handle option) lease_world" where
  "old_world = \<lparr>lw_files = [''/h/daemon.lock'' \<mapsto> unlines [''pid=7'', ''resource=Coverage MCP daemon on port 59471'', ''executable=/bin/old'']],
     lw_locks = [''/h/daemon.lock'' \<mapsto> 0], lw_next = 1\<rparr>"

definition gone :: "history \<Rightarrow> bool" where
  "gone h \<longleftrightarrow> EvKill 7 \<in> set h"

definition launched :: "history \<Rightarrow> bool" where
  "launched h \<longleftrightarrow> list_ex (\<lambda>e. case e of EvSpawn _ _ _ \<Rightarrow> True | _ \<Rightarrow> False) h"

definition step_time :: "event \<Rightarrow> int" where
  "step_time e = (case e of EvSleep n \<Rightarrow> max 0 n | _ \<Rightarrow> 1)"

definition takeover_env :: "(string \<Rightarrow> handle option) daemon_env" where
  "takeover_env = \<lparr>
     dv_exchange = (\<lambda>h _ _ _. if \<not> gone h then reply ''old'' else if launched h then reply ''new'' else Failed (IoConnectionRefused [])),
     dv_locks = flock_ops, dv_os = (\<lambda>_. quiet_os), dv_world = (\<lambda>h. if gone h then fresh_world else old_world),
     dv_kill = (\<lambda>_ _. Inr True), dv_create_dir = (\<lambda>_ _. None), dv_open_log = (\<lambda>_ _. None), dv_clone = (\<lambda>_. None),
     dv_current_exe = (\<lambda>_. Inr ''/bin/new''), dv_start = (\<lambda>_ _ _ _. None), dv_try_wait = (\<lambda>_. None),
     dv_now = (\<lambda>h. sum_list (map step_time h)), dv_canon = (\<lambda>_ _. None),
     dv_parse = (\<lambda>b. if b = ''old'' then Inr old_report else if b = ''new'' then Inr new_report else Inl []),
     dv_show = (\<lambda>_. []), dv_lossy = (\<lambda>b. b)\<rparr>"

lemma takeover_clock: "clock_runs takeover_env \<and> requests_take_time takeover_env"
  by (auto simp: clock_runs_def requests_take_time_def takeover_env_def step_time_def split: event.splits)

lemma reply_ok:
  assumes "length body = 3"
  shows "response_ok 200 ''OK'' [''Content-Length: 3''] body"
    and "length (response_text 200 ''OK'' [''Content-Length: 3''] body) \<le> 100"
proof -
  have "utf8_valid (response_head 200 ''OK'' [''Content-Length: 3''])" "find_map header_length [''Content-Length: 3''] = Some 3"
    "one_line ''OK''" "header_line ''Content-Length: 3''" by code_simp+
  moreover have len: "length (show_int 200) = 3" by code_simp
  then have "length (response_head 200 ''OK'' [''Content-Length: 3'']) \<le> http_header_limit"
    by (simp add: response_head_def http_header_limit_def crlf_def)
  ultimately show "response_ok 200 ''OK'' [''Content-Length: 3''] body" using assms by (simp add: response_ok_def)
  show "length (response_text 200 ''OK'' [''Content-Length: 3''] body) \<le> 100"
    using len assms by (simp add: response_text_def response_head_def crlf_def)
qed

lemma parse_response_text:
  "response_ok status reason headers body \<Longrightarrow>
     parse_http_response (response_text status reason headers body) = Inr \<lparr>wr_status = status, wr_body = body\<rparr>"
  using parse_response_prefix[of status reason headers body body] by (simp add: response_text_def)

lemmas reply_read = parse_response_text[OF reply_ok(1)] reply_ok(2)

lemma takeover_request:
  assumes "check_request default_config repo = Inr ()"
  shows "daemon_request takeover_env default_config meth path repo body h =
    (let out = dv_exchange takeover_env h [] 0 [] in
     (if \<not> gone h then Inr \<lparr>wr_status = 200, wr_body = ''old''\<rparr>
      else if launched h then Inr \<lparr>wr_status = 200, wr_body = ''new''\<rparr> else Inl (Io (IoConnectionRefused [])),
      EvRequest meth path repo body out # h))"
proof -
  have "take n m = m \<and> length m \<le> n" if "length m \<le> 100" "100 \<le> n" for m :: string and n using that by simp
  note small = this[OF reply_read(2)]
  show ?thesis using assms reply_read(1)[of "''old''"] reply_read(1)[of "''new''"]
      small[of "''old''" "nat (sc_http_max_body_bytes default_config) + http_header_limit"]
      small[of "''new''" "nat (sc_http_max_body_bytes default_config) + http_header_limit"]
    by (simp add: daemon_request_def takeover_env_def reply_def Let_def default_config_def http_header_limit_def)
qed

lemma takeover_health:
  "daemon_health takeover_env default_config h =
    (Inr (if \<not> gone h then Incompatible (observed_daemon old_report) else if launched h then Compatible else Unavailable),
     EvRequest ''GET'' ''/health'' None [] (dv_exchange takeover_env h [] 0 []) # h)"
proof -
  have ok: "check_request default_config None = Inr ()" by (simp add: check_request_def validate_loopback_host_def default_config_def)
  have "dob_version (observed_daemon old_report) \<noteq> daemon_version" by code_simp
  moreover have "dob_healthy (observed_daemon new_report)" "dob_version (observed_daemon new_report) = daemon_version"
    "dob_schema (observed_daemon new_report) = schema_revision" "dob_common_db (observed_daemon new_report) = ''/h/common.duckdb''"
    by code_simp+
  moreover have "dv_parse takeover_env ''old'' = Inr old_report" "dv_parse takeover_env ''new'' = Inr new_report"
    by (simp_all add: takeover_env_def)
  moreover have "same_path takeover_env k ''/h/common.duckdb'' (sc_common_db_path default_config)" for k
    by (simp add: same_path_def takeover_env_def default_config_def)
  ultimately show ?thesis
    by (simp add: daemon_health_def takeover_request[OF ok] Let_def classify_daemon_def)
qed

lemma takeover_owner:
  "inspect_owner takeover_env default_config h =
     (Inr (if gone h then None else Some old_owner), EvOwner (Inr (if gone h then None else Some old_owner)) # h)"
proof -
  have path: "daemon_lock_path (sc_common_db_path default_config) = ''/h/daemon.lock''" by code_simp
  have "read_metadata_text quiet_os ''/h/daemon.lock'' (old_world\<lparr>lw_next := 2\<rparr>) =
      Inr (unlines [''pid=7'', ''resource=Coverage MCP daemon on port 59471'', ''executable=/bin/old''])"
    "parse_daemon_owner (unlines [''pid=7'', ''resource=Coverage MCP daemon on port 59471'', ''executable=/bin/old'']) = Inr old_owner"
    by code_simp+
  then have "fst (held_daemon_owner flock_ops quiet_os ''/h/daemon.lock'' old_world) = Inr (Some old_owner)"
    by (simp add: held_daemon_owner_def old_world_def flock_ops_def quiet_os_def Let_def numeral_2_eq_2)
  moreover have "fst (held_daemon_owner flock_ops quiet_os ''/h/daemon.lock'' fresh_world) = Inr None"
    by (simp add: held_daemon_owner_def fresh_world_def)
  ultimately show ?thesis by (simp add: inspect_owner_def path takeover_env_def Let_def)
qed

lemma takeover_valid:
  "validate_recoverable_daemon takeover_env h default_config (observed_daemon old_report) = Inr ()"
  "validate_daemon_owner takeover_env h default_config (observed_daemon old_report) old_owner = Inr ()"
proof -
  have "dob_healthy (observed_daemon old_report)" "dob_common_db (observed_daemon old_report) = sc_common_db_path default_config"
    "parse_release (dob_version (observed_daemon old_report)) = Some (ReleaseVersion 0 15 2)"
    "parse_release daemon_version = Some (ReleaseVersion 0 16 0)" by code_simp+
  then show "validate_recoverable_daemon takeover_env h default_config (observed_daemon old_report) = Inr ()"
    by (simp add: validate_recoverable_daemon_Inr older_daemon_def same_path_def less_release_version_def split: option.splits)
  have "do_resource old_owner = ''Coverage MCP daemon on port '' @ show_int (sc_port default_config)"
    "dob_daemon_path (observed_daemon old_report) = Some (do_executable old_owner)"
    "dob_pid (observed_daemon old_report) = Some (do_pid old_owner)"
    "dob_instance_id (observed_daemon old_report) = do_instance_id old_owner" by code_simp+
  then show "validate_daemon_owner takeover_env h default_config (observed_daemon old_report) old_owner = Inr ()"
    by (simp add: validate_daemon_owner_Inr owner_matches_def same_path_def split: option.splits)
qed

lemma takeover_spawn:
  "spawn_daemon takeover_env default_config h =
     (Inr (), EvSpawn ''/bin/new'' (serve_arguments default_config) (daemon_log_path (sc_common_db_path default_config)) # h)"
  by (simp add: spawn_daemon_def takeover_env_def io_step_def io_value_def Let_def)

lemma takeover_start_loop: "launched h \<Longrightarrow> gone h \<Longrightarrow>
   start_loop takeover_env default_config (dv_now takeover_env h) h =
     Some (Inr (), EvRequest ''GET'' ''/health'' None [] (dv_exchange takeover_env h [] 0 []) # h)"
  by (subst start_loop.simps) (simp add: start_step_def takeover_health elapsed_def daemon_start_timeout_def)

lemma takeover_run: "\<exists>later t. ensure_daemon takeover_env default_config [] = Some (Inr (), later @ EvKill 7 # t)"
proof -
  have facts: "\<not> dob_handoff_supported (observed_daemon old_report)" "do_instance_id old_owner = None"
    "do_handoff_token old_owner = None" "do_pid old_owner = 7" by code_simp+
  have eq: "observation_eq d d" for d by (simp add: observation_eq_def)
  have wait: "wait_for_daemon_handoff takeover_env default_config d owner h =
      Some (Inr False, EvOwner (Inr None) # EvRequest ''GET'' ''/health'' None [] (dv_exchange takeover_env h [] 0 []) # h)"
    if "gone h" "\<not> launched h" for d owner h
    unfolding wait_for_daemon_handoff_def using that
    by (subst handoff_loop.simps)
      (simp add: handoff_step_def takeover_health takeover_owner elapsed_def daemon_handoff_timeout_def gone_def)
  have kill: "dv_kill takeover_env h pid = Inr True" for h pid by (simp add: takeover_env_def)
  note run = takeover_health takeover_owner takeover_valid takeover_spawn facts eq wait kill
  let ?h1 = "[EvRequest ''GET'' ''/health'' None [] (dv_exchange takeover_env [] [] 0 [])]"
  let ?h2 = "EvOwner (Inr (Some old_owner)) # ?h1"
  let ?h3 = "EvRequest ''GET'' ''/health'' None [] (dv_exchange takeover_env ?h2 [] 0 []) # ?h2"
  have alive: "\<not> gone []" "\<not> gone ?h1" "\<not> gone ?h2" "gone (EvKill 7 # ?h3)" "\<not> launched (EvKill 7 # ?h3)"
    by (simp_all add: gone_def launched_def)
  then have "recover_incompatible_daemon takeover_env default_config (observed_daemon old_report) ?h1 =
      Some (Inr False, EvOwner (Inr None) # EvRequest ''GET'' ''/health'' None [] (dv_exchange takeover_env (EvKill 7 # ?h3) [] 0 []) # EvKill 7 # ?h3)"
    by (simp add: recover_incompatible_daemon_def stop_pre_handoff_def terminate_pre_handoff_daemon_def run)
  moreover have "launched (EvSpawn x y z # h)" for x y z h by (simp add: launched_def)
  ultimately show ?thesis using alive(1)
    by (simp add: ensure_daemon_def run spawn_and_wait_def takeover_start_loop gone_def) (metis append_Cons append_Nil)
qed

section \<open>Properties\<close>

text \<open>C5. A connector stops no daemon but a verified older one.  Whenever the recovery sends a signal or a handoff
  token, a daemon had reported, over the same database, a release older than the connector's, the lease of that
  database was then held by an owner with the reported executable, process and instance, and it is this owner that
  gets the token or the signal; before a signal the daemon has repeated its report.\<close>

theorem stops_only_older_owner:
  assumes "ensure_daemon env config h = Some (r, h')" and "h' = later @ e # t" and "length h \<le> length t"
  shows "(\<forall>pid. e = EvKill pid \<longrightarrow>
      (\<exists>d owner h1 current. recovery_basis env config d owner h1 \<and> pid = do_pid owner \<and> \<not> dob_handoff_supported d
         \<and> daemon_health env config h1 = (Inr (Incompatible current), t) \<and> observation_eq current d))
    \<and> (\<forall>repo body out. e = EvRequest ''POST'' daemon_handoff_path repo body out \<longrightarrow>
      (\<exists>d owner token. recovery_basis env config d owner t \<and> dob_handoff_supported d \<and> do_handoff_token owner = Some token
         \<and> body = dv_show env (jobj [(''token'', JStr token)])))"
proof -
  from grows_at[OF recovery.ensure_grows[OF assms(1)] assms(2,3)] have "justified env config e t" .
  then show ?thesis by (fastforce simp: justified_def)
qed

theorem stops_only_older_owner_witness:
  "\<exists>d owner h. recovery_basis takeover_env default_config d owner h \<and> do_pid owner = 7"
proof -
  obtain later t where "ensure_daemon takeover_env default_config [] = Some (Inr (), later @ EvKill 7 # t)" using takeover_run by blast
  from stops_only_older_owner[OF this refl] show ?thesis by fastforce
qed


text \<open>When a connector goes on after \<open>ensure_daemon\<close>, its last step was a health report of a healthy daemon with
  exactly its own release and schema over its own database.\<close>

theorem ensured_daemon_is_compatible:
  assumes "ensure_daemon env config h = Some (Inr (), h')"
  shows "\<exists>before sent response v. h' = EvRequest ''GET'' ''/health'' None [] (Answered sent) # before
    \<and> parse_http_response sent = Inr response \<and> wr_status response = 200 \<and> dv_parse env (wr_body response) = Inr v
    \<and> dob_healthy (observed_daemon v) \<and> dob_version (observed_daemon v) = daemon_version
    \<and> dob_schema (observed_daemon v) = schema_revision \<and> same_path env h' (dob_common_db (observed_daemon v)) (sc_common_db_path config)"
  using ensure_True[OF assms] daemon_health_Compatible by blast

theorem ensured_daemon_is_compatible_witness:
  "\<exists>before sent. ensure_daemon takeover_env default_config [] = Some (Inr (), EvRequest ''GET'' ''/health'' None [] (Answered sent) # before)"
proof -
  obtain h' where "ensure_daemon takeover_env default_config [] = Some (Inr (), h')" using takeover_run by blast
  with ensured_daemon_is_compatible[OF this] show ?thesis by auto
qed


text \<open>C9. A request is delivered at most once: whatever recovery happens in between, at most one attempt reached a
  daemon, and when the caller gets a response exactly one did.\<close>

theorem delivered_at_most_once:
  assumes "daemon_request_with_recovery env config meth path repo body h = Some (r, h')"
    and "(meth, path) \<notin> {(''GET'', ''/health''), (''POST'', daemon_handoff_path)}"
  shows "\<exists>es. h' = es @ h \<and> length (filter (delivered meth path) es) \<le> 1
    \<and> (\<not> isl r \<longrightarrow> length (filter (delivered meth path) es) = 1)"
  using assms by (rule recovered_request_once)

theorem delivered_at_most_once_witness:
  "\<exists>r es. daemon_request_with_recovery takeover_env default_config ''POST'' ''/mcp/'' None [] [EvKill 7] = Some (Inr r, es @ [EvKill 7])
     \<and> length (filter (delivered ''POST'' ''/mcp/'') es) = 1"
proof -
  have ok: "check_request default_config None = Inr ()" by (simp add: check_request_def validate_loopback_host_def default_config_def)
  obtain r h' where run: "daemon_request_with_recovery takeover_env default_config ''POST'' ''/mcp/'' None [] [EvKill 7] = Some (Inr r, h')"
    by (simp add: daemon_request_with_recovery_def takeover_request[OF ok] Let_def ensure_daemon_def takeover_health
        spawn_and_wait_def takeover_spawn takeover_start_loop gone_def launched_def)
  have "(''POST'', ''/mcp/'') \<notin> {(''GET'', ''/health''), (''POST'', daemon_handoff_path)}" by (simp add: daemon_handoff_path_def)
  from delivered_at_most_once[OF run this] run show ?thesis by auto
qed


text \<open>C22. A call always comes back: whatever the daemon, the lease and other connectors do, a request with its
  recovery returns, as the handoff and the start are given up when their time is over.\<close>

theorem call_always_returns:
  assumes "clock_runs env" and "requests_take_time env"
  shows "\<exists>r h'. daemon_request_with_recovery env config meth path repo body h = Some (r, h')"
  using assms by (rule recovered_request_returns)

theorem call_always_returns_witness:
  "\<exists>r h'. daemon_request_with_recovery takeover_env default_config ''POST'' ''/mcp/'' (Some ''/r'') [] [] = Some (r, h')"
  using call_always_returns takeover_clock by blast


end
