(* ===== verification/Git.thy ===== *)
theory Git
  imports Errors Paths
begin

text \<open>
  Git as the program reads it (\<open>src/src/git.rs\<close>): the identity of a checkout, its repository key, files of a
  commit and the added lines of a diff.  Running \<open>git\<close>, the file system's \<open>canonicalize\<close> and the current directory
  are fields of the record \<open>git_env\<close>; the output of a command is its decoded text with the success of the command.
  A writer of diff texts, in the form \<open>git diff --unified=0\<close> documents, is the reference for the reader.
\<close>

record git_env =
  ge_canon :: "string \<Rightarrow> string option"
  ge_cwd :: string
  ge_git :: "string \<Rightarrow> string list \<Rightarrow> io_error + bool \<times> string"

section \<open>Checkouts\<close>

record git_info =
  gi_path :: string
  gi_repo_path :: string
  gi_repo_key :: string
  gi_branch :: "string option"
  gi_commit_sha :: "string option"

definition resolve_path :: "git_env \<Rightarrow> string \<Rightarrow> string" where
  "resolve_path env p = (case ge_canon env p of
      Some resolved \<Rightarrow> resolved
    | None \<Rightarrow> if is_absolute p then p else path_join (ge_cwd env) p)"

definition resolve_git_path :: "git_env \<Rightarrow> string \<Rightarrow> string \<Rightarrow> string" where
  "resolve_git_path env root v = (if is_absolute v then resolve_path env v else resolve_path env (path_join root v))"

text \<open>\<open>path.parent()\<close> of a path that has a file name.\<close>

definition parent_of :: "string \<Rightarrow> string" where
  "parent_of p = (case rev (components p) of
      [] \<Rightarrow> ''''
    | c # cs \<Rightarrow> (if cs = [RootDir] then ''/'' else join_with ''/'' (map component_text (rev cs))))"

definition repository_key :: "string \<Rightarrow> string" where
  "repository_key common_path = (if file_name common_path = Some ''.git'' then parent_of common_path else common_path)"

definition repository_key_for_git_common :: "git_env \<Rightarrow> string \<Rightarrow> string \<Rightarrow> string option \<Rightarrow> string" where
  "repository_key_for_git_common env root repo common =
     (case common of Some c \<Rightarrow> repository_key (resolve_git_path env root c) | None \<Rightarrow> repo)"

definition run_git :: "git_env \<Rightarrow> string \<Rightarrow> string list \<Rightarrow> string option" where
  "run_git env p args = (case ge_git env p args of
      Inl e \<Rightarrow> None
    | Inr (success, out) \<Rightarrow> if \<not> success then None else if trim out = [] then None else Some (trim out))"

definition inspect_git :: "git_env \<Rightarrow> string \<Rightarrow> git_info res" where
  "inspect_git env p =
     (if CHR 0x00 \<in> set p then Inl (Validation ''repository path contains a NUL byte'')
      else let root = resolve_path env p in
        case run_git env root [''rev-parse'', ''--show-toplevel''] of
          None \<Rightarrow> Inr \<lparr>gi_path = root, gi_repo_path = root, gi_repo_key = root, gi_branch = None, gi_commit_sha = None\<rparr>
        | Some toplevel \<Rightarrow>
            let repo = resolve_path env toplevel in
            Inr \<lparr>gi_path = root, gi_repo_path = repo,
                 gi_repo_key = repository_key_for_git_common env root repo (run_git env root [''rev-parse'', ''--git-common-dir'']),
                 gi_branch = run_git env root [''branch'', ''--show-current''],
                 gi_commit_sha = run_git env root [''rev-parse'', ''HEAD'']\<rparr>)"

definition is_clean :: "git_env \<Rightarrow> string \<Rightarrow> bool" where
  "is_clean env p = (case ge_git env (resolve_path env p) [''status'', ''--porcelain=v1'', ''--untracked-files=all''] of
      Inl e \<Rightarrow> False | Inr (success, out) \<Rightarrow> success \<and> out = [])"

definition merge_base :: "git_env \<Rightarrow> string \<Rightarrow> string \<Rightarrow> string \<Rightarrow> string option" where
  "merge_base env repo base_ref head_ref = run_git env repo [''merge-base'', base_ref, head_ref]"

definition parent_commit :: "git_env \<Rightarrow> string \<Rightarrow> string \<Rightarrow> string option" where
  "parent_commit env repo commit = run_git env repo [''rev-parse'', commit @ ''^'']"

definition is_ancestor :: "git_env \<Rightarrow> string \<Rightarrow> string \<Rightarrow> string \<Rightarrow> bool" where
  "is_ancestor env repo ancestor descendant =
     (case ge_git env repo [''merge-base'', ''--is-ancestor'', ancestor, descendant] of
        Inl e \<Rightarrow> False | Inr (success, out) \<Rightarrow> success)"

definition read_file_at_commit :: "git_env \<Rightarrow> string \<Rightarrow> string \<Rightarrow> string \<Rightarrow> string option res" where
  "read_file_at_commit env repo commit_sha file_path =
     (if is_absolute file_path \<or> ParentDir \<in> set (components file_path)
      then Inl (Validation ''file_path must remain inside the repository'')
      else case ge_git env repo [''show'', commit_sha @ '':'' @ file_path] of
             Inl e \<Rightarrow> Inl (Io e)
           | Inr (success, out) \<Rightarrow> Inr (if success then Some out else None))"

section \<open>Added lines\<close>

record changed_range =
  cr_file_path :: string
  cr_start :: int
  cr_line_count :: int

definition parse_added_range :: "string \<Rightarrow> string \<Rightarrow> changed_range list res" where
  "parse_added_range path plus_range =
     (let range = dropWhile (\<lambda>c. c = CHR ''+'') plus_range;
          (start_text, count_text) = (case split_once (CHR '','') range of None \<Rightarrow> (range, None) | Some (a, b) \<Rightarrow> (a, Some b)) in
      bindr (ok_or (parse_i64 start_text) (Validation ''git diff has an invalid added range'')) (\<lambda>start.
      bindr (case count_text of
               None \<Rightarrow> Inr 1
             | Some t \<Rightarrow> ok_or (parse_i64 t) (Validation ''git diff has an invalid added count'')) (\<lambda>line_count.
      Inr (if 0 < line_count then [\<lparr>cr_file_path = path, cr_start = start, cr_line_count = line_count\<rparr>] else []))))"

definition diff_line :: "string option \<times> changed_range list \<Rightarrow> string \<Rightarrow> (string option \<times> changed_range list) res" where
  "diff_line state line =
     (let (path, ranges) = state in
      case strip_prefix ''+++ b/'' line of
        Some v \<Rightarrow> Inr (Some v, ranges)
      | None \<Rightarrow>
          (case strip_prefix ''@@'' line of
             None \<Rightarrow> Inr (path, ranges)
           | Some header \<Rightarrow>
               (case path of
                  None \<Rightarrow> Inr (path, ranges)
                | Some p \<Rightarrow>
                    (case find (starts_with ''+'') (split_whitespace header) of
                       None \<Rightarrow> Inr (path, ranges)
                     | Some plus_range \<Rightarrow> bindr (parse_added_range p plus_range) (\<lambda>new. Inr (path, ranges @ new))))))"

definition parse_changed_line_ranges :: "string \<Rightarrow> changed_range list res" where
  "parse_changed_line_ranges txt = map_sum id snd (foldM diff_line (None, []) (lines_of txt))"

definition changed_line_ranges :: "git_env \<Rightarrow> string \<Rightarrow> string \<Rightarrow> string \<Rightarrow> changed_range list res" where
  "changed_line_ranges env repo baseline current =
     (case ge_git env repo [''diff'', ''--no-ext-diff'', ''--unified=0'', baseline, current, ''--''] of
        Inl e \<Rightarrow> Inl (Io e)
      | Inr (success, out) \<Rightarrow>
          if \<not> success then Inl (Validation (''git diff could not compare '' @ baseline @ '' with '' @ current))
          else parse_changed_line_ranges out)"

section \<open>Diff texts\<close>

text \<open>A hunk with the old range, the new range, the section heading and the removed and added lines; a count of one
  is not written.\<close>

record hunk =
  hk_old :: "int \<times> int"
  hk_new :: "int \<times> int"
  hk_heading :: string
  hk_removed :: "string list"
  hk_added :: "string list"

definition range_show :: "int \<times> int \<Rightarrow> string" where
  "range_show r = show_int (fst r) @ (if snd r = 1 then [] else CHR '','' # show_int (snd r))"

definition hunk_lines :: "hunk \<Rightarrow> string list" where
  "hunk_lines h = (''@@ -'' @ range_show (hk_old h) @ '' +'' @ range_show (hk_new h) @ '' @@'' @ hk_heading h)
     # map (\<lambda>l. CHR ''-'' # l) (hk_removed h) @ map (\<lambda>l. CHR ''+'' # l) (hk_added h)"

text \<open>A file section; a deleted file has no new name and its hunks add nothing.\<close>

record diff_file =
  df_path :: string
  df_deleted :: bool
  df_hunks :: "hunk list"

definition file_lines :: "diff_file \<Rightarrow> string list" where
  "file_lines f = [''diff --git a/'' @ df_path f @ '' b/'' @ df_path f, ''--- a/'' @ df_path f,
      if df_deleted f then ''+++ /dev/null'' else ''+++ b/'' @ df_path f] @ concat (map hunk_lines (df_hunks f))"

definition diff_text :: "diff_file list \<Rightarrow> string" where
  "diff_text files = unlines (concat (map file_lines files))"

definition hunk_ok :: "hunk \<Rightarrow> bool" where
  "hunk_ok h \<longleftrightarrow> 0 \<le> fst (hk_old h) \<and> 0 \<le> snd (hk_old h) \<and> 0 \<le> fst (hk_new h) \<and> 0 \<le> snd (hk_new h)
     \<and> in_i64 (fst (hk_new h)) \<and> in_i64 (snd (hk_new h)) \<and> one_line (hk_heading h) \<and> list_all one_line (hk_removed h)
     \<and> list_all (\<lambda>l. one_line l \<and> \<not> starts_with ''++ b/'' l) (hk_added h)"

definition diff_ok :: "diff_file \<Rightarrow> bool" where
  "diff_ok f \<longleftrightarrow> one_line (df_path f) \<and> list_all hunk_ok (df_hunks f) \<and> (df_deleted f \<longrightarrow> list_all (\<lambda>h. snd (hk_new h) = 0) (df_hunks f))"

definition added_ranges :: "diff_file \<Rightarrow> changed_range list" where
  "added_ranges f = map (\<lambda>h. \<lparr>cr_file_path = df_path f, cr_start = fst (hk_new h), cr_line_count = snd (hk_new h)\<rparr>)
     (filter (\<lambda>h. 0 < snd (hk_new h)) (df_hunks f))"

lemma plain_range: "plain_token (range_show r)" "plain_token (CHR ''-'' # range_show r)" "plain_token (CHR ''+'' # range_show r)"
  by (simp_all add: range_show_def plain_char_def)

lemma range_show_cases:
  "split_once (CHR '','') (range_show r) = (if snd r = 1 then None else Some (show_int (fst r), show_int (snd r)))"
proof -
  have none: "split_once c t = None" if "c \<notin> set t" for c t using that by (induction t) auto
  have sep: "split_once c (a @ c # b) = Some (a, b)" if "c \<notin> set a" for c a b using that by (induction a) auto
  have comma: "CHR '','' \<notin> set (show_int n)" for n using set_show_int[of "CHR '',''" n] by (auto simp: is_digit_def)
  show ?thesis by (simp add: range_show_def none sep comma)
qed

lemma range_show_not_plus: "dropWhile (\<lambda>c. c = CHR ''+'') (CHR ''+'' # range_show r) = range_show r"
proof -
  have "show_int (fst r) \<noteq> []" by (simp add: show_int_def)
  moreover have "CHR ''+'' \<notin> set (show_int (fst r))" using set_show_int[of "CHR ''+''"] by (auto simp: is_digit_def)
  ultimately show ?thesis by (cases "show_int (fst r)") (auto simp: range_show_def)
qed

lemma parse_added_range_show:
  assumes "in_i64 (fst r)" and "in_i64 (snd r)"
  shows "parse_added_range p (CHR ''+'' # range_show r) =
    Inr (if 0 < snd r then [\<lparr>cr_file_path = p, cr_start = fst r, cr_line_count = snd r\<rparr>] else [])"
proof (cases "snd r = 1")
  case True
  then have "range_show r = show_int (fst r)" by (simp add: range_show_def)
  then show ?thesis using True assms range_show_cases[of r] range_show_not_plus[of r] parse_i64_show_int
    by (simp add: parse_added_range_def Let_def)
next
  case False
  then show ?thesis using assms range_show_cases[of r] range_show_not_plus[of r] parse_i64_show_int
    by (simp add: parse_added_range_def Let_def)
qed

lemma find_plus_range:
  "find (starts_with ''+'') (split_whitespace ('' -'' @ range_show old @ '' +'' @ range_show new @ '' @@'' @ heading)) = Some (CHR ''+'' # range_show new)"
proof -
  have "split_whitespace ('' -'' @ range_show old @ '' +'' @ range_show new @ '' @@'' @ heading)
      = (CHR ''-'' # range_show old) # (CHR ''+'' # range_show new) # split_whitespace (''@@'' @ heading)"
    using split_whitespace_token(1)[OF plain_range(2)[of old], of "''+'' @ range_show new @ '' @@'' @ heading"]
      split_whitespace_token(1)[OF plain_range(3)[of new], of "''@@'' @ heading"]
      split_whitespace_token(2)[OF plain_range(2)[of old]]
    by simp
  then show ?thesis by (simp add: starts_with_def)
qed

lemma diff_content:
  assumes "list_all one_line rs" and "list_all (\<lambda>l. one_line l \<and> \<not> starts_with ''++ b/'' l) as"
  shows "foldM diff_line st (map (\<lambda>l. CHR ''-'' # l) rs @ map (\<lambda>l. CHR ''+'' # l) as) = Inr st"
proof -
  have minus: "diff_line st (CHR ''-'' # l) = Inr st" for st l by (simp add: diff_line_def split: prod.splits)
  have plus: "diff_line st (CHR ''+'' # l) = Inr st" if "\<not> starts_with ''++ b/'' l" for st l
    using that by (auto simp: diff_line_def starts_with_def split: prod.splits option.splits)
  have "foldM diff_line st (map (\<lambda>l. CHR ''-'' # l) rs) = Inr st" by (induction rs) (simp_all add: minus)
  moreover have "foldM diff_line st (map (\<lambda>l. CHR ''+'' # l) as) = Inr st" using assms(2) by (induction as) (simp_all add: plus)
  ultimately show ?thesis by (simp add: foldM_append)
qed

lemma diff_hunk:
  assumes "hunk_ok h"
  shows "foldM diff_line (p, ranges) (hunk_lines h) = Inr (p, ranges @ (case p of None \<Rightarrow> [] | Some q \<Rightarrow>
    if 0 < snd (hk_new h) then [\<lparr>cr_file_path = q, cr_start = fst (hk_new h), cr_line_count = snd (hk_new h)\<rparr>] else []))"
proof -
  let ?head = "''@@ -'' @ range_show (hk_old h) @ '' +'' @ range_show (hk_new h) @ '' @@'' @ hk_heading h"
  have "diff_line (p, ranges) ?head = Inr (p, ranges @ (case p of None \<Rightarrow> [] | Some q \<Rightarrow>
      if 0 < snd (hk_new h) then [\<lparr>cr_file_path = q, cr_start = fst (hk_new h), cr_line_count = snd (hk_new h)\<rparr>] else []))"
    using assms find_plus_range[of "hk_old h" "hk_new h" "hk_heading h"] parse_added_range_show[of "hk_new h"]
    by (cases p) (simp_all add: diff_line_def hunk_ok_def)
  then show ?thesis using assms diff_content[of "hk_removed h" "hk_added h"] by (simp add: hunk_lines_def hunk_ok_def)
qed

lemma diff_hunks:
  assumes "list_all hunk_ok hs"
  shows "foldM diff_line (Some q, ranges) (concat (map hunk_lines hs)) = Inr (Some q, ranges @
      map (\<lambda>h. \<lparr>cr_file_path = q, cr_start = fst (hk_new h), cr_line_count = snd (hk_new h)\<rparr>) (filter (\<lambda>h. 0 < snd (hk_new h)) hs))"
    and "foldM diff_line (None, ranges) (concat (map hunk_lines hs)) = Inr (None, ranges)"
  using assms by (induction hs arbitrary: ranges) (simp_all add: foldM_append diff_hunk)

lemma diff_section:
  assumes "diff_ok f"
  shows "\<exists>p'. foldM diff_line (p, ranges) (file_lines f) = Inr (p', ranges @ added_ranges f)"
proof -
  have hunks: "list_all hunk_ok (df_hunks f)" using assms by (simp add: diff_ok_def)
  have head: "foldM diff_line (p, ranges) [''diff --git a/'' @ df_path f @ '' b/'' @ df_path f, ''--- a/'' @ df_path f,
      if df_deleted f then ''+++ /dev/null'' else ''+++ b/'' @ df_path f]
    = Inr (if df_deleted f then p else Some (df_path f), ranges)"
    by (simp add: diff_line_def)
  have none: "added_ranges f = []" if "df_deleted f" using that assms by (auto simp: diff_ok_def added_ranges_def list_all_iff filter_empty_conv)
  have nothing: "filter (\<lambda>h. 0 < snd (hk_new h)) (df_hunks f) = []" if "df_deleted f"
    using that assms by (auto simp: diff_ok_def list_all_iff filter_empty_conv)
  show ?thesis
    unfolding file_lines_def foldM_append head
    using diff_hunks[OF hunks] none nothing by (cases "df_deleted f"; cases p) (auto simp: added_ranges_def)
qed

lemma diff_files:
  "list_all diff_ok fs \<Longrightarrow> \<exists>p'. foldM diff_line (p, ranges) (concat (map file_lines fs)) = Inr (p', ranges @ concat (map added_ranges fs))"
proof (induction fs arbitrary: p ranges)
  case (Cons f fs)
  obtain p1 where "foldM diff_line (p, ranges) (file_lines f) = Inr (p1, ranges @ added_ranges f)" using diff_section Cons.prems by force
  then show ?case using Cons.IH[of p1 "ranges @ added_ranges f"] Cons.prems by (auto simp: foldM_append)
qed simp

section \<open>Properties\<close>



text \<open>A file whose name Git quotes (a name with a non-ASCII character) is not recognised, and its added lines
  are attributed to the file before it.\<close>

theorem quoted_name_misattributed:
  "parse_changed_line_ranges (unlines [''+++ b/a.rs'', ''@@ -0,0 +1,2 @@'', ''+x'', ''+y'',
      ''+++ '' @ [CHR 0x22] @ ''b/caf'' @ [CHR 0x5C] @ ''303'' @ [CHR 0x5C] @ ''251.rs'' @ [CHR 0x22], ''@@ -0,0 +7,1 @@'', ''+z''])
   = Inr [\<lparr>cr_file_path = ''a.rs'', cr_start = 1, cr_line_count = 2\<rparr>, \<lparr>cr_file_path = ''a.rs'', cr_start = 7, cr_line_count = 1\<rparr>]"
  by code_simp

end
