(* ===== verification/Commands.thy ===== *)
theory Commands
  imports Daemon Search Git
begin

text \<open>
  The commands of the connector (\<open>src/src/main.rs\<close>): the terminal queries, the bridge from standard input to the
  shared daemon, and one compaction pass.  What a command prints is its result.
\<close>

record 'l cli_env =
  ce_daemon :: "'l daemon_env"
  ce_git :: git_env
  ce_query :: query_env
  ce_decoder :: request_decoder
  ce_lookup :: lookup
  ce_pretty :: "json \<Rightarrow> string"
  ce_show_f64 :: "f64 \<Rightarrow> string"
  ce_write :: "string list \<Rightarrow> string \<Rightarrow> io_error option"

section \<open>Terminal queries\<close>

definition drop_nulls :: "json \<Rightarrow> json" where
  "drop_nulls v = (case v of JObj m \<Rightarrow> JObj (filter (\<lambda>(_, x). x \<noteq> JNull) m) | _ \<Rightarrow> v)"

definition looks_like_report :: "query_env \<Rightarrow> string \<Rightarrow> string \<Rightarrow> bool" where
  "looks_like_report env repo reference \<longleftrightarrow>
     CHR ''/'' \<in> set reference \<or> extension reference \<noteq> None \<or> qe_is_file env (path_join repo reference)"

definition report_reference :: "query_env \<Rightarrow> string \<Rightarrow> json \<Rightarrow> string \<Rightarrow> bool" where
  "report_reference env repo arguments key =
     (case as_str (jidx arguments key) of None \<Rightarrow> False | Some reference \<Rightarrow> looks_like_report env repo reference)"

definition reads_locally :: "query_env \<Rightarrow> string \<Rightarrow> string \<Rightarrow> json \<Rightarrow> bool" where
  "reads_locally env repo tool arguments \<longleftrightarrow>
     report_reference env repo arguments ''measurement''
     \<and> (tool = ''coverage_gaps'' \<or> report_reference env repo arguments ''baseline'')
     \<and> list_all (\<lambda>v. looks_like_report env repo (case as_str v of None \<Rightarrow> [] | Some p \<Rightarrow> p))
         (case as_array (jidx arguments ''previous'') of None \<Rightarrow> [] | Some vs \<Rightarrow> vs)"

text \<open>The configuration, its host and the checkout, which every command needs before it calls the daemon.\<close>

definition connect_target :: "'l cli_env \<Rightarrow> string \<Rightarrow> (server_config \<times> string) res" where
  "connect_target env repo =
     bindr (from_environment_with_lookup None None None (ce_lookup env)) (\<lambda>config.
     bindr (validate_loopback_host (sc_host config)) (\<lambda>_.
     bindr (inspect_git (ce_git env) repo) (\<lambda>git. Inr (config, gi_repo_path git))))"

definition tool_request :: "string \<Rightarrow> json \<Rightarrow> json" where
  "tool_request tool arguments =
     jobj [(''jsonrpc'', JStr ''2.0''), (''id'', JInt 1), (''method'', JStr ''tools/call''),
       (''params'', jobj [(''name'', JStr tool), (''arguments'', arguments)])]"

definition query_evidence :: "'l cli_env \<Rightarrow> json option \<Rightarrow> json res" where
  "query_evidence env answer =
     bindr (ok_or answer (Runtime ''coverage query returned no response'')) (\<lambda>response.
     if jget response ''error'' \<noteq> None \<or> jidx (jidx response ''result'') ''isError'' = JBool True
     then Inl (Runtime (dv_show (ce_daemon env) response))
     else Inr (jidx (jidx response ''result'') ''structuredContent''))"

definition ask_daemon :: "'l cli_env \<Rightarrow> string \<Rightarrow> string \<Rightarrow> json \<Rightarrow> history \<Rightarrow> (json res \<times> history) option" where
  "ask_daemon env repo tool arguments h =
     (case connect_target env repo of
        Inl e \<Rightarrow> Some (Inl e, h)
      | Inr (config, repo_path) \<Rightarrow>
          Option.bind (ensure_daemon (ce_daemon env) config h) (\<lambda>(r, h).
            case r of
              Inl e \<Rightarrow> Some (Inl e, h)
            | Inr _ \<Rightarrow> map_option (\<lambda>(r, h). (bindr r (query_evidence env), h))
                (forward_mcp_request_with_recovery (ce_daemon env) config repo_path (tool_request tool arguments) h)))"

definition run_query :: "'l cli_env \<Rightarrow> string \<Rightarrow> string \<Rightarrow> json \<Rightarrow> bool \<Rightarrow> history \<Rightarrow> (string res \<times> history) option" where
  "run_query env repo tool arguments as_json h =
     (let arguments = drop_nulls arguments in
      map_option (\<lambda>(r, h). (bindr r (\<lambda>evidence.
          if as_json then Inr (dv_show (ce_daemon env) evidence) else render (dv_show (ce_daemon env)) evidence), h))
        (if reads_locally (ce_query env) repo tool arguments
         then Some (read_reports (ce_query env) (ce_decoder env)
                (\<lambda>p. bindr (inspect_git (ce_git env) p) (\<lambda>git. Inr (gi_repo_key git, gi_repo_path git))) repo tool arguments, h)
         else ask_daemon env repo tool arguments h))"

section \<open>The bridge from standard input\<close>

definition cli_json_rpc_error :: "'l cli_env \<Rightarrow> json option \<Rightarrow> app_error \<Rightarrow> json" where
  "cli_json_rpc_error env id' e =
     jobj [(''jsonrpc'', JStr ''2.0''), (''id'', case id' of None \<Rightarrow> JNull | Some i \<Rightarrow> i),
       (''error'', jobj [(''code'', JInt (- 32000)), (''message'', JStr (display_error (ce_show_f64 env) e))])]"

definition forwarded_answer :: "'l cli_env \<Rightarrow> json \<Rightarrow> json option res \<Rightarrow> json option" where
  "forwarded_answer env request r =
     (case r of
        Inr response \<Rightarrow> response
      | Inl e \<Rightarrow> map_option (\<lambda>i. cli_json_rpc_error env (Some i) e) (jget request ''id''))"

definition answer_line :: "'l cli_env \<Rightarrow> server_config \<Rightarrow> string \<Rightarrow> string \<Rightarrow> history \<Rightarrow> (json option \<times> history) option" where
  "answer_line env config repo_path line h =
     (case dv_parse (ce_daemon env) line of
        Inl msg \<Rightarrow> Some (Some (cli_json_rpc_error env None (Json msg)), h)
      | Inr request \<Rightarrow>
          map_option (\<lambda>(r, h). (forwarded_answer env request r, h))
            (forward_mcp_request_with_recovery (ce_daemon env) config repo_path request h))"

text \<open>The input is the list of what reading the next line gives; \<open>shown\<close> is what was written before.\<close>

fun stdio_loop :: "'l cli_env \<Rightarrow> server_config \<Rightarrow> string \<Rightarrow> (io_error + string) list \<Rightarrow> string list \<Rightarrow> history
    \<Rightarrow> (unit res \<times> string list \<times> history) option" where
  "stdio_loop env config repo_path [] shown h = Some (Inr (), shown, h)"
| "stdio_loop env config repo_path (Inl e # input) shown h = Some (Inl (Io e), shown, h)"
| "stdio_loop env config repo_path (Inr line # input) shown h =
     Option.bind (answer_line env config repo_path line h) (\<lambda>(response, h).
       case response of
         None \<Rightarrow> stdio_loop env config repo_path input shown h
       | Some v \<Rightarrow>
           (case ce_write env shown (dv_show (ce_daemon env) v) of
              Some e \<Rightarrow> Some (Inl (Io e), shown, h)
            | None \<Rightarrow> stdio_loop env config repo_path input (shown @ [dv_show (ce_daemon env) v]) h))"

definition run_shared_stdio :: "'l cli_env \<Rightarrow> string \<Rightarrow> (io_error + string) list \<Rightarrow> history \<Rightarrow> (unit res \<times> string list \<times> history) option" where
  "run_shared_stdio env repo input h =
     (case connect_target env repo of
        Inl e \<Rightarrow> Some (Inl e, [], h)
      | Inr (config, repo_path) \<Rightarrow>
          Option.bind (ensure_daemon (ce_daemon env) config h) (\<lambda>(r, h).
            case r of Inl e \<Rightarrow> Some (Inl e, [], h) | Inr _ \<Rightarrow> stdio_loop env config repo_path input [] h))"

section \<open>Compaction\<close>

definition update_settings :: "'l cli_env \<Rightarrow> server_config \<Rightarrow> string \<Rightarrow> int option \<Rightarrow> history \<Rightarrow> (unit res \<times> history) option" where
  "update_settings env config repo_path older_than_days h =
     (case older_than_days of
        None \<Rightarrow> Some (Inr (), h)
      | Some days \<Rightarrow>
          map_option (\<lambda>(r, h). (bindr r (\<lambda>response.
              bindr (successful_daemon_json (ce_daemon env) response ''update compaction settings'') (\<lambda>_. Inr ())), h))
            (daemon_request_with_recovery (ce_daemon env) config ''PATCH'' ''/api/projects/project'' (Some repo_path)
              (dv_show (ce_daemon env) (jobj [(''compaction_after_days'', JInt days)])) h))"

definition compact_result :: "'l cli_env \<Rightarrow> wire_response \<Rightarrow> string res" where
  "compact_result env response =
     bindr (successful_daemon_json (ce_daemon env) response ''compact project'') (\<lambda>envelope.
       Inr (ce_pretty env (case jget envelope ''data'' of None \<Rightarrow> envelope | Some v \<Rightarrow> v)))"

definition compact_project :: "'l cli_env \<Rightarrow> server_config \<Rightarrow> string \<Rightarrow> int option \<Rightarrow> history \<Rightarrow> (string res \<times> history) option" where
  "compact_project env config repo_path older_than_days h =
     Option.bind (update_settings env config repo_path older_than_days h) (\<lambda>(r, h).
       case r of
         Inl e \<Rightarrow> Some (Inl e, h)
       | Inr _ \<Rightarrow> map_option (\<lambda>(r, h). (bindr r (compact_result env), h))
           (daemon_request_with_recovery (ce_daemon env) config ''POST'' ''/api/projects/project/compact'' (Some repo_path) ''{}'' h))"

definition run_compact :: "'l cli_env \<Rightarrow> string \<Rightarrow> int option \<Rightarrow> history \<Rightarrow> (string res \<times> history) option" where
  "run_compact env repo older_than_days h =
     (case connect_target env repo of
        Inl e \<Rightarrow> Some (Inl e, h)
      | Inr (config, repo_path) \<Rightarrow>
          Option.bind (ensure_daemon (ce_daemon env) config h) (\<lambda>(r, h).
            case r of Inl e \<Rightarrow> Some (Inl e, h) | Inr _ \<Rightarrow> compact_project env config repo_path older_than_days h))"

section \<open>Properties\<close>

lemma forward_once:
  assumes "clock_runs env" and "requests_take_time env"
  shows "\<exists>r es. forward_mcp_request_with_recovery env config repo_path request h = Some (r, es @ h)
    \<and> length (filter (delivered ''POST'' ''/mcp/'') es) \<le> 1"
proof -
  have other: "(''POST'', ''/mcp/'') \<notin> {(''GET'', ''/health''), (''POST'', daemon_handoff_path)}" by (simp add: daemon_handoff_path_def)
  obtain r h' where run: "daemon_request_with_recovery env config ''POST'' ''/mcp/'' (Some repo_path) (dv_show env request) h = Some (r, h')"
    using recovered_request_returns[OF assms] by blast
  then show ?thesis using recovered_request_once[OF run other] by (auto simp: forward_mcp_request_with_recovery_def)
qed

text \<open>What one input line is answered with: an error without id for a line that is not JSON; otherwise what the daemon
  says, and when the call fails an error with the id of the request, or nothing for a request without one.\<close>

definition answered :: "'l cli_env \<Rightarrow> server_config \<Rightarrow> string \<Rightarrow> string \<Rightarrow> json option \<Rightarrow> bool" where
  "answered env config repo_path line answer \<longleftrightarrow>
     (case dv_parse (ce_daemon env) line of
        Inl msg \<Rightarrow> answer = Some (cli_json_rpc_error env None (Json msg))
      | Inr request \<Rightarrow> (\<exists>h r h'. forward_mcp_request_with_recovery (ce_daemon env) config repo_path request h = Some (r, h') \<and> answer = forwarded_answer env request r))"

lemma answer_line_once:
  assumes "clock_runs (ce_daemon env)" and "requests_take_time (ce_daemon env)"
  shows "\<exists>a es. answer_line env config repo_path line h = Some (a, es @ h) \<and> answered env config repo_path line a
    \<and> length (filter (delivered ''POST'' ''/mcp/'') es) \<le> 1"
proof (cases "dv_parse (ce_daemon env) line")
  case (Inr request)
  obtain r es where r: "forward_mcp_request_with_recovery (ce_daemon env) config repo_path request h = Some (r, es @ h)"
    "length (filter (delivered ''POST'' ''/mcp/'') es) \<le> 1"
    using forward_once[OF assms] by blast
  then have "answered env config repo_path line (forwarded_answer env request r)"
    using Inr by (auto simp: answered_def)
  then show ?thesis using Inr r by (auto simp: answer_line_def)
qed (auto simp: answer_line_def answered_def)

text \<open>The bridge answers every input line in order: it returns, writes for each line its answer and nothing else,
  in the order of the lines, and however often the daemon has to be recovered no line is delivered twice.\<close>

theorem stdio_answers_in_order:
  assumes "clock_runs (ce_daemon env)" and "requests_take_time (ce_daemon env)" and "\<forall>before text'. ce_write env before text' = None"
  shows "\<exists>answers es. stdio_loop env config repo_path (map Inr lines) shown h
      = Some (Inr (), shown @ map (dv_show (ce_daemon env)) (List.map_filter (\<lambda>a. a) answers), es @ h)
    \<and> list_all2 (answered env config repo_path) lines answers
    \<and> length (filter (delivered ''POST'' ''/mcp/'') es) \<le> length lines"
proof (induction lines arbitrary: shown h)
  case Nil
  show ?case by (intro exI[of _ "[]"]) (simp add: List.map_filter_def)
next
  case (Cons line lines)
  obtain a es where a: "answer_line env config repo_path line h = Some (a, es @ h)" "answered env config repo_path line a"
    "length (filter (delivered ''POST'' ''/mcp/'') es) \<le> 1"
    using answer_line_once[OF assms(1,2)] by blast
  let ?shown = "shown @ (case a of None \<Rightarrow> [] | Some v \<Rightarrow> [dv_show (ce_daemon env) v])"
  obtain answers es' where rest: "stdio_loop env config repo_path (map Inr lines) ?shown (es @ h)
      = Some (Inr (), ?shown @ map (dv_show (ce_daemon env)) (List.map_filter (\<lambda>a. a) answers), es' @ es @ h)"
    "list_all2 (answered env config repo_path) lines answers" "length (filter (delivered ''POST'' ''/mcp/'') es') \<le> length lines"
    using Cons.IH by blast
  have "stdio_loop env config repo_path (map Inr (line # lines)) shown h
      = Some (Inr (), shown @ map (dv_show (ce_daemon env)) (List.map_filter (\<lambda>a. a) (a # answers)), (es' @ es) @ h)"
    using rest(1) a(1) assms(3) by (cases a) (simp_all add: List.map_filter_simps)
  moreover have "list_all2 (answered env config repo_path) (line # lines) (a # answers)" using rest(2) a(2) by simp
  moreover have "length (filter (delivered ''POST'' ''/mcp/'') (es' @ es)) \<le> length (line # lines)" using rest(3) a(3) by simp
  ultimately show ?case by blast
qed

theorem stdio_answers_in_order_witness:
  "\<forall>g q dec lk pr sf. \<exists>answers es. stdio_loop
      \<lparr>ce_daemon = takeover_env, ce_git = g, ce_query = q, ce_decoder = dec, ce_lookup = lk, ce_pretty = pr, ce_show_f64 = sf, ce_write = (\<lambda>_ _. None)\<rparr>
      default_config ''/r'' (map Inr [''x'', ''new'']) [] [] = Some (Inr (), answers, es)"
proof (intro allI)
  fix g q dec lk pr sf
  show "\<exists>answers es. stdio_loop
      \<lparr>ce_daemon = takeover_env, ce_git = g, ce_query = q, ce_decoder = dec, ce_lookup = lk, ce_pretty = pr, ce_show_f64 = sf, ce_write = (\<lambda>_ _. None)\<rparr>
      default_config ''/r'' (map Inr [''x'', ''new'']) [] [] = Some (Inr (), answers, es)"
    using stdio_answers_in_order[of "\<lparr>ce_daemon = takeover_env, ce_git = g, ce_query = q, ce_decoder = dec, ce_lookup = lk, ce_pretty = pr,
        ce_show_f64 = sf, ce_write = (\<lambda>_ _. None)\<rparr>" default_config "''/r''" "[''x'', ''new'']" "[]" "[]"] takeover_clock
    by fastforce
qed

end
