(* ===== verification/Http.thy ===== *)
theory Http
  imports Wire
begin

text \<open>
  Requests and responses of the daemon (\<open>src/src/http.rs\<close>): headers, bounded bodies, query parameters, the fields of a
  JSON body, and the responses with their security headers.  Header names are in lower case, as \<open>hyper\<close> keeps them;
  a body is the list of its frames.
\<close>

record http_request =
  hr_method :: string
  hr_path :: string
  hr_query :: "string option"
  hr_headers :: "(string \<times> string) list"
  hr_frames :: "(app_error + string option) list"

record http_response =
  hp_status :: int
  hp_headers :: "(string \<times> string) list"
  hp_body :: string

section \<open>Headers\<close>

definition header_byte :: "char \<Rightarrow> bool" where
  "header_byte c \<longleftrightarrow> c = CHR 0x09 \<or> 32 \<le> (of_char c :: int) \<and> (of_char c :: int) < 127"

definition header_to_str :: "string \<Rightarrow> string \<Rightarrow> string res" where
  "header_to_str v name = (if list_all header_byte v then Inr v else Inl (Validation (name @ '' must be valid UTF-8'')))"

definition parse_content_length :: "string \<Rightarrow> int res" where
  "parse_content_length v =
     bindr (header_to_str v ''content-length'') (\<lambda>s.
       ok_or (parse_u64 s) (Validation ''content-length must be an integer''))"

definition transpose_res :: "('a \<Rightarrow> 'b res) \<Rightarrow> 'a option \<Rightarrow> 'b option res" where
  "transpose_res f v = (case v of None \<Rightarrow> Inr None | Some x \<Rightarrow> bindr (f x) (\<lambda>y. Inr (Some y)))"

definition requested_repository :: "(string \<times> string) list \<Rightarrow> string option res" where
  "requested_repository headers =
     transpose_res (\<lambda>v. header_to_str v repository_header) (map_of headers repository_header)"

text \<open>\<open>authority\<close> is the host part of a \<open>host\<close> header that is a valid authority.\<close>

definition trusted_host :: "(string \<Rightarrow> string option) \<Rightarrow> (string \<times> string) list \<Rightarrow> bool res" where
  "trusted_host authority headers =
     (case map_of headers ''host'' of
        None \<Rightarrow> Inr False
      | Some v \<Rightarrow>
          bindr (header_to_str v ''host'') (\<lambda>host.
          bindr (ok_or (authority host) (Validation ''host must be a valid authority'')) (\<lambda>name.
          Inr (name \<in> {''127.0.0.1'', ''localhost'', ''::1'', ''[::1]'', ''testserver''}))))"

section \<open>Bodies\<close>

definition body_too_large :: "int \<Rightarrow> app_error" where
  "body_too_large max_bytes = Validation (''request body exceeds '' @ show_int max_bytes @ '' bytes'')"

definition validate_body_content_length :: "(string \<times> string) list \<Rightarrow> int \<Rightarrow> unit res" where
  "validate_body_content_length headers max_bytes =
     (case map_of headers ''content-length'' of
        None \<Rightarrow> Inr ()
      | Some v \<Rightarrow> bindr (parse_content_length v) (\<lambda>declared.
          if max_bytes < declared then Inl (body_too_large max_bytes) else Inr ()))"

definition append_body_chunk :: "int \<Rightarrow> string \<Rightarrow> string \<Rightarrow> string res" where
  "append_body_chunk max_bytes bytes data =
     (if max_bytes < int (length bytes + length data) then Inl (body_too_large max_bytes) else Inr (bytes @ data))"

definition append_body_data :: "int \<Rightarrow> string \<Rightarrow> string option \<Rightarrow> string res" where
  "append_body_data max_bytes bytes data =
     (case data of None \<Rightarrow> Inr bytes | Some d \<Rightarrow> append_body_chunk max_bytes bytes d)"

definition append_frame :: "int \<Rightarrow> string \<Rightarrow> app_error + string option \<Rightarrow> string res" where
  "append_frame max_bytes bytes frame = bindr frame (append_body_data max_bytes bytes)"

definition parse_json_body :: "(string \<Rightarrow> string + json) \<Rightarrow> string \<Rightarrow> json res" where
  "parse_json_body parse bytes =
     (if bytes = [] then Inr (jobj [])
      else case parse bytes of Inl msg \<Rightarrow> Inl (Validation (''invalid request JSON: '' @ msg)) | Inr v \<Rightarrow> Inr v)"

definition json_body :: "(string \<Rightarrow> string + json) \<Rightarrow> http_request \<Rightarrow> int \<Rightarrow> json res" where
  "json_body parse request max_bytes =
     bindr (validate_body_content_length (hr_headers request) max_bytes) (\<lambda>_.
     bindr (foldM (append_frame max_bytes) [] (hr_frames request)) (parse_json_body parse))"

section \<open>Parameters\<close>

text \<open>\<open>decode\<close> is \<open>form_urlencoded\<close>; the first value of a key counts.\<close>

definition query_params :: "(string \<Rightarrow> (string \<times> string) list) \<Rightarrow> string option \<Rightarrow> (string \<times> string) list" where
  "query_params decode query = decode (case query of None \<Rightarrow> [] | Some q \<Rightarrow> q)"

definition query_value :: "(string \<times> string) list \<Rightarrow> string \<Rightarrow> string option" where
  "query_value query key = map_of query key"

definition query_usize :: "(string \<times> string) list \<Rightarrow> string \<Rightarrow> int \<Rightarrow> int res" where
  "query_usize query key preset =
     bindr (transpose_res (\<lambda>v. ok_or (parse_u64 v) (Validation (key @ '' must be an integer''))) (query_value query key)) (\<lambda>v.
       Inr (case v of None \<Rightarrow> preset | Some n \<Rightarrow> n))"

definition optional_body_string :: "json \<Rightarrow> string \<Rightarrow> string option res" where
  "optional_body_string body key =
     transpose_res (\<lambda>v. ok_or (as_str v) (Validation (key @ '' must be a string''))) (jget body key)"

definition required_body :: "json \<Rightarrow> string \<Rightarrow> string res" where
  "required_body body key =
     bindr (optional_body_string body key) (\<lambda>v. ok_or v (Validation (key @ '' is required'')))"

definition optional_json_bool :: "(string, json) btree \<Rightarrow> string \<Rightarrow> bool option res" where
  "optional_json_bool m key =
     transpose_res (\<lambda>v. ok_or (as_bool v) (Validation (key @ '' must be a boolean''))) (bt_get m key)"

definition optional_json_u32 :: "(string, json) btree \<Rightarrow> string \<Rightarrow> int option res" where
  "optional_json_u32 m key =
     transpose_res (\<lambda>v. ok_or (Option.bind (as_u64 v) (\<lambda>n. if n \<le> 2 ^ 32 - 1 then Some n else None))
         (Validation (key @ '' must be a 32-bit unsigned integer''))) (bt_get m key)"

definition optional_json_u64 :: "(string, json) btree \<Rightarrow> string \<Rightarrow> int option res" where
  "optional_json_u64 m key =
     transpose_res (\<lambda>v. ok_or (as_u64 v) (Validation (key @ '' must be an unsigned integer''))) (bt_get m key)"

definition project_patch :: "json \<Rightarrow> settings_patch res" where
  "project_patch body =
     bindr (ok_or (as_object (case jget body ''compaction'' of None \<Rightarrow> body | Some v \<Rightarrow> v))
              (Validation ''project settings must be an object'')) (\<lambda>source.
     bindr (optional_json_bool source ''compaction_enabled'') (\<lambda>enabled.
     bindr (optional_json_u32 source ''compaction_after_days'') (\<lambda>after_days.
     bindr (optional_json_u64 source ''compaction_interval_seconds'') (\<lambda>interval.
     bindr (optional_json_u32 source ''compaction_batch_size'') (\<lambda>batch.
     Inr \<lparr>sp_compaction_enabled = enabled, sp_compaction_after_days = after_days,
          sp_compaction_interval_seconds = interval, sp_compaction_batch_size = batch\<rparr>)))))"

section \<open>Responses\<close>

definition header_insert :: "string \<Rightarrow> string \<Rightarrow> http_response \<Rightarrow> http_response" where
  "header_insert name v r = r\<lparr>hp_headers := (name, v) # filter (\<lambda>(n, _). n \<noteq> name) (hp_headers r)\<rparr>"

definition content_policy :: string where
  "content_policy = (let q = [CHR 0x27] in
     ''default-src '' @ q @ ''self'' @ q @ ''; frame-ancestors '' @ q @ ''none'' @ q @ ''; style-src '' @ q @ ''self'' @ q @ '' '' @ q
     @ ''unsafe-inline'' @ q @ ''; script-src '' @ q @ ''self'' @ q @ '' '' @ q @ ''unsafe-inline'' @ q)"

definition harden :: "http_response \<Rightarrow> http_response" where
  "harden r = header_insert ''content-security-policy'' content_policy (header_insert ''x-frame-options'' ''DENY''
     (header_insert ''x-content-type-options'' ''nosniff'' (header_insert ''cache-control'' ''no-store'' r)))"

definition json_response :: "(json \<Rightarrow> string) \<Rightarrow> int \<Rightarrow> json \<Rightarrow> http_response" where
  "json_response show status v =
     harden (header_insert ''content-type'' ''application/json'' \<lparr>hp_status = status, hp_headers = [], hp_body = show v\<rparr>)"

definition error_response :: "(json \<Rightarrow> string) \<Rightarrow> (f64 \<Rightarrow> string) \<Rightarrow> app_error \<Rightarrow> http_response" where
  "error_response show show_f64 e =
     json_response show (status_code e)
       (jobj [(''detail'', JStr (display_error show_f64 e)), (''error'', JStr (display_error show_f64 e))])"

definition empty_response :: "int \<Rightarrow> http_response" where
  "empty_response status = harden \<lparr>hp_status = status, hp_headers = [], hp_body = []\<rparr>"

definition dashboard_response :: "string \<Rightarrow> http_response" where
  "dashboard_response html =
     harden (header_insert ''content-type'' ''text/html; charset=utf-8'' \<lparr>hp_status = 200, hp_headers = [], hp_body = html\<rparr>)"

section \<open>Properties\<close>

definition hardened :: "http_response \<Rightarrow> bool" where
  "hardened r \<longleftrightarrow> map_of (hp_headers r) ''cache-control'' = Some ''no-store'' \<and> map_of (hp_headers r) ''x-content-type-options'' = Some ''nosniff''
     \<and> map_of (hp_headers r) ''x-frame-options'' = Some ''DENY'' \<and> map_of (hp_headers r) ''content-security-policy'' = Some content_policy"

lemma header_insert_get [simp]:
  "map_of (hp_headers (header_insert n v r)) m = (if m = n then Some v else map_of (hp_headers r) m)"
proof -
  have "map_of (filter (\<lambda>(k, _). k \<noteq> n) hs) m = map_of hs m" if "m \<noteq> n" for hs :: "(string \<times> string) list"
    using that by (induction hs) auto
  then show ?thesis by (simp add: header_insert_def)
qed

lemma hardened_responses [simp]:
  "hardened (json_response show status v)" "hardened (error_response show sf e)" "hardened (empty_response status)"
  "hardened (dashboard_response html)"
  by (simp_all add: hardened_def json_response_def error_response_def empty_response_def dashboard_response_def harden_def)

text \<open>A body is read whole and within the limit: what the JSON reader gets is all the data of all frames, never more
  than the limit, and a frame that failed or a declared length above the limit is an error.\<close>

definition body_bytes :: "string option list \<Rightarrow> string" where
  "body_bytes frames = concat (map (\<lambda>d. case d of None \<Rightarrow> [] | Some x \<Rightarrow> x) frames)"

lemma append_frames:
  "int (length b) \<le> max_bytes \<Longrightarrow> foldM (append_frame max_bytes) b frames = Inr bytes \<longleftrightarrow>
     (\<exists>ds. frames = map Inr ds \<and> bytes = b @ body_bytes ds \<and> int (length bytes) \<le> max_bytes)"
proof (induction frames arbitrary: b)
  case (Cons f fs)
  show ?case
  proof (cases f)
    case (Inr d)
    show ?thesis
    proof (cases "int (length (b @ body_bytes [d])) \<le> max_bytes")
      case True
      then have "append_frame max_bytes b f = Inr (b @ body_bytes [d])"
        using Inr by (auto simp: append_frame_def append_body_data_def append_body_chunk_def body_bytes_def split: option.splits)
      with Cons.IH[OF True] Inr show ?thesis by (auto simp: body_bytes_def map_eq_Cons_conv Cons_eq_map_conv)
    next
      case False
      then have "\<exists>e. append_frame max_bytes b f = Inl e"
        using Inr Cons.prems by (auto simp: append_frame_def append_body_data_def append_body_chunk_def body_bytes_def split: option.splits)
      with False Inr show ?thesis by (auto simp: body_bytes_def Cons_eq_map_conv)
    qed
  qed (auto simp: append_frame_def)
qed (auto simp: body_bytes_def)

lemma json_body_within_limit:
  assumes "json_body parse request max_bytes = Inr v" and "0 \<le> max_bytes"
  shows "\<exists>ds. hr_frames request = map Inr ds \<and> int (length (body_bytes ds)) \<le> max_bytes \<and> parse_json_body parse (body_bytes ds) = Inr v"
  using assms append_frames[of "[]" max_bytes "hr_frames request"] by (auto simp: json_body_def bindr_eq_Inr)

end
