(* ===== verification/Server.thy ===== *)
theory Server
  imports Http Mcp Paging Git Daemon
begin

text \<open>
  The daemon (\<open>src/src/http.rs\<close>): its state, the stores it opens per repository, the routes, and its life from the lease
  to the closing of the stores.  Requests are handled one after the other, each before the next event of the listener; the
  gates of the code serialize what concurrent requests share, the opening of stores and the registry.  The databases are a world \<open>'w\<close> with the operations of the
  record \<open>server_env\<close>; a store is a handle \<open>'s\<close>.
\<close>

record ('s, 'w) server_env =
  he_git :: git_env
  he_mcp :: mcp_env
  he_pager :: pager
  he_parse :: "string \<Rightarrow> string + json"
  he_authority :: "string \<Rightarrow> string option"
  he_decode_query :: "string \<Rightarrow> (string \<times> string) list"
  he_dashboard :: string
  he_os :: lease_os
  he_exe :: string
  he_exists :: "'w \<Rightarrow> string \<Rightarrow> bool"
  he_register :: "string \<Rightarrow> string \<Rightarrow> 'w \<Rightarrow> unit res \<times> 'w"
  he_repositories :: "'w \<Rightarrow> string list res"
  he_open :: "string \<Rightarrow> server_config \<Rightarrow> 'w \<Rightarrow> 's res \<times> 'w"
  he_close :: "'s \<Rightarrow> 'w \<Rightarrow> unit res \<times> 'w"
  he_ensure_project :: "'s \<Rightarrow> string \<Rightarrow> 'w \<Rightarrow> unit res \<times> 'w"
  he_project :: "'s \<Rightarrow> 'w \<Rightarrow> (string \<times> string) res"
  he_project_summary :: "'s \<Rightarrow> 'w \<Rightarrow> json res"
  he_list_snapshots :: "'s \<Rightarrow> string option \<Rightarrow> string option \<Rightarrow> 'w \<Rightarrow> json list res"
  he_ingest :: "'s \<Rightarrow> string \<Rightarrow> string \<Rightarrow> string \<Rightarrow> string option \<Rightarrow> string option \<Rightarrow> string option \<Rightarrow> string \<Rightarrow> 'w \<Rightarrow> json res \<times> 'w"
  he_update_settings :: "'s \<Rightarrow> settings_patch \<Rightarrow> 'w \<Rightarrow> json res \<times> 'w"
  he_compact :: "'s \<Rightarrow> 'w \<Rightarrow> json res \<times> 'w"
  he_reads :: "'s \<Rightarrow> 'w \<Rightarrow> store_api"

record 's server =
  cs_config :: server_config
  cs_stores :: "(string \<times> 's) list"
  cs_instance_id :: string
  cs_handoff_token :: string
  cs_shutdown :: bool

type_synonym ('s, 'w) daemon_state = "'s server \<times> 'w"

text \<open>\<open>he_exe\<close> is the daemon's own executable path, without which \<open>health\<close> would panic.\<close>

definition on_world :: "('w \<Rightarrow> 'a res \<times> 'w) \<Rightarrow> ('s, 'w) daemon_state \<Rightarrow> 'a res \<times> ('s, 'w) daemon_state" where
  "on_world f st = (case f (snd st) of (r, w) \<Rightarrow> (r, (fst st, w)))"

definition new_server :: "server_config \<Rightarrow> string \<Rightarrow> string \<Rightarrow> 's server res" where
  "new_server config instance_id handoff_token =
     (if \<not> (1024 \<le> sc_http_max_body_bytes config \<and> sc_http_max_body_bytes config \<le> 16777216)
      then Inl (Validation ''http_max_body_bytes must be between 1024 and 16777216'')
      else Inr \<lparr>cs_config = config, cs_stores = [], cs_instance_id = instance_id, cs_handoff_token = handoff_token, cs_shutdown = False\<rparr>)"

definition health :: "int \<Rightarrow> string \<Rightarrow> 's server \<Rightarrow> json" where
  "health pid exe srv =
     (let c = cs_config srv in
      jobj [(''status'', JStr ''ok''), (''version'', JStr daemon_version), (''schema_revision'', JInt schema_revision),
        (''run_retention'', JInt (sc_run_retention c)), (''run_concurrency'', JInt (sc_run_concurrency c)),
        (''mcp_http_concurrency'', JInt (sc_mcp_http_concurrency c)), (''db_pool_size'', JInt (sc_db_pool_size c)),
        (''db_acquire_timeout_ms'', JInt (sc_db_acquire_timeout_ms c)), (''db_query_timeout_ms'', JInt (sc_db_query_timeout_ms c)),
        (''http_request_timeout_seconds'', JInt (sc_http_request_timeout_seconds c)),
        (''http_max_body_bytes'', JInt (sc_http_max_body_bytes c)), (''run_log_max_bytes'', JInt (sc_run_log_max_bytes c)),
        (''common_db_path'', JStr (sc_common_db_path c)), (''repository_count'', jnat (length (cs_stores srv))),
        (''daemon_path'', JStr exe), (''pid'', JInt pid),
        (''instance_id'', JStr (cs_instance_id srv)), (''handoff_supported'', JBool True)])"

section \<open>Repositories\<close>

definition stable_project_id :: "(string \<Rightarrow> string) \<Rightarrow> string \<Rightarrow> string" where
  "stable_project_id sha256 repo_key = hex_prefix (sha256 repo_key) 12"

definition project_database_path :: "('s, 'w) server_env \<Rightarrow> 'w \<Rightarrow> string \<Rightarrow> string \<Rightarrow> string" where
  "project_database_path env w common_db_path repo_key =
     (let repository_local = default_db_path repo_key;
          centralized = path_join (path_join (parent_or_dot common_db_path) ''projects'')
            (stable_project_id (pg_sha256 (he_pager env)) repo_key @ ''.duckdb'')
      in if he_exists env w repository_local \<or> \<not> he_exists env w centralized then repository_local else centralized)"

record 's server_service =
  ss_store :: 's
  ss_context :: request_context

definition service_of :: "'s \<Rightarrow> string \<Rightarrow> string \<Rightarrow> 's server_service" where
  "service_of store repo_key checkout =
     \<lparr>ss_store = store, ss_context = \<lparr>rc_repo_key = repo_key, rc_checkout_path = checkout, rc_suite = None\<rparr>\<rparr>"

definition remember_store :: "string \<Rightarrow> 's \<Rightarrow> ('s, 'w) daemon_state \<Rightarrow> ('s, 'w) daemon_state" where
  "remember_store key store st = ((fst st)\<lparr>cs_stores := (key, store) # filter (\<lambda>(k, _). k \<noteq> key) (cs_stores (fst st))\<rparr>, snd st)"

definition open_store :: "('s, 'w) server_env \<Rightarrow> string \<Rightarrow> string \<Rightarrow> ('s, 'w) daemon_state \<Rightarrow> 's res \<times> ('s, 'w) daemon_state" where
  "open_store env key checkout st =
     (case map_of (cs_stores (fst st)) key of
        Some store \<Rightarrow> bind_st (on_world (he_ensure_project env store checkout) st) (\<lambda>_ st. (Inr store, st))
      | None \<Rightarrow>
          bind_st (on_world (he_open env (project_database_path env (snd st) (sc_common_db_path (cs_config (fst st))) key) (cs_config (fst st))) st) (\<lambda>store st.
          bind_st (on_world (he_ensure_project env store checkout) st) (\<lambda>_ st.
          (Inr store, remember_store key store st))))"

definition service_for_repository_path :: "('s, 'w) server_env \<Rightarrow> string \<Rightarrow> ('s, 'w) daemon_state
    \<Rightarrow> 's server_service res \<times> ('s, 'w) daemon_state" where
  "service_for_repository_path env repo_path st =
     bind_st (lift_st (inspect_git (he_git env) repo_path) st) (\<lambda>git st.
     bind_st (on_world (he_register env (stable_project_id (pg_sha256 (he_pager env)) (gi_repo_key git)) (gi_repo_key git)) st) (\<lambda>_ st.
     bind_st (open_store env (gi_repo_key git) (gi_repo_path git) st) (\<lambda>store st.
     (Inr (service_of store (gi_repo_key git) (gi_repo_path git)), st))))"

definition registry_repositories :: "('s, 'w) server_env \<Rightarrow> ('s, 'w) daemon_state \<Rightarrow> string list res" where
  "registry_repositories env st =
     (if \<not> he_exists env (snd st) (sc_common_db_path (cs_config (fst st))) then Inr [] else he_repositories env (snd st))"

definition repository_for_project_id :: "('s, 'w) server_env \<Rightarrow> string \<Rightarrow> ('s, 'w) daemon_state \<Rightarrow> string res" where
  "repository_for_project_id env project_id st =
     bindr (registry_repositories env st) (\<lambda>keys.
       ok_or (find (\<lambda>key. stable_project_id (pg_sha256 (he_pager env)) key = project_id) keys)
         (NotFound (''project not found: '' @ project_id)))"

section \<open>Projects\<close>

definition registry_project :: "('s, 'w) server_env \<Rightarrow> string \<Rightarrow> json" where
  "registry_project env repo_key =
     jobj [(''id'', JStr (stable_project_id (pg_sha256 (he_pager env)) repo_key)), (''repo_key'', JStr repo_key), (''repo_path'', JStr repo_key),
       (''snapshot_count'', JInt 0), (''branch_count'', JInt 0), (''command_count'', JInt 0), (''run_count'', JInt 0),
       (''latest_snapshot_id'', JNull), (''latest_snapshot_age'', JNull), (''latest_run_age'', JNull), (''latest_suite'', JNull),
       (''line_rate'', JNull)]"

definition registry_project_unavailable :: "('s, 'w) server_env \<Rightarrow> string \<Rightarrow> app_error \<Rightarrow> json" where
  "registry_project_unavailable env repo_key e =
     jset (jset (registry_project env repo_key) ''status'' (JStr ''unavailable'')) ''error''
       (JStr (display_error (me_show_f64 (he_mcp env)) e))"

definition registry_project_summary :: "('s, 'w) server_env \<Rightarrow> string \<Rightarrow> 's server_service res \<Rightarrow> 'w \<Rightarrow> json" where
  "registry_project_summary env repo_key r w =
     (case bindr r (\<lambda>service. he_project_summary env (ss_store service) w) of
        Inr v \<Rightarrow> v
      | Inl e \<Rightarrow> registry_project_unavailable env repo_key e)"

definition page_envelope :: "('s, 'w) server_env \<Rightarrow> request_context \<Rightarrow> json list \<Rightarrow> string option \<Rightarrow> int \<Rightarrow> string \<Rightarrow> json res" where
  "page_envelope env ctx vs cursor max_words scope =
     bindr (page (he_pager env) vs cursor (nat max_words) scope None) (\<lambda>(shown, page).
       Inr (service_envelope ctx (JArr shown) None (Some page)))"

definition project_list :: "('s, 'w) server_env \<Rightarrow> 's server_service \<Rightarrow> string option \<Rightarrow> int \<Rightarrow> ('s, 'w) daemon_state \<Rightarrow> json res" where
  "project_list env selected cursor max_words st =
     bindr (mapM (\<lambda>(_, store). he_project_summary env store (snd st)) (cs_stores (fst st))) (\<lambda>vs.
     bindr (if vs = [] then bindr (he_project_summary env (ss_store selected) (snd st)) (\<lambda>v. Inr [v]) else Inr vs) (\<lambda>vs.
     page_envelope env (ss_context selected) vs cursor max_words ''rest-projects''))"

definition unscoped_envelope :: "json list \<Rightarrow> json" where
  "unscoped_envelope vs =
     jobj [(''context'', jobj [(''repo_key'', JStr []), (''checkout_path'', JStr []), (''suite'', JNull), (''schema_revision'', JInt schema_revision)]),
       (''data'', JArr vs),
       (''page'', jobj [(''returned'', jnat (length vs)), (''total'', jnat (length vs)), (''word_count'', JInt 0), (''max_words'', JInt 5000),
          (''truncated'', JBool False), (''next_cursor'', JNull)])]"

fun summarize_registered :: "('s, 'w) server_env \<Rightarrow> string list \<Rightarrow> ('s, 'w) daemon_state \<Rightarrow> json list \<times> ('s, 'w) daemon_state" where
  "summarize_registered env [] st = ([], st)"
| "summarize_registered env (key # keys) st =
     (case service_for_repository_path env key st of
        (r, st) \<Rightarrow> (case summarize_registered env keys st of
           (vs, st') \<Rightarrow> (registry_project_summary env key r (snd st) # vs, st')))"

definition unscoped_projects :: "('s, 'w) server_env \<Rightarrow> ('s, 'w) daemon_state \<Rightarrow> json res \<times> ('s, 'w) daemon_state" where
  "unscoped_projects env st =
     (case registry_repositories env st of
        Inl e \<Rightarrow> (Inl e, st)
      | Inr registered \<Rightarrow>
          if registered \<noteq> []
          then (case summarize_registered env registered st of (vs, st) \<Rightarrow> (Inr (unscoped_envelope vs), st))
          else (case cs_stores (fst st) of
                  [] \<Rightarrow> Inr (unscoped_envelope [])
                | (_, store) # _ \<Rightarrow> bindr (he_project env store (snd st)) (\<lambda>(repo_key, repo_path).
                    project_list env (service_of store repo_key repo_path) None 5000 st), st))"

section \<open>Routes\<close>

definition snapshot_keys :: "string list" where
  "snapshot_keys = [''id'', ''created_at'', ''age_seconds'', ''age'', ''branch'', ''commit_sha'', ''base_ref'', ''suite'', ''format'',
     ''detail_retention'', ''total_lines'', ''covered_lines'', ''line_rate'', ''total_branches'', ''covered_branches'', ''branch_rate'',
     ''total_functions'', ''covered_functions'', ''function_rate'', ''total_regions'', ''covered_regions'', ''region_rate'']"

definition not_null :: "json option \<Rightarrow> json \<Rightarrow> json" where
  "not_null v preset = (case v of None \<Rightarrow> preset | Some x \<Rightarrow> if x = JNull then preset else x)"

definition compact_snapshot :: "json \<Rightarrow> bool \<Rightarrow> json" where
  "compact_snapshot v detailed =
     jobj (map (\<lambda>k. (k, jidx v k)) snapshot_keys
       @ [(''measurement_checkout_path'', jidx v ''repo_path''), (''warnings'', not_null (jget v ''warnings'') (JArr []))]
       @ (case Option.bind (jget v ''metadata'') (\<lambda>m. jget m ''execution'') of None \<Rightarrow> [] | Some e \<Rightarrow> [(''execution'', e)])
       @ (if detailed then [(''repo_path'', jidx v ''repo_path''), (''report_path'', jidx v ''report_path''),
            (''metadata'', not_null (jget v ''metadata'') (jobj []))] else []))"

definition ingest_report :: "('s, 'w) server_env \<Rightarrow> 's server_service \<Rightarrow> string \<Rightarrow> string \<Rightarrow> string \<Rightarrow> string option \<Rightarrow> string option
    \<Rightarrow> string option \<Rightarrow> bool \<Rightarrow> ('s, 'w) daemon_state \<Rightarrow> json res \<times> ('s, 'w) daemon_state" where
  "ingest_report env service report format suite branch commit_sha base_ref detailed st =
     (let suite = trim suite in
      if suite = [] then (Inl (Validation ''suite must not be blank''), st)
      else bind_st (on_world (he_ingest env (ss_store service) (path_join (rc_checkout_path (ss_context service)) report) format
             (rc_checkout_path (ss_context service)) branch commit_sha base_ref suite) st) (\<lambda>snapshot st.
           (Inr (service_envelope (ss_context service) (compact_snapshot snapshot detailed) (Some suite) None), st)))"

definition validate_repository_path :: "('s, 'w) server_env \<Rightarrow> 's server_service \<Rightarrow> string option \<Rightarrow> unit res" where
  "validate_repository_path env service repo_path =
     (case repo_path of
        None \<Rightarrow> Inr ()
      | Some p \<Rightarrow> bindr (inspect_git (he_git env) p) (\<lambda>git.
          if gi_repo_key git \<noteq> rc_repo_key (ss_context service)
          then Inl (Validation ''repo_path does not belong to the selected repository'') else Inr ()))"

definition rest_ingest :: "('s, 'w) server_env \<Rightarrow> 's server_service \<Rightarrow> json \<Rightarrow> ('s, 'w) daemon_state \<Rightarrow> json res \<times> ('s, 'w) daemon_state" where
  "rest_ingest env service body st =
     bind_st (lift_st
       (bindr (optional_body_string body ''repo_path'') (\<lambda>repo_path.
        bindr (validate_repository_path env service repo_path) (\<lambda>_.
        bindr (required_body body ''report_path'') (\<lambda>report.
        bindr (optional_body_string body ''format'') (\<lambda>format.
        bindr (optional_body_string body ''suite'') (\<lambda>suite.
        bindr (optional_body_string body ''branch'') (\<lambda>branch.
        bindr (optional_body_string body ''commit_sha'') (\<lambda>commit_sha.
        bindr (optional_body_string body ''base_ref'') (\<lambda>base_ref.
        Inr (report, format, suite, branch, commit_sha, base_ref)))))))))) st)
       (\<lambda>(report, format, suite, branch, commit_sha, base_ref) st.
          ingest_report env service report (case format of None \<Rightarrow> ''auto'' | Some f \<Rightarrow> f)
            (case suite of None \<Rightarrow> ''default'' | Some x \<Rightarrow> x) branch commit_sha base_ref False st)"

definition call_service_tool :: "('s, 'w) server_env \<Rightarrow> 's server_service \<Rightarrow> string \<Rightarrow> json \<Rightarrow> 'w \<Rightarrow> json res" where
  "call_service_tool env service name arguments w =
     call_tool (me_query (he_mcp env)) (me_decoder (he_mcp env)) (rc_repo_key (ss_context service))
       (rc_checkout_path (ss_context service)) (he_reads env (ss_store service) w) name arguments"

definition snapshot_row :: "json \<Rightarrow> json" where
  "snapshot_row row = jobj (map (\<lambda>k. (k, jidx row k)) [''id'', ''suite'', ''created_at'', ''format''])"

definition route_rest :: "('s, 'w) server_env \<Rightarrow> string \<Rightarrow> string list \<Rightarrow> (string \<times> string) list \<Rightarrow> json \<Rightarrow> int \<Rightarrow> 's server_service
    \<Rightarrow> ('s, 'w) daemon_state \<Rightarrow> json res \<times> ('s, 'w) daemon_state" where
  "route_rest env meth path query body max_words service st =
     (if meth = ''POST'' \<and> path = [''api'', ''coverage'', ''gaps'']
      then (call_service_tool env service ''coverage_gaps'' body (snd st), st)
      else if meth = ''POST'' \<and> path = [''api'', ''coverage'', ''compare'']
      then (call_service_tool env service ''coverage_compare'' body (snd st), st)
      else if meth = ''POST'' \<and> path = [''api'', ''ingest''] then rest_ingest env service body st
      else if meth = ''GET'' \<and> path = [''api'', ''projects'']
      then (project_list env service (query_value query ''cursor'') max_words st, st)
      else if meth = ''PATCH'' \<and> length path = 3 \<and> take 2 path = [''api'', ''projects'']
      then bind_st (lift_st (project_patch body) st) (\<lambda>patch st.
             bind_st (on_world (he_update_settings env (ss_store service) patch) st) (\<lambda>settings st.
               (Inr (service_envelope (ss_context service) settings None None), st)))
      else if meth = ''POST'' \<and> length path = 4 \<and> take 2 path = [''api'', ''projects''] \<and> path ! 3 = ''compact''
      then bind_st (on_world (he_compact env (ss_store service)) st) (\<lambda>v st.
             (Inr (service_envelope (ss_context service) v None None), st))
      else if meth = ''GET'' \<and> path = [''api'', ''snapshots'']
      then (bindr (he_list_snapshots env (ss_store service) (query_value query ''branch'') (query_value query ''suite'') (snd st)) (\<lambda>rows.
              page_envelope env (ss_context service) (map snapshot_row rows) (query_value query ''cursor'') max_words ''measurement-list''), st)
      else (Inl (NotFound ''route removed or unknown; use POST /api/coverage/gaps or /api/coverage/compare''), st))"

definition rest_path :: "string \<Rightarrow> string list" where
  "rest_path p = split_on (CHR ''/'') (trim_matches (\<lambda>c. c = CHR ''/'') p)"

definition project_reference :: "string list \<Rightarrow> string option" where
  "project_reference path =
     (if length path = 3 \<and> take 2 path = [''api'', ''projects''] \<or> length path = 4 \<and> take 2 path = [''api'', ''projects''] \<and> path ! 3 = ''compact''
      then (if path ! 2 = ''project'' then None else Some (path ! 2)) else None)"

definition select_repository :: "('s, 'w) server_env \<Rightarrow> string list \<Rightarrow> string option \<Rightarrow> (string \<times> string) list \<Rightarrow> ('s, 'w) daemon_state \<Rightarrow> string res" where
  "select_repository env path repository query st =
     (case project_reference path of
        Some project_id \<Rightarrow> repository_for_project_id env project_id st
      | None \<Rightarrow> ok_or (case repository of
            Some r \<Rightarrow> Some r
          | None \<Rightarrow> (case query_value query ''repo_path'' of
                Some r \<Rightarrow> Some r
              | None \<Rightarrow> sc_default_repository_path (cs_config (fst st))))
          (Validation (repository_header @ '' header is required in common database mode'')))"

definition dispatch_rest :: "('s, 'w) server_env \<Rightarrow> http_request \<Rightarrow> ('s, 'w) daemon_state \<Rightarrow> http_response res \<times> ('s, 'w) daemon_state" where
  "dispatch_rest env request st =
     (let meth = hr_method request;
          query = query_params (he_decode_query env) (hr_query request);
          path = rest_path (hr_path request) in
      bind_st (lift_st (requested_repository (hr_headers request)) st) (\<lambda>repository st.
      bind_st (lift_st (if meth \<in> {''POST'', ''PATCH'', ''PUT''}
                        then json_body (he_parse env) request (sc_http_max_body_bytes (cs_config (fst st))) else Inr JNull) st) (\<lambda>body st.
      if hd path \<noteq> ''api'' then (Inl (NotFound ''route not found''), st)
      else if meth = ''GET'' \<and> path = [''api'', ''projects''] \<and> repository = None \<and> query_value query ''repo_path'' = None
              \<and> sc_default_repository_path (cs_config (fst st)) = None
      then bind_st (unscoped_projects env st) (\<lambda>v st. (Inr (json_response (pg_show (he_pager env)) 200 v), st))
      else
      bind_st (lift_st (select_repository env path repository query st) st) (\<lambda>repository st.
      bind_st (service_for_repository_path env repository st) (\<lambda>service st.
      bind_st (lift_st (query_usize query ''max_words'' 600) st) (\<lambda>max_words st.
      bind_st (route_rest env meth path query body max_words service st) (\<lambda>v st.
      (Inr (json_response (pg_show (he_pager env)) 200 v), st))))))))"

definition dispatch_mcp :: "('s, 'w) server_env \<Rightarrow> http_request \<Rightarrow> ('s, 'w) daemon_state \<Rightarrow> http_response res \<times> ('s, 'w) daemon_state" where
  "dispatch_mcp env request st =
     (if hr_method request \<noteq> ''POST'' then (Inr (empty_response 405), st)
      else
      bind_st (lift_st (requested_repository (hr_headers request)) st) (\<lambda>repository st.
      bind_st (lift_st (json_body (he_parse env) request (sc_http_max_body_bytes (cs_config (fst st)))) st) (\<lambda>body st.
      bind_st (lift_st (ok_or (Option.bind (jget body ''method'') as_str) (Validation ''method is required'')) st) (\<lambda>meth st.
      bind_st (if meth = ''tools/call''
               then bind_st (lift_st (ok_or (case repository of Some r \<Rightarrow> Some r | None \<Rightarrow> sc_default_repository_path (cs_config (fst st)))
                      (Validation (repository_header @ '' header is required''))) st) (\<lambda>repository st.
                    bind_st (service_for_repository_path env repository st) (\<lambda>service st. (Inr (Some service), st)))
               else (Inr None, st)) (\<lambda>service st.
      (Inr (case dispatch_json_rpc (he_mcp env)
              (map_option (\<lambda>sv. \<lparr>sv_repo_key = rc_repo_key (ss_context sv), sv_checkout = rc_checkout_path (ss_context sv),
                 sv_store = he_reads env (ss_store sv) (snd st)\<rparr>) service) body of
              Some v \<Rightarrow> json_response (pg_show (he_pager env)) 200 v
            | None \<Rightarrow> empty_response 202), st))))))"

text \<open>The notification is sent a moment later, so that the response leaves first.\<close>

definition dispatch_daemon_handoff :: "('s, 'w) server_env \<Rightarrow> http_request \<Rightarrow> ('s, 'w) daemon_state \<Rightarrow> http_response res \<times> ('s, 'w) daemon_state" where
  "dispatch_daemon_handoff env request st =
     (if hr_method request \<noteq> ''POST'' then (Inr (empty_response 405), st)
      else
      bind_st (lift_st (json_body (he_parse env) request (sc_http_max_body_bytes (cs_config (fst st)))) st) (\<lambda>body st.
      if Option.bind (jget body ''token'') as_str \<noteq> Some (cs_handoff_token (fst st)) then (Inr (empty_response 403), st)
      else (Inr (json_response (pg_show (he_pager env)) 202
              (jobj [(''status'', JStr ''shutting_down''), (''instance_id'', JStr (cs_instance_id (fst st)))])),
            ((fst st)\<lparr>cs_shutdown := True\<rparr>, snd st))))"

definition dispatch :: "('s, 'w) server_env \<Rightarrow> http_request \<Rightarrow> ('s, 'w) daemon_state \<Rightarrow> http_response res \<times> ('s, 'w) daemon_state" where
  "dispatch env request st =
     bind_st (lift_st (trusted_host (he_authority env) (hr_headers request)) st) (\<lambda>trusted st.
     if \<not> trusted then (Inl (Validation ''untrusted host''), st)
     else let path = hr_path request in
       if path = ''/health'' \<and> hr_method request = ''GET''
       then (Inr (json_response (pg_show (he_pager env)) 200 (health (lo_pid (he_os env)) (he_exe env) (fst st))), st)
       else if path = daemon_handoff_path then dispatch_daemon_handoff env request st
       else if path = ''/favicon.ico'' then (Inr (empty_response 204), st)
       else if path = ''/'' \<and> hr_method request = ''GET'' then (Inr (dashboard_response (he_dashboard env)), st)
       else if path = ''/mcp'' \<or> path = ''/mcp/'' then dispatch_mcp env request st
       else dispatch_rest env request st)"

definition handle_request :: "('s, 'w) server_env \<Rightarrow> http_request \<Rightarrow> ('s, 'w) daemon_state \<Rightarrow> http_response \<times> ('s, 'w) daemon_state" where
  "handle_request env request st =
     (case dispatch env request st of
        (Inr response, st) \<Rightarrow> (response, st)
      | (Inl e, st) \<Rightarrow> (error_response (pg_show (he_pager env)) (me_show_f64 (he_mcp env)) e, st))"

section \<open>The life of a daemon\<close>

text \<open>All stores are closed, also after one of them failed; the first failure is reported.\<close>

fun close_all :: "('s, 'w) server_env \<Rightarrow> 's list \<Rightarrow> 'w \<Rightarrow> app_error option \<times> 'w" where
  "close_all env [] w = (None, w)"
| "close_all env (store # stores) w =
     (case he_close env store w of
        (r, w) \<Rightarrow> (case close_all env stores w of
           (first, w) \<Rightarrow> (case r of Inl e \<Rightarrow> Some e | Inr _ \<Rightarrow> first, w)))"

definition close_stores :: "('s, 'w) server_env \<Rightarrow> ('s, 'w) daemon_state \<Rightarrow> unit res \<times> ('s, 'w) daemon_state" where
  "close_stores env st =
     (case close_all env (map snd (cs_stores (fst st))) (snd st) of
        (first_error, w) \<Rightarrow> (case first_error of None \<Rightarrow> Inr () | Some e \<Rightarrow> Inl e, ((fst st)\<lparr>cs_stores := []\<rparr>, w)))"

definition combine_shutdown_results :: "unit res \<Rightarrow> unit res \<Rightarrow> unit res" where
  "combine_shutdown_results r close_result = (case r of Inl e \<Rightarrow> Inl e | Inr _ \<Rightarrow> close_result)"

text \<open>A connection brings its whole request, or its body does not arrive in time; a handler only waits for the body, before it
  does anything else.\<close>

datatype arrival = Complete http_request | Stalled

definition spawn_connection :: "('s, 'w) server_env \<Rightarrow> arrival \<Rightarrow> ('s, 'w) daemon_state \<Rightarrow> http_response \<times> ('s, 'w) daemon_state" where
  "spawn_connection env a st =
     (case a of
        Complete request \<Rightarrow> handle_request env request st
      | Stalled \<Rightarrow> (error_response (pg_show (he_pager env)) (me_show_f64 (he_mcp env))
          (Timeout ''HTTP request'' (sc_http_request_timeout_seconds (cs_config (fst st)) * 1000 mod 2 ^ 64)), st))"

text \<open>What the listening loop meets: a connection, a failed accept, a signal of the operating system and the internal
  notification, which only a handoff sends.\<close>

datatype listen_event = Connection arrival | AcceptFailed io_error | Signalled "unit res" | Notified

definition stop_serving :: "('s, 'w) server_env \<Rightarrow> unit res \<Rightarrow> ('s, 'w) daemon_state \<Rightarrow> unit res \<times> ('s, 'w) daemon_state" where
  "stop_serving env r st = (case close_stores env st of (close_result, st) \<Rightarrow> (combine_shutdown_results r close_result, st))"

fun serve :: "('s, 'w) server_env \<Rightarrow> listen_event list \<Rightarrow> ('s, 'w) daemon_state
    \<Rightarrow> http_response list \<times> unit res option \<times> ('s, 'w) daemon_state" where
  "serve env [] st = ([], None, st)"
| "serve env (Connection a # events) st =
     (case spawn_connection env a st of
        (response, st) \<Rightarrow> (case serve env events st of (responses, r, st) \<Rightarrow> (response # responses, r, st)))"
| "serve env (AcceptFailed e # events) st = (case stop_serving env (Inl (Io e)) st of (r, st) \<Rightarrow> ([], Some r, st))"
| "serve env (Signalled s # events) st = (case stop_serving env s st of (r, st) \<Rightarrow> ([], Some r, st))"
| "serve env (Notified # events) st =
     (if cs_shutdown (fst st) then (case stop_serving env (Inr ()) st of (r, st) \<Rightarrow> ([], Some r, st))
      else serve env events st)"

definition daemon_resource :: "server_config \<Rightarrow> string" where
  "daemon_resource config = ''Coverage MCP daemon on port '' @ show_int (sc_port config)"

definition start_daemon :: "('s, 'w) server_env \<Rightarrow> 'l lock_ops \<Rightarrow> io_error option \<Rightarrow> 's server \<Rightarrow> 'l lease_world
    \<Rightarrow> file_lease res \<times> 'l lease_world" where
  "start_daemon env k bind_error srv lw =
     (case validate_loopback_host (sc_host (cs_config srv)) of
        Inl e \<Rightarrow> (Inl e, lw)
      | Inr _ \<Rightarrow>
          (case acquire_daemon k (he_os env) (daemon_lock_path (sc_common_db_path (cs_config srv))) (daemon_resource (cs_config srv))
                  (cs_instance_id srv) (cs_handoff_token srv) lw of
             (Inl e, lw) \<Rightarrow> (Inl e, lw)
           | (Inr lease, lw) \<Rightarrow>
               (case bind_error of Some e \<Rightarrow> (Inl (Io e), drop_lease k lease lw) | None \<Rightarrow> (Inr lease, lw))))"

definition run_daemon :: "('s, 'w) server_env \<Rightarrow> 'l lock_ops \<Rightarrow> io_error option \<Rightarrow> listen_event list \<Rightarrow> ('s, 'w) daemon_state \<Rightarrow> 'l lease_world
    \<Rightarrow> http_response list \<times> unit res option \<times> ('s, 'w) daemon_state \<times> 'l lease_world" where
  "run_daemon env k bind_error events st lw =
     (case start_daemon env k bind_error (fst st) lw of
        (Inl e, lw) \<Rightarrow> ([], Some (Inl e), st, lw)
      | (Inr lease, lw) \<Rightarrow>
          (case serve env events st of
             (responses, None, st) \<Rightarrow> (responses, None, st, lw)
           | (responses, Some r, st) \<Rightarrow> (responses, Some r, st, drop_lease k lease lw)))"

section \<open>What a request may change\<close>

lemma snd_on_world [simp]: "fst (snd (on_world f st)) = fst st"
  by (simp add: on_world_def split: prod.splits)

text \<open>Outside a handoff a request changes the databases and adds stores for repositories that have none.  A relation
  on the states of the daemon that allows these two steps allows every request.\<close>

locale request_effect =
  fixes R :: "('s, 'w) daemon_state \<Rightarrow> ('s, 'w) daemon_state \<Rightarrow> bool"
  assumes R_trans: "R st st' \<Longrightarrow> R st' st'' \<Longrightarrow> R st st''"
    and R_world: "fst st' = fst st \<Longrightarrow> R st st'"
    and R_remember: "map_of (cs_stores (fst st)) key = None \<Longrightarrow> R st (remember_store key store st)"
begin

lemma R_refl: "R st st"
  by (simp add: R_world)

lemma R_on_world: "R st (snd (on_world f st))"
  by (simp add: R_world)

lemma R_bind: "R st (snd m) \<Longrightarrow> (\<And>x. R (snd m) (snd (f x (snd m)))) \<Longrightarrow> R st (snd (bind_st m f))"
  by (cases m; cases "fst m") (auto intro: R_trans)

lemma R_lift: "(\<And>x. R st (snd (f x st))) \<Longrightarrow> R st (snd (bind_st (lift_st r st) f))"
  by (cases r) (auto simp: R_refl)

lemma R_if: "R st (snd a) \<Longrightarrow> R st (snd b) \<Longrightarrow> R st (snd (if c then a else b))"
  by simp

lemma R_pair: "R st (snd (x, st))"
  by (simp add: R_refl)

lemmas R_intros = R_lift R_if R_pair R_bind R_on_world

lemma R_open_store: "R st (snd (open_store env key checkout st))"
  by (cases "map_of (cs_stores (fst st)) key") (auto simp: open_store_def intro!: R_bind R_remember R_refl R_on_world)

lemma R_service: "R st (snd (service_for_repository_path env repository st))"
  unfolding service_for_repository_path_def by (intro R_intros R_open_store)

lemma R_summarize: "R st (snd (summarize_registered env keys st))"
proof (induction keys arbitrary: st)
  case (Cons key keys)
  show ?case
    using R_trans[OF R_service[of st env key] Cons.IH] by (auto split: prod.splits)
qed (simp add: R_refl)

lemma R_projects: "R st (snd (unscoped_projects env st))"
proof (cases "registry_repositories env st")
  case (Inr registered)
  then show ?thesis
    using R_summarize[of st env registered] by (cases "registered = []") (auto simp: unscoped_projects_def R_refl split: prod.splits)
qed (simp add: unscoped_projects_def R_refl)

lemma R_ingest: "R st (snd (rest_ingest env service body st))"
  unfolding rest_ingest_def ingest_report_def Let_def split_beta by (intro R_intros)

lemma R_route: "R st (snd (route_rest env meth path query body max_words service st))"
  unfolding route_rest_def by (intro R_intros R_ingest)

lemma R_rest: "R st (snd (dispatch_rest env request st))"
  unfolding dispatch_rest_def Let_def by (intro R_intros R_projects R_service R_route)

lemma R_mcp: "R st (snd (dispatch_mcp env request st))"
  unfolding dispatch_mcp_def by (intro R_intros R_service)

lemma R_dispatch: "hr_path request \<noteq> daemon_handoff_path \<Longrightarrow> R st (snd (dispatch env request st))"
  unfolding dispatch_def Let_def by (simp only: if_False) (intro R_intros R_mcp R_rest)

lemma R_handle: "hr_path request \<noteq> daemon_handoff_path \<Longrightarrow> R st (snd (handle_request env request st))"
  using R_dispatch[of request st env] by (auto simp: handle_request_def split: prod.splits sum.splits)

end

section \<open>Handoff\<close>

text \<open>The token that a request for a handoff presents, if it is one the daemon looks at.\<close>

definition presented_token :: "('s, 'w) server_env \<Rightarrow> http_request \<Rightarrow> 's server \<Rightarrow> string option" where
  "presented_token env request srv =
     (if trusted_host (he_authority env) (hr_headers request) = Inr True \<and> hr_path request = daemon_handoff_path \<and> hr_method request = ''POST''
      then case json_body (he_parse env) request (sc_http_max_body_bytes (cs_config srv)) of
             Inl _ \<Rightarrow> None | Inr body \<Rightarrow> Option.bind (jget body ''token'') as_str
      else None)"

lemma handoff_path_apart: "daemon_handoff_path \<noteq> ''/health''"
  by (simp add: daemon_handoff_path_def)

lemma untrusted_dispatch: "trusted_host (he_authority env) (hr_headers request) \<noteq> Inr True \<Longrightarrow>
    \<exists>m. dispatch env request st = (Inl (Validation m), st)"
  by (auto simp: dispatch_def trusted_host_def header_to_str_def ok_or_def split: option.splits sum.splits if_splits)

lemma dispatch_handoff:
  "trusted_host (he_authority env) (hr_headers request) = Inr True \<Longrightarrow> hr_path request = daemon_handoff_path
    \<Longrightarrow> dispatch env request st = dispatch_daemon_handoff env request st"
  by (simp add: dispatch_def handoff_path_apart Let_def)

lemma handoff_accepted:
  assumes "presented_token env request (fst st) = Some (cs_handoff_token (fst st))"
  shows "handle_request env request st = (json_response (pg_show (he_pager env)) 202
      (jobj [(''status'', JStr ''shutting_down''), (''instance_id'', JStr (cs_instance_id (fst st)))]), ((fst st)\<lparr>cs_shutdown := True\<rparr>, snd st))"
  using assms by (auto simp: presented_token_def handle_request_def dispatch_handoff dispatch_daemon_handoff_def split: if_splits sum.splits)

lemma handoff_refused:
  assumes "presented_token env request (fst st) \<noteq> Some (cs_handoff_token (fst st))" and "hr_path request = daemon_handoff_path"
  shows "snd (handle_request env request st) = st"
proof (cases "trusted_host (he_authority env) (hr_headers request) = Inr True")
  case True
  with assms show ?thesis
    by (auto simp: presented_token_def handle_request_def dispatch_handoff dispatch_daemon_handoff_def split: sum.splits)
qed (use untrusted_dispatch[of env request st] in \<open>auto simp: handle_request_def\<close>)

text \<open>The configuration, the identity and the shutdown flag stay outside a handoff.\<close>

definition same_identity :: "'s server \<Rightarrow> 's server \<Rightarrow> bool" where
  "same_identity a b \<longleftrightarrow> cs_config a = cs_config b \<and> cs_instance_id a = cs_instance_id b \<and> cs_handoff_token a = cs_handoff_token b"

interpretation fixed: request_effect "\<lambda>st st'. same_identity (fst st) (fst st') \<and> cs_shutdown (fst st) = cs_shutdown (fst st')"
  by unfold_locales (auto simp: remember_store_def same_identity_def)

lemma filter_absent: "map_of xs k = None \<Longrightarrow> filter (\<lambda>(j, _). j \<noteq> k) xs = xs"
  by (induction xs) (auto split: if_splits)

definition stores_kept :: "'s server \<Rightarrow> 's server \<Rightarrow> bool" where
  "stores_kept a b \<longleftrightarrow> (distinct (map fst (cs_stores a)) \<longrightarrow>
     distinct (map fst (cs_stores b)) \<and> map_of (cs_stores a) \<subseteq>\<^sub>m map_of (cs_stores b))"

lemma stores_kept_trans: "stores_kept a b \<Longrightarrow> stores_kept b c \<Longrightarrow> stores_kept a c"
  by (auto simp: stores_kept_def intro: map_le_trans)

lemma stores_kept_remember: "map_of (cs_stores (fst st)) key = None \<Longrightarrow> stores_kept (fst st) (fst (remember_store key store st))"
  by (auto simp: stores_kept_def remember_store_def filter_absent map_le_def dom_def map_of_eq_None_iff[symmetric] simp del: map_of_eq_None_iff)

interpretation kept: request_effect "\<lambda>st st'. stores_kept (fst st) (fst st')"
  by unfold_locales (erule (1) stores_kept_trans, simp add: stores_kept_def, erule stores_kept_remember)

lemma handle_identity: "same_identity (fst st) (fst (snd (handle_request env request st)))"
proof (cases "hr_path request = daemon_handoff_path")
  case True
  show ?thesis
    using handoff_accepted[of env request st] handoff_refused[OF _ True, of env st]
    by (cases "presented_token env request (fst st) = Some (cs_handoff_token (fst st))") (auto simp: same_identity_def)
qed (use fixed.R_handle in blast)

lemma handle_stores: "stores_kept (fst st) (fst (snd (handle_request env request st)))"
proof (cases "hr_path request = daemon_handoff_path")
  case True
  show ?thesis
    using handoff_accepted[of env request st] handoff_refused[OF _ True, of env st]
    by (cases "presented_token env request (fst st) = Some (cs_handoff_token (fst st))") (auto simp: stores_kept_def)
qed (use kept.R_handle in blast)

lemma handle_shutdown:
  "cs_shutdown (fst (snd (handle_request env request st))) \<longleftrightarrow>
     cs_shutdown (fst st) \<or> presented_token env request (fst st) = Some (cs_handoff_token (fst st))"
proof (cases "presented_token env request (fst st) = Some (cs_handoff_token (fst st))")
  case False
  show ?thesis
  proof (cases "hr_path request = daemon_handoff_path")
    case True
    from handoff_refused[OF False this] False show ?thesis by simp
  next
    case other: False
    from fixed.R_handle[OF other] False show ?thesis by blast
  qed
qed (simp add: handoff_accepted)

section \<open>The token in the state\<close>

definition with_token :: "string \<Rightarrow> ('s, 'w) daemon_state \<Rightarrow> ('s, 'w) daemon_state" where
  "with_token t st = ((fst st)\<lparr>cs_handoff_token := t\<rparr>, snd st)"

lemma with_token_simps [simp]:
  "snd (with_token t st) = snd st" "cs_config (fst (with_token t st)) = cs_config (fst st)"
  "cs_stores (fst (with_token t st)) = cs_stores (fst st)" "cs_instance_id (fst (with_token t st)) = cs_instance_id (fst st)"
  "cs_shutdown (fst (with_token t st)) = cs_shutdown (fst st)" "cs_handoff_token (fst (with_token t st)) = t"
  "with_token t (remember_store key store st) = remember_store key store (with_token t st)"
  by (simp_all add: with_token_def remember_store_def)

lemma token_bind:
  "m' = apsnd (with_token t) m \<Longrightarrow> (\<And>x st. f' x (with_token t st) = apsnd (with_token t) (f x st))
    \<Longrightarrow> bind_st m' f' = apsnd (with_token t) (bind_st m f)"
  by (cases m; cases "fst m") auto

lemma token_lift: "r' = r \<Longrightarrow> lift_st r' (with_token t st) = apsnd (with_token t) (lift_st r st)"
  by (simp add: lift_st_def)

lemma token_pair: "x' = x \<Longrightarrow> (x', with_token t st) = apsnd (with_token t) (x, st)"
  by simp

lemma token_world: "on_world f (with_token t st) = apsnd (with_token t) (on_world f st)"
  by (simp add: on_world_def with_token_def split: prod.splits)

lemma token_if: "a' = apsnd g a \<Longrightarrow> b' = apsnd g b \<Longrightarrow> (if c then a' else b') = apsnd g (if c then a else b)"
  by simp

lemmas token_intros = token_bind token_lift token_pair token_world token_if refl

lemma token_open: "open_store env key checkout (with_token t st) = apsnd (with_token t) (open_store env key checkout st)"
proof -
  have rem: "(Inr store, remember_store key store (with_token t st)) = apsnd (with_token t) (Inr store, remember_store key store st)"
    for store and st :: "('s, 'w) daemon_state" by simp
  show ?thesis
    unfolding open_store_def with_token_simps(1-3)
    by (cases "map_of (cs_stores (fst st)) key") (auto intro!: token_bind token_world simp: token_world)
qed

lemma token_service:
  "service_for_repository_path env repository (with_token t st) = apsnd (with_token t) (service_for_repository_path env repository st)"
  unfolding service_for_repository_path_def by (intro token_intros token_open)

lemma token_summarize: "summarize_registered env keys (with_token t st) = apsnd (with_token t) (summarize_registered env keys st)"
proof (induction keys arbitrary: st)
  case (Cons key keys)
  obtain r st' where "service_for_repository_path env key st = (r, st')" by (rule prod.exhaust)
  then show ?case
    using Cons.IH[of st'] by (cases "summarize_registered env keys st'") (simp add: token_service)
qed simp

lemma token_registry: "registry_repositories env (with_token t st) = registry_repositories env st"
  by (simp add: registry_repositories_def)

lemma token_project_list: "project_list env service cursor max_words (with_token t st) = project_list env service cursor max_words st"
  unfolding project_list_def with_token_simps by (rule refl)

lemma token_projects: "unscoped_projects env (with_token t st) = apsnd (with_token t) (unscoped_projects env st)"
proof (cases "registry_repositories env st")
  case (Inr registered)
  show ?thesis
    by (cases "summarize_registered env registered st")
      (simp add: unscoped_projects_def token_registry token_summarize token_project_list Inr split: list.splits)
qed (simp add: unscoped_projects_def token_registry)

lemma token_ingest: "rest_ingest env service body (with_token t st) = apsnd (with_token t) (rest_ingest env service body st)"
  unfolding rest_ingest_def ingest_report_def Let_def split_beta by (intro token_intros)

lemma token_route: "route_rest env meth path query body max_words service (with_token t st) =
    apsnd (with_token t) (route_rest env meth path query body max_words service st)"
  unfolding route_rest_def with_token_simps token_project_list by (intro token_intros token_ingest)

lemma token_select: "select_repository env path repository query (with_token t st) = select_repository env path repository query st"
  unfolding select_repository_def repository_for_project_id_def token_registry with_token_simps by (rule refl)

lemma token_rest: "dispatch_rest env request (with_token t st) = apsnd (with_token t) (dispatch_rest env request st)"
  unfolding dispatch_rest_def Let_def
  by (intro token_intros token_projects token_service token_route | subst with_token_simps token_select)+

lemma token_mcp: "dispatch_mcp env request (with_token t st) = apsnd (with_token t) (dispatch_mcp env request st)"
  unfolding dispatch_mcp_def by (intro token_intros token_service | subst with_token_simps)+

lemma token_dispatch: "hr_path request \<noteq> daemon_handoff_path \<Longrightarrow>
    dispatch env request (with_token t st) = apsnd (with_token t) (dispatch env request st)"
  unfolding dispatch_def Let_def health_def
  by (simp only: if_False) (intro token_intros token_mcp token_rest | subst with_token_simps)+

lemma token_handle:
  assumes "presented_token env request (fst st) \<noteq> Some t" and "presented_token env request (fst st) \<noteq> Some (cs_handoff_token (fst st))"
  shows "handle_request env request (with_token t st) = apsnd (with_token t) (handle_request env request st)"
proof -
  have "dispatch env request (with_token t st) = apsnd (with_token t) (dispatch env request st)"
  proof (cases "hr_path request = daemon_handoff_path")
    case handoff: True
    show ?thesis
    proof (cases "trusted_host (he_authority env) (hr_headers request) = Inr True")
      case True
      with assms handoff show ?thesis
        by (auto simp: presented_token_def dispatch_handoff dispatch_daemon_handoff_def split: sum.splits)
    next
      case False
      then show ?thesis by (auto simp: dispatch_def split: sum.splits)
    qed
  qed (rule token_dispatch)
  then show ?thesis
    by (cases "dispatch env request st"; cases "fst (dispatch env request st)") (auto simp: handle_request_def)
qed

section \<open>Serving\<close>

lemma close_all_world: "snd (close_all env stores w) = fold (\<lambda>store w. snd (he_close env store w)) stores w"
  by (induction stores arbitrary: w) (simp_all split: prod.splits, metis snd_conv)

lemma stop_serving_effect:
  "fst (snd (stop_serving env r st)) = (fst st)\<lparr>cs_stores := []\<rparr>"
  "snd (snd (stop_serving env r st)) = fold (\<lambda>store w. snd (he_close env store w)) (map snd (cs_stores (fst st))) (snd st)"
  using close_all_world[of env "map snd (cs_stores (fst st))" "snd st"]
  by (auto simp: stop_serving_def close_stores_def split: prod.splits)

text \<open>Serving is handling the requests that arrive, one after the other, until a stop.\<close>

fun handle_all :: "('s, 'w) server_env \<Rightarrow> arrival list \<Rightarrow> ('s, 'w) daemon_state \<Rightarrow> http_response list \<times> ('s, 'w) daemon_state" where
  "handle_all env [] st = ([], st)"
| "handle_all env (request # requests) st =
     (case spawn_connection env request st of
        (response, st) \<Rightarrow> (case handle_all env requests st of (responses, st) \<Rightarrow> (response # responses, st)))"

fun arrivals :: "listen_event list \<Rightarrow> arrival list" where
  "arrivals [] = []"
| "arrivals (Connection request # events) = request # arrivals events"
| "arrivals (_ # events) = arrivals events"

lemma connection_kept:
  "stores_kept (fst st) (fst (snd (spawn_connection env a st))) \<and> same_identity (fst st) (fst (snd (spawn_connection env a st)))"
  by (cases a) (auto simp: spawn_connection_def handle_stores handle_identity, simp_all add: stores_kept_def same_identity_def)

lemma handle_all_kept:
  "handle_all env requests st = (responses, st') \<Longrightarrow> stores_kept (fst st) (fst st') \<and> same_identity (fst st) (fst st')"
proof (induction requests arbitrary: st responses)
  case (Cons request requests)
  obtain a st1 where h: "spawn_connection env request st = (a, st1)" by (rule prod.exhaust)
  obtain as where "handle_all env requests st1 = (as, st')" using Cons.prems by (auto simp: h split: prod.splits)
  from Cons.IH[OF this] connection_kept[of st env request] h
  show ?case using stores_kept_trans[of "fst st" "fst st1" "fst st'"] by (simp add: same_identity_def)
qed (simp add: stores_kept_def same_identity_def)

lemma serve_elim:
  assumes "serve env events st = (responses, r, st')"
  obtains requests rest mid where "arrivals events = requests @ rest" "handle_all env requests st = (responses, mid)"
    "r = None \<and> rest = [] \<and> st' = mid \<or> (\<exists>cause x. r = Some x \<and> stop_serving env cause mid = (x, st'))"
proof -
  have "\<exists>requests rest mid. arrivals events = requests @ rest \<and> handle_all env requests st = (responses, mid)
      \<and> (r = None \<and> rest = [] \<and> st' = mid \<or> (\<exists>cause x. r = Some x \<and> stop_serving env cause mid = (x, st')))"
    using assms
  proof (induction env events st arbitrary: responses rule: serve.induct)
    case (2 env request events st)
    obtain a st1 where h: "spawn_connection env request st = (a, st1)" by (rule prod.exhaust)
    obtain as where s: "serve env events st1 = (as, r, st')" "responses = a # as"
      using "2.prems" by (auto simp: h split: prod.splits)
    from "2.IH"[OF h[symmetric] s(1)] obtain requests rest mid where "arrivals events = requests @ rest" "handle_all env requests st1 = (as, mid)"
      "r = None \<and> rest = [] \<and> st' = mid \<or> (\<exists>cause x. r = Some x \<and> stop_serving env cause mid = (x, st'))" by blast
    with h s(2) show ?case by (intro exI[of _ "request # requests"] exI[of _ rest] exI[of _ mid]) simp
  next
    case (5 env events st)
    show ?case
    proof (cases "cs_shutdown (fst st)")
      case True
      with "5.prems" show ?thesis by (intro exI[of _ "[]"] exI[of _ "arrivals events"] exI[of _ st]) (auto split: prod.splits)
    qed (use "5.prems" "5.IH" in simp)
  next
    case (3 env e events st)
    then show ?case by (intro exI[of _ "[]"] exI[of _ "arrivals events"] exI[of _ st]) (auto split: prod.splits)
  next
    case (4 env s events st)
    then show ?case by (intro exI[of _ "[]"] exI[of _ "arrivals events"] exI[of _ st]) (auto split: prod.splits)
  qed auto
  then show thesis using that by blast
qed

lemma service_elim:
  assumes "service_for_repository_path env repository st = (Inr service, st')"
  obtains git :: git_info and mid store where "fst mid = fst st" "open_store env (gi_repo_key git) (gi_repo_path git) mid = (Inr store, st')"
    "service = service_of store (gi_repo_key git) (gi_repo_path git)"
proof -
  from assms obtain git where "inspect_git (he_git env) repository = Inr git"
    by (cases "inspect_git (he_git env) repository") (simp_all add: service_for_repository_path_def)
  moreover obtain r mid where "on_world (he_register env (stable_project_id (pg_sha256 (he_pager env)) (gi_repo_key git)) (gi_repo_key git)) st = (r, mid)"
    by (rule prod.exhaust)
  moreover from this have "fst mid = fst st" by (metis snd_conv snd_on_world)
  moreover obtain opened st'' where "open_store env (gi_repo_key git) (gi_repo_path git) mid = (opened, st'')" by (rule prod.exhaust)
  ultimately show thesis
    using assms that[of mid git "projr opened"] by (cases r; cases opened) (auto simp: service_for_repository_path_def)
qed

lemma open_store_known:
  assumes "open_store env key checkout st = (Inr store, st')"
  shows "map_of (cs_stores (fst st')) key = Some store \<and> map_of (cs_stores (fst st)) key \<in> {None, Some store}"
  using assms by (auto simp: open_store_def bind_st_def on_world_def remember_store_def split: option.splits prod.splits sum.splits)

lemma service_store:
  assumes "service_for_repository_path env repository st = (Inr service, st')"
  shows "map_of (cs_stores (fst st')) (rc_repo_key (ss_context service)) = Some (ss_store service)
    \<and> map_of (cs_stores (fst st)) (rc_repo_key (ss_context service)) \<in> {None, Some (ss_store service)}"
  using assms by (rule service_elim) (auto simp: service_of_def dest!: open_store_known)

end
