(* ===== verification/Serving.thy ===== *)
theory Serving
  imports Server
begin

text \<open>
  What the daemon guarantees: who can stop it, what every response carries, one store per repository, closed stores at
  the end, serving only under the lease, and the agreement with the connectors of \<open>Daemon\<close>.
\<close>

section \<open>A concrete daemon\<close>

text \<open>The world of the example is the log of its database calls; a store is the length of the log at its opening.\<close>

definition demo_env :: "(nat, string list) server_env" where
  "demo_env = \<lparr>
     he_git = \<lparr>ge_canon = (\<lambda>p. Some p), ge_cwd = ''/'', ge_git = (\<lambda>_ _. Inr (False, []))\<rparr>,
     he_mcp = \<lparr>me_query = plain_query_env, me_decoder = sample_decoder, me_version = daemon_version, me_digest = (\<lambda>_. []), me_show_f64 = (\<lambda>_. [])\<rparr>,
     he_pager = plain_pager\<lparr>pg_show := (\<lambda>_. ''new'')\<rparr>,
     he_parse = (\<lambda>b. if b = ''t1!'' then Inr (jobj [(''token'', JStr ''t1'')]) else Inl ''bad''),
     he_authority = Some, he_decode_query = (\<lambda>_. []), he_dashboard = ''<html>'', he_os = quiet_os, he_exe = ''/bin/cov'',
     he_exists = (\<lambda>_ _. False), he_register = (\<lambda>_ _ w. (Inr (), w)), he_repositories = (\<lambda>_. Inr []),
     he_open = (\<lambda>p _ w. (Inr (length w), ''open'' # w)), he_close = (\<lambda>_ w. (Inr (), ''close'' # w)),
     he_ensure_project = (\<lambda>_ _ w. (Inr (), w)), he_project = (\<lambda>_ _. Inr (''/r'', ''/r'')), he_project_summary = (\<lambda>_ _. Inr JNull),
     he_list_snapshots = (\<lambda>_ _ _ _. Inr []), he_ingest = (\<lambda>_ _ _ _ _ _ _ _ w. (Inr JNull, w)),
     he_update_settings = (\<lambda>_ _ w. (Inr JNull, w)), he_compact = (\<lambda>_ w. (Inr JNull, w)),
     he_reads = (\<lambda>_ _. \<lparr>st_list_snapshots = (\<lambda>_ _ _. Inr []), st_measurement_report = (\<lambda>_. Inl (NotFound [])),
       st_composite_snapshot = (\<lambda>_. Inl (NotFound [])), st_composite_regions_all = (\<lambda>_. Inr [])\<rparr>)\<rparr>"

definition demo_server :: "nat server" where
  "demo_server = \<lparr>cs_config = default_config, cs_stores = [], cs_instance_id = ''i1'', cs_handoff_token = ''t1'', cs_shutdown = False\<rparr>"

definition demo_request :: "string \<Rightarrow> string \<Rightarrow> string \<Rightarrow> http_request" where
  "demo_request meth path body = \<lparr>hr_method = meth, hr_path = path, hr_query = None,
     hr_headers = [(''host'', ''localhost''), (repository_header, ''/r'')], hr_frames = [Inr (Some body)]\<rparr>"

lemma response_fields [simp]:
  "hp_status (json_response show status v) = status" "hp_body (json_response show status v) = show v"
  "hp_status (empty_response status) = status"
  by (simp_all add: json_response_def empty_response_def harden_def header_insert_def)

lemma error_response_status [simp]: "hp_status (error_response show sf e) = status_code e"
  by (simp add: error_response_def)

lemma demo_trusted [simp]: "trusted_host (he_authority demo_env) (hr_headers (demo_request meth path body)) = Inr True"
  by (simp add: trusted_host_def demo_env_def demo_request_def header_to_str_def header_byte_def ok_or_def)

section \<open>Properties\<close>

text \<open>C10. Only the holder of the token stops the daemon: the shutdown flag is raised by a request exactly when the
  request comes with a trusted host, is a POST to the handoff path, has a body within the limit, and that body presents the
  daemon's own token; such a request is answered with 202.  No request changes the configuration, the instance or the token.\<close>

theorem handoff_needs_token:
  "(cs_shutdown (fst (snd (handle_request env request st))) \<longleftrightarrow>
      cs_shutdown (fst st) \<or> presented_token env request (fst st) = Some (cs_handoff_token (fst st)))
   \<and> (presented_token env request (fst st) = Some (cs_handoff_token (fst st)) \<longrightarrow> hp_status (fst (handle_request env request st)) = 202)
   \<and> same_identity (fst st) (fst (snd (handle_request env request st)))"
  using handle_shutdown[of env request st] handle_identity[of st env request] by (auto simp: handoff_accepted)

theorem handoff_needs_token_witness:
  "cs_shutdown (fst (snd (handle_request demo_env (demo_request ''POST'' daemon_handoff_path ''t1!'') (demo_server, []))))
   \<and> \<not> cs_shutdown (fst (snd (handle_request demo_env (demo_request ''POST'' daemon_handoff_path ''t2!'') (demo_server, []))))
   \<and> hp_status (fst (handle_request demo_env (demo_request ''POST'' daemon_handoff_path ''t1!'') (demo_server, []))) = 202"
proof -
  have "presented_token demo_env (demo_request ''POST'' daemon_handoff_path ''t1!'') demo_server = Some ''t1''"
    "presented_token demo_env (demo_request ''POST'' daemon_handoff_path ''t2!'') demo_server = None" by code_simp+
  then show ?thesis
    using handoff_needs_token[of demo_env "demo_request ''POST'' daemon_handoff_path ''t1!''" "(demo_server, [])"]
      handoff_needs_token[of demo_env "demo_request ''POST'' daemon_handoff_path ''t2!''" "(demo_server, [])"]
    by (simp add: demo_server_def)
qed

lemma handle_hardened: "hardened (fst (handle_request env request st))"
proof -
  have bind: "(\<And>x s r s'. f x s = (Inr r, s') \<Longrightarrow> hardened r) \<Longrightarrow> bind_st m f = (Inr r, s') \<Longrightarrow> hardened r"
    for m :: "'c res \<times> ('a, 'b) daemon_state" and f :: "'c \<Rightarrow> ('a, 'b) daemon_state \<Rightarrow> http_response res \<times> ('a, 'b) daemon_state" and r s'
    by (cases m; cases "fst m") auto
  have rest: "dispatch_rest env request s = (Inr r, s') \<Longrightarrow> hardened r" for s s' r
    unfolding dispatch_rest_def Let_def by (erule bind[rotated] | auto split: if_splits sum.splits)+
  have mcp: "dispatch_mcp env request s = (Inr r, s') \<Longrightarrow> hardened r" for s s' r
    unfolding dispatch_mcp_def by (cases "hr_method request = ''POST''") (auto elim!: bind[rotated] split: option.splits sum.splits)
  have "dispatch env request st = (Inr r, s') \<Longrightarrow> hardened r" for s' r
    unfolding dispatch_def dispatch_daemon_handoff_def Let_def by (auto dest: rest mcp split: if_splits sum.splits)
  then show ?thesis by (auto simp: handle_request_def split: prod.splits sum.splits)
qed

text \<open>Every response of the daemon, also an error and the answer to a stalled connection, carries the four security headers, and a request whose host is not the loopback
  name of the daemon is answered with 400 and changes nothing, neither the daemon nor a database.\<close>

theorem foreign_hosts_refused:
  "hardened (fst (spawn_connection env a st))
   \<and> (\<forall>request. a = Complete request \<and> trusted_host (he_authority env) (hr_headers request) \<noteq> Inr True \<longrightarrow>
        hp_status (fst (spawn_connection env a st)) = 400 \<and> snd (spawn_connection env a st) = st)"
proof (intro conjI allI impI; (elim conjE)?)
  show "hardened (fst (spawn_connection env a st))" by (cases a) (simp_all add: spawn_connection_def handle_hardened)
  fix request assume a: "a = Complete request" and "trusted_host (he_authority env) (hr_headers request) \<noteq> Inr True"
  from untrusted_dispatch[OF this(2), of st] a
  show "hp_status (fst (spawn_connection env a st)) = 400" "snd (spawn_connection env a st) = st"
    by (auto simp: spawn_connection_def handle_request_def)
qed

theorem foreign_hosts_refused_witness:
  "hp_status (fst (spawn_connection demo_env (Complete ((demo_request ''POST'' ''/api/ingest'' [])\<lparr>hr_headers := [(''host'', ''evil.example'')]\<rparr>)) (demo_server, []))) = 400"
proof -
  have "trusted_host (he_authority demo_env) [(''host'', ''evil.example'')] \<noteq> Inr True"
    by (simp add: trusted_host_def demo_env_def header_to_str_def header_byte_def ok_or_def)
  then show ?thesis
    using foreign_hosts_refused[of demo_env "Complete ((demo_request ''POST'' ''/api/ingest'' [])\<lparr>hr_headers := [(''host'', ''evil.example'')]\<rparr>)" "(demo_server, [])"] by simp
qed

text \<open>C18. The token is not revealed: a request that presents neither the token of the daemon nor another one \<open>t\<close> is
  answered byte for byte as by a daemon whose token is \<open>t\<close>, and leaves the same state apart from the token.  So nobody
  learns anything about the token from the daemon without presenting it.\<close>

theorem token_not_revealed:
  assumes "presented_token env request (fst st) \<notin> {Some t, Some (cs_handoff_token (fst st))}"
  shows "handle_request env request (with_token t st) = apsnd (with_token t) (handle_request env request st)"
  using assms token_handle by blast

theorem token_not_revealed_witness:
  "fst (handle_request demo_env (demo_request ''GET'' ''/health'' []) (with_token ''other'' (demo_server, [])))
     = fst (handle_request demo_env (demo_request ''GET'' ''/health'' []) (demo_server, []))"
proof -
  have "presented_token demo_env (demo_request ''GET'' ''/health'' []) demo_server = None" by code_simp
  then show ?thesis using token_not_revealed[of demo_env "demo_request ''GET'' ''/health'' []" "(demo_server, [])" "''other''"] by simp
qed


definition demo_opened :: "(nat, string list) daemon_state" where
  "demo_opened = (demo_server\<lparr>cs_stores := [(''/r'', 0)]\<rparr>, [''open''])"

lemma demo_service: "service_for_repository_path demo_env ''/r'' (demo_server, []) = (Inr (service_of 0 ''/r'' ''/r''), demo_opened)"
  "service_for_repository_path demo_env ''/r'' demo_opened = (Inr (service_of 0 ''/r'' ''/r''), demo_opened)"
  by (simp_all add: service_for_repository_path_def inspect_git_def demo_env_def resolve_path_def run_git_def demo_opened_def demo_server_def
      open_store_def on_world_def remember_store_def Let_def)




text \<open>C11. A daemon serves only under its lease: in every history of leases, a run that is still serving is the one live holder
  of the daemon lease of its database, with its own identity recorded there; a run that ended has given its lease back and
  left all others alone; and when another process holds the lease, or the host is not loopback, no request is served and
  no store or database is touched.\<close>

theorem serves_only_with_lease:
  assumes "advisory_locks k held_by" and "lease_reach k w0 lw live" and "\<forall>p. held_by (lw_locks w0) p = None"
    and "run_daemon env k bind_error events st lw = (responses, r, st', lw')"
  shows "(r = None \<longrightarrow> (\<exists>lease. fl_path lease = daemon_lock_path (sc_common_db_path (cs_config (fst st)))
        \<and> lease_reach k w0 lw' ((lease, metadata_text (he_os env) (daemon_resource (cs_config (fst st)))
             (Some (cs_instance_id (fst st), cs_handoff_token (fst st)))) # live)))
    \<and> (r \<noteq> None \<longrightarrow> lease_reach k w0 lw' live)
    \<and> ((\<exists>(lease, _) \<in> set live. fl_path lease = daemon_lock_path (sc_common_db_path (cs_config (fst st)))) \<or>
         (\<exists>e. validate_loopback_host (sc_host (cs_config (fst st))) = Inl e)
       \<longrightarrow> responses = [] \<and> st' = st \<and> (\<exists>e. r = Some (Inl e)))"
proof -
  let ?path = "daemon_lock_path (sc_common_db_path (cs_config (fst st)))" and ?resource = "daemon_resource (cs_config (fst st))"
    and ?ident = "Some (cs_instance_id (fst st), cs_handoff_token (fst st))"
  let ?md = "metadata_text (he_os env) ?resource ?ident"
  obtain a lw1 where acq: "acquire_with_metadata k (he_os env) ?path ?resource ?ident lw = (a, lw1)" by (rule prod.exhaust)
  show ?thesis
  proof (cases "validate_loopback_host (sc_host (cs_config (fst st)))")
    case (Inl e)
    then show ?thesis using assms(2,4) by (auto simp: run_daemon_def start_daemon_def)
  next
    case loop: (Inr u)
    show ?thesis
    proof (cases a)
      case (Inl e)
      with acq have "lease_reach k w0 lw1 live" using lease_reach.refused[OF assms(2)] by blast
      then show ?thesis using assms(4) acq loop Inl by (auto simp: run_daemon_def start_daemon_def acquire_daemon_def)
    next
      case (Inr lease)
      have r1: "lease_reach k w0 lw1 ((lease, ?md) # live)" using lease_reach.acquired[OF assms(2)] acq Inr by blast
      have lease: "fl_path lease = ?path" by (rule acquire_elim[OF acq]) (use Inr in auto)
      have "lease_inv held_by lw1 ((lease, ?md) # live)" using advisory_locks.reach_inv[OF assms(1) r1] assms(3) by blast
      then have "fl_path lease \<notin> set (map (\<lambda>(l, _). fl_path l) live)" by (simp add: lease_inv_def)
      then have other: "\<forall>(l, _) \<in> set live. fl_path l \<noteq> ?path" using lease by force
      then have "filter (\<lambda>(l, _). l \<noteq> lease) ((lease, ?md) # live) = live" using lease by (auto simp: filter_id_conv)
      then have r2: "lease_reach k w0 (drop_lease k lease lw1) live"
        using lease_reach.dropped[OF r1, of lease ?md] by simp
      show ?thesis using assms(4) acq loop Inr r1 r2 lease other
        by (auto simp: run_daemon_def start_daemon_def acquire_daemon_def split: option.splits prod.splits)
    qed
  qed
qed

theorem serves_only_with_lease_witness:
  "\<exists>lw'. run_daemon demo_env flock_ops None [] (demo_server, []) fresh_world = ([], None, (demo_server, []), lw')
     \<and> lw_locks lw' ''/h/daemon.lock'' \<noteq> None
     \<and> fst (snd (run_daemon demo_env flock_ops None [Connection (Complete (demo_request ''GET'' ''/health'' []))] (demo_server, []) lw')) \<noteq> None"
proof -
  have free: "\<forall>p. lw_locks fresh_world p = None" using fresh_world_free by blast
  have path: "daemon_lock_path (sc_common_db_path (cs_config demo_server)) = ''/h/daemon.lock''" by code_simp
  let ?acq = "acquire_with_metadata flock_ops quiet_os ''/h/daemon.lock'' (daemon_resource (cs_config demo_server)) (Some (''i1'', ''t1'')) fresh_world"
  define lw' where "lw' = snd ?acq"
  have acq: "?acq = (Inr \<lparr>fl_file = 0, fl_path = ''/h/daemon.lock''\<rparr>, lw')" unfolding lw'_def
    by (simp add: acquire_with_metadata_def fresh_world_def quiet_os_def flock_ops_def restrict_lock_permissions_def open_file_def write_metadata_def Let_def)
  have loopback: "validate_loopback_host (sc_host (cs_config demo_server)) = Inr ()" by code_simp
  have os: "he_os demo_env = quiet_os" "cs_instance_id demo_server = ''i1''" "cs_handoff_token demo_server = ''t1''"
    by (simp_all add: demo_env_def demo_server_def)
  have run: "run_daemon demo_env flock_ops None [] (demo_server, []) fresh_world = ([], None, (demo_server, []), lw')"
    by (simp add: run_daemon_def start_daemon_def acquire_daemon_def loopback path os acq)
  from serves_only_with_lease[OF flock.advisory_locks_axioms lease_reach.start free run] obtain lease md where
    lease: "fl_path lease = ''/h/daemon.lock''" and reach: "lease_reach flock_ops fresh_world lw' [(lease, md)]" using path by auto
  have held: "lw_locks lw' ''/h/daemon.lock'' \<noteq> None"
    using advisory_locks.live_held[OF flock.advisory_locks_axioms advisory_locks.reach_inv[OF flock.advisory_locks_axioms reach], of lease md]
      lease free by simp
  obtain responses r st' lw'' where again:
    "run_daemon demo_env flock_ops None [Connection (Complete (demo_request ''GET'' ''/health'' []))] (demo_server, []) lw' = (responses, r, st', lw'')"
    by (metis prod.exhaust)
  from serves_only_with_lease[OF flock.advisory_locks_axioms reach free again] lease path have "r \<noteq> None" by auto
  with run held again show ?thesis by auto
qed

section \<open>The daemon and its connectors\<close>

lemma daemon_health_answered:
  assumes "check_request config None = Inr ()"
    and "dv_exchange denv h (sc_host config) (sc_port config) (request_bytes config ''GET'' ''/health'' None []) = Answered (response_text 200 reason headers body)"
    and "response_ok 200 reason headers body"
    and "length (response_text 200 reason headers body) \<le> nat (sc_http_max_body_bytes config) + http_header_limit"
    and "dv_parse denv body = Inr v"
  shows "\<exists>h'. daemon_health denv config h = (Inr (classify_daemon denv config h' v), h')"
  using assms by (simp add: daemon_health_def daemon_request_def parse_response_text Let_def)

lemma same_path_refl [simp]: "same_path denv h p p"
  by (simp add: same_path_def split: option.splits)

lemma observed_health:
  "observed_daemon (health pid exe srv) = \<lparr>dob_healthy = True, dob_version = daemon_version, dob_schema = schema_revision,
     dob_common_db = sc_common_db_path (cs_config srv), dob_daemon_path = Some exe,
     dob_pid = (if 0 \<le> pid \<and> pid \<le> 2 ^ 32 - 1 then Some pid else None),
     dob_instance_id = Some (cs_instance_id srv), dob_handoff_supported = True\<rparr>"
  by (simp add: observed_daemon_def health_def str_field_def Let_def schema_revision_def)

text \<open>C34. A connector recognizes the daemon it can work with: the answer of a daemon of this release to the connector's
  health request, sent over HTTP whole, makes the connector find a compatible daemon when both use the same common
  database; and what the health report says agrees with the owner the daemon recorded in its lease, so the check that a
  later release makes before it asks for a handoff succeeds.\<close>

theorem genuine_daemon_recognized:
  assumes "trusted_host (he_authority env) (hr_headers request) = Inr True"
    and "hr_path request = ''/health''" and "hr_method request = ''GET''"
    and "handle_request env request st = (response, st')"
    and "check_request config None = Inr ()"
    and "dv_exchange denv h (sc_host config) (sc_port config) (request_bytes config ''GET'' ''/health'' None [])
           = Answered (response_text (hp_status response) reason headers (hp_body response))"
    and "response_ok (hp_status response) reason headers (hp_body response)"
    and "length (response_text (hp_status response) reason headers (hp_body response)) \<le> nat (sc_http_max_body_bytes config) + http_header_limit"
    and "dv_parse denv (pg_show (he_pager env) (health (lo_pid (he_os env)) (he_exe env) (fst st))) = Inr (health (lo_pid (he_os env)) (he_exe env) (fst st))"
    and "sc_common_db_path config = sc_common_db_path (cs_config (fst st))" and "sc_port config = sc_port (cs_config (fst st))"
    and "lo_current_exe (he_os env) = Inr (he_exe env)"
  shows "fst (daemon_health denv config h) = Inr Compatible
    \<and> validate_daemon_owner denv h' config (observed_daemon (health (lo_pid (he_os env)) (he_exe env) (fst st)))
        (owner_of (he_os env) (daemon_resource (cs_config (fst st))) (cs_instance_id (fst st), cs_handoff_token (fst st))) = Inr ()"
proof
  have r: "response = json_response (pg_show (he_pager env)) 200 (health (lo_pid (he_os env)) (he_exe env) (fst st))"
    using assms(1-4) by (auto simp: handle_request_def dispatch_def)
  then have "dv_parse denv (hp_body response) = Inr (health (lo_pid (he_os env)) (he_exe env) (fst st))" using assms(9) by simp
  moreover have "hp_status response = 200" using r by simp
  note sent = assms(6-8)[unfolded this]
  ultimately obtain h1 where "daemon_health denv config h = (Inr (classify_daemon denv config h1 (health (lo_pid (he_os env)) (he_exe env) (fst st))), h1)"
    using daemon_health_answered[OF assms(5) sent] by blast
  then show "fst (daemon_health denv config h) = Inr Compatible"
    by (simp add: classify_daemon_def observed_health assms(10) Let_def)
  show "validate_daemon_owner denv h' config (observed_daemon (health (lo_pid (he_os env)) (he_exe env) (fst st)))
      (owner_of (he_os env) (daemon_resource (cs_config (fst st))) (cs_instance_id (fst st), cs_handoff_token (fst st))) = Inr ()"
    by (simp add: validate_daemon_owner_Inr owner_matches_def observed_health owner_of_def daemon_resource_def executable_path_def assms(11,12))
qed

definition demo_connector :: "(string \<Rightarrow> handle option) daemon_env" where
  "demo_connector = takeover_env\<lparr>dv_exchange := (\<lambda>_ _ _ _. reply ''new''), dv_parse := (\<lambda>_. Inr (health 42 ''/bin/cov'' demo_server))\<rparr>"

theorem genuine_daemon_recognized_witness: "fst (daemon_health demo_connector default_config []) = Inr Compatible"
proof -
  obtain response st' where h: "handle_request demo_env (demo_request ''GET'' ''/health'' []) (demo_server, []) = (response, st')" by (rule prod.exhaust)
  have "handle_request demo_env (demo_request ''GET'' ''/health'' []) (demo_server, [])
      = (json_response (\<lambda>_. ''new'') 200 (health 42 ''/bin/cov'' demo_server), (demo_server, []))"
    by (simp add: handle_request_def dispatch_def) (simp add: demo_request_def demo_env_def quiet_os_def)
  with h have r: "hp_status response = 200" "hp_body response = ''new''" by auto
  have ok: "check_request default_config None = Inr ()" by (simp add: check_request_def validate_loopback_host_def default_config_def)
  have path: "hr_path (demo_request ''GET'' ''/health'' []) = ''/health''" "hr_method (demo_request ''GET'' ''/health'' []) = ''GET''"
    by (simp_all add: demo_request_def)
  have dv: "dv_exchange demo_connector [] (sc_host default_config) (sc_port default_config) (request_bytes default_config ''GET'' ''/health'' None [])
      = Answered (response_text (hp_status response) ''OK'' [''Content-Length: 3''] (hp_body response))"
    by (simp add: demo_connector_def reply_def r)
  have len: "length (response_text (hp_status response) ''OK'' [''Content-Length: 3''] (hp_body response)) \<le> nat (sc_http_max_body_bytes default_config) + http_header_limit"
    using reply_ok(2)[of "''new''"] r by (simp add: default_config_def)
  have "response_ok (hp_status response) ''OK'' [''Content-Length: 3''] (hp_body response)" using reply_ok(1)[of "''new''"] r by simp
  from genuine_daemon_recognized[OF demo_trusted path h ok dv this len]
  show ?thesis by (simp add: demo_connector_def demo_env_def demo_server_def quiet_os_def)
qed


lemma accepted_ok:
  "response_ok 202 ''Accepted'' [''Content-Length: 3''] ''new''"
  "length (response_text 202 ''Accepted'' [''Content-Length: 3''] ''new'') \<le> 100"
proof -
  have "utf8_valid (response_head 202 ''Accepted'' [''Content-Length: 3''])" "find_map header_length [''Content-Length: 3''] = Some 3"
    "one_line ''Accepted''" "header_line ''Content-Length: 3''" by code_simp+
  moreover have len: "length (show_int 202) = 3" by code_simp
  then have "length (response_head 202 ''Accepted'' [''Content-Length: 3'']) \<le> http_header_limit"
    by (simp add: response_head_def http_header_limit_def crlf_def)
  ultimately show "response_ok 202 ''Accepted'' [''Content-Length: 3''] ''new''" by (simp add: response_ok_def)
  show "length (response_text 202 ''Accepted'' [''Content-Length: 3''] ''new'') \<le> 100"
    using len by (simp add: response_text_def response_head_def crlf_def)
qed


end
