(* ===== verification/Pool.thy ===== *)
theory Pool
  imports Errors "HOL-Library.Word"
begin

text \<open>
  Operations on the database with a deadline (\<open>src/src/pool.rs\<close>): the tracker of the operations that are under way and the
  watchdog that interrupts an operation which takes too long.  Threads run at the same time, so the watchdog and its
  caller are a step relation whose steps are what the code does without giving up a lock.  The pool itself is \<open>r2d2\<close>; a
  connection is represented by its interrupt handle.
\<close>

section \<open>The tracker\<close>

record 'h query_tracker =
  qt_next_id :: "64 word"
  qt_active :: "(64 word \<times> 'h) list"
  qt_poisoned :: bool

definition tracker_default :: "'h query_tracker" where
  "tracker_default = \<lparr>qt_next_id = 0, qt_active = [], qt_poisoned = False\<rparr>"

text \<open>\<open>begin\<close> takes a number and then registers under it; another thread may come in between.\<close>

definition take_number :: "'h query_tracker \<Rightarrow> 64 word \<times> 'h query_tracker" where
  "take_number tr = (qt_next_id tr, tr\<lparr>qt_next_id := qt_next_id tr + 1\<rparr>)"

definition register :: "64 word \<Rightarrow> 'h \<Rightarrow> 'h query_tracker \<Rightarrow> 'h query_tracker res" where
  "register i h tr =
     (if qt_poisoned tr then Inl (Runtime ''DuckDB query tracker lock poisoned'')
      else Inr (tr\<lparr>qt_active := (i, h) # filter (\<lambda>(k, _). k \<noteq> i) (qt_active tr)\<rparr>))"

definition interrupt_all :: "'h query_tracker \<Rightarrow> 'h list" where
  "interrupt_all tr = (if qt_poisoned tr then [] else map snd (qt_active tr))"

definition finish :: "64 word \<Rightarrow> 'h query_tracker \<Rightarrow> 'h query_tracker" where
  "finish i tr = (if qt_poisoned tr then tr else tr\<lparr>qt_active := filter (\<lambda>(k, _). k \<noteq> i) (qt_active tr)\<rparr>)"

text \<open>What a wait on the condition variable ends with: a poisoned lock, or the tracker as it is then and whether the deadline
  has passed.\<close>

datatype 'h wake = WaitFailed | Woken "'h query_tracker" bool

fun idle_loop :: "'h query_tracker \<Rightarrow> 'h wake list \<Rightarrow> bool option" where
  "idle_loop tr wakes =
     (if qt_active tr = [] then Some True
      else case wakes of
             [] \<Rightarrow> None
           | WaitFailed # _ \<Rightarrow> Some False
           | Woken tr' expired # wakes \<Rightarrow> if expired then Some False else idle_loop tr' wakes)"

declare idle_loop.simps [simp del]

definition wait_for_idle :: "'h query_tracker \<Rightarrow> 'h wake list \<Rightarrow> bool option" where
  "wait_for_idle tr wakes = (if qt_poisoned tr then Some False else idle_loop tr wakes)"

section \<open>The watchdog\<close>

definition timeout_error :: "string \<Rightarrow> int \<Rightarrow> app_error" where
  "timeout_error operation timeout_ms = Timeout operation timeout_ms"

definition timeout_error_if_set :: "bool \<Rightarrow> string \<Rightarrow> int \<Rightarrow> app_error option" where
  "timeout_error_if_set timed_out operation timeout_ms = (if timed_out then Some (timeout_error operation timeout_ms) else None)"

definition timed_result :: "bool \<Rightarrow> string \<Rightarrow> int \<Rightarrow> 'a res \<Rightarrow> 'a res" where
  "timed_result timed_out operation timeout_ms r =
     (case timeout_error_if_set timed_out operation timeout_ms of None \<Rightarrow> r | Some e \<Rightarrow> Inl e)"

text \<open>Where the two threads are.  The watchdog holds the lock on \<open>complete\<close> while it is \<open>Checking\<close>; the caller holds it only
  within the step that marks.\<close>

datatype dog = Locking | Checking | Waiting | Gone
datatype 'a caller = Operating | Marking "'a res" | Joining "'a res" | Returned "'a res" "'a res"

record 'a watched =
  wa_complete :: bool
  wa_poisoned :: bool
  wa_timed_out :: bool
  wa_interrupts :: nat
  wa_dog :: dog
  wa_caller :: "'a caller"

definition watched_start :: "bool \<Rightarrow> 'a watched" where
  "watched_start poisoned = \<lparr>wa_complete = False, wa_poisoned = poisoned, wa_timed_out = False, wa_interrupts = 0,
     wa_dog = Locking, wa_caller = Operating\<rparr>"

definition expire :: "'a watched \<Rightarrow> 'a watched" where
  "expire s = s\<lparr>wa_timed_out := True, wa_interrupts := Suc (wa_interrupts s), wa_dog := Gone\<rparr>"

definition mark_complete :: "'a watched \<Rightarrow> 'a watched" where
  "mark_complete s = (if wa_poisoned s then s else s\<lparr>wa_complete := True\<rparr>)"

inductive watch_step :: "string \<Rightarrow> int \<Rightarrow> 'a watched \<Rightarrow> 'a watched \<Rightarrow> bool" for operation timeout_ms where
  operated: "wa_caller s = Operating \<Longrightarrow> watch_step operation timeout_ms s (s\<lparr>wa_caller := Marking r\<rparr>)"
| marked: "wa_caller s = Marking r \<Longrightarrow> wa_dog s \<noteq> Checking
    \<Longrightarrow> watch_step operation timeout_ms s ((mark_complete s)\<lparr>wa_caller := Joining r\<rparr>)"
| joined: "wa_caller s = Joining r \<Longrightarrow> wa_dog s = Gone
    \<Longrightarrow> watch_step operation timeout_ms s (s\<lparr>wa_caller := Returned r (timed_result (wa_timed_out s) operation timeout_ms r)\<rparr>)"
| locked: "wa_dog s = Locking \<Longrightarrow> \<not> wa_poisoned s \<Longrightarrow> watch_step operation timeout_ms s (s\<lparr>wa_dog := Checking\<rparr>)"
| lock_failed: "wa_dog s = Locking \<Longrightarrow> wa_poisoned s \<Longrightarrow> watch_step operation timeout_ms s (expire s)"
| seen: "wa_dog s = Checking \<Longrightarrow> wa_complete s \<Longrightarrow> watch_step operation timeout_ms s (s\<lparr>wa_dog := Gone\<rparr>)"
| late: "wa_dog s = Checking \<Longrightarrow> \<not> wa_complete s \<Longrightarrow> watch_step operation timeout_ms s (expire s)"
| waits: "wa_dog s = Checking \<Longrightarrow> \<not> wa_complete s \<Longrightarrow> watch_step operation timeout_ms s (s\<lparr>wa_dog := Waiting\<rparr>)"
| wait_failed: "wa_dog s = Waiting \<Longrightarrow> wa_poisoned s \<Longrightarrow> watch_step operation timeout_ms s (expire s)"
| wait_expired: "wa_dog s = Waiting \<Longrightarrow> \<not> wa_complete s \<Longrightarrow> watch_step operation timeout_ms s (expire s)"
| woken: "wa_dog s = Waiting \<Longrightarrow> \<not> wa_poisoned s \<Longrightarrow> watch_step operation timeout_ms s (s\<lparr>wa_dog := Checking\<rparr>)"

inductive_cases watch_stepE: "watch_step operation timeout_ms s s'"

inductive watch_reach :: "string \<Rightarrow> int \<Rightarrow> 'a watched \<Rightarrow> bool" for operation timeout_ms where
  start: "watch_reach operation timeout_ms (watched_start poisoned)"
| step: "watch_reach operation timeout_ms s \<Longrightarrow> watch_step operation timeout_ms s s' \<Longrightarrow> watch_reach operation timeout_ms s'"

definition watch_inv :: "string \<Rightarrow> int \<Rightarrow> 'a watched \<Rightarrow> bool" where
  "watch_inv operation timeout_ms s \<longleftrightarrow>
     wa_interrupts s = (if wa_timed_out s then 1 else 0) \<and> (wa_timed_out s \<longrightarrow> wa_dog s = Gone)
     \<and> (wa_dog s \<in> {Checking, Waiting} \<longrightarrow> \<not> wa_poisoned s)
     \<and> (case wa_caller s of
          Operating \<Rightarrow> \<not> wa_complete s \<and> (wa_dog s = Gone \<longrightarrow> wa_timed_out s)
        | Marking r \<Rightarrow> \<not> wa_complete s \<and> (wa_dog s = Gone \<longrightarrow> wa_timed_out s)
        | Joining r \<Rightarrow> wa_complete s = (\<not> wa_poisoned s)
        | Returned r x \<Rightarrow> wa_dog s = Gone \<and> x = timed_result (wa_timed_out s) operation timeout_ms r)"

lemma watch_inv_step: "watch_inv operation timeout_ms s \<Longrightarrow> watch_step operation timeout_ms s s' \<Longrightarrow> watch_inv operation timeout_ms s'"
  by (erule watch_stepE) (auto simp: watch_inv_def expire_def mark_complete_def split: caller.splits if_splits)

lemma watch_reach_inv: "watch_reach operation timeout_ms s \<Longrightarrow> watch_inv operation timeout_ms s"
proof (induction rule: watch_reach.induct)
  case (start poisoned)
  then show ?case by (simp add: watch_inv_def watched_start_def)
next
  case (step s s')
  then show ?case using watch_inv_step by blast
qed

text \<open>An operation that ends in time.\<close>

definition punctual :: "unit watched" where
  "punctual = (watched_start False)\<lparr>wa_complete := True, wa_caller := Joining (Inr ())\<rparr>"

lemma punctual_reach: "watch_reach operation timeout_ms punctual"
proof -
  have "watch_step operation timeout_ms (watched_start False) ((watched_start False)\<lparr>wa_caller := Marking (Inr ())\<rparr> :: unit watched)"
    by (rule operated) (simp add: watched_start_def)
  moreover have "watch_step operation timeout_ms ((watched_start False)\<lparr>wa_caller := Marking (Inr ())\<rparr>) punctual"
    using marked[of "(watched_start False)\<lparr>wa_caller := Marking (Inr ())\<rparr>" "Inr ()" operation timeout_ms]
    by (simp add: punctual_def watched_start_def mark_complete_def)
  ultimately show ?thesis by (blast intro: watch_reach.intros)
qed

section \<open>Properties\<close>

text \<open>C21. The deadline of an operation touches that operation only: in every interleaving of a caller and its watchdog, also
  with a poisoned lock, the connection is interrupted at most once and only before the caller returns, and the caller returns
  the timeout exactly when the interrupt was sent, and otherwise the operation's own result.\<close>

theorem interrupts_only_own_operation:
  assumes "watch_reach operation timeout_ms s"
  shows "wa_interrupts s \<le> 1
    \<and> (\<forall>s'. watch_step operation timeout_ms s s' \<and> wa_interrupts s' \<noteq> wa_interrupts s \<longrightarrow> (\<forall>r x. wa_caller s \<noteq> Returned r x))
    \<and> (\<forall>r x. wa_caller s = Returned r x \<longrightarrow>
         x = (if wa_interrupts s = 0 then r else Inl (Timeout operation timeout_ms)))"
proof (intro conjI allI impI)
  have inv: "watch_inv operation timeout_ms s" using watch_reach_inv[OF assms] .
  show "wa_interrupts s \<le> 1" using inv by (simp add: watch_inv_def)
  show "wa_caller s \<noteq> Returned r x" if "watch_step operation timeout_ms s s' \<and> wa_interrupts s' \<noteq> wa_interrupts s" for s' r x
    using that inv by (elim conjE watch_stepE) (auto simp: watch_inv_def expire_def mark_complete_def)
  show "x = (if wa_interrupts s = 0 then r else Inl (Timeout operation timeout_ms))" if "wa_caller s = Returned r x" for r x
    using that inv by (auto simp: watch_inv_def timed_result_def timeout_error_if_set_def timeout_error_def)
qed

theorem interrupts_only_own_operation_witness: "wa_interrupts punctual \<le> 1"
  using interrupts_only_own_operation[OF punctual_reach] by blast

text \<open>A bound on the steps left until the caller returns.\<close>

definition watch_rest :: "'a watched \<Rightarrow> nat" where
  "watch_rest s = (case wa_dog s of Locking \<Rightarrow> 2 | Waiting \<Rightarrow> 2 | Checking \<Rightarrow> 1 | Gone \<Rightarrow> 0)
     + (case wa_caller s of Joining _ \<Rightarrow> 1 | _ \<Rightarrow> 0)"

text \<open>C25. No caller is left behind by its watchdog: once the operation has ended and is marked, some thread can always go
  on until the caller has returned, and every step that any thread takes brings the return closer, so it comes
  after at most three steps in every order.\<close>

theorem watched_operation_returns:
  assumes "watch_reach operation timeout_ms s" and "wa_caller s = Joining r"
  shows "(\<exists>s'. watch_step operation timeout_ms s s') \<and> watch_rest s \<le> 3
    \<and> (\<forall>s'. watch_step operation timeout_ms s s' \<longrightarrow> watch_rest s' < watch_rest s
         \<and> (wa_caller s' = Joining r \<or> (\<exists>x. wa_caller s' = Returned r x)))"
proof (intro conjI allI impI)
  have inv: "watch_inv operation timeout_ms s" using watch_reach_inv[OF assms(1)] .
  show "\<exists>s'. watch_step operation timeout_ms s s'"
  proof (cases "wa_dog s")
    case Locking
    then show ?thesis by (cases "wa_poisoned s") (blast intro: watch_step.intros)+
  next
    case Checking
    then show ?thesis by (cases "wa_complete s") (blast intro: watch_step.intros)+
  next
    case Waiting
    then show ?thesis by (cases "wa_poisoned s") (blast intro: watch_step.intros)+
  next
    case Gone
    then show ?thesis using assms(2) by (blast intro: watch_step.intros)
  qed
  show "watch_rest s \<le> 3" by (auto simp: watch_rest_def split: dog.splits caller.splits)
  fix s' assume st: "watch_step operation timeout_ms s s'"
  show "watch_rest s' < watch_rest s" "wa_caller s' = Joining r \<or> (\<exists>x. wa_caller s' = Returned r x)"
    using inv st assms(2)
    by - (erule watch_stepE; auto simp: watch_inv_def watch_rest_def expire_def mark_complete_def)+
qed

theorem watched_operation_returns_witness: "watch_rest punctual \<le> 3 \<and> (\<exists>s'. watch_step ''op'' 100 punctual s')"
proof -
  have "wa_caller punctual = Joining (Inr ())" by (simp add: punctual_def)
  from watched_operation_returns[OF punctual_reach this] show ?thesis by blast
qed

end
