(* ===== verification/Store_Life.thy ===== *)
theory Store_Life
  imports Pool "HOL-Library.Multiset"
begin

text \<open>
  The life of a store under many threads (\<open>src/src/storage.rs\<close>): the way of an operation to its connection
  (\<open>with_pooled_connection\<close>), the closing of the store (\<open>close\<close>), and the slots that bound the number of runs
  (\<open>execute_run\<close>).  Both are step relations; a step is what a thread does without another one seeing a state in between.
  Between raising its flag and interrupting the operations \<open>close\<close> ends processes and joins worker threads; these are
  operations of other threads here.
\<close>

section \<open>Operations and closing\<close>

text \<open>Where a thread is in \<open>with_pooled_connection\<close>: admitted by the check that the store is open, holding a connection,
  holding a number of the tracker, registered there and operating.\<close>

datatype 'h access = Outside | Admitted | Holding 'h | Numbered 'h "64 word" | Inside 'h "64 word"

datatype 'h closer = NotClosing | Closing | Interrupted "'h list" | Idle | PoolTaken | Closed | GaveUp

record 'h store_state =
  ss_closing :: bool
  ss_pool :: bool
  ss_lease :: bool
  ss_tracker :: "'h query_tracker"
  ss_threads :: "nat \<Rightarrow> 'h access"
  ss_closer :: "'h closer"
  ss_numbers :: nat

definition store_opened :: "'h store_state" where
  "store_opened = \<lparr>ss_closing = False, ss_pool = True, ss_lease = True, ss_tracker = tracker_default, ss_threads = (\<lambda>_. Outside),
     ss_closer = NotClosing, ss_numbers = 0\<rparr>"

definition goes :: "nat \<Rightarrow> 'h access \<Rightarrow> 'h store_state \<Rightarrow> 'h store_state" where
  "goes t a s = s\<lparr>ss_threads := (ss_threads s)(t := a)\<rparr>"

text \<open>\<open>ss_numbers\<close> counts the numbers given out; the tracker's own counter wraps around.  When \<open>wait_for_idle\<close> sees no operation
  its caller goes on; a deadline or a poisoned lock makes it give up.\<close>

inductive store_step :: "'h store_state \<Rightarrow> 'h store_state \<Rightarrow> bool" where
  admitted: "ss_threads s t = Outside \<Longrightarrow> \<not> ss_closing s \<Longrightarrow> store_step s (goes t Admitted s)"
| checked_out: "ss_threads s t = Admitted \<Longrightarrow> ss_pool s \<Longrightarrow> store_step s (goes t (Holding h) s)"
| refused: "ss_threads s t = Admitted \<Longrightarrow> store_step s (goes t Outside s)"
| numbered: "ss_threads s t = Holding h \<Longrightarrow> take_number (ss_tracker s) = (i, tr)
    \<Longrightarrow> store_step s (goes t (Numbered h i) (s\<lparr>ss_tracker := tr, ss_numbers := Suc (ss_numbers s)\<rparr>))"
| registered: "ss_threads s t = Numbered h i \<Longrightarrow> register i h (ss_tracker s) = Inr tr
    \<Longrightarrow> store_step s (goes t (Inside h i) (s\<lparr>ss_tracker := tr\<rparr>))"
| unregistered: "ss_threads s t = Numbered h i \<Longrightarrow> register i h (ss_tracker s) = Inl e \<Longrightarrow> store_step s (goes t Outside s)"
| operated: "ss_threads s t = Inside h i \<Longrightarrow> store_step s (goes t Outside (s\<lparr>ss_tracker := finish i (ss_tracker s)\<rparr>))"
| close_begun: "ss_closer s = NotClosing \<Longrightarrow> store_step s (s\<lparr>ss_closing := True, ss_closer := Closing\<rparr>)"
| interrupted: "ss_closer s = Closing \<Longrightarrow> store_step s (s\<lparr>ss_closer := Interrupted (interrupt_all (ss_tracker s))\<rparr>)"
| seen_idle: "ss_closer s = Interrupted hs \<Longrightarrow> wait_for_idle (ss_tracker s) [] = Some True \<Longrightarrow> store_step s (s\<lparr>ss_closer := Idle\<rparr>)"
| gave_up: "ss_closer s = Interrupted hs \<Longrightarrow> store_step s (s\<lparr>ss_closer := GaveUp\<rparr>)"
| pool_taken: "ss_closer s = Idle \<Longrightarrow> store_step s (s\<lparr>ss_pool := False, ss_closer := PoolTaken\<rparr>)"
| lease_taken: "ss_closer s = PoolTaken \<Longrightarrow> store_step s (s\<lparr>ss_lease := False, ss_closer := Closed\<rparr>)"

inductive_cases store_stepE: "store_step s s'"

inductive store_reach :: "'h store_state \<Rightarrow> 'h store_state \<Rightarrow> bool" for s0 where
  start: "store_reach s0 s0"
| step: "store_reach s0 s \<Longrightarrow> store_step s s' \<Longrightarrow> store_reach s0 s'"

lemma goes_simps [simp]:
  "ss_threads (goes t a s) = (ss_threads s)(t := a)" "ss_tracker (goes t a s) = ss_tracker s" "ss_closing (goes t a s) = ss_closing s"
  "ss_pool (goes t a s) = ss_pool s" "ss_lease (goes t a s) = ss_lease s" "ss_closer (goes t a s) = ss_closer s"
  "ss_numbers (goes t a s) = ss_numbers s"
  by (simp_all add: goes_def)

subsection \<open>The tracker knows the operations\<close>

fun number_of :: "'h access \<Rightarrow> 64 word option" where
  "number_of (Numbered h i) = Some i"
| "number_of (Inside h i) = Some i"
| "number_of _ = None"

definition tracked :: "'h store_state \<Rightarrow> bool" where
  "tracked s \<longleftrightarrow> \<not> qt_poisoned (ss_tracker s) \<and> qt_next_id (ss_tracker s) = of_nat (ss_numbers s)
     \<and> (\<forall>t i. number_of (ss_threads s t) = Some i \<longrightarrow> unat i < ss_numbers s)
     \<and> (\<forall>t t' i. number_of (ss_threads s t) = Some i \<and> number_of (ss_threads s t') = Some i \<longrightarrow> t = t')
     \<and> (\<forall>i h. (i, h) \<in> set (qt_active (ss_tracker s)) \<longleftrightarrow> (\<exists>t. ss_threads s t = Inside h i))"

lemma tracked_goes:
  assumes "tracked s" and "number_of a = None" and "\<And>h i. ss_threads s t \<noteq> Inside h i"
  shows "tracked (goes t a s)"
  using assms unfolding tracked_def by (auto split: if_splits) (metis number_of.simps)+

lemma tracked_numbered:
  assumes "tracked s" and "ss_threads s t = Holding h" and "take_number (ss_tracker s) = (i, tr)" and "Suc (ss_numbers s) \<le> 2 ^ 64"
  shows "tracked (goes t (Numbered h i) (s\<lparr>ss_tracker := tr, ss_numbers := Suc (ss_numbers s)\<rparr>))"
proof -
  have i: "unat i = ss_numbers s" and tr: "tr = (ss_tracker s)\<lparr>qt_next_id := i + 1\<rparr>" "i = of_nat (ss_numbers s)"
    using assms by (auto simp: tracked_def take_number_def unat_of_nat)
  then have other: "number_of (ss_threads s t') \<noteq> Some i" for t' using assms(1) by (force simp: tracked_def)
  have "\<forall>t' j. number_of (ss_threads s t') = Some j \<longrightarrow> unat j < Suc (ss_numbers s)" using assms(1) by (force simp: tracked_def less_Suc_eq)
  then show ?thesis using assms(1,2) i tr other by (auto simp: tracked_def) (metis access.distinct(17))
qed

lemma tracked_registered:
  assumes "tracked s" and "ss_threads s t = Numbered h i" and "register i h (ss_tracker s) = Inr tr"
  shows "tracked (goes t (Inside h i) (s\<lparr>ss_tracker := tr\<rparr>))"
proof -
  have other: "number_of (ss_threads s t') = Some i \<Longrightarrow> t' = t" for t' using assms(1,2) by (force simp: tracked_def)
  have inside: "ss_threads s t' = Inside h' j \<Longrightarrow> j \<noteq> i" for t' h' j using other[of t'] assms(2) by force
  have tr: "tr = (ss_tracker s)\<lparr>qt_active := (i, h) # filter (\<lambda>(k, _). k \<noteq> i) (qt_active (ss_tracker s))\<rparr>"
    using assms(1,3) by (auto simp: register_def tracked_def)
  have "\<forall>j h'. (j, h') \<in> set (qt_active tr) \<longleftrightarrow> (\<exists>t'. ((ss_threads s)(t := Inside h i)) t' = Inside h' j)"
    using assms(1,2) inside unfolding tr tracked_def by auto (metis access.distinct(19))+
  moreover have "number_of (((ss_threads s)(t := Inside h i)) t') = number_of (ss_threads s t')" for t' using assms(2) by simp
  ultimately show ?thesis using assms(1) tr by (simp add: tracked_def)
qed

lemma tracked_operated:
  assumes "tracked s" and "ss_threads s t = Inside h i"
  shows "tracked (goes t Outside (s\<lparr>ss_tracker := finish i (ss_tracker s)\<rparr>))"
proof -
  have other: "number_of (ss_threads s t') = Some i \<Longrightarrow> t' = t" for t' using assms by (force simp: tracked_def)
  have "\<forall>j h'. (j, h') \<in> set (qt_active (finish i (ss_tracker s))) \<longleftrightarrow> (\<exists>t'. ((ss_threads s)(t := Outside)) t' = Inside h' j)"
    using assms other unfolding finish_def tracked_def by (auto split: if_splits) (metis number_of.simps(2) access.inject(3))+
  then show ?thesis using assms(1) unfolding tracked_def finish_def by (auto split: if_splits)
qed

lemma tracked_step:
  assumes "tracked s" and "store_step s s'" and "ss_numbers s' \<le> 2 ^ 64"
  shows "tracked s'"
  using assms(2,1,3)
proof (cases rule: store_step.cases)
  case (numbered t h i tr)
  with assms tracked_numbered show ?thesis by fastforce
next
  case (registered t h i tr)
  with assms tracked_registered show ?thesis by fastforce
next
  case (operated t h i)
  with assms tracked_operated show ?thesis by fastforce
next
  case (admitted t)
  with tracked_goes[OF assms(1), of Admitted t] show ?thesis by simp
next
  case (checked_out t h)
  with tracked_goes[OF assms(1), of "Holding h" t] show ?thesis by simp
next
  case (refused t)
  with tracked_goes[OF assms(1), of Outside t] show ?thesis by simp
next
  case (unregistered t h i e)
  with tracked_goes[OF assms(1), of Outside t] show ?thesis by simp
qed (use assms(1) in \<open>simp_all add: tracked_def\<close>)

lemma tracked_reach: "store_reach store_opened s \<Longrightarrow> ss_numbers s \<le> 2 ^ 64 \<Longrightarrow> tracked s"
proof (induction rule: store_reach.induct)
  case start
  show ?case by (simp add: tracked_def store_opened_def tracker_default_def)
next
  case (step s s')
  have "ss_numbers s \<le> ss_numbers s'" using step.hyps(2) by (cases rule: store_step.cases) auto
  with step tracked_step show ?case by fastforce
qed

subsection \<open>After closing\<close>

text \<open>No thread is on its way between the check that the store is open and its registration with the tracker.\<close>

definition nobody_entering :: "'h store_state \<Rightarrow> bool" where
  "nobody_entering s \<longleftrightarrow> (\<forall>t h i. ss_threads s t \<notin> {Admitted, Holding h, Numbered h i})"

definition quiet :: "'h store_state \<Rightarrow> bool" where
  "quiet s \<longleftrightarrow> ss_closing s \<and> (\<forall>t. ss_threads s t = Outside)"

lemma quiet_step: "store_step s s' \<Longrightarrow> quiet s \<Longrightarrow> quiet s'"
  by (erule store_stepE) (auto simp: quiet_def)

lemma quiet_reach: "store_reach s s' \<Longrightarrow> quiet s \<Longrightarrow> quiet s'"
  by (induction rule: store_reach.induct) (auto intro: quiet_step)

lemma closing_reach: "store_reach store_opened s \<Longrightarrow> ss_closing s \<longleftrightarrow> ss_closer s \<noteq> NotClosing"
proof (induction rule: store_reach.induct)
  case (step s s')
  from step.hyps(2) step.IH show ?case by (cases rule: store_step.cases) auto
qed (simp add: store_opened_def)


text \<open>A store that closes with nothing under way.\<close>

definition closing_state :: "unit store_state" where
  "closing_state = store_opened\<lparr>ss_closing := True, ss_closer := Interrupted []\<rparr>"

lemma closing_state_reach: "store_reach store_opened closing_state"
proof -
  let ?c = "store_opened\<lparr>ss_closing := True, ss_closer := Closing\<rparr> :: unit store_state"
  have "store_step store_opened ?c" by (rule close_begun) (simp add: store_opened_def)
  moreover have "store_step ?c closing_state"
    using interrupted[of ?c] by (simp add: closing_state_def store_opened_def tracker_default_def interrupt_all_def)
  ultimately show ?thesis by (blast intro: store_reach.intros)
qed


text \<open>The window is real: an operation that was admitted before closing began and got its connection before the pool was
  released registers only after closing has found the tracker empty, and runs on the database after the lease is gone.\<close>

lemma operation_outlives_lease:
  "\<exists>s. store_reach store_opened s \<and> ss_closer s = Closed \<and> \<not> ss_lease s \<and> ss_threads s 0 = Inside () 0"
proof -
  let ?s1 = "goes 0 Admitted store_opened :: unit store_state"
  let ?s2 = "?s1\<lparr>ss_closing := True, ss_closer := Closing\<rparr>"
  let ?s3 = "?s2\<lparr>ss_closer := Interrupted []\<rparr>"
  let ?s4 = "goes 0 (Holding ()) ?s3"
  let ?s5 = "?s4\<lparr>ss_closer := Idle\<rparr>"
  let ?s6 = "?s5\<lparr>ss_pool := False, ss_closer := PoolTaken\<rparr>"
  let ?s7 = "?s6\<lparr>ss_lease := False, ss_closer := Closed\<rparr>"
  let ?s8 = "goes 0 (Numbered () 0) (?s7\<lparr>ss_tracker := tracker_default\<lparr>qt_next_id := 1\<rparr>, ss_numbers := 1\<rparr>)"
  let ?s9 = "goes 0 (Inside () 0) (?s8\<lparr>ss_tracker := tracker_default\<lparr>qt_next_id := 1, qt_active := [(0, ())]\<rparr>\<rparr>)"
  have c1: "store_step store_opened ?s1" by (rule admitted) (simp_all add: store_opened_def)
  have c2: "store_step ?s1 ?s2" by (rule close_begun) (simp add: store_opened_def)
  have c3: "store_step ?s2 ?s3" using interrupted[of ?s2] by (simp add: interrupt_all_def store_opened_def tracker_default_def)
  have c4: "store_step ?s3 ?s4" by (rule checked_out) (simp_all add: store_opened_def)
  have c5: "store_step ?s4 ?s5"
    by (rule seen_idle) (simp_all add: store_opened_def tracker_default_def wait_for_idle_def idle_loop.simps)
  have c6: "store_step ?s5 ?s6" by (rule pool_taken) simp
  have c7: "store_step ?s6 ?s7" by (rule lease_taken) simp
  have c8: "store_step ?s7 ?s8"
    using numbered[of ?s7 0 "()" 0 "tracker_default\<lparr>qt_next_id := 1\<rparr>"] by (simp add: take_number_def store_opened_def tracker_default_def)
  have c9: "store_step ?s8 ?s9"
    by (rule registered) (simp_all add: register_def tracker_default_def)
  have "store_reach store_opened ?s9"
    by (rule store_reach.step[OF store_reach.step[OF store_reach.step[OF store_reach.step[OF store_reach.step[OF store_reach.step[OF store_reach.step[OF store_reach.step[OF store_reach.step[OF store_reach.start c1] c2] c3] c4] c5] c6] c7] c8] c9])
  then show ?thesis by (intro exI[of _ ?s9]) simp
qed

section \<open>Run slots\<close>

text \<open>Where a thread is in \<open>execute_run\<close>: about to take the lock on the slots, holding it and about to wait, waiting for the
  condition variable, or running with a slot.  A thread that has left, with its run done or turned away, is not counted.\<close>

datatype run_thread = Arriving | Deciding | Sleeping | Executing

record slots =
  sl_active :: nat
  sl_closing :: bool
  sl_announced :: bool
  sl_threads :: "run_thread multiset"

definition slots_start :: slots where
  "slots_start = \<lparr>sl_active = 0, sl_closing = False, sl_announced = False, sl_threads = {#}\<rparr>"

definition release_run_slot :: "nat \<Rightarrow> nat" where
  "release_run_slot active = active - 1"

definition wake_all :: "run_thread multiset \<Rightarrow> run_thread multiset" where
  "wake_all ts = filter_mset (\<lambda>t. t \<noteq> Sleeping) ts + replicate_mset (count ts Sleeping) Arriving"

text \<open>\<open>close\<close> raises the flag and wakes all waiting threads without taking the lock.\<close>

inductive slots_step :: "nat \<Rightarrow> slots \<Rightarrow> slots \<Rightarrow> bool" for limit where
  submitted: "slots_step limit s (s\<lparr>sl_threads := add_mset Arriving (sl_threads s)\<rparr>)"
| took_slot: "sl_threads s = add_mset Arriving ts \<Longrightarrow> Deciding \<notin># ts \<Longrightarrow> sl_active s < limit \<Longrightarrow> \<not> sl_closing s
    \<Longrightarrow> slots_step limit s (s\<lparr>sl_active := Suc (sl_active s), sl_threads := add_mset Executing ts\<rparr>)"
| turned_away: "sl_threads s = add_mset Arriving ts \<Longrightarrow> Deciding \<notin># ts \<Longrightarrow> sl_closing s \<Longrightarrow> slots_step limit s (s\<lparr>sl_threads := ts\<rparr>)"
| decides: "sl_threads s = add_mset Arriving ts \<Longrightarrow> Deciding \<notin># ts \<Longrightarrow> limit \<le> sl_active s \<Longrightarrow> \<not> sl_closing s
    \<Longrightarrow> slots_step limit s (s\<lparr>sl_threads := add_mset Deciding ts\<rparr>)"
| sleeps: "sl_threads s = add_mset Deciding ts \<Longrightarrow> slots_step limit s (s\<lparr>sl_threads := add_mset Sleeping ts\<rparr>)"
| woken: "sl_threads s = add_mset Sleeping ts \<Longrightarrow> slots_step limit s (s\<lparr>sl_threads := add_mset Arriving ts\<rparr>)"
| released_one: "sl_threads s = add_mset Executing (add_mset Sleeping ts) \<Longrightarrow> Deciding \<notin># ts
    \<Longrightarrow> slots_step limit s (s\<lparr>sl_active := release_run_slot (sl_active s), sl_threads := add_mset Arriving ts\<rparr>)"
| released: "sl_threads s = add_mset Executing ts \<Longrightarrow> Deciding \<notin># ts \<Longrightarrow> Sleeping \<notin># ts
    \<Longrightarrow> slots_step limit s (s\<lparr>sl_active := release_run_slot (sl_active s), sl_threads := ts\<rparr>)"
| closes: "\<not> sl_closing s \<Longrightarrow> slots_step limit s (s\<lparr>sl_closing := True\<rparr>)"
| announces: "sl_closing s \<Longrightarrow> \<not> sl_announced s
    \<Longrightarrow> slots_step limit s (s\<lparr>sl_announced := True, sl_threads := wake_all (sl_threads s)\<rparr>)"

inductive slots_reach :: "nat \<Rightarrow> slots \<Rightarrow> bool" for limit where
  start: "slots_reach limit slots_start"
| step: "slots_reach limit s \<Longrightarrow> slots_step limit s s' \<Longrightarrow> slots_reach limit s'"

definition slots_inv :: "nat \<Rightarrow> slots \<Rightarrow> bool" where
  "slots_inv limit s \<longleftrightarrow>
     sl_active s = count (sl_threads s) Executing \<and> sl_active s \<le> limit
     \<and> count (sl_threads s) Deciding \<le> 1 \<and> (0 < count (sl_threads s) Deciding \<longrightarrow> limit \<le> sl_active s)
     \<and> (\<not> sl_closing s \<and> 0 < count (sl_threads s) Sleeping \<longrightarrow> limit \<le> sl_active s + count (sl_threads s) Arriving)
     \<and> (sl_announced s \<longrightarrow> sl_closing s \<and> count (sl_threads s) Sleeping + count (sl_threads s) Deciding \<le> 1
          \<and> (0 < count (sl_threads s) Sleeping \<longrightarrow> limit \<le> sl_active s))"

lemma count_wake_all [simp]:
  "count (wake_all ts) Executing = count ts Executing" "count (wake_all ts) Deciding = count ts Deciding"
  "count (wake_all ts) Sleeping = 0" "count (wake_all ts) Arriving = count ts Arriving + count ts Sleeping"
  by (simp_all add: wake_all_def)

lemma slots_inv_step: "slots_step limit s s' \<Longrightarrow> slots_inv limit s \<Longrightarrow> slots_inv limit s'"
  by (induction rule: slots_step.induct) (auto simp: slots_inv_def release_run_slot_def not_in_iff)

lemma slots_reach_inv: "slots_reach limit s \<Longrightarrow> slots_inv limit s"
proof (induction rule: slots_reach.induct)
  case start
  show ?case by (simp add: slots_inv_def slots_start_def)
qed (rule slots_inv_step)

text \<open>C24. No run is forgotten at the slots: in every interleaving of runs and closing, the slots in use are the runs executing,
  never more than the limit; a run sleeps only while every slot is in use or a thread is on its way to take one; and after
  closing has woken the sleepers at most one run still sleeps, the one that had just decided to, and then a run is
  executing whose end wakes it, so that closing does not wait for a run that nobody wakes.\<close>

theorem sleeping_runs_are_woken:
  assumes "slots_reach limit s"
  shows "sl_active s = count (sl_threads s) Executing \<and> sl_active s \<le> limit
    \<and> (Sleeping \<in># sl_threads s \<and> \<not> sl_closing s \<longrightarrow> limit \<le> sl_active s + count (sl_threads s) Arriving)
    \<and> (Sleeping \<in># sl_threads s \<and> sl_announced s \<and> 0 < limit \<longrightarrow>
         count (sl_threads s) Sleeping = 1 \<and> Executing \<in># sl_threads s
         \<and> (\<forall>s'. slots_step limit s s' \<and> sl_active s' < sl_active s \<longrightarrow> Sleeping \<notin># sl_threads s'))"
proof (intro conjI impI allI; (elim conjE)?)
  have inv: "slots_inv limit s" using slots_reach_inv[OF assms] .
  then show "sl_active s = count (sl_threads s) Executing" "sl_active s \<le> limit" by (simp_all add: slots_inv_def)
  show "limit \<le> sl_active s + count (sl_threads s) Arriving" if "Sleeping \<in># sl_threads s" "\<not> sl_closing s"
    using inv that by (simp add: slots_inv_def)
  assume sleeping: "Sleeping \<in># sl_threads s" and "sl_announced s" and "0 < limit"
  then show one: "count (sl_threads s) Sleeping = 1" and "Executing \<in># sl_threads s"
    using inv by (auto simp: slots_inv_def count_greater_zero_iff[symmetric] simp del: count_greater_zero_iff)
  fix s' assume "slots_step limit s s'" and less: "sl_active s' < sl_active s"
  then show "Sleeping \<notin># sl_threads s'"
    using one by (cases rule: slots_step.cases) (auto simp: not_in_iff)
qed

definition one_run :: slots where
  "one_run = slots_start\<lparr>sl_active := 1, sl_threads := {#Executing#}\<rparr>"

lemma one_run_reach: "slots_reach 1 one_run"
proof -
  have "slots_step 1 slots_start (slots_start\<lparr>sl_threads := {#Arriving#}\<rparr>)" using submitted[of 1 slots_start] by (simp add: slots_start_def)
  moreover have "slots_step 1 (slots_start\<lparr>sl_threads := {#Arriving#}\<rparr>) one_run"
    using took_slot[of "slots_start\<lparr>sl_threads := {#Arriving#}\<rparr>" "{#}" 1] by (simp add: slots_start_def one_run_def)
  ultimately show ?thesis by (blast intro: slots_reach.intros)
qed

theorem sleeping_runs_are_woken_witness: "sl_active one_run = count (sl_threads one_run) Executing \<and> sl_active one_run \<le> 1"
  using sleeping_runs_are_woken[OF one_run_reach] by blast

end
