(* ===== verification/Artifacts.thy ===== *)
theory Artifacts
  imports Composite Runs
begin

text \<open>
  The artifacts of a registered command (\<open>src/src/storage.rs\<close>): their specifications and what is accepted of them, their
  fingerprints before and after a run, and which of them are ingested.  The file system, the digest of a file and the ingestion
  of a report are the record \<open>artifact_env\<close>.  Where the code \<open>expect\<close>s a field of a stored value, the error it would panic with is
  the result.
\<close>

section \<open>Fields of stored values\<close>

definition stored_field :: "json \<Rightarrow> string \<Rightarrow> string \<Rightarrow> json res" where
  "stored_field v key what = ok_or (jget v key) (Runtime (what @ '' is missing required field '' @ [CHR 0x27] @ key @ [CHR 0x27]))"

definition field_error :: "string \<Rightarrow> string \<Rightarrow> string \<Rightarrow> app_error" where
  "field_error what key must = Runtime (what @ '' field '' @ [CHR 0x27] @ key @ [CHR 0x27] @ '' must be '' @ must)"

definition required_string_field :: "json \<Rightarrow> string \<Rightarrow> string \<Rightarrow> string res" where
  "required_string_field v key what =
     bindr (stored_field v key what) (\<lambda>f. case as_str f of
         None \<Rightarrow> Inl (field_error what key ''a non-empty string'')
       | Some s \<Rightarrow> if s = [] then Inl (field_error what key ''a non-empty string'') else Inr s)"

definition required_i64_field :: "json \<Rightarrow> string \<Rightarrow> string \<Rightarrow> int res" where
  "required_i64_field v key what = bindr (stored_field v key what) (\<lambda>f. ok_or (as_i64 f) (field_error what key ''an integer''))"

definition required_bool_field :: "json \<Rightarrow> string \<Rightarrow> string \<Rightarrow> bool res" where
  "required_bool_field v key what = bindr (stored_field v key what) (\<lambda>f. ok_or (as_bool f) (field_error what key ''a boolean''))"

definition required_array_field :: "json \<Rightarrow> string \<Rightarrow> string \<Rightarrow> json list res" where
  "required_array_field v key what = bindr (stored_field v key what) (\<lambda>f. ok_or (as_array f) (field_error what key ''an array''))"

definition optional_i64_field :: "json \<Rightarrow> string \<Rightarrow> string \<Rightarrow> int option res" where
  "optional_i64_field v key what =
     bindr (stored_field v key what) (\<lambda>f. if f = JNull then Inr None
       else bindr (ok_or (as_i64 f) (field_error what key ''an integer or null'')) (\<lambda>n. Inr (Some n)))"

section \<open>Specifications\<close>

definition validate_detail_retention :: "string \<Rightarrow> unit res" where
  "validate_detail_retention v =
     (if v \<in> {''compactable'', ''incremental_base''} then Inr ()
      else Inl (Validation ''detail_retention must be compactable or incremental_base''))"

function normalize_artifact_reference :: "string \<Rightarrow> string" where
  "normalize_artifact_reference p = (if starts_with ''./'' p then normalize_artifact_reference (drop 2 p) else p)"
  by auto
termination by (relation "measure length") (auto simp: starts_with_def strip_prefix_Some)

declare normalize_artifact_reference.simps [simp del]

definition or_insert :: "string \<Rightarrow> json \<Rightarrow> (string, json) btree \<Rightarrow> (string, json) btree" where
  "or_insert k v m = (case bt_get m k of None \<Rightarrow> bt_insert k v m | Some _ \<Rightarrow> m)"

definition spec_of :: "string \<Rightarrow> json \<Rightarrow> json res" where
  "spec_of kind raw =
     (case raw of
        JStr path \<Rightarrow> Inr (jobj [(''kind'', JStr kind), (''path'', JStr path), (''required'', JBool False), (''detail_retention'', JStr ''compactable'')])
      | JObj m \<Rightarrow> Inr (JObj (or_insert ''detail_retention'' (JStr ''compactable'') (or_insert ''required'' (JBool False) (bt_insert ''kind'' (JStr kind) m))))
      | _ \<Rightarrow> Inl (Validation (''artifact spec must be a path string or object: '' @ kind)))"

definition detail_retention_of :: "json \<Rightarrow> string" where
  "detail_retention_of spec = (case Option.bind (jget spec ''detail_retention'') as_str of None \<Rightarrow> ''compactable'' | Some s \<Rightarrow> s)"

definition spec_path :: "json \<Rightarrow> string option" where
  "spec_path spec = Option.bind (jget spec ''path'') as_str"

record spec_state =
  sp_specs :: "json list"
  sp_variants :: "(string \<times> string) list"
  sp_inventory_artifact :: "string option"
  sp_inventory_path :: "string option"
  sp_inventory_count :: nat

definition spec_start :: spec_state where
  "spec_start = \<lparr>sp_specs = [], sp_variants = [], sp_inventory_artifact = None, sp_inventory_path = None, sp_inventory_count = 0\<rparr>"

text \<open>The format a composite artifact declares: blank is as good as none.\<close>

definition composite_format_of :: "string \<Rightarrow> json \<Rightarrow> string res" where
  "composite_format_of kind spec =
     (case Option.bind (jget spec ''coverage_format'') as_str of
        Some f \<Rightarrow> if trim f \<noteq> [] then Inr (trim f) else Inl (Validation (''composite artifact '' @ kind @ '' must declare coverage_format''))
      | None \<Rightarrow> Inl (Validation (''composite artifact '' @ kind @ '' must declare coverage_format'')))"

definition same_inventory :: "artifact_descriptor \<Rightarrow> spec_state \<Rightarrow> spec_state res" where
  "same_inventory d st =
     (let inventory = normalize_artifact_reference (ad_inventory_artifact d) in
      case sp_inventory_artifact st of
        Some previous \<Rightarrow> if previous \<noteq> inventory then Inl (Validation ''all composite artifacts must use the same inventory_artifact'') else Inr st
      | None \<Rightarrow> Inr (st\<lparr>sp_inventory_artifact := Some inventory\<rparr>))"

definition check_role :: "json \<Rightarrow> artifact_descriptor \<Rightarrow> spec_state \<Rightarrow> spec_state res" where
  "check_role spec d st =
     (if ad_role d = ''inventory''
      then bindr (required_bool_field spec ''required'' ''artifact specification'') (\<lambda>required.
           if \<not> required then Inl (Validation ''the composite inventory artifact must be required'')
           else if ad_format d \<noteq> inventory_schema
           then Inl (Validation ''the composite inventory artifact must use coverage-mcp-inventory-v1'')
           else Inr (st\<lparr>sp_inventory_count := Suc (sp_inventory_count st), sp_inventory_path := spec_path spec\<rparr>))
      else if ad_format d = inventory_schema then Inl (Validation ''coverage artifacts cannot use the inventory format'')
      else bindr (required_bool_field spec ''required'' ''artifact specification'') (\<lambda>required.
           if \<not> required then Inl (Validation ''composite coverage artifacts must be required'')
           else if (ad_component_id d, ad_package_variant d) \<in> set (sp_variants st)
           then Inl (Validation (''duplicate composite component/package variant: '' @ ad_component_id d @ '':'' @ ad_package_variant d))
           else Inr (st\<lparr>sp_variants := (ad_component_id d, ad_package_variant d) # sp_variants st\<rparr>)))"

definition check_composite :: "string \<Rightarrow> json \<Rightarrow> artifact_descriptor \<Rightarrow> spec_state \<Rightarrow> spec_state res" where
  "check_composite kind spec d st =
     bindr (composite_format_of kind spec) (\<lambda>format.
     if normalize_composite_format format \<noteq> ad_format d
     then Inl (Validation (''composite artifact '' @ kind @ '' format must match coverage_format''))
     else bindr (same_inventory d st) (check_role spec d))"

definition add_spec :: "spec_state \<Rightarrow> string \<times> json \<Rightarrow> spec_state res" where
  "add_spec st entry =
     (case entry of (kind, raw) \<Rightarrow>
      bindr (spec_of kind raw) (\<lambda>spec.
      if spec_path spec \<in> {None, Some []} then Inl (Validation (''artifact path is required: '' @ kind))
      else bindr (validate_detail_retention (detail_retention_of spec)) (\<lambda>_.
      bindr (composite_descriptor spec) (\<lambda>descriptor.
      bindr (case descriptor of None \<Rightarrow> Inr st | Some d \<Rightarrow> check_composite kind spec d st) (\<lambda>st.
      Inr (st\<lparr>sp_specs := sp_specs st @ [spec]\<rparr>))))))"

definition check_reference :: "string \<Rightarrow> json \<Rightarrow> unit res" where
  "check_reference inventory_path spec =
     (case composite_descriptor spec of
        Inr (Some d) \<Rightarrow>
          if ad_role d = ''coverage'' \<and> normalize_artifact_reference (ad_inventory_artifact d) \<noteq> normalize_artifact_reference inventory_path
          then Inl (Validation (''composite coverage artifact '' @ ad_component_id d @ '' must reference the registered inventory path '' @ inventory_path))
          else Inr ()
      | _ \<Rightarrow> Inr ())"

definition normalize_artifact_specs :: "json \<Rightarrow> json list res" where
  "normalize_artifact_specs v =
     (case v of
        JNull \<Rightarrow> Inr []
      | JObj m \<Rightarrow>
          bindr (foldM add_spec spec_start m) (\<lambda>st.
          if sp_variants st = [] then Inr (sp_specs st)
          else if sp_inventory_count st \<noteq> 1
          then Inl (Validation ''composite artifact specifications require exactly one inventory artifact'')
          else case sp_inventory_path st of
                 None \<Rightarrow> Inr (sp_specs st)
               | Some inventory_path \<Rightarrow> bindr (mapM (check_reference inventory_path) (sp_specs st)) (\<lambda>_. Inr (sp_specs st)))
      | _ \<Rightarrow> Inl (Validation ''artifact_specs must be an object keyed by artifact kind''))"

section \<open>Fingerprints\<close>

record artifact_fingerprint =
  af_exists :: bool
  af_size_bytes :: "int option"
  af_modified_ns :: "int option"
  af_sha256 :: "string option"

definition changed_from :: "artifact_fingerprint \<Rightarrow> artifact_fingerprint \<Rightarrow> bool" where
  "changed_from after before =
     (if af_sha256 after \<noteq> None \<and> af_sha256 before \<noteq> None
      then af_exists after \<noteq> af_exists before \<or> af_sha256 after \<noteq> af_sha256 before
      else af_exists after \<noteq> af_exists before \<or> af_size_bytes after \<noteq> af_size_bytes before
        \<or> af_modified_ns after \<noteq> af_modified_ns before)"

text \<open>What the file system says of a path; the time is in nanoseconds since the epoch, when there is one.\<close>

record file_meta =
  fm_len :: int
  fm_is_file :: bool
  fm_modified :: "int option"

text \<open>The digest is that of a file's content; the baselines are the fingerprints stored before the run.  Ingesting changes
  the store \<open>'w\<close>.\<close>

record 'w artifact_env =
  ae_metadata :: "string \<Rightarrow> io_error + file_meta"
  ae_hash_file :: "string \<Rightarrow> string res"
  ae_baseline :: "string \<Rightarrow> artifact_fingerprint option res"
  ae_ingest :: "string \<Rightarrow> string \<Rightarrow> string \<Rightarrow> string option \<Rightarrow> string option \<Rightarrow> string \<Rightarrow> json option \<Rightarrow> string \<Rightarrow> 'w \<Rightarrow> json res \<times> 'w"
  ae_show_f64 :: "f64 \<Rightarrow> string"

definition find_metadata :: "'w artifact_env \<Rightarrow> string \<Rightarrow> file_meta option res" where
  "find_metadata env path = (case ae_metadata env path of Inr m \<Rightarrow> Inr (Some m) | Inl (IoNotFound _) \<Rightarrow> Inr None | Inl e \<Rightarrow> Inl (Io e))"

definition artifact_fingerprint_of :: "'w artifact_env \<Rightarrow> string \<Rightarrow> bool \<Rightarrow> artifact_fingerprint res" where
  "artifact_fingerprint_of env path hash_contents =
     bindr (find_metadata env path) (\<lambda>found. case found of
         None \<Rightarrow> Inr \<lparr>af_exists = False, af_size_bytes = None, af_modified_ns = None, af_sha256 = None\<rparr>
       | Some m \<Rightarrow>
           bindr (if hash_contents \<and> fm_is_file m \<and> fm_len m \<le> 64 * 1024 * 1024
                  then bindr (ae_hash_file env path) (\<lambda>h. Inr (Some h)) else Inr None) (\<lambda>sha256.
           Inr \<lparr>af_exists = True, af_size_bytes = (if in_i64 (fm_len m) then Some (fm_len m) else None),
             af_modified_ns = (case fm_modified m of Some n \<Rightarrow> if 0 \<le> n \<and> in_i64 n then Some n else None | None \<Rightarrow> None),
             af_sha256 = sha256\<rparr>))"

definition resolve_artifact_path :: "string \<Rightarrow> string \<Rightarrow> string" where
  "resolve_artifact_path cwd raw_path = (if is_absolute raw_path then raw_path else path_join cwd raw_path)"

record artifact_baseline =
  ab_run_id :: string
  ab_kind :: string
  ab_path :: string
  ab_fingerprint :: artifact_fingerprint

definition artifact_baseline_of :: "'w artifact_env \<Rightarrow> string \<Rightarrow> string \<Rightarrow> json \<Rightarrow> artifact_baseline res" where
  "artifact_baseline_of env run_id cwd spec =
     bindr (required_string_field spec ''kind'' ''artifact specification'') (\<lambda>kind.
     bindr (required_string_field spec ''path'' ''artifact specification'') (\<lambda>raw_path.
     let path = resolve_artifact_path cwd raw_path;
         hash_contents = (case jget spec ''coverage_format'' of None \<Rightarrow> False | Some v \<Rightarrow> v \<noteq> JNull)
     in bindr (artifact_fingerprint_of env path hash_contents) (\<lambda>fingerprint.
        Inr \<lparr>ab_run_id = run_id, ab_kind = kind, ab_path = path, ab_fingerprint = fingerprint\<rparr>)))"

definition artifact_baselines :: "'w artifact_env \<Rightarrow> string \<Rightarrow> json \<Rightarrow> string \<Rightarrow> artifact_baseline list res" where
  "artifact_baselines env run_id command cwd =
     bindr (required_array_field command ''artifact_specs'' ''registered command'') (mapM (artifact_baseline_of env run_id cwd))"

section \<open>Artifacts of a run\<close>

definition fingerprint_json :: "artifact_fingerprint \<Rightarrow> json" where
  "fingerprint_json f = jobj [(''exists'', JBool (af_exists f)), (''size_bytes'', jopt JInt (af_size_bytes f)),
     (''modified_ns'', jopt JInt (af_modified_ns f)), (''sha256'', jopt JStr (af_sha256 f))]"

record artifact_facts =
  ar_kind :: string
  ar_path :: string
  ar_metadata :: "file_meta option"
  ar_coverage_format :: "string option"
  ar_composite :: "json option"
  ar_required :: bool
  ar_suite :: "string option"
  ar_retention :: string
  ar_fingerprint :: artifact_fingerprint
  ar_baseline :: "artifact_fingerprint option"

definition modified_by_run :: "artifact_facts \<Rightarrow> bool" where
  "modified_by_run a = (case ar_baseline a of None \<Rightarrow> False | Some before \<Rightarrow> changed_from (ar_fingerprint a) before)"

definition artifact_role :: "artifact_facts \<Rightarrow> string option" where
  "artifact_role a = Option.bind (ar_composite a) (\<lambda>c. Option.bind (jget c ''role'') as_str)"

definition inspect_artifact :: "'w artifact_env \<Rightarrow> string \<Rightarrow> json \<Rightarrow> artifact_facts res" where
  "inspect_artifact env cwd spec =
     bindr (required_string_field spec ''kind'' ''artifact specification'') (\<lambda>kind.
     bindr (required_string_field spec ''path'' ''artifact specification'') (\<lambda>raw_path.
     let path = resolve_artifact_path cwd raw_path in
     bindr (find_metadata env path) (\<lambda>metadata.
     let coverage_format = Option.bind (jget spec ''coverage_format'') as_str in
     bindr (required_bool_field spec ''required'' ''artifact specification'') (\<lambda>required.
     bindr (validate_detail_retention (detail_retention_of spec)) (\<lambda>_.
     bindr (artifact_fingerprint_of env path (coverage_format \<noteq> None)) (\<lambda>fingerprint.
     bindr (ae_baseline env kind) (\<lambda>baseline.
     Inr \<lparr>ar_kind = kind, ar_path = path, ar_metadata = metadata, ar_coverage_format = coverage_format,
          ar_composite = jget spec ''composite'', ar_required = required, ar_suite = Option.bind (jget spec ''suite'') as_str,
          ar_retention = detail_retention_of spec, ar_fingerprint = fingerprint, ar_baseline = baseline\<rparr>)))))))"

text \<open>The status of a coverage artifact, the text beside it and the snapshot, if it was ingested as one.\<close>

definition ingest_artifact :: "'w artifact_env \<Rightarrow> json \<Rightarrow> string \<Rightarrow> string \<Rightarrow> bool \<Rightarrow> json option \<Rightarrow> artifact_facts \<Rightarrow> string \<Rightarrow> 'w
    \<Rightarrow> (string \<times> string \<times> json option) \<times> 'w" where
  "ingest_artifact env command repo_path name eligible execution a format w =
     (let composite_format = normalize_composite_format format;
          inventory = artifact_role a = Some ''inventory'' \<and> composite_format = inventory_schema
      in if \<not> eligible then ((''skipped_run_status'', ''run did not complete with a process exit code'', None), w)
         else if ar_metadata a = None then ((''missing'', ''coverage artifact does not exist'', None), w)
         else if inventory \<and> ar_baseline a \<noteq> None then ((''ingested'', [], None), w)
         else if ar_baseline a = None then ((''skipped_stale'', ''no pre-run artifact fingerprint was recorded'', None), w)
         else if \<not> modified_by_run a
         then ((''skipped_stale'', ''coverage artifact was not created or modified by this run'', None), w)
         else if inventory \<or> composite_format = regions_schema then ((''ingested'', [], None), w)
         else case ae_ingest env (ar_path a) format repo_path (Option.bind (jget command ''branch'') as_str)
                     (Option.bind (jget command ''commit_sha'') as_str) (case ar_suite a of None \<Rightarrow> name | Some s \<Rightarrow> s)
                     execution (ar_retention a) w of
                (Inr snapshot, w) \<Rightarrow> ((''ingested'', [], Some (jidx snapshot ''id'')), w)
              | (Inl e, w) \<Rightarrow> ((''failed'', display_error (ae_show_f64 env) e, None), w))"

definition artifact_json :: "artifact_facts \<Rightarrow> (string \<times> string \<times> json option) option \<Rightarrow> json" where
  "artifact_json a outcome =
     jobj ([(''kind'', JStr (ar_kind a)), (''path'', JStr (ar_path a)), (''exists'', JBool (ar_metadata a \<noteq> None)),
       (''size_bytes'', jopt (\<lambda>m. JInt (fm_len m)) (ar_metadata a)), (''required'', JBool (ar_required a)),
       (''coverage_format'', jopt JStr (ar_coverage_format a)), (''suite'', jopt JStr (ar_suite a)),
       (''detail_retention'', JStr (ar_retention a))]
       @ (case ar_composite a of None \<Rightarrow> [] | Some c \<Rightarrow> [(''composite'', c)])
       @ [(''modified_by_run'', JBool (modified_by_run a)), (''ingest_status'', JNull), (''snapshot_id'', JNull),
          (''ingest_error'', JNull), (''fingerprint'', fingerprint_json (ar_fingerprint a))]
       @ (case outcome of
            None \<Rightarrow> []
          | Some (status, text, snapshot) \<Rightarrow>
              (case snapshot of None \<Rightarrow> [] | Some i \<Rightarrow> [(''snapshot_id'', i)]) @ [(''ingest_status'', JStr status)]
              @ (if text = [] then [] else [(''ingest_error'', JStr text)])))"

definition collect_artifact :: "'w artifact_env \<Rightarrow> json \<Rightarrow> string \<Rightarrow> string \<Rightarrow> string \<Rightarrow> bool \<Rightarrow> json option \<Rightarrow> json \<Rightarrow> 'w \<Rightarrow> json res \<times> 'w" where
  "collect_artifact env command repo_path name cwd eligible execution spec w =
     (case inspect_artifact env cwd spec of
        Inl e \<Rightarrow> (Inl e, w)
      | Inr a \<Rightarrow>
          (case ar_coverage_format a of
             None \<Rightarrow> (Inr (artifact_json a None), w)
           | Some format \<Rightarrow>
               (case ingest_artifact env command repo_path name eligible execution a format w of
                  (outcome, w) \<Rightarrow> (Inr (artifact_json a (Some outcome)), w))))"

fun collect_all :: "'w artifact_env \<Rightarrow> json \<Rightarrow> string \<Rightarrow> string \<Rightarrow> string \<Rightarrow> bool \<Rightarrow> json option \<Rightarrow> json list \<Rightarrow> 'w \<Rightarrow> json list res \<times> 'w" where
  "collect_all env command repo_path name cwd eligible execution [] w = (Inr [], w)"
| "collect_all env command repo_path name cwd eligible execution (spec # specs) w =
     (case collect_artifact env command repo_path name cwd eligible execution spec w of
        (Inl e, w) \<Rightarrow> (Inl e, w)
      | (Inr a, w) \<Rightarrow>
          (case collect_all env command repo_path name cwd eligible execution specs w of
             (Inl e, w) \<Rightarrow> (Inl e, w)
           | (Inr as, w) \<Rightarrow> (Inr (a # as), w)))"

definition collect_artifacts_with_execution :: "'w artifact_env \<Rightarrow> json \<Rightarrow> string \<Rightarrow> bool \<Rightarrow> json option \<Rightarrow> 'w \<Rightarrow> json list res \<times> 'w" where
  "collect_artifacts_with_execution env command cwd eligible execution w =
     (case required_array_field command ''artifact_specs'' ''registered command'' of
        Inl e \<Rightarrow> (Inl e, w)
      | Inr specs \<Rightarrow>
          (case required_string_field command ''repo_path'' ''registered command'' of
             Inl e \<Rightarrow> (Inl e, w)
           | Inr repo_path \<Rightarrow>
               (case required_string_field command ''name'' ''registered command'' of
                  Inl e \<Rightarrow> (Inl e, w)
                | Inr name \<Rightarrow>
                    collect_all env command repo_path name cwd eligible (map_option execution_metadata_for_snapshot execution) specs w)))"

definition status_count :: "string list \<Rightarrow> json list \<Rightarrow> nat" where
  "status_count ss vs = length (filter (\<lambda>v. \<exists>s \<in> set ss. Option.bind (jget v ''ingest_status'') as_str = Some s) vs)"

definition coverage_ingest :: "json \<Rightarrow> json" where
  "coverage_ingest artifacts =
     (let vs = (case as_array artifacts of None \<Rightarrow> [] | Some vs \<Rightarrow> vs);
          configured = length (filter (\<lambda>v. case jget v ''coverage_format'' of None \<Rightarrow> False | Some f \<Rightarrow> f \<noteq> JNull) vs);
          ingested = status_count [''ingested''] vs;
          failed = status_count [''failed'', ''missing''] vs;
          stale = status_count [''skipped_stale''] vs;
          skipped = status_count [''skipped_run_status''] vs;
          snapshot_ids = filter (\<lambda>i. i \<noteq> JNull) (List.map_filter (\<lambda>v. jget v ''snapshot_id'') vs);
          status = (if configured = 0 then ''not_configured'' else if failed > 0 then ''failed'' else if ingested = configured then ''ingested''
                    else if stale > 0 \<and> ingested = 0 then ''stale'' else ''partial'')
      in jobj [(''status'', JStr status), (''configured'', jnat configured), (''ingested'', jnat ingested), (''failed'', jnat failed),
           (''stale'', jnat stale), (''skipped'', jnat skipped), (''snapshot_ids'', JArr snapshot_ids)])"

section \<open>What is ingested\<close>

definition is_configured :: "json \<Rightarrow> bool" where
  "is_configured v \<longleftrightarrow> (case jget v ''coverage_format'' of None \<Rightarrow> False | Some f \<Rightarrow> f \<noteq> JNull)"

definition has_status :: "string \<Rightarrow> json \<Rightarrow> bool" where
  "has_status st v \<longleftrightarrow> jget v ''ingest_status'' = Some (JStr st)"

text \<open>What an artifact that counts as ingested was found to be: there after a run that passed, known from before it, and
  changed by it, or the inventory, which a run need not write again.\<close>

definition fresh_artifact :: "bool \<Rightarrow> artifact_facts \<Rightarrow> bool" where
  "fresh_artifact eligible a \<longleftrightarrow> eligible \<and> ar_metadata a \<noteq> None \<and> ar_baseline a \<noteq> None
     \<and> (modified_by_run a \<or> artifact_role a = Some ''inventory'')"

lemma ingest_artifact_fresh:
  "ingest_artifact env command repo name eligible execution a format w = ((''ingested'', text, i), w') \<Longrightarrow> fresh_artifact eligible a"
  by (auto simp: ingest_artifact_def fresh_artifact_def Let_def split: if_splits prod.splits sum.splits)

lemma artifact_json_fields:
  "jget (artifact_json a outcome) ''coverage_format'' = Some (jopt JStr (ar_coverage_format a))"
  "jget (artifact_json a outcome) ''ingest_status'' = Some (case outcome of None \<Rightarrow> JNull | Some (status, _) \<Rightarrow> JStr status)"
proof -
  have "jget (jobj (xs @ ys)) k = (case map_of (rev ys) k of None \<Rightarrow> jget (jobj xs) k | Some v \<Rightarrow> Some v)" for xs ys k
    by (simp add: map_add_def cong: option.case_cong)
  note append = this
  show "jget (artifact_json a outcome) ''coverage_format'' = Some (jopt JStr (ar_coverage_format a))"
    "jget (artifact_json a outcome) ''ingest_status'' = Some (case outcome of None \<Rightarrow> JNull | Some (status, _) \<Rightarrow> JStr status)"
    unfolding artifact_json_def append_assoc[symmetric] append
    by (cases outcome; cases "ar_composite a"; simp split: prod.splits option.splits)+
qed

text \<open>How an artifact of a run relates to its specification.\<close>

definition artifact_of :: "'w artifact_env \<Rightarrow> string \<Rightarrow> bool \<Rightarrow> json \<Rightarrow> json \<Rightarrow> bool" where
  "artifact_of env cwd eligible spec v \<longleftrightarrow> (\<exists>a. inspect_artifact env cwd spec = Inr a
     \<and> is_configured v = (ar_coverage_format a \<noteq> None)
     \<and> (has_status ''ingested'' v \<longrightarrow> ar_coverage_format a \<noteq> None \<and> fresh_artifact eligible a))"

lemma collect_artifact_of:
  assumes "collect_artifact env command repo_path name cwd eligible execution spec w = (Inr v, w')"
  shows "artifact_of env cwd eligible spec v"
proof -
  from assms obtain a where a: "inspect_artifact env cwd spec = Inr a" by (cases "inspect_artifact env cwd spec") (auto simp: collect_artifact_def)
  show ?thesis
  proof (cases "ar_coverage_format a")
    case None
    with assms a have "v = artifact_json a None" by (simp add: collect_artifact_def)
    with a None show ?thesis by (auto simp: artifact_of_def is_configured_def has_status_def artifact_json_fields jopt_def)
  next
    case (Some format)
    obtain status msg i w1 where o: "ingest_artifact env command repo_path name eligible execution a format w = ((status, msg, i), w1)"
      by (metis prod.exhaust)
    with assms a Some have "v = artifact_json a (Some (status, msg, i))" by (simp add: collect_artifact_def)
    with a Some o show ?thesis
      by (auto simp: artifact_of_def is_configured_def has_status_def artifact_json_fields jopt_def dest: ingest_artifact_fresh)
  qed
qed

lemma collect_all_of:
  "collect_all env command repo_path name cwd eligible execution specs w = (Inr vs, w') \<Longrightarrow> list_all2 (artifact_of env cwd eligible) specs vs"
proof (induction specs arbitrary: w vs)
  case (Cons spec specs)
  from Cons.prems obtain v w1 rest where c: "collect_artifact env command repo_path name cwd eligible execution spec w = (Inr v, w1)"
    and r: "collect_all env command repo_path name cwd eligible execution specs w1 = (Inr rest, w')" and "vs = v # rest"
    by (auto split: prod.splits sum.splits)
  then show ?case using Cons.IH[OF r] collect_artifact_of[OF c] by simp
qed simp

lemma filter_subset_all:
  assumes "\<forall>x \<in> set xs. P x \<longrightarrow> Q x" and "length (filter P xs) = length (filter Q xs)" and "x \<in> set xs" and "Q x"
  shows "P x"
proof (rule ccontr)
  assume "\<not> P x"
  with assms(1,3,4) have "length (filter P xs) < length (filter Q xs)"
  proof (induction xs)
    case (Cons y ys)
    have "length (filter P ys) \<le> length (filter Q ys)" if "\<forall>x \<in> set ys. P x \<longrightarrow> Q x"
      using that by (induction ys) auto
    with Cons show ?case by (auto simp: less_Suc_eq_le)
  qed simp
  with assms(2) show False by simp
qed

lemma status_count_one: "status_count [st] vs = length (filter (has_status st) vs)"
  by (simp add: status_count_def has_status_def[abs_def] bind_eq_Some_conv)

text \<open>C15. A run whose coverage counts as ingested produced it: when the artifacts of a run are collected and its summary says
  ingested, the run passed, at least one coverage artifact was configured, and each one that was configured exists,
  was known by its fingerprint before the run, and was changed by the run (the inventory excepted); and what was not
  changed by the run is never ingested in its name, whatever the summary says.\<close>

theorem ingested_run_is_fresh:
  assumes "required_array_field command ''artifact_specs'' ''registered command'' = Inr specs"
    and "collect_artifacts_with_execution env command cwd eligible execution w = (Inr vs, w')"
  shows "length vs = length specs
    \<and> (\<forall>i < length specs. has_status ''ingested'' (vs ! i) \<longrightarrow> (\<exists>a. inspect_artifact env cwd (specs ! i) = Inr a \<and> fresh_artifact eligible a))
    \<and> (jidx (coverage_ingest (JArr vs)) ''status'' = JStr ''ingested'' \<longrightarrow>
        eligible \<and> (\<exists>spec \<in> set specs. \<exists>a. inspect_artifact env cwd spec = Inr a \<and> ar_coverage_format a \<noteq> None)
        \<and> (\<forall>spec \<in> set specs. \<exists>a. inspect_artifact env cwd spec = Inr a \<and> (ar_coverage_format a \<noteq> None \<longrightarrow> fresh_artifact eligible a)))"
proof -
  have rel: "list_all2 (artifact_of env cwd eligible) specs vs"
    using assms by (auto simp: collect_artifacts_with_execution_def intro: collect_all_of split: sum.splits)
  then have len: "length vs = length specs" and nth: "i < length specs \<Longrightarrow> artifact_of env cwd eligible (specs ! i) (vs ! i)" for i
    by (simp_all add: list_all2_conv_all_nth)
  show ?thesis
  proof (intro conjI impI allI)
    show "length vs = length specs" by (rule len)
    show "\<exists>a. inspect_artifact env cwd (specs ! i) = Inr a \<and> fresh_artifact eligible a"
      if "i < length specs" "has_status ''ingested'' (vs ! i)" for i
      using nth[OF that(1)] that(2) by (auto simp: artifact_of_def)
  next
    assume "jidx (coverage_ingest (JArr vs)) ''status'' = JStr ''ingested''"
    then have some: "filter is_configured vs \<noteq> []" and count: "length (filter (has_status ''ingested'') vs) = length (filter is_configured vs)"
      by (auto simp: coverage_ingest_def Let_def status_count_one is_configured_def[abs_def] split: if_splits)
    have conf: "is_configured v" if "v \<in> set vs" "has_status ''ingested'' v" for v
      using that nth len by (fastforce simp: in_set_conv_nth artifact_of_def)
    have all: "has_status ''ingested'' v" if "v \<in> set vs" "is_configured v" for v
      by (rule filter_subset_all[OF _ count that]) (use conf in blast)
    have each: "\<exists>v \<in> set vs. artifact_of env cwd eligible spec v" if "spec \<in> set specs" for spec
      using that nth len by (metis in_set_conv_nth nth_mem)
    show "\<forall>spec \<in> set specs. \<exists>a. inspect_artifact env cwd spec = Inr a \<and> (ar_coverage_format a \<noteq> None \<longrightarrow> fresh_artifact eligible a)"
      using each all by (fastforce simp: artifact_of_def)
    obtain i where i: "i < length specs" "is_configured (vs ! i)" using some len by (auto simp: filter_empty_conv in_set_conv_nth)
    then have "has_status ''ingested'' (vs ! i)" using all len by simp
    with nth[OF i(1)] i show eligible "\<exists>spec \<in> set specs. \<exists>a. inspect_artifact env cwd spec = Inr a \<and> ar_coverage_format a \<noteq> None"
      by (auto simp: artifact_of_def fresh_artifact_def intro!: bexI[of _ "specs ! i"])
  qed
qed

text \<open>A run that rewrote its only report, which is ingested as snapshot \<open>s1\<close>.\<close>

definition sample_env :: "nat artifact_env" where
  "sample_env = \<lparr>ae_metadata = (\<lambda>_. Inr \<lparr>fm_len = 120, fm_is_file = True, fm_modified = Some 9\<rparr>), ae_hash_file = (\<lambda>_. Inr ''new''),
     ae_baseline = (\<lambda>_. Inr (Some \<lparr>af_exists = True, af_size_bytes = Some 120, af_modified_ns = Some 5, af_sha256 = Some ''old''\<rparr>)),
     ae_ingest = (\<lambda>_ _ _ _ _ _ _ _ n. (Inr (jobj [(''id'', JStr ''s1'')]), Suc n)), ae_show_f64 = (\<lambda>_. [])\<rparr>"

definition sample_spec :: json where
  "sample_spec = jobj [(''kind'', JStr ''lcov''), (''path'', JStr ''out.info''), (''required'', JBool True), (''coverage_format'', JStr ''lcov'')]"

definition sample_command :: json where
  "sample_command = jobj [(''name'', JStr ''unit''), (''repo_path'', JStr ''/r''), (''artifact_specs'', JArr [sample_spec])]"

theorem ingested_run_is_fresh_witness:
  "\<exists>vs. collect_artifacts_with_execution sample_env sample_command ''/r'' True None 0 = (Inr vs, 1)
     \<and> jidx (coverage_ingest (JArr vs)) ''status'' = JStr ''ingested'' \<and> length vs = 1
     \<and> (\<exists>a. inspect_artifact sample_env ''/r'' sample_spec = Inr a \<and> fresh_artifact True a)"
proof -
  define vs where "vs = projr (fst (collect_artifacts_with_execution sample_env sample_command ''/r'' True None 0))"
  have array: "required_array_field sample_command ''artifact_specs'' ''registered command'' = Inr [sample_spec]" by code_simp
  have run: "collect_artifacts_with_execution sample_env sample_command ''/r'' True None 0 = (Inr vs, 1)" unfolding vs_def by code_simp
  have status: "jidx (coverage_ingest (JArr vs)) ''status'' = JStr ''ingested''" unfolding vs_def by code_simp
  have format: "Option.bind (jget sample_spec ''coverage_format'') as_str = Some ''lcov''" by code_simp
  from ingested_run_is_fresh[OF array run] status obtain a where a: "inspect_artifact sample_env ''/r'' sample_spec = Inr a"
    and fresh: "ar_coverage_format a \<noteq> None \<longrightarrow> fresh_artifact True a" and one: "length vs = 1" by auto
  have "ar_coverage_format a \<noteq> None" using a format by (auto simp: inspect_artifact_def Let_def bindr_eq_Inr)
  with fresh a run status one show ?thesis by auto
qed

section \<open>Accepted specifications\<close>

definition descriptor_of :: "json \<Rightarrow> artifact_descriptor option" where
  "descriptor_of spec = (case composite_descriptor spec of Inr (Some d) \<Rightarrow> Some d | _ \<Rightarrow> None)"

definition coverage_descriptors :: "json list \<Rightarrow> artifact_descriptor list" where
  "coverage_descriptors specs = filter (\<lambda>d. ad_role d \<noteq> ''inventory'') (List.map_filter descriptor_of specs)"

definition inventory_specs :: "json list \<Rightarrow> json list" where
  "inventory_specs specs = filter (\<lambda>s. \<exists>d. descriptor_of s = Some d \<and> ad_role d = ''inventory'') specs"

definition variant_of :: "artifact_descriptor \<Rightarrow> string \<times> string" where
  "variant_of d = (ad_component_id d, ad_package_variant d)"

definition spec_ok :: "json \<Rightarrow> bool" where
  "spec_ok spec \<longleftrightarrow> (\<exists>p. spec_path spec = Some p \<and> p \<noteq> []) \<and> detail_retention_of spec \<in> {''compactable'', ''incremental_base''}
     \<and> (\<exists>x. composite_descriptor spec = Inr x)
     \<and> (\<forall>d. descriptor_of spec = Some d \<longrightarrow> jget spec ''required'' = Some (JBool True)
          \<and> (ad_role d = ''inventory'' \<longleftrightarrow> ad_format d = inventory_schema)
          \<and> (\<exists>f. jget spec ''coverage_format'' = Some (JStr f) \<and> normalize_composite_format (trim f) = ad_format d))"

definition spec_inv :: "spec_state \<Rightarrow> bool" where
  "spec_inv st \<longleftrightarrow> list_all spec_ok (sp_specs st)
     \<and> sp_variants st = rev (map variant_of (coverage_descriptors (sp_specs st))) \<and> distinct (sp_variants st)
     \<and> sp_inventory_count st = length (inventory_specs (sp_specs st))
     \<and> (inventory_specs (sp_specs st) \<noteq> [] \<longrightarrow> sp_inventory_path st = spec_path (last (inventory_specs (sp_specs st))))"

lemma as_bool_eq_Some [simp]: "as_bool v = Some b \<longleftrightarrow> v = JBool b"
  by (cases v) auto

lemma required_bool_Inr [simp]: "required_bool_field v key what = Inr b \<longleftrightarrow> jget v key = Some (JBool b)"
  by (auto simp: required_bool_field_def stored_field_def bindr_eq_Inr)

lemma same_inventory_frame:
  "same_inventory d st = Inr st' \<Longrightarrow> sp_specs st' = sp_specs st \<and> sp_variants st' = sp_variants st
     \<and> sp_inventory_path st' = sp_inventory_path st \<and> sp_inventory_count st' = sp_inventory_count st"
  by (auto simp: same_inventory_def Let_def split: option.splits if_splits)

lemma composite_format_Inr: "composite_format_of kind spec = Inr f \<Longrightarrow> \<exists>g. jget spec ''coverage_format'' = Some (JStr g) \<and> f = trim g"
  by (auto simp: composite_format_of_def bind_eq_Some_conv split: option.splits if_splits bind_splits)

lemma check_composite_inv:
  assumes "check_composite kind spec d st = Inr st'" and "spec_inv st" and "descriptor_of spec = Some d"
    and "spec_path spec = Some p" and "p \<noteq> []" and "detail_retention_of spec \<in> {''compactable'', ''incremental_base''}"
  shows "sp_specs st' = sp_specs st \<and> spec_inv (st'\<lparr>sp_specs := sp_specs st @ [spec]\<rparr>)"
proof -
  from assms(1) obtain f st1 where f: "composite_format_of kind spec = Inr f" "normalize_composite_format f = ad_format d"
    and st1: "same_inventory d st = Inr st1" and role: "check_role spec d st1 = Inr st'"
    by (auto simp: check_composite_def bindr_eq_Inr split: if_splits)
  note frame = same_inventory_frame[OF st1]
  have req: "jget spec ''required'' = Some (JBool True)" and fmt: "ad_role d = ''inventory'' \<longleftrightarrow> ad_format d = inventory_schema"
    using role by (auto simp: check_role_def bindr_eq_Inr split: if_splits)
  have parsed: "\<exists>x. composite_descriptor spec = Inr x" using assms(3) by (auto simp: descriptor_of_def split: sum.splits)
  have ok: "spec_ok spec" using assms(3-6) f composite_format_Inr[OF f(1)] req fmt parsed by (auto simp: spec_ok_def)
  show ?thesis
  proof (cases "ad_role d = ''inventory''")
    case True
    with role frame have "st' = st1\<lparr>sp_inventory_count := Suc (sp_inventory_count st), sp_inventory_path := spec_path spec\<rparr>"
      by (auto simp: check_role_def bindr_eq_Inr split: if_splits)
    then show ?thesis using True assms(2,3) ok frame
      by (auto simp: spec_inv_def coverage_descriptors_def inventory_specs_def map_filter_def)
  next
    case False
    with role frame have "st' = st1\<lparr>sp_variants := variant_of d # sp_variants st\<rparr>" "variant_of d \<notin> set (sp_variants st)"
      by (auto simp: check_role_def variant_of_def bindr_eq_Inr split: if_splits)
    then show ?thesis using False assms(2,3) ok frame
      by (auto simp: spec_inv_def coverage_descriptors_def inventory_specs_def map_filter_def)
  qed
qed

lemma add_spec_inv:
  assumes "add_spec st (kind, raw) = Inr st'" and "spec_inv st"
  shows "spec_inv st' \<and> (\<exists>spec. spec_of kind raw = Inr spec \<and> sp_specs st' = sp_specs st @ [spec])"
proof -
  from assms(1) obtain spec descriptor st1 where spec: "spec_of kind raw = Inr spec" and path: "spec_path spec \<notin> {None, Some []}"
    and retention: "validate_detail_retention (detail_retention_of spec) = Inr ()" and d: "composite_descriptor spec = Inr descriptor"
    and st1: "(case descriptor of None \<Rightarrow> Inr st | Some d \<Rightarrow> check_composite kind spec d st) = Inr st1"
    and st': "st' = st1\<lparr>sp_specs := sp_specs st1 @ [spec]\<rparr>"
    by (auto simp: add_spec_def bindr_eq_Inr split: if_splits)
  obtain p where p: "spec_path spec = Some p" "p \<noteq> []" using path by (cases "spec_path spec") auto
  have ret: "detail_retention_of spec \<in> {''compactable'', ''incremental_base''}"
    using retention by (simp add: validate_detail_retention_def split: if_splits)
  show ?thesis
  proof (cases descriptor)
    case None
    then have "descriptor_of spec = None" "spec_ok spec" using d p ret by (simp_all add: descriptor_of_def spec_ok_def)
    then show ?thesis using None st1 st' spec assms(2)
      by (auto simp: spec_inv_def coverage_descriptors_def inventory_specs_def map_filter_def)
  next
    case (Some dd)
    then have "descriptor_of spec = Some dd" using d by (simp add: descriptor_of_def)
    from check_composite_inv[OF _ assms(2) this p ret] Some st1 st' spec show ?thesis by auto
  qed
qed

lemma spec_of_kind: "spec_of kind raw = Inr spec \<Longrightarrow> jget spec ''kind'' = Some (JStr kind)"
  by (auto simp: spec_of_def or_insert_def split: json.splits option.splits)

lemma add_specs_inv:
  "foldM add_spec st m = Inr st' \<Longrightarrow> spec_inv st \<Longrightarrow>
     spec_inv st' \<and> map (\<lambda>s. jget s ''kind'') (sp_specs st') = map (\<lambda>s. jget s ''kind'') (sp_specs st) @ map (\<lambda>(k, _). Some (JStr k)) m"
proof (induction m arbitrary: st)
  case (Cons e m)
  obtain kind raw where e: "e = (kind, raw)" by fastforce
  from Cons.prems obtain st1 where a: "add_spec st (kind, raw) = Inr st1" and r: "foldM add_spec st1 m = Inr st'"
    by (auto simp: e bindr_eq_Inr)
  from add_spec_inv[OF a Cons.prems(2)] Cons.IH[OF r] spec_of_kind show ?case by (auto simp: e)
qed simp

lemma composite_role:
  assumes "composite_descriptor spec = Inr (Some d)"
  shows "ad_role d \<in> {''coverage'', ''inventory''}"
proof (cases "jget spec ''composite''")
  case None
  with assms show ?thesis by (simp add: composite_descriptor_def)
next
  case (Some raw)
  with assms show ?thesis unfolding composite_descriptor_def Let_def
    by (simp only: option.case bindr_eq_Inr) (elim exE conjE, simp split: if_split_asm; (elim exE conjE)?; auto simp: bindr_eq_Inr split: if_split_asm)
qed

lemma mapM_Inr_each: "mapM f xs = Inr ys \<Longrightarrow> x \<in> set xs \<Longrightarrow> \<exists>y. f x = Inr y"
  by (induction xs arbitrary: ys) (auto simp: bindr_eq_Inr)

lemma check_reference_Inr:
  assumes "check_reference p spec = Inr ()" and "descriptor_of spec = Some d" and "ad_role d \<noteq> ''inventory''"
  shows "normalize_artifact_reference (ad_inventory_artifact d) = normalize_artifact_reference p"
proof -
  have d: "composite_descriptor spec = Inr (Some d)" using assms(2) by (auto simp: descriptor_of_def split: sum.splits option.splits)
  with assms composite_role[OF d] show ?thesis by (simp add: check_reference_def split: if_splits)
qed

text \<open>What the whole of a command's specifications is, once accepted: no two coverage artifacts report on the same variant of a
  component, and when there is one at all there is exactly one inventory, which every coverage artifact names.\<close>

definition one_inventory :: "json list \<Rightarrow> bool" where
  "one_inventory specs \<longleftrightarrow> (\<exists>inventory p. inventory_specs specs = [inventory] \<and> spec_path inventory = Some p
     \<and> list_all (\<lambda>d. normalize_artifact_reference (ad_inventory_artifact d) = normalize_artifact_reference p) (coverage_descriptors specs))"

text \<open>C37. What registration accepts of a command's artifact specifications is well formed: the specifications keep their kinds in
  order; each has a path that is not empty, a retention the store knows, and composite metadata that parses; a composite
  artifact is required and declares the format its metadata says, the inventory alone using the inventory format; and no
  two coverage artifacts are for the same variant of a component, and where there is one, there is exactly one inventory
  and all coverage artifacts name its path, whatever leading \<open>./\<close> it is written with.  What is
  not well formed is refused, so that the \<open>expect\<close>s of the code on the inventory path and the descriptors never fail.\<close>

theorem accepted_specs_wf:
  assumes "normalize_artifact_specs (JObj m) = Inr specs"
  shows "map (\<lambda>s. jget s ''kind'') specs = map (\<lambda>(kind, _). Some (JStr kind)) m \<and> list_all spec_ok specs
    \<and> distinct (map variant_of (coverage_descriptors specs)) \<and> (coverage_descriptors specs = [] \<or> one_inventory specs)"
proof -
  from assms obtain st where st: "foldM add_spec spec_start m = Inr st" and specs: "sp_specs st = specs"
    by (auto simp: normalize_artifact_specs_def bindr_eq_Inr split: if_splits option.splits)
  have start: "spec_inv spec_start" by (simp add: spec_inv_def spec_start_def coverage_descriptors_def inventory_specs_def map_filter_def)
  from add_specs_inv[OF st start] have inv: "spec_inv st" and kinds: "map (\<lambda>s. jget s ''kind'') specs = map (\<lambda>(kind, _). Some (JStr kind)) m"
    by (simp_all add: specs spec_start_def)
  have ok: "list_all spec_ok specs" and vars: "sp_variants st = rev (map variant_of (coverage_descriptors specs))" and dist: "distinct (sp_variants st)"
    and count: "sp_inventory_count st = length (inventory_specs specs)"
    and path: "inventory_specs specs \<noteq> [] \<longrightarrow> sp_inventory_path st = spec_path (last (inventory_specs specs))"
    using inv by (auto simp: spec_inv_def specs)
  have "one_inventory specs" if some: "coverage_descriptors specs \<noteq> []"
  proof -
    have nonempty: "sp_variants st \<noteq> []" using some vars by simp
    with assms st have "sp_inventory_count st = 1" by (auto simp: normalize_artifact_specs_def split: if_splits)
    with count obtain i where i: "inventory_specs specs = [i]"
      by (metis One_nat_def length_0_conv length_Suc_conv)
    have "set (inventory_specs specs) \<subseteq> set specs" by (auto simp: inventory_specs_def)
    then have "i \<in> set specs" by (simp add: i)
    with ok obtain p where p: "spec_path i = Some p" by (auto simp: list_all_iff spec_ok_def)
    with path i have "sp_inventory_path st = Some p" by simp
    with assms st nonempty specs obtain us where us: "mapM (check_reference p) specs = Inr us"
      by (auto simp: normalize_artifact_specs_def bindr_eq_Inr split: if_splits)
    have "normalize_artifact_reference (ad_inventory_artifact d) = normalize_artifact_reference p" if "d \<in> set (coverage_descriptors specs)" for d
    proof -
      from that obtain spec where spec: "spec \<in> set specs" "descriptor_of spec = Some d" "ad_role d \<noteq> ''inventory''"
        by (auto simp: coverage_descriptors_def map_filter_def)
      from mapM_Inr_each[OF us spec(1)] have "check_reference p spec = Inr ()" by simp
      from check_reference_Inr[OF this spec(2,3)] show ?thesis .
    qed
    with i p show ?thesis by (auto simp: one_inventory_def list_all_iff)
  qed
  with kinds ok vars dist show ?thesis by auto
qed

text \<open>The kind of a specification is the key it is given under, which nothing checks: with an empty key the specification is accepted,
  stored, and then has no kind where the fingerprints are taken, so that submitting the command panics.\<close>

lemma empty_kind_accepted:
  "\<exists>spec. normalize_artifact_specs (JObj [([], JStr ''out.info'')]) = Inr [spec]
     \<and> artifact_baseline_of env run_id cwd spec = Inl (field_error ''artifact specification'' ''kind'' ''a non-empty string'')"
proof -
  define spec where "spec = jobj [(''kind'', JStr []), (''path'', JStr ''out.info''), (''required'', JBool False), (''detail_retention'', JStr ''compactable'')]"
  have "normalize_artifact_specs (JObj [([], JStr ''out.info'')]) = Inr [spec]" unfolding spec_def by code_simp
  moreover have "required_string_field spec ''kind'' ''artifact specification''
      = Inl (field_error ''artifact specification'' ''kind'' ''a non-empty string'')" unfolding spec_def by code_simp
  ultimately show ?thesis by (auto simp: artifact_baseline_of_def)
qed

text \<open>A command with the coverage of one component and the inventory it is measured against.\<close>

definition sample_specs :: "(string, json) btree" where
  "sample_specs =
     (let composite = (\<lambda>role fmt. jobj [(''role'', JStr role), (''component_id'', JStr ''core''), (''package_variant'', JStr ''std''),
            (''language'', JStr ''rust''), (''inventory_artifact'', JStr ''./inv.json''), (''format'', JStr fmt),
            (''logical_source_aliases'', JArr [jobj [(''path'', JStr ''a.rs''), (''logical_source_id'', JStr ''core/a'')]])]);
          spec = (\<lambda>path role fmt. jobj [(''path'', JStr path), (''required'', JBool True), (''coverage_format'', JStr fmt), (''composite'', composite role fmt)])
      in [(''coverage'', spec ''cov.info'' ''coverage'' ''lcov''), (''inventory'', spec ''inv.json'' ''inventory'' inventory_schema)])"

theorem accepted_specs_wf_witness:
  "\<exists>specs. normalize_artifact_specs (JObj sample_specs) = Inr specs \<and> one_inventory specs \<and> length specs = 2"
proof -
  define specs where "specs = projr (normalize_artifact_specs (JObj sample_specs))"
  have accepted: "normalize_artifact_specs (JObj sample_specs) = Inr specs" unfolding specs_def by code_simp
  have "map ad_component_id (coverage_descriptors specs) = [''core'']" unfolding specs_def by code_simp
  then have some: "coverage_descriptors specs \<noteq> []" by auto
  have "length specs = 2" unfolding specs_def by code_simp
  with accepted_specs_wf[OF accepted] some accepted show ?thesis by auto
qed

end
