(* ===== verification/Tables.thy ===== *)
theory Tables
  imports Artifacts Git Regions Assemble
begin

text \<open>
  The tables behind the managed runs of a store (\<open>src/src/storage.rs\<close>): commands, queued jobs, finished runs, execution contexts,
  artifact fingerprints, artifacts and composite snapshots; the statements on them, and what is read of them.  A table is the list of
  its rows in the order they were inserted, and rows that tie in an order keep it.  Any statement may fail: \<open>db_faults\<close> says what
  happens to the coming ones.  Outside a transaction a statement takes effect at once.  Times are microseconds; an operation
  reads the clock once.
\<close>

section \<open>Tables\<close>

record reg_command =
  cm_id :: string
  cm_created_at :: int
  cm_name :: string
  cm_command :: string
  cm_cwd :: string
  cm_repo_path :: string
  cm_repo_key :: string
  cm_branch :: "string option"
  cm_commit_sha :: "string option"
  cm_shell :: string
  cm_approved_by :: string
  cm_approval_note :: string
  cm_artifact_specs :: "json list"
  cm_enabled :: bool
  cm_duration_estimate_ms :: "int option"
  cm_duration_p90_ms :: "int option"
  cm_duration_sample_count :: int

record run_job =
  jb_id :: string
  jb_command_id :: string
  jb_command_name :: string
  jb_command :: string
  jb_idempotency_key :: "string option"
  jb_cwd :: string
  jb_repo_path :: string
  jb_repo_key :: string
  jb_branch :: "string option"
  jb_commit_sha :: "string option"
  jb_queued_at :: int
  jb_started_at :: "int option"
  jb_ended_at :: "int option"
  jb_timeout_seconds :: "int option"
  jb_max_summary_lines :: int
  jb_status :: string
  jb_stdout_path :: string
  jb_stderr_path :: string
  jb_error :: string
  jb_cancellation_requested_at :: "int option"
  jb_execution_mode :: "string option"
  jb_execution_identity :: "string option"
  jb_execution_label :: "string option"

record run_row =
  rn_id :: string
  rn_command_id :: string
  rn_command_name :: string
  rn_command :: string
  rn_idempotency_key :: "string option"
  rn_cwd :: string
  rn_repo_path :: string
  rn_repo_key :: string
  rn_branch :: "string option"
  rn_commit_sha :: "string option"
  rn_started_at :: int
  rn_ended_at :: int
  rn_duration_ms :: int
  rn_exit_code :: "int option"
  rn_status :: string
  rn_stdout_path :: string
  rn_stderr_path :: string
  rn_parsed_summary :: json
  rn_artifact_paths :: "json list"
  rn_queued_at :: "int option"
  rn_queue_duration_ms :: "int option"
  rn_cancellation_requested_at :: "int option"
  rn_execution_mode :: "string option"
  rn_execution_identity :: "string option"
  rn_execution_label :: "string option"

record run_context =
  cx_run_id :: string
  cx_arguments :: json
  cx_baseline_snapshot_id :: "string option"

record run_artifact =
  ra_run_id :: string
  ra_kind :: string
  ra_path :: string
  ra_exists :: bool
  ra_size_bytes :: "int option"
  ra_coverage_format :: "string option"
  ra_suite :: "string option"
  ra_modified_by_run :: bool
  ra_ingest_status :: "string option"
  ra_snapshot_id :: "string option"
  ra_ingest_error :: "string option"

record composite_row =
  cs_id :: string
  cs_created_at :: int
  cs_run_id :: string
  cs_command_id :: string
  cs_repo_path :: string
  cs_repo_key :: string
  cs_status :: string
  cs_mapping_version :: string
  cs_inventory_hash :: "string option"
  cs_checkout_revision :: "string option"
  cs_checkout_dirty :: bool
  cs_covered_regions :: int
  cs_total_regions :: int
  cs_region_rate :: json
  cs_reasons :: "string list"
  cs_remediation :: json
  cs_inventory :: json
  cs_provenance :: json
  cs_components :: "json list"
  cs_component_evidence :: "json list"

record composite_region_row =
  cg_snapshot_id :: string
  cg_region_key :: string
  cg_region :: json

record run_db =
  db_commands :: "reg_command list"
  db_jobs :: "run_job list"
  db_runs :: "run_row list"
  db_contexts :: "run_context list"
  db_baselines :: "artifact_baseline list"
  db_artifacts :: "run_artifact list"
  db_composites :: "composite_row list"
  db_composite_regions :: "composite_region_row list"
  db_closing :: bool
  db_faults :: "app_error option list"

text \<open>What an operation is given: the clock, a fresh identifier, the text of a time and back, the error of a violated key, git,
  the snapshots, the files of artifacts and logs, and whether a thread can be started.\<close>

record job_env =
  je_now :: int
  je_uuid :: string
  je_show_time :: "int \<Rightarrow> string"
  je_parse_time :: "string \<Rightarrow> string + int"
  je_conflict :: app_error
  je_git :: git_env
  je_digest :: "json \<Rightarrow> string"
  je_snapshot :: "string \<Rightarrow> json res"
  je_composite :: composite_env
  je_artifacts :: "unit artifact_env"
  je_create_dir :: "string \<Rightarrow> io_error + unit"
  je_create_file :: "string \<Rightarrow> io_error + unit"
  je_spawn :: "unit res"
  je_remove_dir :: "string \<Rightarrow> io_error + unit"
  je_show_f64 :: "f64 \<Rightarrow> string"
  je_run_retention :: nat
  je_run_dir :: string

section \<open>Statements\<close>

definition sql :: "(run_db \<Rightarrow> 'a \<times> run_db) \<Rightarrow> run_db \<Rightarrow> 'a res \<times> run_db" where
  "sql f s = (case db_faults s of
      Some e # fs \<Rightarrow> (Inl e, s\<lparr>db_faults := fs\<rparr>)
    | None # fs \<Rightarrow> apfst Inr (f (s\<lparr>db_faults := fs\<rparr>))
    | [] \<Rightarrow> apfst Inr (f s))"

definition select :: "(run_db \<Rightarrow> 'a) \<Rightarrow> run_db \<Rightarrow> 'a res \<times> run_db" where
  "select q = sql (\<lambda>s. (q s, s))"

definition execute :: "(run_db \<Rightarrow> run_db) \<Rightarrow> run_db \<Rightarrow> unit res \<times> run_db" where
  "execute u = sql (\<lambda>s. ((), u s))"

text \<open>A statement that violates the key of its table fails and changes nothing.\<close>

definition insert_row_sql :: "app_error \<Rightarrow> (run_db \<Rightarrow> bool) \<Rightarrow> (run_db \<Rightarrow> run_db) \<Rightarrow> run_db \<Rightarrow> unit res \<times> run_db" where
  "insert_row_sql conflict clash u s =
     bind_st (sql (\<lambda>s. (clash s, if clash s then s else u s)) s) (\<lambda>c s. if c then (Inl conflict, s) else (Inr (), s))"

text \<open>A transaction keeps what it did when it commits, and nothing otherwise.\<close>

definition rollback_transaction :: "(f64 \<Rightarrow> string) \<Rightarrow> app_error \<Rightarrow> run_db \<Rightarrow> 'a res \<times> run_db" where
  "rollback_transaction show error s = (case execute id s of
      (Inr _, s) \<Rightarrow> (Inl error, s)
    | (Inl e, s) \<Rightarrow> (Inl (Runtime (display_error show error @ ''; transaction rollback failed: '' @ display_error show e)), s))"

definition finish_transaction :: "(f64 \<Rightarrow> string) \<Rightarrow> run_db \<Rightarrow> 'a res \<times> run_db \<Rightarrow> 'a res \<times> run_db" where
  "finish_transaction show before result =
     (case result of
        (Inr v, s) \<Rightarrow> (case execute id s of (Inr _, s) \<Rightarrow> (Inr v, s) | (Inl e, s) \<Rightarrow> (Inl e, before\<lparr>db_faults := db_faults s\<rparr>))
      | (Inl e, s) \<Rightarrow> rollback_transaction show e (before\<lparr>db_faults := db_faults s\<rparr>))"

definition in_transaction :: "(f64 \<Rightarrow> string) \<Rightarrow> (run_db \<Rightarrow> 'a res \<times> run_db) \<Rightarrow> run_db \<Rightarrow> 'a res \<times> run_db" where
  "in_transaction show operation s = bind_st (execute id s) (\<lambda>_ s. finish_transaction show s (operation s))"

definition with_connection :: "(run_db \<Rightarrow> 'a res \<times> run_db) \<Rightarrow> run_db \<Rightarrow> 'a res \<times> run_db" where
  "with_connection operation s = (if db_closing s then (Inl (Runtime ''DuckDB store is closing''), s) else operation s)"

definition first_row :: "'a list \<Rightarrow> 'a option" where
  "first_row xs = (case xs of [] \<Rightarrow> None | x # _ \<Rightarrow> Some x)"

definition update_job :: "string \<Rightarrow> (run_job \<Rightarrow> bool) \<Rightarrow> (run_job \<Rightarrow> run_job) \<Rightarrow> run_db \<Rightarrow> run_db" where
  "update_job run_id P u s = s\<lparr>db_jobs := map (\<lambda>j. if jb_id j = run_id \<and> P j then u j else j) (db_jobs s)\<rparr>"

section \<open>Projections\<close>

definition time_json :: "job_env \<Rightarrow> int option \<Rightarrow> json" where
  "time_json env t = jopt (\<lambda>n. JStr (je_show_time env n)) t"

definition command_from_row :: "job_env \<Rightarrow> reg_command \<Rightarrow> json" where
  "command_from_row env c =
     jobj [(''id'', JStr (cm_id c)), (''created_at'', JStr (je_show_time env (cm_created_at c))), (''name'', JStr (cm_name c)),
       (''command'', JStr (cm_command c)), (''cwd'', JStr (cm_cwd c)), (''repo_path'', JStr (cm_repo_path c)), (''repo_key'', JStr (cm_repo_key c)),
       (''branch'', jopt JStr (cm_branch c)), (''commit_sha'', jopt JStr (cm_commit_sha c)), (''shell'', JStr (cm_shell c)),
       (''approved_by'', JStr (cm_approved_by c)), (''approval_note'', JStr (cm_approval_note c)),
       (''artifact_specs'', JArr (cm_artifact_specs c)), (''enabled'', JBool (cm_enabled c)),
       (''duration_estimate_ms'', jopt JInt (cm_duration_estimate_ms c)), (''duration_p90_ms'', jopt JInt (cm_duration_p90_ms c)),
       (''duration_sample_count'', JInt (cm_duration_sample_count c))]"

definition job_from_row :: "job_env \<Rightarrow> run_job \<Rightarrow> json" where
  "job_from_row env j =
     jobj [(''id'', JStr (jb_id j)), (''command_id'', JStr (jb_command_id j)), (''command_name'', JStr (jb_command_name j)),
       (''command'', JStr (jb_command j)), (''idempotency_key'', jopt JStr (jb_idempotency_key j)), (''cwd'', JStr (jb_cwd j)),
       (''repo_path'', JStr (jb_repo_path j)), (''repo_key'', JStr (jb_repo_key j)), (''branch'', jopt JStr (jb_branch j)),
       (''commit_sha'', jopt JStr (jb_commit_sha j)), (''queued_at'', JStr (je_show_time env (jb_queued_at j))),
       (''started_at'', time_json env (jb_started_at j)), (''ended_at'', time_json env (jb_ended_at j)),
       (''timeout_seconds'', jopt JInt (jb_timeout_seconds j)), (''max_summary_lines'', JInt (jb_max_summary_lines j)),
       (''status'', JStr (jb_status j)), (''stdout_path'', JStr (jb_stdout_path j)), (''stderr_path'', JStr (jb_stderr_path j)),
       (''error'', JStr (jb_error j)), (''cancellation_requested_at'', time_json env (jb_cancellation_requested_at j))]"

definition run_from_row :: "job_env \<Rightarrow> run_row \<Rightarrow> json" where
  "run_from_row env r =
     jobj [(''id'', JStr (rn_id r)), (''command_id'', JStr (rn_command_id r)), (''command_name'', JStr (rn_command_name r)),
       (''command'', JStr (rn_command r)), (''idempotency_key'', jopt JStr (rn_idempotency_key r)), (''cwd'', JStr (rn_cwd r)),
       (''repo_path'', JStr (rn_repo_path r)), (''repo_key'', JStr (rn_repo_key r)), (''branch'', jopt JStr (rn_branch r)),
       (''commit_sha'', jopt JStr (rn_commit_sha r)), (''started_at'', JStr (je_show_time env (rn_started_at r))),
       (''ended_at'', JStr (je_show_time env (rn_ended_at r))), (''duration_ms'', JInt (rn_duration_ms r)),
       (''exit_code'', jopt JInt (rn_exit_code r)), (''status'', JStr (rn_status r)), (''stdout_path'', JStr (rn_stdout_path r)),
       (''stderr_path'', JStr (rn_stderr_path r)), (''parsed_summary'', rn_parsed_summary r), (''artifact_paths'', JArr (rn_artifact_paths r)),
       (''queued_at'', time_json env (rn_queued_at r)), (''queue_duration_ms'', jopt JInt (rn_queue_duration_ms r)),
       (''cancellation_requested_at'', time_json env (rn_cancellation_requested_at r)), (''terminal'', JBool True), (''poll_after_ms'', JNull),
       (''queue_position'', JNull), (''execution_mode'', JStr ''background''),
       (''cancellation_requested'', JBool (rn_cancellation_requested_at r \<noteq> None)),
       (''coverage_ingest'', coverage_ingest (JArr (rn_artifact_paths r))),
       (''composite_snapshot_id'', case jget (rn_parsed_summary r) ''composite_snapshot_id'' of None \<Rightarrow> JNull | Some v \<Rightarrow> v)]"

definition exec_value :: "execution_context \<Rightarrow> json" where
  "exec_value c =
     jobj ([(''mode'', JStr (ec_mode c)), (''identity'', JStr (ec_identity c))]
       @ (case ec_label c of None \<Rightarrow> [] | Some l \<Rightarrow> [(''label'', JStr l)])
       @ (if ec_arguments c = [] then [] else [(''arguments'', JArr (map JStr (ec_arguments c)))])
       @ (case ec_baseline_snapshot_id c of None \<Rightarrow> []
          | Some i \<Rightarrow> [(''baseline'', jobj [(''kind'', JStr ''explicit''), (''snapshot_id'', JStr i)])]))"

definition composite_snapshot_from_row :: "job_env \<Rightarrow> composite_row \<Rightarrow> json" where
  "composite_snapshot_from_row env c =
     jobj [(''id'', JStr (cs_id c)), (''created_at'', JStr (je_show_time env (cs_created_at c))), (''run_id'', JStr (cs_run_id c)),
       (''command_id'', JStr (cs_command_id c)), (''repo_path'', JStr (cs_repo_path c)), (''repo_key'', JStr (cs_repo_key c)),
       (''status'', JStr (cs_status c)), (''mapping_version'', JStr (cs_mapping_version c)), (''inventory_hash'', jopt JStr (cs_inventory_hash c)),
       (''checkout_revision'', jopt JStr (cs_checkout_revision c)), (''checkout_dirty'', JBool (cs_checkout_dirty c)),
       (''covered_regions'', JInt (cs_covered_regions c)), (''total_regions'', JInt (cs_total_regions c)), (''region_rate'', cs_region_rate c),
       (''reasons'', JArr (map JStr (cs_reasons c))), (''remediation'', cs_remediation c), (''inventory'', cs_inventory c),
       (''provenance'', cs_provenance c), (''components'', JArr (cs_components c)), (''component_evidence'', JArr (cs_component_evidence c))]"

section \<open>Reading\<close>

definition composite_snapshot :: "job_env \<Rightarrow> string \<Rightarrow> run_db \<Rightarrow> json res \<times> run_db" where
  "composite_snapshot env i = with_connection (\<lambda>s.
     bind_st (select (\<lambda>s. map_option (composite_snapshot_from_row env) (first_row (filter (\<lambda>c. cs_id c = i) (db_composites s)))) s) (\<lambda>row s.
     (ok_or row (NotFound (''composite snapshot not found: '' @ i)), s)))"

fun composite_snapshots :: "job_env \<Rightarrow> string list \<Rightarrow> run_db \<Rightarrow> json list res \<times> run_db" where
  "composite_snapshots env [] s = (Inr [], s)"
| "composite_snapshots env (i # ids) s =
     bind_st (composite_snapshot env i s) (\<lambda>v s. bind_st (composite_snapshots env ids s) (\<lambda>vs s. (Inr (v # vs), s)))"

definition newest_composites :: "string \<Rightarrow> run_db \<Rightarrow> composite_row list" where
  "newest_composites repo_key s = rev (sort_key (\<lambda>c. (cs_created_at c, cs_id c)) (filter (\<lambda>c. cs_repo_key c = repo_key) (db_composites s)))"

definition list_composite_snapshots :: "job_env \<Rightarrow> string \<Rightarrow> nat \<Rightarrow> run_db \<Rightarrow> json list res \<times> run_db" where
  "list_composite_snapshots env repo_key limit s =
     bind_st (with_connection (select (\<lambda>s. map cs_id (take (collection_limit limit) (newest_composites repo_key s)))) s) (\<lambda>ids s.
     composite_snapshots env ids s)"

definition latest_composite_snapshot :: "job_env \<Rightarrow> string \<Rightarrow> run_db \<Rightarrow> json option res \<times> run_db" where
  "latest_composite_snapshot env repo_key s = bind_st (list_composite_snapshots env repo_key 1 s) (\<lambda>vs s. (Inr (first_row vs), s))"

definition previous_composite_snapshot :: "job_env \<Rightarrow> string \<Rightarrow> run_db \<Rightarrow> json option res \<times> run_db" where
  "previous_composite_snapshot env i s =
     bind_st (composite_snapshot env i s) (\<lambda>current s.
     bind_st (lift_st (required_string_field current ''repo_key'' ''composite snapshot'') s) (\<lambda>repo_key s.
     bind_st (with_connection (select (\<lambda>s. map_option cs_id (first_row (filter (\<lambda>c.
         case first_row (filter (\<lambda>c. cs_id c = i) (db_composites s)) of None \<Rightarrow> False | Some own \<Rightarrow> cs_created_at c < cs_created_at own)
       (newest_composites repo_key s))))) s) (\<lambda>previous s.
     case previous of None \<Rightarrow> (Inr None, s) | Some p \<Rightarrow> bind_st (composite_snapshot env p s) (\<lambda>v s. (Inr (Some v), s)))))"

definition stored_regions :: "string \<Rightarrow> run_db \<Rightarrow> json list" where
  "stored_regions i s = map cg_region (sort_key cg_region_key (filter (\<lambda>g. cg_snapshot_id g = i) (db_composite_regions s)))"

definition composite_regions :: "job_env \<Rightarrow> string \<Rightarrow> nat \<Rightarrow> run_db \<Rightarrow> json list res \<times> run_db" where
  "composite_regions env i limit s =
     bind_st (composite_snapshot env i s) (\<lambda>_ s. with_connection (select (\<lambda>s. take (collection_limit limit) (stored_regions i s))) s)"

definition composite_regions_all :: "job_env \<Rightarrow> string \<Rightarrow> run_db \<Rightarrow> json list res \<times> run_db" where
  "composite_regions_all env i s =
     bind_st (composite_snapshot env i s) (\<lambda>_ s. with_connection (select (stored_regions i)) s)"

definition registered_command :: "job_env \<Rightarrow> string \<Rightarrow> run_db \<Rightarrow> json res \<times> run_db" where
  "registered_command env reference = with_connection (\<lambda>s.
     bind_st (select (\<lambda>s. first_row (filter (\<lambda>c. cm_id c = reference) (db_commands s))) s) (\<lambda>by_id s.
     case by_id of
       Some c \<Rightarrow> (Inr (command_from_row env c), s)
     | None \<Rightarrow>
         bind_st (select (\<lambda>s. first_row (sort_key (\<lambda>c. - cm_created_at c) (filter (\<lambda>c. cm_name c = reference) (db_commands s)))) s) (\<lambda>by_name s.
         (ok_or (map_option (command_from_row env) by_name) (NotFound (''registered command not found: '' @ reference)), s))))"

definition list_registered_commands :: "job_env \<Rightarrow> string \<Rightarrow> nat \<Rightarrow> run_db \<Rightarrow> json list res \<times> run_db" where
  "list_registered_commands env repo_key limit = with_connection (select (\<lambda>s.
     map (command_from_row env) (take (collection_limit limit)
       (sort_key (\<lambda>c. - cm_created_at c) (filter (\<lambda>c. cm_repo_key c = repo_key) (db_commands s))))))"

definition idempotent_run_id :: "string \<Rightarrow> string option \<Rightarrow> run_db \<Rightarrow> string option res \<times> run_db" where
  "idempotent_run_id command_id key s =
     (case key of
        None \<Rightarrow> (Inr None, s)
      | Some k \<Rightarrow> with_connection (select (\<lambda>s. first_row
          (map jb_id (filter (\<lambda>j. jb_command_id j = command_id \<and> jb_idempotency_key j = Some k) (db_jobs s))
           @ map rn_id (filter (\<lambda>r. rn_command_id r = command_id \<and> rn_idempotency_key r = Some k) (db_runs s))))) s)"

definition context_of :: "run_db \<Rightarrow> string \<Rightarrow> json option \<times> string option" where
  "context_of s run_id = (case first_row (filter (\<lambda>c. cx_run_id c = run_id) (db_contexts s)) of
      None \<Rightarrow> (None, None)
    | Some c \<Rightarrow> (Some (cx_arguments c), cx_baseline_snapshot_id c))"

definition execution_row :: "string \<Rightarrow> run_db \<Rightarrow> (string option \<times> string option \<times> string option \<times> json option \<times> string option) option" where
  "execution_row run_id s = first_row
     (map (\<lambda>j. (jb_execution_mode j, jb_execution_identity j, jb_execution_label j, context_of s run_id)) (filter (\<lambda>j. jb_id j = run_id) (db_jobs s))
      @ map (\<lambda>r. (rn_execution_mode r, rn_execution_identity r, rn_execution_label r, context_of s run_id)) (filter (\<lambda>r. rn_id r = run_id) (db_runs s)))"

definition execution_of_row :: "string option \<times> string option \<times> string option \<times> json option \<times> string option \<Rightarrow> execution_context option res" where
  "execution_of_row row = (case row of (mode, identity, label, arguments, baseline) \<Rightarrow>
     bindr (case arguments of None \<Rightarrow> Inr [] | Some v \<Rightarrow> normalize_arguments (Some v)) (\<lambda>arguments.
     case (mode, identity) of
       (None, None) \<Rightarrow> if arguments = [] \<and> baseline = None then Inr None else Inl (Runtime ''stored run execution identity is incomplete'')
     | (Some m, Some i) \<Rightarrow>
         Inr (Some \<lparr>ec_mode = m, ec_identity = i, ec_label = label, ec_arguments = arguments, ec_baseline_snapshot_id = baseline\<rparr>)
     | _ \<Rightarrow> Inl (Runtime ''stored run execution identity is incomplete'')))"

definition execution_context_for_run :: "string \<Rightarrow> run_db \<Rightarrow> execution_context option res \<times> run_db" where
  "execution_context_for_run run_id = with_connection (\<lambda>s.
     bind_st (select (execution_row run_id) s) (\<lambda>row s. (case row of None \<Rightarrow> Inr None | Some r \<Rightarrow> execution_of_row r, s)))"

definition baseline_is_composite_snapshot :: "string \<Rightarrow> run_db \<Rightarrow> bool res \<times> run_db" where
  "baseline_is_composite_snapshot snapshot_id = with_connection (select (\<lambda>s. snapshot_id \<in> cs_id ` set (db_composites s)))"

definition attach_execution :: "json \<Rightarrow> string \<Rightarrow> run_db \<Rightarrow> json res \<times> run_db" where
  "attach_execution value run_id s =
     bind_st (execution_context_for_run run_id s) (\<lambda>execution s.
     case execution of
       None \<Rightarrow> (Inr value, s)
     | Some c \<Rightarrow>
         (case ec_baseline_snapshot_id c of
            None \<Rightarrow> (Inr (jset value ''execution'' (exec_value c)), s)
          | Some baseline_id \<Rightarrow>
              bind_st (baseline_is_composite_snapshot baseline_id s) (\<lambda>composite s.
              let v = (if composite then jset (exec_value c) ''baseline'' (jobj [(''kind'', JStr ''explicit''), (''composite_snapshot_id'', JStr baseline_id)])
                       else exec_value c)
              in (Inr (jset value ''execution'' v), s))))"

definition job :: "job_env \<Rightarrow> string \<Rightarrow> run_db \<Rightarrow> json option res \<times> run_db" where
  "job env run_id s =
     bind_st (with_connection (select (\<lambda>s. map_option (job_from_row env) (first_row (filter (\<lambda>j. jb_id j = run_id) (db_jobs s))))) s) (\<lambda>found s.
     case found of
       None \<Rightarrow> (Inr None, s)
     | Some value \<Rightarrow> bind_st (attach_execution value run_id s) (\<lambda>v s. (Inr (Some v), s)))"

definition queued_position :: "string \<Rightarrow> run_db \<Rightarrow> int res \<times> run_db" where
  "queued_position run_id = with_connection (select (\<lambda>s.
     case first_row (filter (\<lambda>j. jb_id j = run_id) (db_jobs s)) of
       None \<Rightarrow> 0
     | Some own \<Rightarrow> int (length (filter (\<lambda>j. jb_status j = ''queued''
         \<and> (jb_queued_at j < jb_queued_at own \<or> jb_queued_at j = jb_queued_at own \<and> jb_id j \<le> run_id)) (db_jobs s)))))"

definition decorate_terminal_run :: "json \<Rightarrow> json res" where
  "decorate_terminal_run value =
     (if is_object value
      then Inr (jset (jset (jset value ''terminal'' (JBool True)) ''poll_after_ms'' JNull) ''queue_position'' JNull)
      else Inl (Runtime ''terminal run projection is not an object''))"

definition run_duration_ms :: "job_env \<Rightarrow> json option \<Rightarrow> json option \<Rightarrow> int res" where
  "run_duration_ms env started queued =
     (let present = (\<lambda>v. if v = Some JNull then None else v) in
      case (case present started of None \<Rightarrow> present queued | Some v \<Rightarrow> Some v) of
        None \<Rightarrow> Inr 0
      | Some selected \<Rightarrow>
          bindr (ok_or (as_str selected) (Runtime ''run timestamp must be an RFC3339 string'')) (\<lambda>text.
          case je_parse_time env text of
            Inl e \<Rightarrow> Inl (Runtime (''run timestamp is invalid: '' @ e))
          | Inr t \<Rightarrow> Inr (max ((je_now env - t) div 1000) 0)))"

definition decorate_queued_run :: "job_env \<Rightarrow> json \<Rightarrow> string \<Rightarrow> bool \<Rightarrow> int option \<Rightarrow> json res" where
  "decorate_queued_run env result status terminal queue_position =
     (if \<not> is_object result then Inl (Runtime ''queued run projection is not an object'')
      else bindr (run_duration_ms env (jget result ''started_at'') (jget result ''queued_at'')) (\<lambda>duration_ms.
      bindr (ok_or (jget result ''stdout_path'') (Runtime ''queued run is missing stdout_path'')) (\<lambda>stdout_path.
      bindr (ok_or (jget result ''stderr_path'') (Runtime ''queued run is missing stderr_path'')) (\<lambda>stderr_path.
      let cancellation_requested = (case jget result ''cancellation_requested_at'' of None \<Rightarrow> False | Some v \<Rightarrow> v \<noteq> JNull) in
      Inr (foldl (\<lambda>r (k, v). jset r k v) result
        [(''terminal'', JBool terminal), (''exit_code'', JNull), (''duration_ms'', JInt duration_ms), (''artifact_paths'', JArr []),
         (''coverage_ingest'', jobj [(''status'', JStr ''pending''), (''snapshot_ids'', JArr []), (''configured'', JInt 0), (''ingested'', JInt 0), (''failed'', JInt 0)]),
         (''composite_snapshot_id'', JNull), (''queue_position'', jopt JInt queue_position), (''poll_after_ms'', if terminal then JNull else JInt 1000),
         (''execution_mode'', JStr ''background''), (''cancellation_requested'', JBool cancellation_requested),
         (''parsed_summary'', jobj [(''status'', JStr status), (''exit_code'', JNull), (''duration_ms'', JInt duration_ms), (''stdout_line_count'', JNull),
            (''stderr_line_count'', JNull), (''counters'', jobj []), (''excerpts'', JArr []), (''truncated'', JBool False), (''stdout_path'', stdout_path),
            (''stderr_path'', stderr_path), (''summary_deferred'', JBool True)])])))))"

definition is_active :: "string \<Rightarrow> bool" where
  "is_active status \<longleftrightarrow> status = ''queued'' \<or> status = ''running''"

definition run_result :: "job_env \<Rightarrow> string \<Rightarrow> run_db \<Rightarrow> json res \<times> run_db" where
  "run_result env run_id s =
     bind_st (job env run_id s) (\<lambda>found s.
     case found of
       None \<Rightarrow>
         bind_st (with_connection (select (\<lambda>s. map_option (run_from_row env) (first_row (filter (\<lambda>r. rn_id r = run_id) (db_runs s))))) s) (\<lambda>terminal s.
         case terminal of
           None \<Rightarrow> (Inl (NotFound (''run not found: '' @ run_id)), s)
         | Some value \<Rightarrow> bind_st (attach_execution value run_id s) (\<lambda>v s. (decorate_terminal_run v, s)))
     | Some j \<Rightarrow>
         bind_st (lift_st (required_string_field j ''status'' ''queued run'') s) (\<lambda>status s.
         bind_st (if status = ''queued'' then bind_st (queued_position run_id s) (\<lambda>n s. (Inr (Some n), s)) else (Inr None, s)) (\<lambda>position s.
         (decorate_queued_run env j status (\<not> is_active status) position, s))))"

definition list_run_queue :: "job_env \<Rightarrow> nat \<Rightarrow> run_db \<Rightarrow> json list res \<times> run_db" where
  "list_run_queue env limit = with_connection (select (\<lambda>s.
     map (job_from_row env) (take (collection_limit limit)
       (sort_key (\<lambda>j. (if jb_status j = ''running'' then 0 else 1 :: nat, jb_queued_at j)) (filter (\<lambda>j. is_active (jb_status j)) (db_jobs s))))))"

definition latest_run :: "job_env \<Rightarrow> string option \<Rightarrow> run_db \<Rightarrow> json option res \<times> run_db" where
  "latest_run env command_ref s =
     bind_st (case command_ref of
                None \<Rightarrow> (Inr None, s)
              | Some reference \<Rightarrow>
                  bind_st (registered_command env reference s) (\<lambda>command s.
                  (case Option.bind (jget command ''id'') as_str of
                     Some i \<Rightarrow> Inr (Some i)
                   | None \<Rightarrow> Inl (NotFound (''registered command not found: '' @ reference)), s))) (\<lambda>command_id s.
     with_connection (select (\<lambda>s. map_option (run_from_row env) (first_row (sort_key (\<lambda>r. - rn_started_at r)
       (filter (\<lambda>r. case command_id of None \<Rightarrow> True | Some i \<Rightarrow> rn_command_id r = i) (db_runs s)))))) s)"

definition artifact_from_row :: "job_env \<Rightarrow> run_artifact \<times> run_row \<Rightarrow> json" where
  "artifact_from_row env p = (case p of (a, r) \<Rightarrow>
     jobj [(''run_id'', JStr (ra_run_id a)), (''kind'', JStr (ra_kind a)), (''path'', JStr (ra_path a)), (''exists'', JBool (ra_exists a)),
       (''size_bytes'', jopt JInt (ra_size_bytes a)), (''coverage_format'', jopt JStr (ra_coverage_format a)), (''suite'', jopt JStr (ra_suite a)),
       (''modified_by_run'', JBool (ra_modified_by_run a)), (''ingest_status'', jopt JStr (ra_ingest_status a)),
       (''snapshot_id'', jopt JStr (ra_snapshot_id a)), (''ingest_error'', jopt JStr (ra_ingest_error a)), (''command_id'', JStr (rn_command_id r)),
       (''command_name'', JStr (rn_command_name r)), (''repo_key'', JStr (rn_repo_key r)), (''repo_path'', JStr (rn_repo_path r)),
       (''started_at'', JStr (je_show_time env (rn_started_at r))), (''ended_at'', JStr (je_show_time env (rn_ended_at r))),
       (''status'', JStr (rn_status r)), (''exit_code'', jopt JInt (rn_exit_code r))])"

definition latest_artifact :: "job_env \<Rightarrow> string \<Rightarrow> string option \<Rightarrow> run_db \<Rightarrow> json option res \<times> run_db" where
  "latest_artifact env kind command_ref s =
     bind_st (case command_ref of
                None \<Rightarrow> (Inr None, s)
              | Some reference \<Rightarrow>
                  bind_st (registered_command env reference s) (\<lambda>command s.
                  (bindr (required_string_field command ''id'' ''registered command'') (\<lambda>i. Inr (Some i)), s))) (\<lambda>command_id s.
     with_connection (select (\<lambda>s. map_option (artifact_from_row env) (first_row (sort_key (\<lambda>(a, r). - rn_started_at r)
       [(a, r). a \<leftarrow> db_artifacts s, r \<leftarrow> db_runs s, rn_id r = ra_run_id a \<and> ra_kind a = kind
          \<and> (case command_id of None \<Rightarrow> True | Some i \<Rightarrow> rn_command_id r = i)])))) s)"

end
