(* ===== verification/Jobs.thy ===== *)
theory Jobs
  imports Tables
begin

text \<open>
  The life of a managed run in the tables of \<open>Tables\<close> (\<open>src/src/storage.rs\<close>): registering a command, submitting it, claiming,
  cancelling and finishing a job, and pruning finished runs.
\<close>

section \<open>Changing\<close>

definition reconcile_persisted_run_jobs :: "job_env \<Rightarrow> run_db \<Rightarrow> unit res \<times> run_db" where
  "reconcile_persisted_run_jobs env = with_connection (execute (\<lambda>s. s\<lparr>db_jobs := map (\<lambda>j. if is_active (jb_status j)
     then j\<lparr>jb_status := ''interrupted'', jb_ended_at := Some (je_now env),
       jb_error := ''Coverage MCP restarted. Run tests with the repository runner; queued commands are no longer resumed.''\<rparr> else j) (db_jobs s)\<rparr>))"

definition finalize_failed_job :: "job_env \<Rightarrow> string \<Rightarrow> app_error \<Rightarrow> run_db \<Rightarrow> unit res \<times> run_db" where
  "finalize_failed_job env run_id error = execute (update_job run_id (\<lambda>j. is_active (jb_status j))
     (\<lambda>j. j\<lparr>jb_status := ''failed'', jb_ended_at := Some (je_now env), jb_error := display_error (je_show_f64 env) error\<rparr>))"

definition finalize_failed_job_or_log :: "job_env \<Rightarrow> string \<Rightarrow> app_error \<Rightarrow> run_db \<Rightarrow> run_db" where
  "finalize_failed_job_or_log env run_id error s = snd (finalize_failed_job env run_id error s)"

definition claim_run :: "string \<Rightarrow> int \<Rightarrow> run_db \<Rightarrow> bool res \<times> run_db" where
  "claim_run run_id started = sql (\<lambda>s.
     (length (filter (\<lambda>j. jb_id j = run_id \<and> jb_status j = ''queued'') (db_jobs s)) = 1,
      update_job run_id (\<lambda>j. jb_status j = ''queued'') (\<lambda>j. j\<lparr>jb_status := ''running'', jb_started_at := Some started, jb_error := []\<rparr>) s))"

definition cancel_update :: "job_env \<Rightarrow> string \<Rightarrow> string \<Rightarrow> run_db \<Rightarrow> unit res \<times> run_db" where
  "cancel_update env run_id status = with_connection (execute (update_job run_id (\<lambda>_. True)
     (if status = ''queued''
      then (\<lambda>j. j\<lparr>jb_status := ''cancelled'', jb_ended_at := Some (je_now env), jb_cancellation_requested_at := Some (je_now env),
             jb_error := ''Run cancelled before execution.''\<rparr>)
      else (\<lambda>j. j\<lparr>jb_cancellation_requested_at := Some (je_now env), jb_error := ''Cancellation requested.''\<rparr>))))"

definition cancel_check :: "job_env \<Rightarrow> string \<Rightarrow> run_db \<Rightarrow> string res \<times> run_db" where
  "cancel_check env run_id s =
     bind_st (with_connection (select (\<lambda>s. map_option rn_status (first_row (filter (\<lambda>r. rn_id r = run_id) (db_runs s))))) s) (\<lambda>finished s.
     case finished of
       Some value \<Rightarrow> (Inl (Validation (''run is already terminal: '' @ value)), s)
     | None \<Rightarrow>
         bind_st (job env run_id s) (\<lambda>found s.
         bind_st (lift_st (ok_or (Option.bind found (\<lambda>v. Option.bind (jget v ''status'') as_str)) (NotFound (''run not found: '' @ run_id))) s) (\<lambda>status s.
         if is_active status then (Inr status, s) else (Inl (Validation (''run is already terminal: '' @ status)), s))))"

definition cancel_run :: "job_env \<Rightarrow> string \<Rightarrow> run_db \<Rightarrow> json res \<times> run_db" where
  "cancel_run env run_id s =
     bind_st (cancel_check env run_id s) (\<lambda>status s.
     bind_st (cancel_update env run_id status s) (\<lambda>_ s. run_result env run_id s))"

definition finished_row :: "int \<Rightarrow> int \<Rightarrow> int option \<Rightarrow> string \<Rightarrow> json \<Rightarrow> json list \<Rightarrow> run_job \<Rightarrow> int \<Rightarrow> run_row" where
  "finished_row ended duration_ms exit_code status summary artifacts j started =
     \<lparr>rn_id = jb_id j, rn_command_id = jb_command_id j, rn_command_name = jb_command_name j, rn_command = jb_command j,
      rn_idempotency_key = jb_idempotency_key j, rn_cwd = jb_cwd j, rn_repo_path = jb_repo_path j, rn_repo_key = jb_repo_key j,
      rn_branch = jb_branch j, rn_commit_sha = jb_commit_sha j, rn_started_at = started, rn_ended_at = ended, rn_duration_ms = duration_ms,
      rn_exit_code = exit_code, rn_status = status, rn_stdout_path = jb_stdout_path j, rn_stderr_path = jb_stderr_path j,
      rn_parsed_summary = summary, rn_artifact_paths = artifacts, rn_queued_at = Some (jb_queued_at j),
      rn_queue_duration_ms = Some (started div 1000 - jb_queued_at j div 1000), rn_cancellation_requested_at = jb_cancellation_requested_at j,
      rn_execution_mode = jb_execution_mode j, rn_execution_identity = jb_execution_identity j, rn_execution_label = jb_execution_label j\<rparr>"

text \<open>The row is made of the job's; a job that never started, or an identifier already there, violates the table's constraints.\<close>

definition insert_completed_run :: "job_env \<Rightarrow> string \<Rightarrow> int \<Rightarrow> int \<Rightarrow> int option \<Rightarrow> string \<Rightarrow> json \<Rightarrow> json list \<Rightarrow> run_db \<Rightarrow> unit res \<times> run_db" where
  "insert_completed_run env run_id ended duration_ms exit_code status summary artifacts =
     insert_row_sql (je_conflict env)
       (\<lambda>s. \<exists>j \<in> set (db_jobs s). jb_id j = run_id \<and> (jb_started_at j = None \<or> run_id \<in> rn_id ` set (db_runs s)))
       (\<lambda>s. s\<lparr>db_runs := db_runs s @ map (\<lambda>j. finished_row ended duration_ms exit_code status summary artifacts j
          (case jb_started_at j of None \<Rightarrow> 0 | Some t \<Rightarrow> t)) (filter (\<lambda>j. jb_id j = run_id) (db_jobs s))\<rparr>)"

definition run_artifact_of :: "string \<Rightarrow> json \<Rightarrow> run_artifact res" where
  "run_artifact_of run_id artifact =
     bindr (required_string_field artifact ''kind'' ''run artifact'') (\<lambda>kind.
     bindr (required_string_field artifact ''path'' ''run artifact'') (\<lambda>path.
     bindr (required_bool_field artifact ''exists'' ''run artifact'') (\<lambda>exists_now.
     bindr (required_bool_field artifact ''modified_by_run'' ''run artifact'') (\<lambda>modified.
     let text = (\<lambda>k. Option.bind (jget artifact k) as_str) in
     Inr \<lparr>ra_run_id = run_id, ra_kind = kind, ra_path = path, ra_exists = exists_now,
       ra_size_bytes = Option.bind (jget artifact ''size_bytes'') as_i64, ra_coverage_format = text ''coverage_format'', ra_suite = text ''suite'',
       ra_modified_by_run = modified, ra_ingest_status = text ''ingest_status'', ra_snapshot_id = text ''snapshot_id'', ra_ingest_error = text ''ingest_error''\<rparr>))))"

fun insert_artifacts :: "string \<Rightarrow> json list \<Rightarrow> run_db \<Rightarrow> unit res \<times> run_db" where
  "insert_artifacts run_id [] s = (Inr (), s)"
| "insert_artifacts run_id (artifact # rest) s =
     bind_st (lift_st (run_artifact_of run_id artifact) s) (\<lambda>a s.
     bind_st (execute (\<lambda>s. s\<lparr>db_artifacts := db_artifacts s @ [a]\<rparr>) s) (\<lambda>_ s. insert_artifacts run_id rest s))"

definition delete_job :: "string \<Rightarrow> run_db \<Rightarrow> unit res \<times> run_db" where
  "delete_job run_id = execute (\<lambda>s. s\<lparr>db_jobs := filter (\<lambda>j. jb_id j \<noteq> run_id) (db_jobs s)\<rparr>)"

definition persist_completed_run :: "job_env \<Rightarrow> string \<Rightarrow> int \<Rightarrow> int \<Rightarrow> int option \<Rightarrow> string \<Rightarrow> json \<Rightarrow> json list \<Rightarrow> run_db \<Rightarrow> unit res \<times> run_db" where
  "persist_completed_run env run_id ended duration_ms exit_code status summary artifacts s =
     bind_st (insert_completed_run env run_id ended duration_ms exit_code status summary artifacts s) (\<lambda>_ s.
     bind_st (insert_artifacts run_id artifacts s) (\<lambda>_ s. delete_job run_id s))"

definition stored_baseline :: "string \<Rightarrow> string \<Rightarrow> run_db \<Rightarrow> artifact_fingerprint option res \<times> run_db" where
  "stored_baseline run_id kind = with_connection (select (\<lambda>s.
     map_option ab_fingerprint (first_row (filter (\<lambda>b. ab_run_id b = run_id \<and> ab_kind b = kind) (db_baselines s)))))"

definition clear_artifact_baselines :: "string \<Rightarrow> run_db \<Rightarrow> unit res \<times> run_db" where
  "clear_artifact_baselines run_id = with_connection (execute (\<lambda>s. s\<lparr>db_baselines := filter (\<lambda>b. ab_run_id b \<noteq> run_id) (db_baselines s)\<rparr>))"

definition query_pruned_run_ids :: "string \<Rightarrow> nat \<Rightarrow> run_db \<Rightarrow> string list res \<times> run_db" where
  "query_pruned_run_ids command_id retention = select (\<lambda>s.
     map rn_id (drop retention (sort_key (\<lambda>r. - rn_started_at r) (filter (\<lambda>r. rn_command_id r = command_id) (db_runs s)))))"

fun delete_runs :: "string list \<Rightarrow> run_db \<Rightarrow> unit res \<times> run_db" where
  "delete_runs [] s = (Inr (), s)"
| "delete_runs (i # ids) s =
     bind_st (execute (\<lambda>s. s\<lparr>db_artifacts := filter (\<lambda>a. ra_run_id a \<noteq> i) (db_artifacts s)\<rparr>) s) (\<lambda>_ s.
     bind_st (execute (\<lambda>s. s\<lparr>db_contexts := filter (\<lambda>c. cx_run_id c \<noteq> i) (db_contexts s)\<rparr>) s) (\<lambda>_ s.
     bind_st (execute (\<lambda>s. s\<lparr>db_runs := filter (\<lambda>r. rn_id r \<noteq> i) (db_runs s)\<rparr>) s) (\<lambda>_ s. delete_runs ids s)))"

definition remove_run_directory :: "job_env \<Rightarrow> string \<Rightarrow> unit res" where
  "remove_run_directory env run_id = (case je_remove_dir env (path_join (je_run_dir env) run_id) of
      Inr _ \<Rightarrow> Inr ()
    | Inl (IoNotFound _) \<Rightarrow> Inr ()
    | Inl e \<Rightarrow> Inl (Io e))"

definition prune_runs :: "job_env \<Rightarrow> string \<Rightarrow> run_db \<Rightarrow> unit res \<times> run_db" where
  "prune_runs env command_id s =
     bind_st (with_connection (query_pruned_run_ids command_id (je_run_retention env)) s) (\<lambda>ids s.
     if ids = [] then (Inr (), s)
     else bind_st (with_connection (delete_runs ids) s) (\<lambda>_ s.
       (bindr (mapM (remove_run_directory env) ids) (\<lambda>_. Inr ()), s)))"

section \<open>Registering and submitting\<close>

definition register_command :: "job_env \<Rightarrow> (string \<Rightarrow> io_error + string) \<Rightarrow> (string \<Rightarrow> bool) \<Rightarrow> (string \<Rightarrow> git_info res)
    \<Rightarrow> string \<Rightarrow> string \<Rightarrow> string option \<Rightarrow> string \<Rightarrow> json option \<Rightarrow> bool \<Rightarrow> string \<Rightarrow> string \<Rightarrow> bool \<Rightarrow> run_db \<Rightarrow> json res \<times> run_db" where
  "register_command env canonicalize is_dir ensure_project name command cwd shell artifact_paths human_approved approved_by approval_note enabled s =
     (let name = trim name; command = trim command; approved_by = trim approved_by; approval_note = trim approval_note in
      if \<not> human_approved then (Inl (Validation ''human_approved must be true to register a command''), s)
      else if name = [] then (Inl (Validation ''command name is required''), s)
      else if command = [] then (Inl (Validation ''command is required''), s)
      else if approved_by = [] then (Inl (Validation ''approved_by is required''), s)
      else if approval_note = [] then (Inl (Validation ''approval_note is required''), s)
      else case canonicalize (case cwd of None \<Rightarrow> ''.'' | Some p \<Rightarrow> p) of
             Inl e \<Rightarrow> (Inl (Io e), s)
           | Inr cwd \<Rightarrow>
               if \<not> is_dir cwd then (Inl (Validation (''cwd does not exist or is not a directory: '' @ cwd)), s)
               else bind_st (lift_st (ensure_project cwd) s) (\<lambda>git s.
                 bind_st (lift_st (normalize_artifact_specs (case artifact_paths of None \<Rightarrow> JNull | Some v \<Rightarrow> v)) s) (\<lambda>artifacts s.
                 bind_st (with_connection (insert_row_sql (je_conflict env) (\<lambda>s. je_uuid env \<in> cm_id ` set (db_commands s))
                   (\<lambda>s. s\<lparr>db_commands := db_commands s @ [\<lparr>cm_id = je_uuid env, cm_created_at = je_now env, cm_name = name, cm_command = command,
                      cm_cwd = cwd, cm_repo_path = gi_repo_path git, cm_repo_key = gi_repo_key git, cm_branch = gi_branch git,
                      cm_commit_sha = gi_commit_sha git, cm_shell = shell, cm_approved_by = approved_by, cm_approval_note = approval_note,
                      cm_artifact_specs = artifacts, cm_enabled = enabled, cm_duration_estimate_ms = None, cm_duration_p90_ms = None,
                      cm_duration_sample_count = 0\<rparr>]\<rparr>)) s) (\<lambda>_ s.
                 registered_command env (je_uuid env) s))))"

definition create_run_log_files :: "job_env \<Rightarrow> string \<Rightarrow> (string \<times> string) res" where
  "create_run_log_files env run_path =
     (let stdout = path_join run_path ''stdout.log''; stderr = path_join run_path ''stderr.log'' in
      case je_create_dir env run_path of
        Inl e \<Rightarrow> Inl (Io e)
      | Inr _ \<Rightarrow>
          (case je_create_file env stdout of
             Inl e \<Rightarrow> Inl (Io e)
           | Inr _ \<Rightarrow> (case je_create_file env stderr of Inl e \<Rightarrow> Inl (Io e) | Inr _ \<Rightarrow> Inr (stdout, stderr))))"

definition json_text :: "json \<Rightarrow> string \<Rightarrow> string option" where
  "json_text v key = Option.bind (jget v key) as_str"

definition start_run_worker :: "job_env \<Rightarrow> string \<Rightarrow> run_db \<Rightarrow> unit res \<times> run_db" where
  "start_run_worker env run_id s = (case je_spawn env of
      Inr _ \<Rightarrow> (Inr (), s)
    | Inl error \<Rightarrow> (Inl error, finalize_failed_job_or_log env run_id error s))"

definition matches_checkout :: "json \<Rightarrow> string \<Rightarrow> string \<Rightarrow> string \<Rightarrow> git_info \<Rightarrow> bool" where
  "matches_checkout latest command_id cwd commit_sha current \<longleftrightarrow>
     json_text latest ''command_id'' = Some command_id \<and> json_text latest ''cwd'' = Some cwd
     \<and> json_text latest ''repo_key'' = Some (gi_repo_key current) \<and> json_text latest ''repo_path'' = Some (gi_repo_path current)
     \<and> json_text latest ''commit_sha'' = Some commit_sha \<and> json_text latest ''branch'' = gi_branch current"

definition has_snapshot :: "json \<Rightarrow> bool" where
  "has_snapshot latest = (case Option.bind (Option.bind (jget latest ''coverage_ingest'') (\<lambda>v. jget v ''snapshot_ids'')) as_array of
      None \<Rightarrow> False | Some ids \<Rightarrow> ids \<noteq> [])"

definition reusable_run_id_with_execution :: "job_env \<Rightarrow> json \<Rightarrow> string \<Rightarrow> execution_context option \<Rightarrow> run_db \<Rightarrow> string option res \<times> run_db" where
  "reusable_run_id_with_execution env command command_id execution s =
     bind_st (lift_st (required_string_field command ''cwd'' ''registered command'') s) (\<lambda>cwd s.
     bind_st (lift_st (inspect_git (je_git env) cwd) s) (\<lambda>current s.
     case gi_commit_sha current of
       None \<Rightarrow> (Inr None, s)
     | Some commit_sha \<Rightarrow>
         if \<not> is_clean (je_git env) cwd then (Inr None, s)
         else bind_st (latest_run env (Some command_id) s) (\<lambda>latest s.
           case latest of
             None \<Rightarrow> (Inr None, s)
           | Some latest \<Rightarrow>
               if \<not> matches_checkout latest command_id cwd commit_sha current then (Inr None, s)
               else if json_text latest ''status'' = Some ''passed'' \<or> has_snapshot latest
               then bind_st (lift_st (required_string_field latest ''id'' ''latest run'') s) (\<lambda>run_id s.
                    bind_st (execution_context_for_run run_id s) (\<lambda>stored s.
                    (Inr (if stored = execution then Some run_id else None), s)))
               else (Inr None, s))))"

fun insert_baselines :: "job_env \<Rightarrow> artifact_baseline list \<Rightarrow> run_db \<Rightarrow> unit res \<times> run_db" where
  "insert_baselines env [] s = (Inr (), s)"
| "insert_baselines env (b # bs) s =
     bind_st (insert_row_sql (je_conflict env) (\<lambda>s. (ab_run_id b, ab_kind b) \<in> (\<lambda>b. (ab_run_id b, ab_kind b)) ` set (db_baselines s))
       (\<lambda>s. s\<lparr>db_baselines := db_baselines s @ [b]\<rparr>) s) (\<lambda>_ s. insert_baselines env bs s)"

definition check_baseline :: "job_env \<Rightarrow> json \<Rightarrow> string option \<Rightarrow> run_db \<Rightarrow> unit res \<times> run_db" where
  "check_baseline env command baseline s = (case baseline of
      None \<Rightarrow> (Inr (), s)
    | Some i \<Rightarrow>
        bind_st (case je_snapshot env i of
                   Inr v \<Rightarrow> (Inr (json_text v ''repo_key''), s)
                 | Inl (NotFound _) \<Rightarrow> bind_st (composite_snapshot env i s) (\<lambda>v s. (Inr (json_text v ''repo_key''), s))
                 | Inl e \<Rightarrow> (Inl e, s)) (\<lambda>repo_key s.
        if repo_key \<noteq> json_text command ''repo_key''
        then (Inl (Validation ''incremental run baseline must belong to the registered command repository''), s)
        else (Inr (), s)))"

definition submission_key :: "string option \<Rightarrow> string option res" where
  "submission_key idempotency_key = (case idempotency_key of
      None \<Rightarrow> Inr None
    | Some k \<Rightarrow>
        if trim k = [] then Inl (Validation ''idempotency_key must not be blank'')
        else if 200 < length (trim k) then Inl (Validation ''idempotency_key must not exceed 200 characters'')
        else Inr (Some (trim k)))"

text \<open>The run that a submission found instead of starting one, and why.\<close>

definition reused :: "string \<Rightarrow> json \<Rightarrow> json" where
  "reused reason v = jset (jset v ''submission_reused'' (JBool True)) ''reuse_reason'' (JStr reason)"

definition new_job :: "job_env \<Rightarrow> json \<Rightarrow> string \<Rightarrow> string option \<Rightarrow> git_info \<Rightarrow> int option \<Rightarrow> nat \<Rightarrow> string \<times> string \<Rightarrow> execution_context option \<Rightarrow> run_job" where
  "new_job env command effective_command key git timeout_seconds max_summary_lines logs execution =
     (let text = (\<lambda>k. case json_text command k of None \<Rightarrow> [] | Some s \<Rightarrow> s) in
      \<lparr>jb_id = je_uuid env, jb_command_id = text ''id'', jb_command_name = text ''name'', jb_command = effective_command, jb_idempotency_key = key,
       jb_cwd = text ''cwd'', jb_repo_path = gi_repo_path git, jb_repo_key = gi_repo_key git, jb_branch = gi_branch git,
       jb_commit_sha = gi_commit_sha git, jb_queued_at = je_now env, jb_started_at = None, jb_ended_at = None, jb_timeout_seconds = timeout_seconds,
       jb_max_summary_lines = int max_summary_lines, jb_status = ''queued'', jb_stdout_path = fst logs, jb_stderr_path = snd logs, jb_error = [],
       jb_cancellation_requested_at = None, jb_execution_mode = map_option ec_mode execution,
       jb_execution_identity = map_option ec_identity execution, jb_execution_label = Option.bind execution ec_label\<rparr>)"

definition enqueue :: "job_env \<Rightarrow> run_job \<Rightarrow> string list \<Rightarrow> string option \<Rightarrow> artifact_baseline list \<Rightarrow> run_db \<Rightarrow> unit res \<times> run_db" where
  "enqueue env j arguments baseline baselines = with_connection (\<lambda>s.
     bind_st (insert_row_sql (je_conflict env) (\<lambda>s. jb_id j \<in> jb_id ` set (db_jobs s)) (\<lambda>s. s\<lparr>db_jobs := db_jobs s @ [j]\<rparr>) s) (\<lambda>_ s.
     bind_st (insert_row_sql (je_conflict env) (\<lambda>s. jb_id j \<in> cx_run_id ` set (db_contexts s))
       (\<lambda>s. s\<lparr>db_contexts := db_contexts s @ [\<lparr>cx_run_id = jb_id j, cx_arguments = JArr (map JStr arguments), cx_baseline_snapshot_id = baseline\<rparr>]\<rparr>) s) (\<lambda>_ s.
     insert_baselines env baselines s)))"

definition start_new_run :: "job_env \<Rightarrow> json \<Rightarrow> string \<Rightarrow> string option \<Rightarrow> int option \<Rightarrow> nat \<Rightarrow> execution_context option \<Rightarrow> string list \<Rightarrow> string option
    \<Rightarrow> run_db \<Rightarrow> json res \<times> run_db" where
  "start_new_run env command effective_command key timeout_seconds max_summary_lines execution arguments baseline s =
     (let i = je_uuid env; cwd = (case json_text command ''cwd'' of None \<Rightarrow> ''.'' | Some p \<Rightarrow> p) in
      bind_st (lift_st (create_run_log_files env (path_join (je_run_dir env) i)) s) (\<lambda>logs s.
      bind_st (lift_st (inspect_git (je_git env) cwd) s) (\<lambda>git s.
      bind_st (lift_st (artifact_baselines (je_artifacts env) i command cwd) s) (\<lambda>baselines s.
      bind_st (enqueue env (new_job env command effective_command key git timeout_seconds max_summary_lines logs execution) arguments baseline baselines s) (\<lambda>_ s.
      bind_st (start_run_worker env i s) (\<lambda>_ s.
      bind_st (run_result env i s) (\<lambda>result s. (Inr (jset result ''submission_reused'' (JBool False)), s))))))))"

definition submit_command_with_execution :: "job_env \<Rightarrow> string \<Rightarrow> int option \<Rightarrow> string option \<Rightarrow> nat \<Rightarrow> bool \<Rightarrow> json option \<Rightarrow> json option \<Rightarrow> string option
    \<Rightarrow> run_db \<Rightarrow> json res \<times> run_db" where
  "submit_command_with_execution env command_ref timeout_seconds idempotency_key max_summary_lines reuse_if_unchanged execution arguments baseline s =
     bind_st (lift_st (normalize_arguments arguments) s) (\<lambda>arguments s.
     bind_st (lift_st (normalize_baseline_snapshot_id baseline) s) (\<lambda>baseline s.
     bind_st (lift_st (normalize_run_execution (je_digest env) execution arguments baseline) s) (\<lambda>execution s.
     if max_summary_lines = 0 \<or> 500 < max_summary_lines then (Inl (Validation ''max_summary_lines must be between 1 and 500''), s)
     else if (case timeout_seconds of None \<Rightarrow> False | Some t \<Rightarrow> \<not> (1 \<le> t \<and> t \<le> 86400))
     then (Inl (Validation ''timeout_seconds must be between 1 and 86400''), s)
     else
     bind_st (registered_command env command_ref s) (\<lambda>command s.
     bind_st (lift_st (required_bool_field command ''enabled'' ''registered command'') s) (\<lambda>enabled s.
     if \<not> enabled then (Inl (Validation (''registered command is disabled: '' @ command_ref)), s)
     else
     bind_st (lift_st (required_string_field command ''command'' ''registered command'') s) (\<lambda>registered s.
     bind_st (lift_st (render_command registered arguments) s) (\<lambda>effective_command s.
     bind_st (check_baseline env command baseline s) (\<lambda>_ s.
     bind_st (lift_st (submission_key idempotency_key) s) (\<lambda>key s.
     bind_st (lift_st (required_string_field command ''id'' ''registered command'') s) (\<lambda>command_id s.
     bind_st (idempotent_run_id command_id key s) (\<lambda>existing s.
     case existing of
       Some run_id \<Rightarrow>
         bind_st (execution_context_for_run run_id s) (\<lambda>stored s.
         if stored \<noteq> execution then (Inl (Validation ''idempotency_key conflicts with the existing run execution context''), s)
         else bind_st (run_result env run_id s) (\<lambda>v s. (Inr (reused ''idempotency_key'' v), s)))
     | None \<Rightarrow>
         bind_st (if reuse_if_unchanged \<and> key = None then reusable_run_id_with_execution env command command_id execution s else (Inr None, s)) (\<lambda>reusable s.
         case reusable of
           Some run_id \<Rightarrow> bind_st (run_result env run_id s) (\<lambda>v s. (Inr (reused ''unchanged_checkout'' v), s))
         | None \<Rightarrow> start_new_run env command effective_command key timeout_seconds max_summary_lines execution arguments baseline s))))))))))))"

section \<open>Statements that do not fail\<close>

definition quiet :: "run_db \<Rightarrow> bool" where
  "quiet s \<longleftrightarrow> \<not> db_closing s \<and> db_faults s = []"

lemma bind_st_eq_Inr: "bind_st m f = (Inr v, s') \<longleftrightarrow> (\<exists>x s1. m = (Inr x, s1) \<and> f x s1 = (Inr v, s'))"
  by (cases m) (auto simp: bind_st_def split: sum.splits)

lemma bind_stE: "bind_st m f = (Inr v, s') \<Longrightarrow> (\<And>x s1. m = (Inr x, s1) \<Longrightarrow> f x s1 = (Inr v, s') \<Longrightarrow> P) \<Longrightarrow> P"
  by (auto simp: bind_st_eq_Inr)

lemma bind_liftE: "bind_st (lift_st r s) f = (Inr v, s') \<Longrightarrow> (\<And>x. r = Inr x \<Longrightarrow> f x s = (Inr v, s') \<Longrightarrow> P) \<Longrightarrow> P"
  by (auto split: sum.splits)

lemma refusedE: "(if c then (Inl e, s) else m) = (Inr v, s') \<Longrightarrow> (\<not> c \<Longrightarrow> m = (Inr v, s') \<Longrightarrow> P) \<Longrightarrow> P"
  by (auto split: if_splits)

lemma lift_st_eq [simp]: "lift_st r s = (r', s') \<longleftrightarrow> r = r' \<and> s = s'"
  by (auto simp: lift_st_def)

lemma quiet_sql:
  assumes "quiet s"
  shows "sql f s = apfst Inr (f s)" and "select q s = (Inr (q s), s)" and "execute u s = (Inr (), u s)" and "with_connection operation s = operation s"
    and "insert_row_sql conflict clash u s = (if clash s then (Inl conflict, s) else (Inr (), u s))"
  using assms by (simp_all add: quiet_def sql_def select_def execute_def with_connection_def insert_row_sql_def)

lemma quiet_update [simp]:
  "quiet (s\<lparr>db_jobs := x1\<rparr>) = quiet s" "quiet (s\<lparr>db_runs := x2\<rparr>) = quiet s" "quiet (s\<lparr>db_contexts := x3\<rparr>) = quiet s"
  "quiet (s\<lparr>db_baselines := x4\<rparr>) = quiet s" "quiet (s\<lparr>db_artifacts := x5\<rparr>) = quiet s" "quiet (s\<lparr>db_commands := x6\<rparr>) = quiet s"
  by (simp_all add: quiet_def)

section \<open>Positions in the queue\<close>

lemma position_in_sorted:
  assumes "sorted (map k xs)" and "distinct (map k xs)" and "i < length xs"
  shows "length (filter (\<lambda>x. k x \<le> (k (xs ! i) :: 'b :: linorder)) xs) = Suc i"
  using assms
proof (induction xs arbitrary: i)
  case (Cons x xs)
  have later: "k x < k y" if "y \<in> set xs" for y using Cons.prems that by (auto simp: image_iff order.strict_iff_order)
  show ?case
  proof (cases i)
    case 0
    have "filter (\<lambda>y. k y \<le> k x) xs = []" using later by (auto simp: filter_empty_conv not_le)
    with 0 show ?thesis by simp
  next
    case (Suc n)
    with Cons.prems have "n < length xs" by simp
    with Cons.IH[OF _ _ this] Cons.prems Suc later[of "xs ! n"] show ?thesis by (auto simp: order.strict_implies_order)
  qed
qed simp

lemma length_filter_sort_key: "length (filter P (sort_key k xs)) = length (filter P xs)"
  by (metis mset_filter mset_sort size_mset)

definition queued_jobs :: "run_db \<Rightarrow> run_job list" where
  "queued_jobs s = sort_key (\<lambda>j. (jb_queued_at j, jb_id j)) (filter (\<lambda>j. jb_status j = ''queued'') (db_jobs s))"

lemma filter_distinct_key:
  assumes "distinct (map f xs)" and "x \<in> set xs"
  shows "filter (\<lambda>y. f y = f x) xs = [x]"
  using assms
proof (induction xs)
  case (Cons y ys)
  show ?case
  proof (cases "y = x")
    case True
    with Cons.prems have "f z \<noteq> f x" if "z \<in> set ys" for z using that by (metis distinct.simps(2) image_eqI list.set_map list.simps(9))
    with True show ?thesis by (simp add: filter_empty_conv)
  next
    case False
    with Cons show ?thesis by auto
  qed
qed simp

text \<open>C28. The positions that queued runs are told are the places of one queue: in the order in which they were submitted, with ties
  broken by their identifiers, they are 1, 2, 3 and so on, without a gap and without two runs at the same place.\<close>

theorem queue_positions_exact:
  assumes "quiet s" and "distinct (map jb_id (db_jobs s))"
  shows "map (\<lambda>j. queued_position (jb_id j) s) (queued_jobs s) = map (\<lambda>n. (Inr (int n), s)) [1..<Suc (length (queued_jobs s))]"
proof (rule nth_equalityI)
  define k where "k = (\<lambda>j::run_job. (jb_queued_at j, jb_id j))"
  fix i assume "i < length (map (\<lambda>j. queued_position (jb_id j) s) (queued_jobs s))"
  then have i: "i < length (queued_jobs s)" by simp
  define own where "own = queued_jobs s ! i"
  have own: "own \<in> set (db_jobs s)" using nth_mem[OF i] by (simp add: own_def queued_jobs_def)
  have queue: "queued_jobs s = sort_key k (filter (\<lambda>j. jb_status j = ''queued'') (db_jobs s))" by (simp add: queued_jobs_def k_def)
  have "distinct (map jb_id (queued_jobs s))" using assms(2)
    by (simp add: queue distinct_map inj_on_def)
  then have "distinct (map k (queued_jobs s))" by (auto simp: distinct_map inj_on_def k_def)
  then have "length (filter (\<lambda>j. k j \<le> k own) (queued_jobs s)) = Suc i"
    using position_in_sorted[of k "queued_jobs s" i] i by (simp add: queue own_def)
  moreover have "(\<lambda>j. jb_status j = ''queued'' \<and> k j \<le> k own)
      = (\<lambda>j. jb_status j = ''queued'' \<and> (jb_queued_at j < jb_queued_at own \<or> jb_queued_at j = jb_queued_at own \<and> jb_id j \<le> jb_id own))"
    by (auto simp: k_def fun_eq_iff)
  ultimately have "queued_position (jb_id own) s = (Inr (int (Suc i)), s)"
    using filter_distinct_key[OF assms(2) own]
    by (simp add: queued_position_def quiet_sql[OF assms(1)] first_row_def queue length_filter_sort_key conj_commute)
  with i show "map (\<lambda>j. queued_position (jb_id j) s) (queued_jobs s) ! i = map (\<lambda>n. (Inr (int n), s)) [1..<Suc (length (queued_jobs s))] ! i"
    by (simp add: own_def del: upt_Suc)
qed (simp del: upt_Suc)

section \<open>Submitting again\<close>

definition find_command :: "string \<Rightarrow> run_db \<Rightarrow> reg_command option" where
  "find_command reference s = (case first_row (filter (\<lambda>c. cm_id c = reference) (db_commands s)) of
      Some c \<Rightarrow> Some c
    | None \<Rightarrow> first_row (sort_key (\<lambda>c. - cm_created_at c) (filter (\<lambda>c. cm_name c = reference) (db_commands s))))"

definition find_job :: "string \<Rightarrow> run_db \<Rightarrow> run_job option" where
  "find_job run_id s = first_row (filter (\<lambda>j. jb_id j = run_id) (db_jobs s))"

definition execution_json :: "string \<Rightarrow> run_db \<Rightarrow> json option res" where
  "execution_json run_id s =
     bindr (case execution_row run_id s of None \<Rightarrow> Inr None | Some r \<Rightarrow> execution_of_row r) (\<lambda>c.
       Inr (map_option (\<lambda>c. case ec_baseline_snapshot_id c of
          None \<Rightarrow> exec_value c
        | Some b \<Rightarrow> if b \<in> cs_id ` set (db_composites s)
            then jset (exec_value c) ''baseline'' (jobj [(''kind'', JStr ''explicit''), (''composite_snapshot_id'', JStr b)]) else exec_value c) c))"

definition with_execution :: "json \<Rightarrow> json option \<Rightarrow> json" where
  "with_execution v e = (case e of None \<Rightarrow> v | Some x \<Rightarrow> jset v ''execution'' x)"

lemma first_row_Some: "first_row xs = Some x \<Longrightarrow> x \<in> set xs"
  by (cases xs) (auto simp: first_row_def)

lemma find_job_id: "find_job i s = Some j \<Longrightarrow> jb_id j = i \<and> j \<in> set (db_jobs s)"
  unfolding find_job_def by (drule first_row_Some) simp

lemma registered_command_quiet:
  assumes "quiet s"
  shows "registered_command env reference s
    = (ok_or (map_option (command_from_row env) (find_command reference s)) (NotFound (''registered command not found: '' @ reference)), s)"
  by (simp add: registered_command_def quiet_sql[OF assms] find_command_def ok_or_def split: option.splits)

lemma attach_quiet:
  assumes "quiet s"
  shows "attach_execution v run_id s = (bindr (execution_json run_id s) (\<lambda>e. Inr (with_execution v e)), s)"
  by (auto simp: attach_execution_def execution_context_for_run_def baseline_is_composite_snapshot_def quiet_sql[OF assms] execution_json_def
      with_execution_def bind_st_def Let_def split: option.splits sum.splits)

lemma jset_is_object [simp]: "is_object v \<Longrightarrow> is_object (jset v k x)"
  by (cases v) (auto simp: is_object_def jset_def)

lemma is_object_foldl [simp]: "is_object v \<Longrightarrow> is_object (foldl (\<lambda>r (k, v). jset r k v) v kvs)"
  by (induction kvs arbitrary: v) auto

lemma jget_foldl_jset: "is_object v \<Longrightarrow> j \<notin> fst ` set kvs \<Longrightarrow> jget (foldl (\<lambda>r (k, v). jset r k v) v kvs) j = jget v j"
  by (induction kvs arbitrary: v) (auto simp: jget_jset_object)

lemma with_execution_object [simp]: "is_object v \<Longrightarrow> is_object (with_execution v e)"
  by (auto simp: with_execution_def split: option.splits)

lemma with_execution_jget [simp]: "is_object v \<Longrightarrow> k \<noteq> ''execution'' \<Longrightarrow> jget (with_execution v e) k = jget v k"
  by (auto simp: with_execution_def jget_jset_object split: option.splits)

lemma job_quiet:
  assumes "quiet s"
  shows "job env run_id s = (case find_job run_id s of None \<Rightarrow> Inr None
    | Some j \<Rightarrow> bindr (execution_json run_id s) (\<lambda>e. Inr (Some (with_execution (job_from_row env j) e))), s)"
  by (cases "execution_json run_id s")
    (auto simp: job_def quiet_sql[OF assms] attach_quiet[OF assms] find_job_def bind_st_def split: option.splits sum.splits)

lemma is_object_rows [simp]: "is_object (job_from_row env j)" "is_object (run_from_row env r)"
  by (simp_all add: job_from_row_def run_from_row_def)

lemma job_fields [simp]:
  "jget (job_from_row env j) ''id'' = Some (JStr (jb_id j))" "jget (job_from_row env j) ''status'' = Some (JStr (jb_status j))"
  "jget (job_from_row env j) ''started_at'' = Some (time_json env (jb_started_at j))"
  "jget (job_from_row env j) ''queued_at'' = Some (JStr (je_show_time env (jb_queued_at j)))"
  "jget (job_from_row env j) ''stdout_path'' = Some (JStr (jb_stdout_path j))" "jget (job_from_row env j) ''stderr_path'' = Some (JStr (jb_stderr_path j))"
  "jget (job_from_row env j) ''cancellation_requested_at'' = Some (time_json env (jb_cancellation_requested_at j))"
  unfolding job_from_row_def jget_jobj by simp_all

lemma run_fields [simp]: "jget (run_from_row env r) ''id'' = Some (JStr (rn_id r))"
  unfolding run_from_row_def jget_jobj by simp

lemma required_string_Inr: "required_string_field v key what = Inr x \<longleftrightarrow> jget v key = Some (JStr x) \<and> x \<noteq> []"
proof (cases "jget v key")
  case (Some f)
  then show ?thesis by (cases f) (auto simp: required_string_field_def stored_field_def)
qed (simp add: required_string_field_def stored_field_def)

lemma run_duration_parsed:
  assumes "\<And>t. je_parse_time env (je_show_time env t) = Inr t"
  shows "\<exists>d. run_duration_ms env (Some (time_json env started)) (Some (JStr (je_show_time env queued))) = Inr d"
  using assms by (cases started) (auto simp: run_duration_ms_def time_json_def jopt_def)

lemma decorate_queued_ok:
  assumes "\<And>t. je_parse_time env (je_show_time env t) = Inr t"
  shows "\<exists>v. decorate_queued_run env (with_execution (job_from_row env j) e) status terminal position = Inr v"
  using run_duration_parsed[OF assms, of "jb_started_at j" "jb_queued_at j"] by (auto simp: decorate_queued_run_def)

lemma decorate_queued_id:
  assumes "decorate_queued_run env v status terminal position = Inr w" and "k \<in> {''id'', ''status''}"
  shows "jget w k = jget v k"
  using assms by (auto simp: decorate_queued_run_def Let_def bindr_eq_Inr jget_foldl_jset jget_jset_object split: if_splits)

lemma decorate_terminal_id: "decorate_terminal_run v = Inr w \<Longrightarrow> jget w ''id'' = jget v ''id''"
  by (auto simp: decorate_terminal_run_def jget_jset_object split: if_splits)

lemma queued_position_quiet: "quiet s \<Longrightarrow> \<exists>n. queued_position i s = (Inr n, s)"
  by (simp add: queued_position_def quiet_sql)

lemma required_status [simp]:
  "required_string_field (with_execution (job_from_row env j) e) ''status'' what
     = (if jb_status j = [] then Inl (field_error what ''status'' ''a non-empty string'') else Inr (jb_status j))"
  by (simp add: required_string_field_def stored_field_def)

lemma run_result_job:
  assumes "quiet s" and "find_job i s = Some j"
  shows "\<exists>p. run_result env i s = (bindr (execution_json i s) (\<lambda>e.
     if jb_status j = [] then Inl (field_error ''queued run'' ''status'' ''a non-empty string'')
     else decorate_queued_run env (with_execution (job_from_row env j) e) (jb_status j) (\<not> is_active (jb_status j)) p), s)"
proof -
  obtain n where "queued_position i s = (Inr n, s)" using queued_position_quiet[OF assms(1)] by blast
  with assms show ?thesis
    by (intro exI[of _ "if jb_status j = ''queued'' then Some n else None"])
      (cases "execution_json i s"; auto simp: run_result_def job_quiet)
qed

lemma run_result_run:
  assumes "quiet s" and "find_job i s = None"
  shows "run_result env i s = (case first_row (filter (\<lambda>r. rn_id r = i) (db_runs s)) of
      None \<Rightarrow> Inl (NotFound (''run not found: '' @ i))
    | Some r \<Rightarrow> bindr (execution_json i s) (\<lambda>e. decorate_terminal_run (with_execution (run_from_row env r) e)), s)"
  by (cases "execution_json i s") (auto simp: run_result_def job_quiet assms quiet_sql attach_quiet split: option.splits)

text \<open>What a run is said to be carries its identifier, and can be said again at any time the clock gives.\<close>

lemma run_result_id:
  assumes "quiet s" and "run_result env i s = (Inr w, s')"
  shows "s' = s \<and> json_text w ''id'' = Some i"
proof (cases "find_job i s")
  case None
  with assms run_result_run[OF assms(1) None, of env] show ?thesis
    by (auto simp: json_text_def bindr_eq_Inr dest!: decorate_terminal_id first_row_Some split: option.splits)
next
  case (Some j)
  from run_result_job[OF assms(1) Some, of env] obtain p where "run_result env i s = (bindr (execution_json i s) (\<lambda>e.
     if jb_status j = [] then Inl (field_error ''queued run'' ''status'' ''a non-empty string'')
     else decorate_queued_run env (with_execution (job_from_row env j) e) (jb_status j) (\<not> is_active (jb_status j)) p), s)" ..
  with assms(2) find_job_id[OF Some] show ?thesis
    by (auto simp: json_text_def bindr_eq_Inr dest!: decorate_queued_id[where k="''id''"] split: if_splits)
qed

lemma run_result_again:
  assumes quiet: "quiet s" and parse: "\<And>t. je_parse_time env (je_show_time env t) = Inr t" and earlier: "run_result env0 i s = (Inr w0, s0)"
  shows "\<exists>w. run_result env i s = (Inr w, s) \<and> json_text w ''id'' = Some i"
proof -
  have "\<exists>w. run_result env i s = (Inr w, s)"
  proof (cases "find_job i s")
    case None
    from earlier run_result_run[OF quiet None, of env] run_result_run[OF quiet None, of env0] show ?thesis
      by (auto simp: bindr_eq_Inr decorate_terminal_run_def split: option.splits if_splits)
  next
    case (Some j)
    from run_result_job[OF quiet Some, of env0] earlier obtain e where e: "execution_json i s = Inr e" and st: "jb_status j \<noteq> []"
      by (cases "execution_json i s") (auto split: if_splits)
    from run_result_job[OF quiet Some, of env] obtain p where "run_result env i s
        = (decorate_queued_run env (with_execution (job_from_row env j) e) (jb_status j) (\<not> is_active (jb_status j)) p, s)" using e st by auto
    with decorate_queued_ok[of env j e] parse show ?thesis by auto
  qed
  with run_result_id[OF quiet] show ?thesis by blast
qed

lemma command_fields [simp]:
  "required_bool_field (command_from_row env c) ''enabled'' what = Inr (cm_enabled c)"
  "jget (command_from_row env c) ''id'' = Some (JStr (cm_id c))" "jget (command_from_row env c) ''command'' = Some (JStr (cm_command c))"
  "jget (command_from_row env c) ''repo_key'' = Some (JStr (cm_repo_key c))" "jget (command_from_row env c) ''cwd'' = Some (JStr (cm_cwd c))"
  "jget (command_from_row env c) ''artifact_specs'' = Some (JArr (cm_artifact_specs c))"
  unfolding command_from_row_def required_bool_Inr jget_jobj by simp_all

lemma required_of_command [simp]:
  "required_string_field (command_from_row env c) ''id'' what = required_string_field (jobj [(''id'', JStr (cm_id c))]) ''id'' what"
  "required_string_field (command_from_row env c) ''command'' what = required_string_field (jobj [(''command'', JStr (cm_command c))]) ''command'' what"
  by (simp_all add: required_string_field_def stored_field_def)

definition keyed_runs :: "string \<Rightarrow> string \<Rightarrow> run_db \<Rightarrow> string list" where
  "keyed_runs command_id k s = map jb_id (filter (\<lambda>j. jb_command_id j = command_id \<and> jb_idempotency_key j = Some k) (db_jobs s))
     @ map rn_id (filter (\<lambda>r. rn_command_id r = command_id \<and> rn_idempotency_key r = Some k) (db_runs s))"

lemma idempotent_quiet: "quiet s \<Longrightarrow> idempotent_run_id command_id (Some k) s = (Inr (first_row (keyed_runs command_id k s)), s)"
  by (simp add: idempotent_run_id_def quiet_sql keyed_runs_def)

lemma execution_for_run_quiet:
  "quiet s \<Longrightarrow> execution_context_for_run i s = (case execution_row i s of None \<Rightarrow> Inr None | Some r \<Rightarrow> execution_of_row r, s)"
  by (simp add: execution_context_for_run_def quiet_sql)

lemma check_baseline_quiet:
  assumes "quiet s"
  shows "\<exists>r. check_baseline env command baseline s = (r, s)"
  by (auto simp: check_baseline_def composite_snapshot_def quiet_sql[OF assms] bind_st_def split: option.splits sum.splits app_error.splits)

lemma composite_repo_key [simp]: "jget (composite_snapshot_from_row env c) ''repo_key'' = Some (JStr (cs_repo_key c))"
  unfolding composite_snapshot_from_row_def jget_jobj by simp

lemma check_baseline_same:
  assumes "quiet s" and "quiet s'" and "db_composites s' = db_composites s" and "je_snapshot env' = je_snapshot env"
    and "check_baseline env (command_from_row env c) baseline s = (Inr (), s)"
  shows "check_baseline env' (command_from_row env' c) baseline s' = (Inr (), s')"
proof (cases baseline)
  case (Some i)
  have composite: "composite_snapshot e i t = (ok_or (map_option (composite_snapshot_from_row e) (first_row (filter (\<lambda>c. cs_id c = i) (db_composites t))))
      (NotFound (''composite snapshot not found: '' @ i)), t)" if "quiet t" for e t
    by (simp add: composite_snapshot_def quiet_sql[OF that])
  show ?thesis using assms(5)
    by (cases "je_snapshot env i"; cases "first_row (filter (\<lambda>c. cs_id c = i) (db_composites s))")
      (auto simp: check_baseline_def Some assms(3,4) composite[OF assms(1)] composite[OF assms(2)] json_text_def ok_or_def split: app_error.splits if_splits)
qed (simp add: check_baseline_def)

lemma insert_baselines_frame: "quiet s \<Longrightarrow> insert_baselines env bs s = (r, s') \<Longrightarrow> \<exists>x. s' = s\<lparr>db_baselines := x\<rparr>"
proof (induction bs arbitrary: s)
  case Nil
  then show ?case by (auto intro: exI[of _ "db_baselines s"])
next
  case (Cons b bs)
  show ?case
  proof (cases "(ab_run_id b, ab_kind b) \<in> (\<lambda>b. (ab_run_id b, ab_kind b)) ` set (db_baselines s)")
    case True
    with Cons.prems have "s' = s\<lparr>db_baselines := db_baselines s\<rparr>" by (simp add: quiet_sql)
    then show ?thesis ..
  next
    case False
    define s1 where "s1 = s\<lparr>db_baselines := db_baselines s @ [b]\<rparr>"
    have "quiet s1" "insert_baselines env bs s1 = (r, s')" using Cons.prems False by (auto simp: s1_def quiet_sql)
    from Cons.IH[OF this] obtain x where "s' = s1\<lparr>db_baselines := x\<rparr>" ..
    then show ?thesis by (auto simp: s1_def)
  qed
qed

definition enqueued :: "run_job \<Rightarrow> string list \<Rightarrow> string option \<Rightarrow> run_db \<Rightarrow> run_db \<Rightarrow> bool" where
  "enqueued j arguments baseline s s' \<longleftrightarrow> jb_id j \<notin> jb_id ` set (db_jobs s) \<and> jb_id j \<notin> cx_run_id ` set (db_contexts s)
     \<and> (\<exists>x. s' = s\<lparr>db_jobs := db_jobs s @ [j], db_contexts := db_contexts s
          @ [\<lparr>cx_run_id = jb_id j, cx_arguments = JArr (map JStr arguments), cx_baseline_snapshot_id = baseline\<rparr>], db_baselines := x\<rparr>)"

lemma enqueue_quiet:
  assumes "quiet s" and "enqueue env j arguments baseline baselines s = (Inr (), s')"
  shows "enqueued j arguments baseline s s'"
proof -
  define s1 where "s1 = s\<lparr>db_jobs := db_jobs s @ [j]\<rparr>"
  define s2 where "s2 = s1\<lparr>db_contexts := db_contexts s
    @ [\<lparr>cx_run_id = jb_id j, cx_arguments = JArr (map JStr arguments), cx_baseline_snapshot_id = baseline\<rparr>]\<rparr>"
  have q: "quiet s1" "quiet s2" using assms(1) by (simp_all add: s1_def s2_def)
  have "jb_id j \<notin> jb_id ` set (db_jobs s)" and *: "jb_id j \<notin> cx_run_id ` set (db_contexts s)" and "insert_baselines env baselines s2 = (Inr (), s')"
    using assms(2) by (auto simp: enqueue_def quiet_sql[OF assms(1)] s2_def s1_def quiet_sql(5)[OF q(1)[unfolded s1_def]] split: if_splits)
  moreover from insert_baselines_frame[OF q(2) this(3)] obtain x where "s' = s2\<lparr>db_baselines := x\<rparr>" ..
  ultimately show ?thesis by (auto simp: enqueued_def s1_def s2_def)
qed

text \<open>A run that a submission started is queued, with the execution context it was submitted with.\<close>

lemma start_new_run_quiet:
  assumes "quiet s" and "start_new_run env command eff key t msl execution arguments baseline s = (Inr v, s')"
  shows "\<exists>git logs w. enqueued (new_job env command eff key git t msl logs execution) arguments baseline s s' \<and> run_result env (je_uuid env) s' = (Inr w, s')
     \<and> v = jset w ''submission_reused'' (JBool False)"
proof -
  obtain logs git baselines s1 s2 w where enq: "enqueue env (new_job env command eff key git t msl logs execution) arguments baseline baselines s = (Inr (), s1)"
    and start: "start_run_worker env (je_uuid env) s1 = (Inr (), s2)" and res: "run_result env (je_uuid env) s2 = (Inr w, s')"
    and v: "v = jset w ''submission_reused'' (JBool False)"
    using assms(2) unfolding start_new_run_def Let_def
    apply (elim bind_liftE)
    apply (elim bind_stE)
    apply clarsimp
    done
  have "s2 = s1" using start by (cases "je_spawn env") (simp_all add: start_run_worker_def)
  moreover have e: "enqueued (new_job env command eff key git t msl logs execution) arguments baseline s s1" by (rule enqueue_quiet[OF assms(1) enq])
  moreover have "quiet s1" using e assms(1) by (auto simp: enqueued_def)
  ultimately show ?thesis using run_result_id[of s1] res v by metis
qed

text \<open>What a submission that returns has passed, and what it then does.\<close>

definition passed_submission :: "job_env \<Rightarrow> string \<Rightarrow> int option \<Rightarrow> nat \<Rightarrow> json option \<Rightarrow> json option \<Rightarrow> string option \<Rightarrow> run_db
    \<Rightarrow> string list \<times> string option \<times> execution_context option \<Rightarrow> reg_command \<Rightarrow> string \<Rightarrow> bool" where
  "passed_submission env ref t msl execution arguments baseline s accepted c eff \<longleftrightarrow>
     (case accepted of (args, base, exec) \<Rightarrow>
        normalize_arguments arguments = Inr args \<and> normalize_baseline_snapshot_id baseline = Inr base
        \<and> normalize_run_execution (je_digest env) execution args base = Inr exec \<and> msl \<noteq> 0 \<and> msl \<le> 500
        \<and> (case t of None \<Rightarrow> True | Some n \<Rightarrow> 1 \<le> n \<and> n \<le> 86400) \<and> find_command ref s = Some c \<and> cm_enabled c
        \<and> cm_command c \<noteq> [] \<and> cm_id c \<noteq> [] \<and> render_command (cm_command c) args = Inr eff
        \<and> check_baseline env (command_from_row env c) base s = (Inr (), s))"

lemma required_of_jobj [simp]:
  "required_string_field (jobj [(k, JStr x)]) k what = (if x = [] then Inl (field_error what k ''a non-empty string'') else Inr x)"
  by (simp add: required_string_field_def stored_field_def)

lemma submit_passed:
  assumes "quiet s" and "submit_command_with_execution env ref t (Some k) msl reuse execution arguments baseline s = (Inr v, s')"
  shows "\<exists>args base exec c eff. passed_submission env ref t msl execution arguments baseline s (args, base, exec) c eff
    \<and> submission_key (Some k) = Inr (Some (trim k))
    \<and> (case first_row (keyed_runs (cm_id c) (trim k) s) of
         Some i \<Rightarrow> s' = s \<and> execution_context_for_run i s = (Inr exec, s) \<and> (\<exists>w. run_result env i s = (Inr w, s) \<and> v = reused ''idempotency_key'' w)
       | None \<Rightarrow> start_new_run env (command_from_row env c) eff (Some (trim k)) t msl exec args base s = (Inr v, s'))"
  using assms(2) unfolding submit_command_with_execution_def
proof -
  obtain args base exec command s1 enabled registered eff s2 key command_id existing s3 where
    n: "normalize_arguments arguments = Inr args" "normalize_baseline_snapshot_id baseline = Inr base"
      "normalize_run_execution (je_digest env) execution args base = Inr exec" "\<not> (msl = 0 \<or> 500 < msl)"
      "\<not> (case t of None \<Rightarrow> False | Some t \<Rightarrow> \<not> (1 \<le> t \<and> t \<le> 86400))"
    and c: "registered_command env ref s = (Inr command, s1)" "required_bool_field command ''enabled'' ''registered command'' = Inr enabled" "enabled"
      "required_string_field command ''command'' ''registered command'' = Inr registered" "render_command registered args = Inr eff"
      "check_baseline env command base s1 = (Inr (), s2)" "submission_key (Some k) = Inr key"
      "required_string_field command ''id'' ''registered command'' = Inr command_id"
    and existing: "idempotent_run_id command_id key s2 = (Inr existing, s3)"
    and rest: "(case existing of
         None \<Rightarrow> bind_st (if reuse \<and> key = None then reusable_run_id_with_execution env command command_id exec s3 else (Inr None, s3))
           (\<lambda>reusable s. case reusable of
              None \<Rightarrow> start_new_run env command eff key t msl exec args base s
            | Some run_id \<Rightarrow> bind_st (run_result env run_id s) (\<lambda>v s. (Inr (reused ''unchanged_checkout'' v), s)))
       | Some run_id \<Rightarrow> bind_st (execution_context_for_run run_id s3) (\<lambda>stored s.
           if stored \<noteq> exec then (Inl (Validation ''idempotency_key conflicts with the existing run execution context''), s)
           else bind_st (run_result env run_id s) (\<lambda>v s. (Inr (reused ''idempotency_key'' v), s)))) = (Inr v, s')"
    using assms(2) unfolding submit_command_with_execution_def
    apply -
    apply ((erule bind_liftE)+, (erule refusedE)+)
    apply (erule bind_stE, erule bind_liftE, erule refusedE, (erule bind_liftE)+)
    apply (erule bind_stE, (erule bind_liftE)+, erule bind_stE)
    apply (rule that)
    apply (assumption | simp)+
    done
  from c(1) obtain cm where cm: "find_command ref s = Some cm" "command = command_from_row env cm" and s1: "s1 = s"
    unfolding registered_command_quiet[OF assms(1)] by (cases "find_command ref s") simp_all
  have s2: "s2 = s" using c(6) check_baseline_quiet[OF assms(1), of env command base] s1 by auto
  have key: "key = Some (trim k)" using c(7) by (auto simp: submission_key_def split: if_splits)
  have ids: "command_id = cm_id cm" "cm_id cm \<noteq> []" "registered = cm_command cm" "cm_command cm \<noteq> []" "cm_enabled cm"
    using c(2-4,8) cm(2) by (simp_all split: if_splits)
  have s3: "s3 = s" and existing: "existing = first_row (keyed_runs (cm_id cm) (trim k) s)"
    using existing s2 key ids(1) by (auto simp: idempotent_quiet[OF assms(1)])
  have passed: "passed_submission env ref t msl execution arguments baseline s (args, base, exec) cm eff"
    using n(1-4) c(5,6) cm ids s1 s2 n(5) unfolding passed_submission_def by (cases t) simp_all
  show ?thesis
  proof (cases existing)
    case None
    with rest key s3 cm(2) have "start_new_run env (command_from_row env cm) eff (Some (trim k)) t msl exec args base s = (Inr v, s')" by simp
    with None existing passed c(7) key show ?thesis by (intro exI[of _ args] exI[of _ base] exI[of _ exec] exI[of _ cm] exI[of _ eff]) simp
  next
    case (Some i)
    with rest s3 have "bind_st (execution_context_for_run i s) (\<lambda>stored s.
           if stored \<noteq> exec then (Inl (Validation ''idempotency_key conflicts with the existing run execution context''), s)
           else bind_st (run_result env i s) (\<lambda>v s. (Inr (reused ''idempotency_key'' v), s))) = (Inr v, s')" by simp
    then obtain w where w: "execution_context_for_run i s = (Inr exec, s)" "run_result env i s = (Inr w, s')" "v = reused ''idempotency_key'' w"
      unfolding execution_for_run_quiet[OF assms(1)] by (auto simp: bind_st_eq_Inr split: if_splits)
    with run_result_id[OF assms(1) w(2)] have "s' = s \<and> execution_context_for_run i s = (Inr exec, s) \<and> (\<exists>w. run_result env i s = (Inr w, s) \<and> v = reused ''idempotency_key'' w)"
      by blast
    with Some existing passed c(7) key show ?thesis
      by (intro exI[of _ args] exI[of _ base] exI[of _ exec] exI[of _ cm] exI[of _ eff]) simp
  qed
qed

lemma passed_elsewhere:
  assumes "passed_submission env ref t msl execution arguments baseline s accepted c eff" and "quiet s" and "quiet s'"
    and "db_commands s' = db_commands s" and "db_composites s' = db_composites s" and "je_snapshot env' = je_snapshot env" and "je_digest env' = je_digest env"
  shows "passed_submission env' ref t msl execution arguments baseline s' accepted c eff"
proof -
  have "find_command ref s' = find_command ref s" unfolding find_command_def assms(4) ..
  then show ?thesis using assms(1) check_baseline_same[OF assms(2,3,5,6)]
    by (cases accepted) (simp add: passed_submission_def assms(7))
qed

text \<open>A submission that has passed and finds a run with its key returns that run, and changes nothing.\<close>

lemma submit_found:
  assumes "quiet s" and passed: "passed_submission env ref t msl execution arguments baseline s (args, base, exec) c eff"
    and "submission_key (Some k) = Inr (Some (trim k))" and "first_row (keyed_runs (cm_id c) (trim k) s) = Some i"
    and "execution_context_for_run i s = (Inr exec, s)" and "run_result env i s = (Inr w, s)"
  shows "submit_command_with_execution env ref t (Some k) msl reuse execution arguments baseline s = (Inr (reused ''idempotency_key'' w), s)"
proof -
  have c: "registered_command env ref s = (Inr (command_from_row env c), s)" using passed
    by (simp add: registered_command_quiet[OF assms(1)] passed_submission_def ok_or_def)
  have t: "\<not> (case t of None \<Rightarrow> False | Some n \<Rightarrow> \<not> (1 \<le> n \<and> n \<le> 86400))" using passed by (cases t) (auto simp: passed_submission_def)
  from passed show ?thesis unfolding submit_command_with_execution_def passed_submission_def
    by (simp add: c t idempotent_quiet[OF assms(1)] assms(3-6))
qed

lemma context_of_accepted:
  assumes "normalize_arguments arguments = Inr args" and "normalize_run_execution digest execution args base = Inr exec"
  shows "execution_of_row (map_option ec_mode exec, map_option ec_identity exec, Option.bind exec ec_label, Some (JArr (map JStr args)), base) = Inr exec"
proof -
  have args: "normalize_arguments (Some (JArr (map JStr args))) = Inr args" using assms(1)
    by (auto simp: arguments_accepted_iff valid_arguments_def)
  show ?thesis
  proof (cases execution)
    case None
    with assms(2) have "base = None" "exec = None \<and> args = [] \<or> exec = Some (generated_run_execution digest ''full'' None None args base)"
      by (auto simp: normalize_run_execution_def split: if_splits)
    then show ?thesis using args by (auto simp: execution_of_row_def generated_run_execution_def)
  next
    case (Some v)
    with assms(2) obtain mode identity label where "exec = Some (generated_run_execution digest mode identity label args base)"
      by (auto simp: normalize_run_execution_def bindr_eq_Inr split: if_splits)
    then show ?thesis using args by (auto simp: execution_of_row_def generated_run_execution_def)
  qed
qed

lemma enqueued_found:
  assumes "enqueued j args base s s'" and "keyed_runs (jb_command_id j) k s = []" and "jb_idempotency_key j = Some k"
  shows "keyed_runs (jb_command_id j) k s' = [jb_id j]"
    and "execution_row (jb_id j) s' = Some (jb_execution_mode j, jb_execution_identity j, jb_execution_label j, Some (JArr (map JStr args)), base)"
proof -
  from assms(1) have fresh: "filter (\<lambda>x. jb_id x = jb_id j) (db_jobs s) = []" "filter (\<lambda>c. cx_run_id c = jb_id j) (db_contexts s) = []"
    by (auto simp: enqueued_def filter_empty_conv image_iff dest: sym)
  from assms(1) obtain x where s': "s' = s\<lparr>db_jobs := db_jobs s @ [j], db_contexts := db_contexts s
      @ [\<lparr>cx_run_id = jb_id j, cx_arguments = JArr (map JStr args), cx_baseline_snapshot_id = base\<rparr>], db_baselines := x\<rparr>"
    by (auto simp: enqueued_def)
  show "keyed_runs (jb_command_id j) k s' = [jb_id j]" using assms(2,3) by (simp add: s' keyed_runs_def)
  show "execution_row (jb_id j) s' = Some (jb_execution_mode j, jb_execution_identity j, jb_execution_label j, Some (JArr (map JStr args)), base)"
    by (simp add: s' execution_row_def context_of_def fresh first_row_def)
qed


text \<open>The key is looked up and inserted in different statements, and no index keeps it unique: two submissions with the same key that
  both look first are both enqueued.\<close>

lemma racing_submissions:
  assumes "keyed_runs (jb_command_id j) k s = []" and "jb_command_id j' = jb_command_id j" and "jb_idempotency_key j = Some k" and "jb_idempotency_key j' = Some k"
    and "enqueued j args base s s1" and "enqueued j' args' base' s1 s2"
  shows "keyed_runs (jb_command_id j) k s2 = [jb_id j, jb_id j'] \<and> jb_id j' \<noteq> jb_id j"
  using assms by (auto simp: enqueued_def keyed_runs_def)

section \<open>Pruning\<close>

definition newest_runs :: "string \<Rightarrow> run_db \<Rightarrow> run_row list" where
  "newest_runs command_id s = sort_key (\<lambda>r. - rn_started_at r) (filter (\<lambda>r. rn_command_id r = command_id) (db_runs s))"

lemma delete_runs_quiet:
  "quiet s \<Longrightarrow> delete_runs ids s = (Inr (), s\<lparr>db_artifacts := filter (\<lambda>a. ra_run_id a \<notin> set ids) (db_artifacts s),
     db_contexts := filter (\<lambda>c. cx_run_id c \<notin> set ids) (db_contexts s), db_runs := filter (\<lambda>r. rn_id r \<notin> set ids) (db_runs s)\<rparr>)"
proof (induction ids arbitrary: s)
  case (Cons i ids)
  let ?s = "s\<lparr>db_artifacts := filter (\<lambda>a. ra_run_id a \<noteq> i) (db_artifacts s), db_contexts := filter (\<lambda>c. cx_run_id c \<noteq> i) (db_contexts s),
    db_runs := filter (\<lambda>r. rn_id r \<noteq> i) (db_runs s)\<rparr>"
  have "quiet ?s" and "delete_runs (i # ids) s = delete_runs ids ?s" using Cons.prems by (simp_all add: quiet_sql)
  with Cons.IH[of ?s] show ?case by (auto intro!: arg_cong2[where f=filter] simp: conj_commute)
qed simp

text \<open>C29. Pruning after a run keeps the newest runs of its command, as many as the configuration retains, and removes the others with their
  contexts and artifacts; no run of another command is touched, and no queued or running job.\<close>

theorem prune_keeps_newest:
  assumes "quiet s" and "distinct (map rn_id (db_runs s))" and "prune_runs env command_id s = (Inr (), s')"
  shows "newest_runs command_id s' = take (je_run_retention env) (newest_runs command_id s)
    \<and> filter (\<lambda>r. rn_command_id r \<noteq> command_id) (db_runs s') = filter (\<lambda>r. rn_command_id r \<noteq> command_id) (db_runs s)
    \<and> db_contexts s' = filter (\<lambda>c. cx_run_id c \<notin> rn_id ` set (drop (je_run_retention env) (newest_runs command_id s))) (db_contexts s)
    \<and> db_artifacts s' = filter (\<lambda>a. ra_run_id a \<notin> rn_id ` set (drop (je_run_retention env) (newest_runs command_id s))) (db_artifacts s)
    \<and> db_jobs s' = db_jobs s \<and> db_commands s' = db_commands s"
proof -
  define N where "N = je_run_retention env"
  define mine where "mine = newest_runs command_id s"
  define gone where "gone = map rn_id (drop N mine)"
  define t where "t = s\<lparr>db_artifacts := filter (\<lambda>a. ra_run_id a \<notin> set gone) (db_artifacts s),
     db_contexts := filter (\<lambda>c. cx_run_id c \<notin> set gone) (db_contexts s), db_runs := filter (\<lambda>r. rn_id r \<notin> set gone) (db_runs s)\<rparr>"
  have sets: "set mine \<subseteq> set (db_runs s)" "\<And>r. r \<in> set mine \<Longrightarrow> rn_command_id r = command_id" by (auto simp: mine_def newest_runs_def)
  have inj: "inj_on rn_id (set (db_runs s))" using assms(2) by (simp add: distinct_map)
  have ids: "query_pruned_run_ids command_id (je_run_retention env) s = (Inr gone, s)"
    by (simp add: query_pruned_run_ids_def quiet_sql[OF assms(1)] gone_def mine_def newest_runs_def N_def)
  have "prune_runs env command_id s = (if gone = [] then (Inr (), s) else (bindr (mapM (remove_run_directory env) gone) (\<lambda>_. Inr ()), t))"
    unfolding prune_runs_def quiet_sql(4)[OF assms(1)] ids bind_st_simps delete_runs_quiet[OF assms(1)] t_def ..
  moreover have "t = s" if "gone = []" using that by (simp add: t_def)
  ultimately have s': "s' = t" using assms(3) by (simp split: if_splits)
  have dist: "distinct mine" using assms(2) by (simp add: mine_def newest_runs_def distinct_map)
  have gone: "rn_id r \<in> set gone \<longleftrightarrow> r \<in> set (drop N mine)" if "r \<in> set (db_runs s)" for r
    unfolding gone_def set_map by (rule inj_on_image_mem_iff[OF inj that subset_trans[OF set_drop_subset sets(1)]])
  have "newest_runs command_id t = filter (\<lambda>r. rn_id r \<notin> set gone) mine"
    by (simp add: newest_runs_def t_def mine_def filter_sort conj_commute)
  also have "\<dots> = filter (\<lambda>r. r \<notin> set (drop N mine)) (take N mine @ drop N mine)" using sets(1) gone by (auto intro!: filter_cong)
  also have "\<dots> = take N mine"
    unfolding filter_append using set_take_disj_set_drop_if_distinct[OF dist, of N N] by (auto simp: filter_empty_conv filter_id_conv)
  finally have "newest_runs command_id s' = take N mine" by (simp add: s')
  moreover have "filter (\<lambda>r. rn_command_id r \<noteq> command_id) (db_runs s') = filter (\<lambda>r. rn_command_id r \<noteq> command_id) (db_runs s)"
    using sets(2) gone by (auto simp: s' t_def intro!: filter_cong dest!: in_set_dropD)
  ultimately show ?thesis by (simp add: s' t_def N_def mine_def gone_def)
qed

section \<open>Recording a run\<close>

text \<open>Recording a finished run inserts its row, then its artifacts, and only then deletes the job.  When a statement in between fails, the run is in
  both tables: recorded with its status, and a job that then counts as failed, and that is the one the readers see.\<close>

lemma finished_run_reported_failed:
  assumes "db_jobs s = [j]" and "jb_id j = i" and "jb_status j = ''running''" and "jb_started_at j = Some t" and "db_runs s = []" and "db_closing s = False"
    and "db_faults s = [None, Some e]"
  shows "\<exists>s1 s2. persist_completed_run env i ended d (Some 0) ''passed'' summary [] s = (Inl e, s1) \<and> s2 = finalize_failed_job_or_log env i e s1
    \<and> map rn_status (db_runs s2) = [''passed''] \<and> map jb_status (db_jobs s2) = [''failed''] \<and> find_job i s2 \<noteq> None"
proof -
  define s1 where "s1 = s\<lparr>db_faults := [], db_runs := [finished_row ended d (Some 0) ''passed'' summary [] j t]\<rparr>"
  have "persist_completed_run env i ended d (Some 0) ''passed'' summary [] s = (Inl e, s1)"
    using assms by (simp add: persist_completed_run_def insert_completed_run_def insert_row_sql_def sql_def delete_job_def execute_def s1_def)
  then show ?thesis using assms
    by (auto simp: s1_def finalize_failed_job_or_log_def finalize_failed_job_def execute_def sql_def update_job_def finished_row_def find_job_def
        first_row_def is_active_def)
qed

section \<open>Approval\<close>

definition approved :: "reg_command \<Rightarrow> bool" where
  "approved c \<longleftrightarrow> cm_name c \<noteq> [] \<and> cm_command c \<noteq> [] \<and> cm_approved_by c \<noteq> [] \<and> cm_approval_note c \<noteq> []"

lemma insert_row_cases: "insert_row_sql conflict clash u s = (r, s') \<Longrightarrow> \<exists>fs. s' = s\<lparr>db_faults := fs\<rparr> \<or> s' = (u (s\<lparr>db_faults := fs\<rparr>)) \<or> s' = u s"
  by (auto simp: insert_row_sql_def sql_def bind_st_def split: list.splits option.splits prod.splits sum.splits if_splits intro: exI[of _ "db_faults s"])

lemma registered_command_frame:
  assumes "registered_command env i s = (r, s')"
  shows "\<exists>fs. s' = s\<lparr>db_faults := fs\<rparr>"
  using assms
  by (auto simp: registered_command_def with_connection_def select_def sql_def bind_st_def ok_or_def split: list.splits option.splits prod.splits sum.splits if_splits
      intro: exI[of _ "db_faults s"])

text \<open>Registering a command leaves jobs and runs alone, and adds no command but one that a human has approved, by name and with a note.\<close>

lemma register_effect:
  assumes "register_command env canonicalize is_dir ensure_project name command cwd shell artifact_paths human_approved approved_by approval_note enabled s = (r, s')"
  shows "db_jobs s' = db_jobs s \<and> db_runs s' = db_runs s
    \<and> (db_commands s' = db_commands s \<or> (human_approved \<and> (\<exists>c. approved c \<and> db_commands s' = db_commands s @ [c])))"
proof -
  have "s' = s \<or> (human_approved \<and> (\<exists>c. approved c \<and> bind_st (with_connection (insert_row_sql (je_conflict env) (\<lambda>s. je_uuid env \<in> cm_id ` set (db_commands s))
      (\<lambda>s. s\<lparr>db_commands := db_commands s @ [c]\<rparr>)) s) (\<lambda>_ s. registered_command env (je_uuid env) s) = (r, s')))"
    using assms unfolding register_command_def Let_def
    by (simp split: if_split_asm sum.split_asm) (auto simp: approved_def simp del: bind_st_simps(1,2) intro!: exI)
  then show ?thesis
  proof (elim disjE conjE exE)
    fix c assume c: "human_approved" "approved c" and run: "bind_st (with_connection (insert_row_sql (je_conflict env) (\<lambda>s. je_uuid env \<in> cm_id ` set (db_commands s))
      (\<lambda>s. s\<lparr>db_commands := db_commands s @ [c]\<rparr>)) s) (\<lambda>_ s. registered_command env (je_uuid env) s) = (r, s')"
    obtain r1 s1 where s1: "with_connection (insert_row_sql (je_conflict env) (\<lambda>s. je_uuid env \<in> cm_id ` set (db_commands s))
      (\<lambda>s. s\<lparr>db_commands := db_commands s @ [c]\<rparr>)) s = (r1, s1)" by fastforce
    have "db_jobs s1 = db_jobs s \<and> db_runs s1 = db_runs s \<and> (db_commands s1 = db_commands s \<or> db_commands s1 = db_commands s @ [c])"
      using s1 insert_row_cases by (fastforce simp: with_connection_def split: if_splits)
    moreover have "\<exists>fs. s' = s1\<lparr>db_faults := fs\<rparr> \<or> s' = s1" using run s1 registered_command_frame
      by (cases r1) auto
    ultimately show ?thesis using c by auto
  qed simp
qed

section \<open>Examples\<close>

definition sample_job :: run_job where
  "sample_job = \<lparr>jb_id = ''r1'', jb_command_id = ''c1'', jb_command_name = ''unit'', jb_command = ''make test'', jb_idempotency_key = None, jb_cwd = ''/r'',
     jb_repo_path = ''/r'', jb_repo_key = ''/r'', jb_branch = None, jb_commit_sha = None, jb_queued_at = 5, jb_started_at = None, jb_ended_at = None,
     jb_timeout_seconds = None, jb_max_summary_lines = 80, jb_status = ''queued'', jb_stdout_path = ''o'', jb_stderr_path = ''e'', jb_error = [],
     jb_cancellation_requested_at = None, jb_execution_mode = None, jb_execution_identity = None, jb_execution_label = None\<rparr>"

definition sample_db :: run_db where
  "sample_db = \<lparr>db_commands = [\<lparr>cm_id = ''c1'', cm_created_at = 1, cm_name = ''unit'', cm_command = ''make test'', cm_cwd = ''/r'', cm_repo_path = ''/r'',
       cm_repo_key = ''/r'', cm_branch = None, cm_commit_sha = None, cm_shell = ''sh'', cm_approved_by = ''ann'', cm_approval_note = ''ok'',
       cm_artifact_specs = [], cm_enabled = True, cm_duration_estimate_ms = None, cm_duration_p90_ms = None, cm_duration_sample_count = 0\<rparr>],
     db_jobs = [sample_job\<lparr>jb_queued_at := 9\<rparr>, sample_job\<lparr>jb_id := ''r2'', jb_queued_at := 8\<rparr>],
     db_runs = [finished_row 4 1 (Some 0) ''passed'' JNull [] (sample_job\<lparr>jb_id := ''r3''\<rparr>) 3, finished_row 9 1 (Some 0) ''passed'' JNull [] (sample_job\<lparr>jb_id := ''r4''\<rparr>) 8],
     db_contexts = [], db_baselines = [], db_artifacts = [], db_composites = [], db_composite_regions = [], db_closing = False, db_faults = []\<rparr>"

lemma sample_db_quiet: "quiet sample_db"
  by (simp add: sample_db_def quiet_def)

theorem queue_positions_exact_witness:
  "map jb_id (queued_jobs sample_db) = [''r2'', ''r1''] \<and> queued_position ''r1'' sample_db = (Inr 2, sample_db)"
proof -
  have ids: "distinct (map jb_id (db_jobs sample_db))" by (simp add: sample_db_def sample_job_def)
  have q: "map jb_id (queued_jobs sample_db) = [''r2'', ''r1'']" by (simp add: queued_jobs_def sample_db_def sample_job_def)
  then have "length (queued_jobs sample_db) = 2" "jb_id (queued_jobs sample_db ! 1) = ''r1''" by (auto simp: map_eq_Cons_conv)
  then have "queued_position ''r1'' sample_db = map (\<lambda>n. (Inr (int n), sample_db)) [1..<Suc 2] ! 1"
    using arg_cong[OF queue_positions_exact[OF sample_db_quiet ids], of "\<lambda>xs. xs ! 1"] by simp
  with q show ?thesis by simp
qed

theorem prune_keeps_newest_witness:
  "\<exists>env s'. prune_runs env ''c1'' sample_db = (Inr (), s') \<and> map rn_id (newest_runs ''c1'' sample_db) = [''r4'', ''r3''] \<and> map rn_id (newest_runs ''c1'' s') = [''r4'']"
proof -
  fix env0 :: job_env
  define env where "env = env0\<lparr>je_run_retention := 1, je_remove_dir := (\<lambda>_. Inr ())\<rparr>"
  have dist: "distinct (map rn_id (db_runs sample_db))" by (simp add: sample_db_def finished_row_def)
  have newest: "map rn_id (newest_runs ''c1'' sample_db) = [''r4'', ''r3'']" by (simp add: newest_runs_def sample_db_def finished_row_def sample_job_def)
  have "\<exists>s'. prune_runs env ''c1'' sample_db = (Inr (), s')"
    by (simp add: prune_runs_def query_pruned_run_ids_def quiet_sql[OF sample_db_quiet] delete_runs_quiet[OF sample_db_quiet] env_def remove_run_directory_def)
      (simp add: sample_db_def finished_row_def sample_job_def remove_run_directory_def)
  then obtain s' where s': "prune_runs env ''c1'' sample_db = (Inr (), s')" ..
  have "newest_runs ''c1'' s' = take 1 (newest_runs ''c1'' sample_db)"
    using prune_keeps_newest[OF sample_db_quiet dist s'] by (simp add: env_def)
  then have "map rn_id (newest_runs ''c1'' s') = take 1 (map rn_id (newest_runs ''c1'' sample_db))" by (simp add: take_map)
  with newest have "map rn_id (newest_runs ''c1'' s') = [''r4'']" by simp
  with s' newest show ?thesis by (intro exI[of _ env] exI[of _ s'] conjI)
qed

text \<open>A clock whose times can be read back: in unary, after a sign.\<close>

definition unary :: "int \<Rightarrow> string" where
  "unary n = (if n < 0 then CHR 0x2D # replicate (nat (- n)) CHR 0x31 else replicate (nat n) CHR 0x31)"

definition read_unary :: "string \<Rightarrow> int" where
  "read_unary t = (case t of c # cs \<Rightarrow> if c = CHR 0x2D then - int (length cs) else int (length t) | [] \<Rightarrow> 0)"

lemma read_unary: "read_unary (unary n) = n"
  by (cases "nat n") (auto simp: unary_def read_unary_def)


end
