(* ===== verification/Job_Steps.thy ===== *)
theory Job_Steps
  imports Jobs
begin

text \<open>
  Managed runs under many threads (\<open>src/src/storage.rs\<close>): the operations of \<open>Jobs\<close>, cut where another thread can come in between, as
  a step relation.  A worker (\<open>execute_run_with_slot\<close>) reads its job, claims it, and later records the run or its failure; a
  cancellation (\<open>cancel_run\<close>) looks at the run and then changes it; submissions, pruning and restarts happen at any time, and the
  environment may close the store or make any coming statement fail.
\<close>

section \<open>Steps\<close>

datatype job_thread = Resting | SeenQueued string | Running string | CancelSeen string string

record job_system =
  sy_db :: run_db
  sy_threads :: "nat \<Rightarrow> job_thread"
  sy_used :: "string set"
  sy_claims :: "string \<Rightarrow> nat"

definition moves :: "nat \<Rightarrow> job_thread \<Rightarrow> run_db \<Rightarrow> job_system \<Rightarrow> job_system" where
  "moves t a db s = s\<lparr>sy_db := db, sy_threads := (sy_threads s)(t := a)\<rparr>"

text \<open>\<open>sy_used\<close> are the identifiers given out, which are fresh, and \<open>sy_claims\<close> counts the claims of a run.  A run is
  \<open>abandoned\<close> when its worker cannot be started, cannot read the job, or finds the store closing.\<close>

inductive job_step :: "job_system \<Rightarrow> job_system \<Rightarrow> bool" where
  registered: "register_command env canonicalize is_dir ensure_project name command cwd shell artifact_paths human_approved approved_by approval_note enabled (sy_db s)
      = (r, db) \<Longrightarrow> job_step s (s\<lparr>sy_db := db\<rparr>)"
| submitted: "c \<in> set (db_commands (sy_db s)) \<Longrightarrow> cm_enabled c \<Longrightarrow> normalize_arguments arguments = Inr args \<Longrightarrow> render_command (cm_command c) args = Inr eff
    \<Longrightarrow> j = new_job env (command_from_row env c) eff key git timeout max_summary_lines logs execution \<Longrightarrow> jb_id j \<notin> sy_used s
    \<Longrightarrow> enqueue env j args baseline baselines (sy_db s) = (r, db)
    \<Longrightarrow> job_step s (s\<lparr>sy_db := db, sy_used := insert (jb_id j) (sy_used s)\<rparr>)"
| looked: "sy_threads s t = Resting \<Longrightarrow> job env i (sy_db s) = (Inr (Some v), db)
    \<Longrightarrow> required_string_field v ''status'' ''queued run'' = Inr ''queued'' \<Longrightarrow> job_step s (moves t (SeenQueued i) db s)"
| claimed: "sy_threads s t = SeenQueued i \<Longrightarrow> with_connection (claim_run i started) (sy_db s) = (Inr True, db)
    \<Longrightarrow> job_step s ((moves t (Running i) db s)\<lparr>sy_claims := (sy_claims s)(i := Suc (sy_claims s i))\<rparr>)"
| missed: "sy_threads s t = SeenQueued i \<Longrightarrow> with_connection (claim_run i started) (sy_db s) = (Inr False, db)
    \<Longrightarrow> job_step s (moves t Resting db s)"
| claim_failed: "sy_threads s t = SeenQueued i \<Longrightarrow> with_connection (claim_run i started) (sy_db s) = (Inl e, db)
    \<Longrightarrow> job_step s (moves t Resting (finalize_failed_job_or_log env i e db) s)"
| recorded: "sy_threads s t = Running i
    \<Longrightarrow> with_connection (persist_completed_run env i ended duration_ms exit_code status summary artifacts) (sy_db s) = (Inr u, db)
    \<Longrightarrow> job_step s (moves t Resting db s)"
| record_failed: "sy_threads s t = Running i
    \<Longrightarrow> with_connection (persist_completed_run env i ended duration_ms exit_code status summary artifacts) (sy_db s) = (Inl e, db)
    \<Longrightarrow> job_step s (moves t Resting (finalize_failed_job_or_log env i e db) s)"
| run_failed: "sy_threads s t = Running i \<Longrightarrow> job_step s (moves t Resting (finalize_failed_job_or_log env i e (sy_db s)) s)"
| abandoned: "job_step s (s\<lparr>sy_db := finalize_failed_job_or_log env i e (sy_db s)\<rparr>)"
| cleared: "clear_artifact_baselines i (sy_db s) = (r, db) \<Longrightarrow> job_step s (s\<lparr>sy_db := db\<rparr>)"
| cancel_looked: "sy_threads s t = Resting \<Longrightarrow> cancel_check env i (sy_db s) = (Inr status, db)
    \<Longrightarrow> job_step s (moves t (CancelSeen i status) db s)"
| cancelled: "sy_threads s t = CancelSeen i status \<Longrightarrow> cancel_update env i status (sy_db s) = (r, db)
    \<Longrightarrow> job_step s (moves t Resting db s)"
| pruned: "prune_runs env command_id (sy_db s) = (r, db) \<Longrightarrow> job_step s (s\<lparr>sy_db := db\<rparr>)"
| restarted: "reconcile_persisted_run_jobs env (sy_db s) = (r, db) \<Longrightarrow> job_step s (s\<lparr>sy_db := db, sy_threads := (\<lambda>_. Resting)\<rparr>)"
| environment: "job_step s (s\<lparr>sy_db := (sy_db s)\<lparr>db_closing := c, db_faults := fs\<rparr>\<rparr>)"

definition job_start :: job_system where
  "job_start = \<lparr>sy_db = \<lparr>db_commands = [], db_jobs = [], db_runs = [], db_contexts = [], db_baselines = [], db_artifacts = [], db_composites = [],
     db_composite_regions = [], db_closing = False, db_faults = []\<rparr>, sy_threads = (\<lambda>_. Resting), sy_used = {}, sy_claims = (\<lambda>_. 0)\<rparr>"

inductive job_reach :: "job_system \<Rightarrow> job_system \<Rightarrow> bool" for s0 where
  here: "job_reach s0 s0"
| there: "job_reach s0 s \<Longrightarrow> job_step s s' \<Longrightarrow> job_reach s0 s'"

section \<open>What the operations do to the queue\<close>

definition queued_ids :: "run_db \<Rightarrow> string set" where
  "queued_ids db = {jb_id j | j. j \<in> set (db_jobs db) \<and> jb_status j = ''queued''}"

definition job_ids :: "run_db \<Rightarrow> string list" where
  "job_ids db = map jb_id (db_jobs db)"

text \<open>An operation that puts nothing into the queue, and adds no job.\<close>

definition unqueues :: "run_db \<Rightarrow> run_db \<Rightarrow> bool" where
  "unqueues db db' \<longleftrightarrow> queued_ids db' \<subseteq> queued_ids db \<and> set (job_ids db') \<subseteq> set (job_ids db)
     \<and> (distinct (job_ids db) \<longrightarrow> distinct (job_ids db'))"

lemma unqueues_same: "db_jobs db' = db_jobs db \<Longrightarrow> unqueues db db'"
  by (simp add: unqueues_def queued_ids_def job_ids_def)

text \<open>An operation whose jobs and runs all are made of what was there, for the same command.\<close>

definition job_origins :: "run_db \<Rightarrow> (string \<times> string) set" where
  "job_origins db = (\<lambda>j. (jb_command_id j, jb_command j)) ` set (db_jobs db)"

definition run_origins :: "run_db \<Rightarrow> (string \<times> string) set" where
  "run_origins db = (\<lambda>r. (rn_command_id r, rn_command r)) ` set (db_runs db)"

definition derived :: "run_db \<Rightarrow> run_db \<Rightarrow> bool" where
  "derived db db' \<longleftrightarrow> db_commands db' = db_commands db \<and> job_origins db' \<subseteq> job_origins db \<and> run_origins db' \<subseteq> run_origins db \<union> job_origins db"

text \<open>What a relation between tables needs for it to hold across every operation on runs but a submission: jobs are changed in place and never
  put back into the queue, or deleted; runs are made of jobs, or deleted.\<close>

definition changed_in_place :: "(run_job \<Rightarrow> run_job) \<Rightarrow> bool" where
  "changed_in_place u \<longleftrightarrow> (\<forall>j. jb_id (u j) = jb_id j \<and> jb_command_id (u j) = jb_command_id j \<and> jb_command (u j) = jb_command j
     \<and> (jb_status (u j) = ''queued'' \<longrightarrow> jb_status j = ''queued''))"

locale job_effect =
  fixes R :: "run_db \<Rightarrow> run_db \<Rightarrow> bool"
  assumes R_trans: "R a b \<Longrightarrow> R b c \<Longrightarrow> R a c"
    and R_same: "db_jobs s' = db_jobs s \<Longrightarrow> db_runs s' = db_runs s \<Longrightarrow> db_commands s' = db_commands s \<Longrightarrow> R s s'"
    and R_map: "changed_in_place u \<Longrightarrow> R s (s\<lparr>db_jobs := map u (db_jobs s)\<rparr>)"
    and R_delete: "R s (s\<lparr>db_jobs := filter P (db_jobs s)\<rparr>)"
    and R_finish: "R s (s\<lparr>db_runs := db_runs s @ map (\<lambda>j. finished_row ended d x st summary as j (started j)) (filter P (db_jobs s))\<rparr>)"
    and R_prune: "R s (s\<lparr>db_runs := filter Q (db_runs s)\<rparr>)"
begin

lemma R_refl: "R s s"
  by (rule R_same) simp_all

lemma R_update_job: "changed_in_place u \<Longrightarrow> R s (update_job i P u s)"
  unfolding update_job_def by (rule R_map) (simp add: changed_in_place_def)

lemma R_sql: "(\<And>s. R s (snd (f s))) \<Longrightarrow> R db (snd (sql f db))"
proof -
  assume f: "\<And>s. R s (snd (f s))"
  have same: "R db (db\<lparr>db_faults := fs\<rparr>)" for fs by (rule R_same) simp_all
  then show ?thesis using f[of db] R_trans[OF same f] by (auto simp: sql_def split: list.splits option.splits)
qed

lemma R_bind: "R db (snd m) \<Longrightarrow> (\<And>x s. R s (snd (f x s))) \<Longrightarrow> R db (snd (bind_st m f))"
  by (auto simp: bind_st_def split: prod.splits sum.splits intro: R_trans)

lemma R_select: "R db (snd (select q db))"
  unfolding select_def by (rule R_sql) (simp add: R_refl)

lemma R_execute: "(\<And>s. R s (u s)) \<Longrightarrow> R db (snd (execute u db))"
  unfolding execute_def by (rule R_sql) simp

lemma R_insert: "(\<And>s. R s (u s)) \<Longrightarrow> R db (snd (insert_row_sql conflict clash u db))"
  unfolding insert_row_sql_def by (rule R_bind, rule R_sql) (simp_all add: R_refl)

lemma R_with: "(\<And>s. R s (snd (operation s))) \<Longrightarrow> R db (snd (with_connection operation db))"
  by (simp add: with_connection_def R_refl)

lemma R_lift: "R db (snd (lift_st r db))"
  by (simp add: lift_st_def R_refl)

lemma R_bind_lift: "(\<And>x. R s (snd (f x s))) \<Longrightarrow> R s (snd (bind_st (lift_st r s) f))"
  by (simp add: R_refl split: sum.splits)

lemmas R_intros = R_bind_lift R_bind R_with R_select R_lift R_refl

lemma R_job: "R db (snd (job env i db))"
  unfolding job_def attach_execution_def execution_context_for_run_def baseline_is_composite_snapshot_def Let_def
  by (intro R_intros; auto intro!: R_intros split: option.splits)+

lemma R_finalize: "R db (finalize_failed_job_or_log env i e db)"
  unfolding finalize_failed_job_or_log_def finalize_failed_job_def by (intro R_execute R_update_job) (simp add: changed_in_place_def)

lemma R_claim: "R db (snd (with_connection (claim_run i started) db))"
  unfolding claim_run_def by (intro R_with R_sql) (simp add: R_update_job changed_in_place_def)

lemma R_cancel: "R db (snd (cancel_update env i status db))"
  unfolding cancel_update_def by (intro R_with R_execute R_update_job) (simp add: changed_in_place_def)

lemma R_cancel_check: "R db (snd (cancel_check env i db))"
  unfolding cancel_check_def by (auto intro!: R_bind R_with R_select R_job R_refl simp: split: option.splits sum.splits)

lemma R_insert_artifacts: "R db (snd (insert_artifacts i as db))"
proof (induction "as" arbitrary: db)
  case (Cons a "as")
  show ?case unfolding insert_artifacts.simps by (intro R_bind_lift R_bind R_execute Cons.IH R_same) simp_all
qed (simp add: R_refl)

lemma R_persist: "R db (snd (with_connection (persist_completed_run env i ended d x st summary as) db))"
  unfolding persist_completed_run_def insert_completed_run_def delete_job_def
  by (intro R_with R_bind R_insert R_insert_artifacts R_execute R_finish R_delete)

lemma R_delete_runs: "R db (snd (delete_runs ids db))"
proof (induction ids arbitrary: db)
  case (Cons i ids)
  show ?case unfolding delete_runs.simps by (intro R_bind R_execute Cons.IH R_prune R_same) simp_all
qed (simp add: R_refl)

lemma R_prune_runs: "R db (snd (prune_runs env c db))"
  unfolding prune_runs_def query_pruned_run_ids_def by (auto intro!: R_bind R_with R_select R_delete_runs R_refl)

lemma R_reconcile: "R db (snd (reconcile_persisted_run_jobs env db))"
  unfolding reconcile_persisted_run_jobs_def by (intro R_with R_execute R_map) (simp add: changed_in_place_def is_active_def)

lemma R_clear: "R db (snd (clear_artifact_baselines i db))"
  unfolding clear_artifact_baselines_def by (intro R_with R_execute R_same) simp_all

lemma R_baselines: "R db (snd (insert_baselines env bs db))"
proof (induction bs arbitrary: db)
  case (Cons b bs)
  show ?case unfolding insert_baselines.simps by (intro R_bind R_insert Cons.IH R_same) simp_all
qed (simp add: R_refl)

end

interpretation queue: job_effect unqueues
proof
  fix u :: "run_job \<Rightarrow> run_job" and s :: run_db
  assume "changed_in_place u"
  then have "job_ids (s\<lparr>db_jobs := map u (db_jobs s)\<rparr>) = job_ids s" "queued_ids (s\<lparr>db_jobs := map u (db_jobs s)\<rparr>) \<subseteq> queued_ids s"
    by (auto simp: changed_in_place_def queued_ids_def job_ids_def)
  then show "unqueues s (s\<lparr>db_jobs := map u (db_jobs s)\<rparr>)" by (simp add: unqueues_def)
next
  fix s :: run_db and P
  show "unqueues s (s\<lparr>db_jobs := filter P (db_jobs s)\<rparr>)"
    by (auto simp: unqueues_def queued_ids_def job_ids_def distinct_map intro: inj_on_subset)
next
  fix a b c
  assume "unqueues a b" "unqueues b c"
  then show "unqueues a c" unfolding unqueues_def by blast
qed (auto intro: unqueues_same)

interpretation origin: job_effect derived
proof
  fix u :: "run_job \<Rightarrow> run_job" and s :: run_db
  assume "changed_in_place u"
  then show "derived s (s\<lparr>db_jobs := map u (db_jobs s)\<rparr>)" by (auto simp: derived_def changed_in_place_def job_origins_def run_origins_def)
next
  fix ended d x st summary "as" started P and s :: run_db
  show "derived s (s\<lparr>db_runs := db_runs s @ map (\<lambda>j. finished_row ended d x st summary as j (started j)) (filter P (db_jobs s))\<rparr>)"
    by (auto simp: derived_def finished_row_def job_origins_def run_origins_def)
next
  fix a b c
  assume "derived a b" "derived b c"
  then show "derived a c" unfolding derived_def by (simp, blast)
qed (auto simp: derived_def job_origins_def run_origins_def)

text \<open>Submitting puts one fresh job into the queue, or none, and then does nothing to jobs.\<close>

lemma enqueue_parts:
  "\<exists>s1. (db_jobs s1 = db_jobs db \<or> db_jobs s1 = db_jobs db @ [j]) \<and> db_runs s1 = db_runs db \<and> db_commands s1 = db_commands db
     \<and> unqueues s1 (snd (enqueue env j arguments baseline baselines db)) \<and> derived s1 (snd (enqueue env j arguments baseline baselines db))"
proof -
  define first where "first = insert_row_sql (je_conflict env) (\<lambda>s. jb_id j \<in> jb_id ` set (db_jobs s)) (\<lambda>s. s\<lparr>db_jobs := db_jobs s @ [j]\<rparr>)"
  define rest where "rest = (\<lambda>(_::unit) s. bind_st (insert_row_sql (je_conflict env) (\<lambda>s. jb_id j \<in> cx_run_id ` set (db_contexts s))
       (\<lambda>s. s\<lparr>db_contexts := db_contexts s @ [\<lparr>cx_run_id = jb_id j, cx_arguments = JArr (map JStr arguments), cx_baseline_snapshot_id = baseline\<rparr>]\<rparr>) s)
       (\<lambda>_ s. insert_baselines env baselines s))"
  obtain r s1 where s1: "first db = (r, s1)" by fastforce
  then have "(db_jobs s1 = db_jobs db \<or> db_jobs s1 = db_jobs db @ [j]) \<and> db_runs s1 = db_runs db \<and> db_commands s1 = db_commands db"
    unfolding first_def by (auto dest!: insert_row_cases)
  moreover have "unqueues s (snd (rest u s))" "derived s (snd (rest u s))" for u s unfolding rest_def
    by (intro queue.R_bind queue.R_insert queue.R_baselines queue.R_same; simp) (intro origin.R_bind origin.R_insert origin.R_baselines origin.R_same; simp)
  then have "unqueues s1 (snd (bind_st (first db) rest))" "derived s1 (snd (bind_st (first db) rest))"
    by (cases r; simp add: s1 queue.R_refl origin.R_refl)+
  moreover have "enqueue env j arguments baseline baselines db = (if db_closing db then (Inl (Runtime ''DuckDB store is closing''), db) else bind_st (first db) rest)"
    by (simp add: enqueue_def with_connection_def first_def rest_def)
  ultimately show ?thesis
    by (cases "db_closing db") (auto simp: queue.R_refl origin.R_refl intro: exI[of _ db] exI[of _ s1])
qed

lemma enqueue_ids:
  "queued_ids (snd (enqueue env j arguments baseline baselines db)) \<subseteq> insert (jb_id j) (queued_ids db)
   \<and> set (job_ids (snd (enqueue env j arguments baseline baselines db))) \<subseteq> insert (jb_id j) (set (job_ids db))
   \<and> (distinct (job_ids db) \<longrightarrow> jb_id j \<notin> set (job_ids db) \<longrightarrow> distinct (job_ids (snd (enqueue env j arguments baseline baselines db))))"
proof -
  obtain s1 where jobs: "db_jobs s1 = db_jobs db \<or> db_jobs s1 = db_jobs db @ [j]" and u: "unqueues s1 (snd (enqueue env j arguments baseline baselines db))"
    using enqueue_parts by blast
  have "queued_ids s1 \<subseteq> insert (jb_id j) (queued_ids db)" "set (job_ids s1) \<subseteq> insert (jb_id j) (set (job_ids db))"
    "distinct (job_ids db) \<longrightarrow> jb_id j \<notin> set (job_ids db) \<longrightarrow> distinct (job_ids s1)"
    using jobs by (auto simp: queued_ids_def job_ids_def)
  with u show ?thesis unfolding unqueues_def by blast
qed

section \<open>Claims\<close>

lemma claim_of_queued:
  assumes "with_connection (claim_run i started) db = (Inr True, db')"
  shows "i \<in> queued_ids db \<and> i \<notin> queued_ids db'"
proof -
  from assms obtain fs where one: "length (filter (\<lambda>j. jb_id j = i \<and> jb_status j = ''queued'') (db_jobs db)) = 1"
    and db': "db_jobs db' = db_jobs (update_job i (\<lambda>j. jb_status j = ''queued'') (\<lambda>j. j\<lparr>jb_status := ''running'', jb_started_at := Some started, jb_error := []\<rparr>) db)"
    by (auto simp: with_connection_def claim_run_def sql_def update_job_def split: if_splits list.splits option.splits)
  from one have "filter (\<lambda>j. jb_id j = i \<and> jb_status j = ''queued'') (db_jobs db) \<noteq> []" by auto
  then have "i \<in> queued_ids db" by (auto simp: queued_ids_def filter_empty_conv)
  moreover have "i \<notin> queued_ids db'"
  proof
    assume "i \<in> queued_ids db'"
    then obtain j where "j \<in> set (db_jobs db')" "jb_id j = i" "jb_status j = ''queued''" by (auto simp: queued_ids_def)
    then have "j \<in> (\<lambda>k. if jb_id k = i \<and> jb_status k = ''queued'' then k\<lparr>jb_status := ''running'', jb_started_at := Some started, jb_error := []\<rparr> else k) ` set (db_jobs db)"
      by (simp add: db' update_job_def)
    then obtain k where "j = (if jb_id k = i \<and> jb_status k = ''queued'' then k\<lparr>jb_status := ''running'', jb_started_at := Some started, jb_error := []\<rparr> else k)"
      by (rule imageE)
    with \<open>jb_id j = i\<close> \<open>jb_status j = ''queued''\<close> show False by (simp split: if_splits)
  qed
  ultimately show ?thesis ..
qed

text \<open>How a step changes the queue: it adds a fresh run, or starts one that leaves it, or takes something out of it.\<close>

lemma job_step_queue:
  assumes "job_step s s'"
  obtains (added) i where "i \<notin> sy_used s" "sy_used s' = insert i (sy_used s)" "queued_ids (sy_db s') \<subseteq> insert i (queued_ids (sy_db s))"
      "set (job_ids (sy_db s')) \<subseteq> insert i (set (job_ids (sy_db s)))"
      "distinct (job_ids (sy_db s)) \<Longrightarrow> i \<notin> set (job_ids (sy_db s)) \<Longrightarrow> distinct (job_ids (sy_db s'))"
      "sy_claims s' = sy_claims s" "sy_threads s' = sy_threads s"
  | (started) t i where "sy_used s' = sy_used s" "unqueues (sy_db s) (sy_db s')" "i \<in> queued_ids (sy_db s)" "i \<notin> queued_ids (sy_db s')"
      "sy_claims s' = (sy_claims s)(i := Suc (sy_claims s i))" "sy_threads s t = SeenQueued i" "sy_threads s' = (sy_threads s)(t := Running i)"
  | (other) "sy_used s' = sy_used s" "unqueues (sy_db s) (sy_db s')" "sy_claims s' = sy_claims s"
      "\<And>t i. sy_threads s' t = Running i \<Longrightarrow> sy_threads s t = Running i"
  using assms
proof cases
  case (registered env canonicalize is_dir ensure_project name command cwd shell artifact_paths human_approved approved_by approval_note enabled r db)
  then show ?thesis using register_effect[OF registered(2)] by (intro other) (auto intro!: unqueues_same)
next
  case (submitted c arguments args eff j env key git timeout msl logs execution baseline baselines r db)
  show ?thesis using enqueue_ids[of env j args baseline baselines "sy_db s"] submitted by (intro added[of "jb_id j"]) simp_all
next
  case (looked t env i v db)
  then show ?thesis using queue.R_job[of "sy_db s" env i] by (intro other) (auto simp: moves_def split: if_splits)
next
  case (claimed t i started' db)
  have "unqueues (sy_db s) db" using queue.R_claim[of "sy_db s" i started'] claimed(3) by simp
  with claimed claim_of_queued[OF claimed(3)] show ?thesis by (intro started[of i t]) (simp_all add: moves_def)
next
  case (missed t i started db)
  then show ?thesis using queue.R_claim[of "sy_db s" i started] by (intro other) (auto simp: moves_def split: if_splits)
next
  case (claim_failed t i started e db env)
  then have "unqueues (sy_db s) db" using queue.R_claim[of "sy_db s" i started] by simp
  with claim_failed queue.R_trans[OF this queue.R_finalize] show ?thesis by (intro other) (auto simp: moves_def split: if_splits)
next
  case (recorded t i env ended d x st summary as u db)
  then have "unqueues (sy_db s) db" using queue.R_persist[of "sy_db s" env i ended d x st summary "as"] by simp
  with recorded show ?thesis by (intro other) (auto simp: moves_def split: if_splits)
next
  case (record_failed t i env ended d x st summary as e db)
  then have "unqueues (sy_db s) db" using queue.R_persist[of "sy_db s" env i ended d x st summary "as"] by simp
  with record_failed queue.R_trans[OF this queue.R_finalize] show ?thesis by (intro other) (auto simp: moves_def split: if_splits)
next
  case (run_failed t i env e)
  then show ?thesis using queue.R_finalize by (intro other) (auto simp: moves_def split: if_splits)
next
  case (abandoned env i e)
  then show ?thesis using queue.R_finalize by (intro other) auto
next
  case (cleared i r db)
  then show ?thesis using queue.R_clear[of "sy_db s" i] by (intro other) auto
next
  case (cancel_looked t env i status db)
  then show ?thesis using queue.R_cancel_check[of "sy_db s" env i] by (intro other) (auto simp: moves_def split: if_splits)
next
  case (cancelled t i status env r db)
  then show ?thesis using queue.R_cancel[of "sy_db s" env i status] by (intro other) (auto simp: moves_def split: if_splits)
next
  case (pruned env c r db)
  then show ?thesis using queue.R_prune_runs[of "sy_db s" env c] by (intro other) auto
next
  case (restarted env r db)
  then show ?thesis using queue.R_reconcile[of "sy_db s" env] by (intro other) auto
next
  case (environment fs c)
  then show ?thesis by (intro other) (auto intro: unqueues_same)
qed

definition jobs_inv :: "job_system \<Rightarrow> bool" where
  "jobs_inv s \<longleftrightarrow> distinct (job_ids (sy_db s)) \<and> set (job_ids (sy_db s)) \<subseteq> sy_used s
     \<and> (\<forall>i. sy_claims s i \<le> 1) \<and> (\<forall>i \<in> queued_ids (sy_db s). sy_claims s i = 0) \<and> (\<forall>i. i \<notin> sy_used s \<longrightarrow> sy_claims s i = 0)
     \<and> (\<forall>t i. sy_threads s t = Running i \<longrightarrow> sy_claims s i = 1)
     \<and> (\<forall>t t' i. sy_threads s t = Running i \<longrightarrow> sy_threads s t' = Running i \<longrightarrow> t = t')"

lemma jobs_invD:
  assumes "jobs_inv s"
  shows "distinct (job_ids (sy_db s))" and "set (job_ids (sy_db s)) \<subseteq> sy_used s" and "\<forall>x \<in> queued_ids (sy_db s). sy_claims s x = 0"
    and "sy_threads s t = Running i \<Longrightarrow> sy_threads s t' = Running i \<Longrightarrow> t = t'"
  using assms unfolding jobs_inv_def by simp_all

lemma jobs_inv_start: "jobs_inv job_start"
  by (simp add: jobs_inv_def job_start_def job_ids_def queued_ids_def)

lemma jobs_inv_step: "job_step s s' \<Longrightarrow> jobs_inv s \<Longrightarrow> jobs_inv s'"
proof (erule job_step_queue)
  fix i assume inv: "jobs_inv s" and i: "i \<notin> sy_used s" "sy_used s' = insert i (sy_used s)" "queued_ids (sy_db s') \<subseteq> insert i (queued_ids (sy_db s))"
    "set (job_ids (sy_db s')) \<subseteq> insert i (set (job_ids (sy_db s)))"
    "distinct (job_ids (sy_db s)) \<Longrightarrow> i \<notin> set (job_ids (sy_db s)) \<Longrightarrow> distinct (job_ids (sy_db s'))"
    "sy_claims s' = sy_claims s" "sy_threads s' = sy_threads s"
  have none: "sy_claims s i = 0" "i \<notin> set (job_ids (sy_db s))" using inv i(1) unfolding jobs_inv_def by blast+
  have "distinct (job_ids (sy_db s'))" using inv i(5) none(2) by (simp add: jobs_inv_def)
  moreover have "set (job_ids (sy_db s')) \<subseteq> sy_used s'" using inv i(2,4) unfolding jobs_inv_def by blast
  moreover have "\<forall>x \<in> queued_ids (sy_db s'). sy_claims s' x = 0" using inv i(3,6) none(1) unfolding jobs_inv_def by auto
  ultimately show "jobs_inv s'" using inv i(2,6,7) by (simp add: jobs_inv_def)
next
  fix t i assume inv: "jobs_inv s" and i: "sy_used s' = sy_used s" "unqueues (sy_db s) (sy_db s')" "i \<in> queued_ids (sy_db s)" "i \<notin> queued_ids (sy_db s')"
    "sy_claims s' = (sy_claims s)(i := Suc (sy_claims s i))" "sy_threads s t = SeenQueued i" "sy_threads s' = (sy_threads s)(t := Running i)"
  have none: "sy_claims s i = 0" using inv i(3) by (auto simp: jobs_inv_def)
  have "i \<in> set (job_ids (sy_db s))" using i(3) by (auto simp: queued_ids_def job_ids_def)
  moreover have "sy_threads s u \<noteq> Running i" for u using inv none by (auto simp: jobs_inv_def)
  ultimately show "jobs_inv s'" using inv i none unfolding jobs_inv_def unqueues_def
    by (auto split: if_splits)
next
  assume inv: "jobs_inv s" and o: "sy_used s' = sy_used s" "unqueues (sy_db s) (sy_db s')" "sy_claims s' = sy_claims s"
    "\<And>t i. sy_threads s' t = Running i \<Longrightarrow> sy_threads s t = Running i"
  have "distinct (job_ids (sy_db s'))" and "set (job_ids (sy_db s')) \<subseteq> sy_used s'" and "\<forall>x \<in> queued_ids (sy_db s'). sy_claims s' x = 0"
    using jobs_invD(1-3)[OF inv] o(1-3) unfolding unqueues_def by auto
  moreover have "t = t'" if "sy_threads s' t = Running i" "sy_threads s' t' = Running i" for t t' i
    by (rule jobs_invD(4)[OF inv o(4)[OF that(1)] o(4)[OF that(2)]])
  moreover have "sy_claims s' i = 1" if "sy_threads s' t = Running i" for t i
    using inv o(3) o(4)[OF that] by (simp add: jobs_inv_def)
  ultimately show "jobs_inv s'" using inv o(1,3) unfolding jobs_inv_def by simp
qed

lemma jobs_inv_reach: "job_reach s s' \<Longrightarrow> jobs_inv s \<Longrightarrow> jobs_inv s'"
  by (induction rule: job_reach.induct) (auto intro: jobs_inv_step)

text \<open>C13. A run is started at most once, however many workers, cancellations, prunings, restarts and failures come together: of all
  the workers that saw it queued one at most ever claims it, and no two ever run it at the same time.\<close>

theorem run_starts_once:
  assumes "job_reach job_start s"
  shows "sy_claims s i \<le> 1 \<and> (sy_threads s t = Running i \<and> sy_threads s t' = Running i \<longrightarrow> t = t')"
  using jobs_inv_reach[OF assms jobs_inv_start] unfolding jobs_inv_def by blast

text \<open>C27. What has left the queue never starts: once a run that was given out is not queued any more, be it cancelled, failed, interrupted by a
  restart or running, it is never claimed again, whatever happens later.\<close>

theorem left_queue_never_starts:
  assumes "job_reach s s'" and "i \<in> sy_used s" and "i \<notin> queued_ids (sy_db s)"
  shows "sy_claims s' i = sy_claims s i \<and> i \<notin> queued_ids (sy_db s') \<and> i \<in> sy_used s'"
  using assms(1)
proof (induction rule: job_reach.induct)
  case here
  with assms show ?case by simp
next
  case (there s1 s2)
  from there(2) show ?case
  proof (cases rule: job_step_queue)
    case (added k)
    with there(3) show ?thesis by auto
  next
    case (started t k)
    with there(3) have "k \<noteq> i" by auto
    with started there(3) show ?thesis by (auto simp: unqueues_def)
  next
    case other
    with there(3) show ?thesis by (auto simp: unqueues_def)
  qed
qed

text \<open>A run that was submitted, seen and claimed.\<close>

lemma started_example:
  "\<exists>s. job_reach job_start s \<and> sy_claims s ''r1'' = 1 \<and> sy_threads s 0 = Running ''r1'' \<and> ''r1'' \<in> sy_used s \<and> ''r1'' \<notin> queued_ids (sy_db s)
     \<and> (\<exists>j. db_jobs (sy_db s) = [j] \<and> jb_command j = ''make test'')"
proof -
  fix env0 :: job_env and git :: git_info
  define env where "env = env0\<lparr>je_uuid := ''r1''\<rparr>"
  define db0 where "db0 = sy_db job_start"
  define cm where "cm = \<lparr>cm_id = ''r1'', cm_created_at = je_now env, cm_name = ''unit'', cm_command = ''make test'', cm_cwd = ''/r'', cm_repo_path = gi_repo_path git,
    cm_repo_key = gi_repo_key git, cm_branch = gi_branch git, cm_commit_sha = gi_commit_sha git, cm_shell = ''sh'', cm_approved_by = ''ann'',
    cm_approval_note = ''ok'', cm_artifact_specs = [], cm_enabled = True, cm_duration_estimate_ms = None, cm_duration_p90_ms = None, cm_duration_sample_count = 0\<rparr>"
  define db1 where "db1 = db0\<lparr>db_commands := [cm]\<rparr>"
  define j where "j = new_job env (command_from_row env cm) ''make test'' None git None 80 (''o'', ''e'') None"
  define db where "db = db1\<lparr>db_jobs := [j], db_contexts := [\<lparr>cx_run_id = ''r1'', cx_arguments = JArr [], cx_baseline_snapshot_id = None\<rparr>]\<rparr>"
  define r where "r = job_start\<lparr>sy_db := db1\<rparr>"
  define a where "a = r\<lparr>sy_db := db, sy_used := insert (jb_id j) (sy_used r)\<rparr>"
  define b where "b = moves 0 (SeenQueued ''r1'') db a"
  define db' where "db' = update_job ''r1'' (\<lambda>j. jb_status j = ''queued'') (\<lambda>j. j\<lparr>jb_status := ''running'', jb_started_at := Some 7, jb_error := []\<rparr>) db"
  define c where "c = (moves 0 (Running ''r1'') db' b)\<lparr>sy_claims := (sy_claims b)(''r1'' := Suc (sy_claims b ''r1''))\<rparr>"
  have q0: "quiet db0" by (simp add: db0_def job_start_def quiet_def)
  have q1: "quiet db1" and q: "quiet db" using q0 by (simp_all add: db1_def db_def)
  have qj: "quiet (db1\<lparr>db_jobs := x\<rparr>)" for x using q1 by simp
  have empty: "db_commands db0 = []" "db_jobs db0 = []" "db_contexts db0 = []" "db_runs db0 = []" by (simp_all add: db0_def job_start_def)
  have j: "jb_id j = ''r1''" "jb_status j = ''queued''" "jb_execution_mode j = None" "jb_execution_identity j = None" "jb_command j = ''make test''"
    by (simp_all add: j_def new_job_def Let_def env_def)
  have trimmed: "trim ''unit'' = ''unit''" "trim ''make test'' = ''make test''" "trim ''ann'' = ''ann''" "trim ''ok'' = ''ok''"
    "render_command ''make test'' [] = Inr ''make test''" by code_simp+
  have u: "je_uuid env = ''r1''" by (simp add: env_def)
  have "find_command ''r1'' db1 = Some cm" by (simp add: find_command_def db1_def cm_def first_row_def)
  then have rc: "registered_command env ''r1'' db1 = (Inr (command_from_row env cm), db1)" by (simp add: registered_command_quiet[OF q1])
  have "register_command env (\<lambda>_. Inr ''/r'') (\<lambda>_. True) (\<lambda>_. Inr git) ''unit'' ''make test'' None ''sh'' None True ''ann'' ''ok'' True db0
      = (Inr (command_from_row env cm), db1)"
    by (simp add: register_command_def trimmed normalize_artifact_specs_def quiet_sql[OF q0] empty u cm_def[symmetric] db1_def[symmetric] rc)
  then have "job_step job_start r" unfolding r_def db0_def by (rule registered)
  moreover have "enqueue env j [] None [] db1 = (Inr (), db)"
    by (simp add: enqueue_def quiet_sql[OF q1] quiet_sql[OF qj] db_def j) (simp add: db1_def empty j)
  then have "job_step r a" unfolding a_def
    by (intro submitted[where env = env and c = cm and arguments = None and args = "[]" and eff = "''make test''" and key = None and git = git and timeout = None
          and max_summary_lines = 80 and logs = "(''o'', ''e'')" and execution = None and baseline = None and baselines = "[]" and r = "Inr ()"])
      (simp_all add: r_def db1_def cm_def normalize_arguments_def trimmed j_def job_start_def)
  moreover have f: "find_job ''r1'' db = Some j" by (simp add: find_job_def first_row_def db_def j)
  have "execution_json ''r1'' db = Inr None"
    by (simp add: execution_json_def execution_row_def db_def db1_def empty j first_row_def context_of_def execution_of_row_def normalize_arguments_def)
  then have "job env ''r1'' db = (Inr (Some (job_from_row env j)), db)"
    using f by (simp add: job_quiet[OF q] with_execution_def)
  then have "job_step a b" unfolding b_def
    by (intro looked[where env = env and v = "job_from_row env j"]) (simp_all add: a_def r_def job_start_def required_string_Inr j)
  moreover have "job_step b c" unfolding c_def
    by (intro claimed[where started = 7]) (simp_all add: b_def moves_def quiet_sql[OF q] claim_run_def db'_def, simp add: db_def j)
  ultimately have "job_reach job_start c" by (meson here there)
  moreover have jobs: "db_jobs (sy_db c) = [j\<lparr>jb_status := ''running'', jb_started_at := Some 7, jb_error := []\<rparr>]"
    by (simp add: c_def moves_def db'_def db_def j update_job_def)
  have "sy_claims c ''r1'' = 1" by (simp add: c_def b_def a_def r_def moves_def job_start_def)
  moreover have "sy_threads c 0 = Running ''r1''" by (simp add: c_def moves_def)
  moreover have "''r1'' \<in> sy_used c" by (simp add: c_def b_def a_def moves_def j(1))
  moreover have "''r1'' \<notin> queued_ids (sy_db c)" by (simp add: queued_ids_def jobs)
  moreover have "\<exists>j. db_jobs (sy_db c) = [j] \<and> jb_command j = ''make test''" by (intro exI conjI, rule jobs) (simp add: j(5))
  ultimately show ?thesis by blast
qed

theorem run_starts_once_witness:
  "\<exists>s. job_reach job_start s \<and> sy_claims s ''r1'' = 1 \<and> (\<exists>!t. sy_threads s t = Running ''r1'')"
proof -
  obtain s where s: "job_reach job_start s" "sy_claims s ''r1'' = 1" "sy_threads s 0 = Running ''r1''" using started_example by blast
  have "\<exists>!t. sy_threads s t = Running ''r1''"
    by (rule ex1I[of _ 0]) (use s(3) run_starts_once[OF s(1)] in blast)+
  with s show ?thesis by blast
qed

theorem left_queue_never_starts_witness:
  "\<exists>s s'. job_reach job_start s \<and> job_reach s s' \<and> sy_claims s' ''r1'' = 1 \<and> sy_threads s' 0 = Resting"
proof -
  obtain s where s: "job_reach job_start s" "sy_claims s ''r1'' = 1" "sy_threads s 0 = Running ''r1''" "''r1'' \<in> sy_used s" "''r1'' \<notin> queued_ids (sy_db s)"
    using started_example by blast
  fix env :: job_env
  define s' where "s' = moves 0 Resting (finalize_failed_job_or_log env ''r1'' (Runtime ''x'') (sy_db s)) s"
  have "job_step s s'" unfolding s'_def by (rule run_failed[OF s(3)])
  then have "job_reach s s'" by (meson here there)
  moreover have "sy_threads s' 0 = Resting" by (simp add: s'_def moves_def)
  ultimately show ?thesis using left_queue_never_starts[OF \<open>job_reach s s'\<close> s(4,5)] s(1,2) by (intro exI[of _ s] exI[of _ s']) simp
qed

section \<open>Approval\<close>

definition approved_inv :: "run_db \<Rightarrow> bool" where
  "approved_inv db \<longleftrightarrow> (\<forall>c \<in> set (db_commands db). approved c)
     \<and> (\<forall>p \<in> job_origins db \<union> run_origins db. \<exists>c \<in> set (db_commands db). \<exists>args. cm_id c = fst p \<and> valid_arguments args \<and> render_command (cm_command c) args = Inr (snd p))"

lemma approved_invI:
  assumes "\<And>c. c \<in> set (db_commands db) \<Longrightarrow> approved c"
    and "\<And>p. p \<in> job_origins db \<union> run_origins db \<Longrightarrow>
      \<exists>c \<in> set (db_commands db). \<exists>args. cm_id c = fst p \<and> valid_arguments args \<and> render_command (cm_command c) args = Inr (snd p)"
  shows "approved_inv db"
  using assms by (auto simp: approved_inv_def)

lemma approved_invD:
  assumes "approved_inv db"
  shows "c \<in> set (db_commands db) \<Longrightarrow> approved c"
    and "p \<in> job_origins db \<union> run_origins db \<Longrightarrow>
      \<exists>c \<in> set (db_commands db). \<exists>args. cm_id c = fst p \<and> valid_arguments args \<and> render_command (cm_command c) args = Inr (snd p)"
  using assms unfolding approved_inv_def by blast+

lemma approved_inv_mono:
  assumes "approved_inv db" and "set (db_commands db) \<subseteq> set (db_commands db')" and "job_origins db' \<union> run_origins db' \<subseteq> job_origins db \<union> run_origins db"
    and "\<And>c. c \<in> set (db_commands db') \<Longrightarrow> c \<notin> set (db_commands db) \<Longrightarrow> approved c"
  shows "approved_inv db'"
proof (rule approved_invI)
  fix p assume "p \<in> job_origins db' \<union> run_origins db'"
  with assms(3) have "p \<in> job_origins db \<union> run_origins db" by blast
  from approved_invD(2)[OF assms(1) this] assms(2)
  show "\<exists>c \<in> set (db_commands db'). \<exists>args. cm_id c = fst p \<and> valid_arguments args \<and> render_command (cm_command c) args = Inr (snd p)" by blast
qed (use approved_invD(1)[OF assms(1)] assms(4) in blast)

lemma approved_inv_derived: "derived db db' \<Longrightarrow> approved_inv db \<Longrightarrow> approved_inv db'"
  by (erule approved_inv_mono) (auto simp: derived_def)

lemma approved_inv_enqueue:
  assumes "approved_inv db" and "c \<in> set (db_commands db)" and "jb_command_id j = cm_id c" and "valid_arguments args" and "render_command (cm_command c) args = Inr (jb_command j)"
  shows "approved_inv (snd (enqueue env j arguments baseline baselines db))"
proof -
  obtain s1 where s1: "db_jobs s1 = db_jobs db \<or> db_jobs s1 = db_jobs db @ [j]" "db_runs s1 = db_runs db" "db_commands s1 = db_commands db"
    "derived s1 (snd (enqueue env j arguments baseline baselines db))" using enqueue_parts by blast
  have o: "job_origins s1 \<union> run_origins s1 \<subseteq> insert (cm_id c, jb_command j) (job_origins db \<union> run_origins db)"
    using s1(1,2) assms(3) by (auto simp: job_origins_def run_origins_def)
  have "approved_inv s1"
  proof (rule approved_invI)
    fix p assume "p \<in> job_origins s1 \<union> run_origins s1"
    with o have "p = (cm_id c, jb_command j) \<or> p \<in> job_origins db \<union> run_origins db" by blast
    then show "\<exists>c \<in> set (db_commands s1). \<exists>args. cm_id c = fst p \<and> valid_arguments args \<and> render_command (cm_command c) args = Inr (snd p)"
      using assms(2,4,5) approved_invD(2)[OF assms(1), of p] unfolding s1(3) by fastforce
  qed (use approved_invD(1)[OF assms(1)] s1(3) in simp)
  then show ?thesis by (rule approved_inv_derived[OF s1(4)])
qed

lemma approved_inv_step: "job_step s s' \<Longrightarrow> approved_inv (sy_db s) \<Longrightarrow> approved_inv (sy_db s')"
proof (induction rule: job_step.induct)
  case (registered env canonicalize is_dir ensure_project name command cwd shell artifact_paths human_approved approved_by approval_note enabled s r db)
  from register_effect[OF registered(1)] have "set (db_commands (sy_db s)) \<subseteq> set (db_commands db)" "job_origins db \<union> run_origins db = job_origins (sy_db s) \<union> run_origins (sy_db s)"
    "\<And>c. c \<in> set (db_commands db) \<Longrightarrow> c \<notin> set (db_commands (sy_db s)) \<Longrightarrow> approved c" by (auto simp: job_origins_def run_origins_def)
  then show ?case by (simp add: approved_inv_mono[OF registered(2)])
next
  case (submitted c s arguments args eff j env key git timeout msl logs execution baseline baselines r db)
  have "valid_arguments args" using submitted(3) by (auto simp: arguments_accepted_iff valid_arguments_def)
  with approved_inv_enqueue[OF submitted(8,1), of j args env args baseline baselines] submitted(4,5,7) show ?case
    by (simp add: new_job_def Let_def json_text_def)
next
  case (looked s t env i v db)
  then show ?case using origin.R_job[of "sy_db s" env i] by (auto simp: moves_def intro: approved_inv_derived)
next
  case (claimed s t i started db)
  then show ?case using origin.R_claim[of "sy_db s" i started] by (auto simp: moves_def intro: approved_inv_derived)
next
  case (missed s t i started db)
  then show ?case using origin.R_claim[of "sy_db s" i started] by (auto simp: moves_def intro: approved_inv_derived)
next
  case (claim_failed s t i started e db env)
  then have "approved_inv db" using origin.R_claim[of "sy_db s" i started] by (auto intro: approved_inv_derived)
  from approved_inv_derived[OF origin.R_finalize this] show ?case by (simp add: moves_def)
next
  case (recorded s t i env ended d x st summary as u db)
  then show ?case using origin.R_persist[of "sy_db s" env i ended d x st summary "as"] by (auto simp: moves_def intro: approved_inv_derived)
next
  case (record_failed s t i env ended d x st summary as e db)
  then have "approved_inv db" using origin.R_persist[of "sy_db s" env i ended d x st summary "as"] by (auto intro: approved_inv_derived)
  from approved_inv_derived[OF origin.R_finalize this] show ?case by (simp add: moves_def)
next
  case (run_failed s t i env e)
  from approved_inv_derived[OF origin.R_finalize run_failed(2)] show ?case by (simp add: moves_def)
next
  case (abandoned s env i e)
  from approved_inv_derived[OF origin.R_finalize abandoned] show ?case by simp
next
  case (cleared i s r db)
  then show ?case using origin.R_clear[of "sy_db s" i] by (auto intro: approved_inv_derived)
next
  case (cancel_looked s t env i status db)
  then show ?case using origin.R_cancel_check[of "sy_db s" env i] by (auto simp: moves_def intro: approved_inv_derived)
next
  case (cancelled s t i status env r db)
  then show ?case using origin.R_cancel[of "sy_db s" env i status] by (auto simp: moves_def intro: approved_inv_derived)
next
  case (pruned env c s r db)
  then show ?case using origin.R_prune_runs[of "sy_db s" env c] by (auto intro: approved_inv_derived)
next
  case (restarted env s r db)
  then show ?case using origin.R_reconcile[of "sy_db s" env] by (auto intro: approved_inv_derived)
next
  case (environment s fs c)
  have "derived (sy_db s) ((sy_db s)\<lparr>db_closing := c, db_faults := fs\<rparr>)" by (rule origin.R_same) simp_all
  from approved_inv_derived[OF this environment] show ?case by simp
qed



section \<open>A cancellation that comes too late\<close>

text \<open>\<open>cancel_run\<close> looks at the status and then changes the job whatever its status is by then.  When a worker claims the run in between, the
  run is said to be cancelled before execution, while it executes; and when its process ends before the worker looks, it is recorded as
  passed.\<close>

lemma cancelled_run_passes:
  assumes quiet: "quiet (sy_db s)" and jobs: "db_jobs (sy_db s) = [j]" "jb_status j = ''queued''" "jb_execution_mode j = None" "jb_execution_identity j = None"
    and none: "db_runs (sy_db s) = []" "db_contexts (sy_db s) = []" and threads: "sy_threads s 0 = Resting" "sy_threads s 1 = Resting"
  shows "\<exists>s1 s2. job_reach s s1 \<and> sy_threads s1 0 = Running (jb_id j)
    \<and> map (\<lambda>j. (jb_status j, jb_error j)) (db_jobs (sy_db s1)) = [(''cancelled'', ''Run cancelled before execution.'')]
    \<and> job_step s1 s2 \<and> db_jobs (sy_db s2) = [] \<and> map rn_status (db_runs (sy_db s2)) = [''passed'']"
proof -
  fix env :: job_env and started :: int
  define db where "db = sy_db s"
  define i where "i = jb_id j"
  define running where "running = j\<lparr>jb_status := ''running'', jb_started_at := Some started, jb_error := []\<rparr>"
  define gone where "gone = running\<lparr>jb_status := ''cancelled'', jb_ended_at := Some (je_now env), jb_cancellation_requested_at := Some (je_now env),
             jb_error := ''Run cancelled before execution.''\<rparr>"
  define row where "row = finished_row 0 0 (Some 0) ''passed'' JNull [] gone started"
  have q: "quiet db" using quiet by (simp add: db_def)
  have found: "find_job i db = Some j" using jobs by (simp add: find_job_def db_def i_def first_row_def)
  have "execution_json i db = Inr None" using jobs none
    by (simp add: execution_json_def execution_row_def db_def i_def first_row_def context_of_def execution_of_row_def)
  then have read: "job env i db = (Inr (Some (job_from_row env j)), db)" by (simp add: job_quiet[OF q] found with_execution_def)
  have dbj: "db_jobs db = [j]" "db_runs db = []" using jobs none by (simp_all add: db_def)
  then have check: "cancel_check env i db = (Inr ''queued'', db)"
    by (simp add: cancel_check_def quiet_sql[OF q] read first_row_def is_active_def jobs(2))
  have qj: "quiet (db\<lparr>db_jobs := x\<rparr>)" and qr: "quiet (db\<lparr>db_jobs := x, db_runs := y\<rparr>)" for x y using q by simp_all
  define a where "a = moves 0 (SeenQueued i) db s"
  define b where "b = moves 1 (CancelSeen i ''queued'') db a"
  define c where "c = (moves 0 (Running i) (db\<lparr>db_jobs := [running]\<rparr>) b)\<lparr>sy_claims := (sy_claims b)(i := Suc (sy_claims b i))\<rparr>"
  define d where "d = moves 1 Resting (db\<lparr>db_jobs := [gone]\<rparr>) c"
  define e where "e = moves 0 Resting (db\<lparr>db_jobs := [], db_runs := [row]\<rparr>) d"
  have "job_step s a" unfolding a_def
    by (rule looked[where env = env and v = "job_from_row env j"]) (use threads read jobs in \<open>simp_all add: db_def required_string_Inr\<close>)
  moreover have "job_step a b" unfolding b_def
    by (rule cancel_looked[where env = env])
      (use threads check in \<open>simp_all add: a_def moves_def\<close>)
  moreover have "job_step b c" unfolding c_def
    by (rule claimed[where started = started])
      (use dbj jobs(2) in \<open>simp_all add: b_def a_def moves_def quiet_sql[OF q] claim_run_def update_job_def running_def i_def\<close>)
  moreover have "job_step c d" unfolding d_def
    by (rule cancelled[where env = env and i = i and status = "''queued''" and r = "Inr ()"])
      (use q in \<open>simp_all add: c_def b_def moves_def cancel_update_def quiet_sql[OF qj] update_job_def gone_def running_def i_def\<close>)
  ultimately have reach: "job_reach s d" by (meson here there)
  have "with_connection (persist_completed_run env i 0 0 (Some 0) ''passed'' JNull []) (db\<lparr>db_jobs := [gone]\<rparr>) = (Inr (), db\<lparr>db_jobs := [], db_runs := [row]\<rparr>)"
    using q dbj by (simp add: quiet_sql[OF qj] quiet_sql[OF qr] persist_completed_run_def
        insert_completed_run_def delete_job_def row_def gone_def running_def i_def)
  then have "job_step d e" unfolding e_def
    by (intro recorded[where env = env and i = i and ended = 0 and duration_ms = 0 and exit_code = "Some 0" and status = "''passed''" and summary = JNull and artifacts = "[]" and u = "()"])
      (simp_all add: d_def c_def moves_def)
  moreover have "sy_threads d 0 = Running i" "map (\<lambda>j. (jb_status j, jb_error j)) (db_jobs (sy_db d)) = [(''cancelled'', ''Run cancelled before execution.'')]"
    "db_jobs (sy_db e) = []" "map rn_status (db_runs (sy_db e)) = [''passed'']"
    by (simp_all add: d_def c_def e_def moves_def gone_def row_def finished_row_def)
  ultimately show ?thesis using reach unfolding i_def by (intro exI[of _ d] exI[of _ e] conjI)
qed

end
