(* ===== verification/Spec2Isabelle.thy ===== *)
theory Spec2Isabelle
  imports Assemble Lcov_Spec Runs Union_Snapshot Paging Mcp Commands Serving Store_Life Job_Steps
begin

text \<open>
  A verification development of \<open>coverage-mcp\<close>, a server that reads coverage reports, keeps them as
  snapshots and answers questions about them.

  \<^bold>\<open>The program.\<close>  A report file (LCOV, Go, coverage.py, Istanbul, LLVM, Cobertura, JaCoCo) is read by
  \<open>src/src/parser.rs\<close> into the builder of \<open>src/src/models.rs\<close>, which merges records of the same line and
  makes a report with file totals.  \<open>src/src/query.rs\<close> loads such a report (or a stored one, or a composite
  snapshot) as a measurement, checks it against the receipt its producer left beside it, turns it into
  observations and answers two tools: the gaps of one measurement and the comparison of two, within
  12288 bytes per answer.  \<open>src/src/query_incremental.rs\<close> adds up batches of reports against a fixed
  baseline.  \<open>src/src/composite.rs\<close> combines the evidence of several components against an inventory of
  required regions; its build is stored and read back by the query layer.  \<open>src/src/storage.rs\<close> keeps
  snapshots and runs and computes on what it reads back: the union of a baseline and the snapshots of a run,
  changed lines and regions, the command line and the identity of a run, searches in its logs.
  \<open>src/src/service.rs\<close> cuts answers into pages, \<open>src/src/git.rs\<close> reads what git prints,
  \<open>src/src/config.rs\<close> the environment, \<open>src/src/lock.rs\<close> takes the leases that make one daemon the only
  writer, \<open>src/src/mcp.rs\<close> answers the requests of a client, \<open>src/src/http.rs\<close> is the daemon that
  serves them over HTTP with one open store per repository, and \<open>src/src/main.rs\<close> is the connector that
  finds or starts the daemon and forwards to it.

  \<^bold>\<open>The theories\<close>, in import order.

  \<^item> \<open>Prelude\<close>: the error monad on sums (\<open>bindr\<close>, \<open>foldM\<close>, \<open>mapM\<close>) and list lemmas.  \<open>BTree\<close>: the locale
    \<open>ordered_map\<close> with the laws the code uses of \<open>BTreeMap\<close>, interpreted on strictly sorted association
    lists; its facts \<open>bt.get_fold_update\<close> and \<open>bt.inv_fold_update\<close> carry the merges of every component.
    \<open>Rust_Std\<close>: the string, integer and floating-point operations of the standard library that the code
    uses; a string is the list of its UTF-8 bytes, an \<open>i64\<close> is an \<open>int\<close> with the wrap-around of a release
    build written out (\<open>i64_add\<close>), a double is a sign, mantissa and exponent with round-half-even.
    \<open>Json\<close>: \<open>serde_json::Value\<close> with sorted objects.  \<open>Paths\<close>: \<open>std::path\<close>.
  \<^item> \<open>Errors\<close> (\<open>error.rs\<close>): \<open>AppError\<close>, its text, source and HTTP status.
  \<^item> \<open>Models\<close> (\<open>models.rs\<close>): lines, files, reports; the builder with one definition per method.  The
    invariant \<open>builder_inv\<close> holds for every builder reachable by its operations (\<open>builder_reach\<close>), so every
    report built is well formed (\<open>report_wf\<close>); repeated records keep their maximum; totals count lines.
  \<^item> \<open>Parser_Num\<close>, \<open>Parser_Text\<close>, \<open>Parser_Json\<close>, \<open>Parser_Xml\<close>, \<open>Parser\<close> (\<open>parser.rs\<close>): the number readers, the
    seven formats, detection and dispatch.  Loops over decoded values are folds that stop at the first
    error.  Every accepted report is well formed; the XML stack machine rebuilds the element tree;
    counts up to \<open>2 ^ 53\<close> are exact and larger ones need not be.
  \<^item> \<open>Lcov_Spec\<close>: a printer of LCOV tracefiles and the round trip through the reader.
  \<^item> \<open>Query\<close>, \<open>Measurement\<close>, \<open>Search\<close> (\<open>query.rs\<close>): observations and their keys (locale
    \<open>keyed_observations\<close>, interpreted for the observation map and for the incremental inventory), grouping
    and paging, the response bound as a terminating loop, loading and verification, the two tools, the
    terminal rendering.
  \<^item> \<open>Incremental\<close> (\<open>query_incremental.rs\<close>): the union of accepted batches.
  \<^item> \<open>Composite\<close>, \<open>Assemble\<close> (\<open>composite.rs\<close>): descriptors, inventories, region artifacts, derived regions;
    the assembly of a composite in the three passes of the code (evidence, sources, rows).
  \<^item> \<open>Lib\<close> (\<open>lib.rs\<close>): hexadecimal prefixes of digests.
  \<^item> \<open>Lease\<close> (\<open>lock.rs\<close>): the locale \<open>advisory_locks\<close> states what the code relies on of \<open>flock\<close>, its extension
    \<open>reliable_locks\<close> that locking fails only for a held lock, and the interpretation \<open>flock\<close> gives both for a
    lock table; \<open>lease_reach\<close> is the reachability relation of leases acquired, dropped and inspected by any
    number of processes, and the exclusion of leases is its invariant.
  \<^item> \<open>Regions\<close> (\<open>storage.rs\<close>): line ranges and their coalescing, the changed lines of two snapshots and the
    regions made of them.
  \<^item> \<open>Runs\<close> (\<open>storage.rs\<close>): arguments, execution contexts, run identities, the rendered command line with a
    reader of shell words (\<open>sh_words\<close>) as its specification, log searches.
  \<^item> \<open>Artifacts\<close> (\<open>storage.rs\<close>): the specifications of a command's artifacts and what registration accepts, their
    fingerprints, and which artifacts of a run are ingested.
  \<^item> \<open>Tables\<close>, \<open>Jobs\<close>, \<open>Job_Steps\<close> (\<open>storage.rs\<close>): the tables of commands, jobs, finished runs and composite snapshots, a
    record \<open>run_db\<close> of lists of rows; every statement is an operation on it that fails when \<open>db_faults\<close> says so,
    and each method is the statements it executes.  \<open>Jobs\<close> shows what queue positions, idempotency keys and pruning do;
    \<open>Job_Steps\<close> cuts the operations where threads interleave.  The locale \<open>job_effect\<close> says what a relation between tables
    needs to hold across every operation but a submission, and its two interpretations give that a run starts once and
    that only approved commands run.
  \<^item> \<open>Union\<close>, \<open>Union_Snapshot\<close> (\<open>storage.rs\<close>): the union of one file's lines and units against sets of lines
    and identities; the union over all files with its gain, and the claims left to a selected subset.
  \<^item> \<open>Paging\<close> (\<open>service.rs\<close>): word and byte budgets, cursors, pages; following the cursors visits every value.
  \<^item> \<open>Git\<close> (\<open>git.rs\<close>): repository keys and the ranges of a diff, with a printer of diffs for the round trip.
  \<^item> \<open>Config\<close> (\<open>config.rs\<close>, and \<open>validate_settings_patch\<close> of \<open>storage.rs\<close>): the bounds of the configuration.
  \<^item> \<open>Mcp\<close> (\<open>mcp.rs\<close>): the tools, their schemas and the JSON-RPC dispatch.
  \<^item> \<open>Wire\<close>, \<open>Daemon\<close>, \<open>Commands\<close> (\<open>main.rs\<close>): the bytes a connector and the daemon exchange; finding, stopping,
    starting and calling the daemon over the lease of \<open>Lease\<close>, as functions of a history of steps in an
    environment that may answer anything; the commands.  The locale \<open>connector_steps\<close> says what a property
    of single steps needs to hold for every step of a recovery, and is interpreted for the justification of
    signals and handoff requests, from which follows that a request is delivered at most once.
  \<^item> \<open>Http\<close>, \<open>Server\<close>, \<open>Serving\<close> (\<open>http.rs\<close>): requests with bounded bodies and hardened responses; the daemon as a
    state (\<open>server\<close>) passed through its handlers, beside the world of the databases; the listening loop over a
    list of events.  The locale \<open>request_effect\<close> says what a relation between states needs to hold across every
    request but a handoff; it is interpreted for the identity of the daemon and for its stores.  \<open>Serving\<close> proves
    who can stop the daemon, that its token is not revealed, that a repository has one store and all are closed at
    the end, that it serves only under its lease, and that connector and daemon agree.
  \<^item> \<open>Pool\<close> (\<open>pool.rs\<close>), \<open>Store_Life\<close> (\<open>storage.rs\<close>): threads as step relations: an operation and the watchdog of
    its deadline; the way of operations to a connection and the closing of the store; the slots of runs with their
    condition variable.  Invariants by rule induction show what a deadline can interrupt, what closing sees, and that no
    waiting run is forgotten; \<open>operation_outlives_lease\<close> is an interleaving that closing does not see.
  \<^item> This theory: properties that span components, from the text of a tracefile to the listed gaps, and
    from an assembled composite to the measurement its readers see.

  \<^bold>\<open>Arguments of the model.\<close>  What the program takes from outside is an argument: the JSON and XML readers
  (their decoded value or event list) and the JSON printer, path canonicalization and file contents,
  SHA-256, base 64, symbol demangling, full Unicode lower-casing, the store's reading operations, the
  decoder of request arguments, the git process, the environment variables, the operating system's answers
  to opening, locking and writing a lease, for a connector the network, the clock and other processes, and for
  the daemon the databases, as a world with the operations of \<open>server_env\<close>.
  No property assumes more of them than its statement says.

  \<^bold>\<open>Conventions.\<close>  A string is its UTF-8 bytes; white space is that of Unicode, on the byte sequences.  A
  \<open>HashMap\<close> is the list of its entries in an arbitrary order, and what is proved holds for every order.  A
  lock file is identified by its path.

  \<^bold>\<open>Loops.\<close>  No fuel is used.  The loops that are not recursions over their input are the response bound
  (\<open>bounded\<close>), whose measure is the number of groups left, and the two waits for a daemon (\<open>handoff_loop\<close>,
  \<open>start_loop\<close>), partial functions that return when the clock runs (\<open>call_always_returns\<close>).

  \<^bold>\<open>Not modelled.\<close>  Of \<open>storage.rs\<close> the tables of snapshots, files and lines with their compaction, and the
  process of a run; \<open>service.rs\<close> runs processes and maps tool calls to the store; of \<open>http.rs\<close> the
  overlap of requests in time (each is handled whole), the limit on concurrent ones and the registration of
  signals; \<open>compaction.rs\<close> declares the types of a timer thread; the binaries are
  developer tools.
\<close>

section \<open>From a tracefile to the listed gaps\<close>

text \<open>The rows of a builder are stored under their own keys.\<close>

lemma builder_line_entry:
  assumes "builder_inv b"
  shows "bt_get (cb_lines b) k = Some l \<longleftrightarrow> l \<in> set (bt_values (cb_lines b)) \<and> line_key l = k"
proof -
  have inv: "bt_inv (cb_lines b)" and keys: "\<And>k l. (k, l) \<in> set (cb_lines b) \<Longrightarrow> k = line_key l"
    using assms by (auto simp: builder_inv_def)
  show ?thesis using bt.entries_get[OF inv, of k l] keys by (metis bt_values_entries)
qed

lemma add_hits_gaps:
  assumes pos: "\<forall>(f, n, h) \<in> set xs. 0 < n"
    and lines: "set (bt_values obs) = line_observation ` set (bt_values (cb_lines (add_hits canon (new_builder repo) xs)))"
    and any: "fr_query request = None" "fr_line request = None"
  shows "(\<lambda>row. (ob_path row, start_line (ob_span row))) ` set (gap_rows env request ''lines'' obs)
    = record_keys canon repo xs - hit_keys canon repo xs"
proof -
  let ?b = "add_hits canon (new_builder repo) xs"
  note entry = builder_line_entry[OF builder_inv_add_hits[OF builder_inv_new]]
  have gaps: "set (gap_rows env request ''lines'' obs)
      = line_observation ` {l \<in> set (bt_values (cb_lines ?b)). \<not> lc_covered l}"
    unfolding gap_rows_def set_filter lines
    by (auto simp: matches_def any line_observation_def i64_of_bool_def)
  have "(\<lambda>row. (ob_path row, start_line (ob_span row))) ` set (gap_rows env request ''lines'' obs)
      = line_key ` {l \<in> set (bt_values (cb_lines ?b)). \<not> lc_covered l}"
    unfolding gaps image_image by (simp add: line_observation_def line_key_def start_line_def)
  also have "\<dots> = {k. \<exists>l. bt_get (cb_lines ?b) k = Some l \<and> \<not> lc_covered l}"
    unfolding entry by blast
  also have "\<dots> = record_keys canon repo xs - hit_keys canon repo xs"
    using add_hits_present[OF pos] add_hits_covered[OF pos] by blast
  finally show ?thesis .
qed

text \<open>C8. From the report text to the listed gaps: when an LCOV tracefile of well-formed sections is read and
  its gaps are asked for without a filter, the lines listed are exactly the recorded lines none of
  whose records has a positive count, in whatever section or order the records stand.\<close>

theorem lcov_gaps_exact:
  assumes "list_all section_ok ss" and "concat (map section_records ss) \<noteq> []"
    and "\<forall>(f, n, h) \<in> set (concat (map section_records ss)). 0 < n"
    and "fr_query request = None" and "fr_line request = None"
  shows "\<exists>r obs. parse_lcov canon path (lcov_text ss) repo = Inr r \<and> observations canon r root = Inr obs
    \<and> (\<lambda>row. (ob_path row, start_line (ob_span row))) ` set (gap_rows env request ''lines'' obs)
        = record_keys canon repo (concat (map section_records ss)) - hit_keys canon repo (concat (map section_records ss))"
proof -
  let ?xs = "concat (map section_records ss)" and ?b = "add_hits canon (new_builder repo) (concat (map section_records ss))"
  have r: "parse_lcov canon path (lcov_text ss) repo = Inr (build ?b ''lcov'' path [] (JObj []))"
    by (rule parse_lcov_text[OF assms(1) _ refl])
      (use add_hits_lines_nonempty[OF assms(3,2)] in \<open>simp add: bt_values_def\<close>)
  have counted: "list_all lc_count_line (bt_values (cb_lines ?b))"
    unfolding list_all_iff using add_hits_counted[OF assms(3)] builder_line_entry[OF builder_inv_add_hits[OF builder_inv_new]]
    by blast
  have plain: "cb_file_metrics ?b = []" by (simp add: new_builder_def)
  obtain obs where "observations canon (build ?b ''lcov'' path [] (JObj [])) root = Inr obs"
    "set (bt_values obs) = line_observation ` set (bt_values (cb_lines ?b))"
    using plain_report_rows[OF builder_inv_add_hits[OF builder_inv_new] plain counted] by blast
  with r add_hits_gaps[OF assms(3) _ assms(4,5)] show ?thesis by blast
qed

theorem lcov_gaps_exact_witness:
  "\<exists>r obs. parse_lcov (\<lambda>_. None) ''r.info'' (lcov_text sample_sections) None = Inr r \<and> observations (\<lambda>_. None) r ''/r'' = Inr obs
    \<and> (\<lambda>row. (ob_path row, start_line (ob_span row))) ` set (gap_rows plain_query_env sample_find ''lines'' obs) = {(''b.rs'', 7)}"
proof -
  have any: "fr_query sample_find = None" "fr_line sample_find = None" by (simp_all add: sample_find_def)
  have recs: "concat (map section_records sample_sections) = [(''a.rs'', 1, 1), (''a.rs'', 2, 0), (''b.rs'', 7, 0), (''a.rs'', 2, 4)]"
    by (simp add: sample_sections_def section_records_def)
  have "record_keys (\<lambda>_. None) None (concat (map section_records sample_sections))
      - hit_keys (\<lambda>_. None) None (concat (map section_records sample_sections)) = {(''b.rs'', 7)}"
    unfolding recs by (auto simp: hit_keys_def record_keys_def normalize_report_path_def replace_char_def)
  with lcov_gaps_exact[OF sample_sections_ok any, of "\<lambda>_. None" "''r.info''" None "''/r''" plain_query_env] show ?thesis by simp
qed

section \<open>From an assembled composite to its readers\<close>

lemma covered_rows_count: "covered_rows rows \<le> int (length rows)"
  "covered_rows rows = int (length rows) \<Longrightarrow> list_all (\<lambda>row. row_state row = ''covered'') rows"
proof -
  show "covered_rows rows \<le> int (length rows)" by (simp add: covered_rows_def)
  assume "covered_rows rows = int (length rows)"
  then have "length (filter (\<lambda>row. row_state row = ''covered'') rows) = length rows" by (simp add: covered_rows_def)
  then show "list_all (\<lambda>row. row_state row = ''covered'') rows"
    using length_filter_less[of _ rows "\<lambda>row. row_state row = ''covered''"] by (fastforce simp: list_all_iff)
qed

text \<open>C35. What a reader can learn from a complete composite: when the regions of a complete build are stored
  with the build's own covered count and read back, the read succeeds only if every region is in the
  state covered, and the measurement then shows full region coverage.\<close>

theorem complete_composite_read_back:
  assumes "bd_status (assemble canon hash_source doc inputs repo head dirty) = ''complete''"
    and "jidx snapshot ''covered_regions'' = JInt (bd_covered_regions (assemble canon hash_source doc inputs repo head dirty))"
    and "decode_composite env root reference snapshot (bd_regions (assemble canon hash_source doc inputs repo head dirty)) = Inr m"
    and "bd_total_regions (assemble canon hash_source doc inputs repo head dirty) < 2 ^ 62"
  shows "list_all (\<lambda>row. row_state row = ''covered'') (bd_regions (assemble canon hash_source doc inputs repo head dirty))
    \<and> covered_regions (ms_report m) = total_regions (ms_report m)
    \<and> total_regions (ms_report m) = bd_total_regions (assemble canon hash_source doc inputs repo head dirty)"
proof -
  let ?b = "assemble canon hash_source doc inputs repo head dirty"
  have len: "int (length (bd_regions ?b)) = bd_total_regions ?b" by (simp add: assemble_fields)
  have all: "bd_covered_regions ?b = bd_total_regions ?b" using assms(1) by (simp add: assemble_fields)
  note read = decode_composite_totals[OF assms(3)]
  have "covered_rows (bd_regions ?b) = int (length (bd_regions ?b))"
    using read(4) assms(2,4) len all by simp
  with covered_rows_count(2) read(1,2) assms(4) len show ?thesis by simp
qed

definition stored_composite :: "composite_build \<Rightarrow> json" where
  "stored_composite b = jobj [(''total_regions'', JInt (bd_total_regions b)), (''covered_regions'', JInt (bd_covered_regions b))]"

definition readable_env :: query_env where
  "readable_env = plain_query_env\<lparr>qe_read := (\<lambda>_. Inr [])\<rparr>"

theorem complete_composite_read_back_witness:
  "\<exists>m. decode_composite readable_env ''/r'' ''c1'' (stored_composite (assembled [covered1])) (bd_regions (assembled [covered1])) = Inr m
     \<and> covered_regions (ms_report m) = total_regions (ms_report m)"
proof -
  have "(case decode_composite readable_env ''/r'' ''c1'' (stored_composite (assembled [covered1])) (bd_regions (assembled [covered1])) of
      Inl _ \<Rightarrow> False | Inr _ \<Rightarrow> True)" by code_simp
  then obtain m where m: "decode_composite readable_env ''/r'' ''c1'' (stored_composite (assembled [covered1])) (bd_regions (assembled [covered1])) = Inr m"
    by (auto split: sum.splits)
  have "bd_status (assembled [covered1]) = ''complete''" "bd_total_regions (assembled [covered1]) < 2 ^ 62" by code_simp+
  moreover have "jidx (stored_composite b) ''covered_regions'' = JInt (bd_covered_regions b)" for b
    by (simp add: stored_composite_def)
  ultimately show ?thesis using complete_composite_read_back m unfolding assembled_def by blast
qed

text \<open>A complete composite can be unreadable: the build whose second variant lacks the region is stored as
  complete with one covered region, and reading the stored rows back is rejected because no row is in
  the state covered.\<close>

theorem complete_composite_unreadable:
  "bd_status (assembled []) = ''complete''
   \<and> decode_composite readable_env ''/r'' ''c1'' (stored_composite (assembled [])) (bd_regions (assembled []))
       = Inl (invalid ''composite inventory does not match its recorded totals'')"
proof (rule conjI)
  show "bd_status (assembled []) = ''complete''" by code_simp
  show "decode_composite readable_env ''/r'' ''c1'' (stored_composite (assembled [])) (bd_regions (assembled []))
       = Inl (invalid ''composite inventory does not match its recorded totals'')" by code_simp
qed

end
